(* ===== verification/Kyt_Prelude.thy ===== *)
theory Kyt_Prelude
  imports Main "HOL-Library.Sublist" "HOL-Library.Multiset" "HOL-Library.AList"
    "HOL-Library.Word"
begin

text \<open>
  What every component of the KYT screening service shares: the collections the proofs draw
  on, Go's machine integers and times, the error values that cross package boundaries, and the
  world a call runs in (the wall clock behind \<open>time.Now\<close> and the identifiers behind
  \<open>uuid.NewV7\<close>).  Go strings are byte strings, so they are Isabelle's \<open>string\<close>.
\<close>

section \<open>Collections\<close>

named_theorems wf_intro \<open>preservation lemmas of the components' invariants\<close>
named_theorems op_simps \<open>unfolding of the operations of a component\<close>
named_theorems frame_simps \<open>which fields an operation leaves alone\<close>

section \<open>Go integers\<close>

text \<open>
  \<open>int\<close> is 64 bits on the service's platforms and \<open>int32\<close> is 32 bits.  A value is an
  Isabelle \<open>int\<close>; where the code's arithmetic or conversion can leave the range, the
  result is brought back with \<open>wrap64\<close> or \<open>wrap32\<close>.
\<close>

definition wrap64 :: "int \<Rightarrow> int" where
  "wrap64 x = signed_take_bit 63 x"

definition wrap32 :: "int \<Rightarrow> int" where
  "wrap32 x = signed_take_bit 31 x"

abbreviation maxInt64 :: int where "maxInt64 \<equiv> 9223372036854775807"
abbreviation minInt64 :: int where "minInt64 \<equiv> - 9223372036854775808"

lemma wrap64_id: "minInt64 \<le> x \<Longrightarrow> x \<le> maxInt64 \<Longrightarrow> wrap64 x = x"
  by (simp add: wrap64_def signed_take_bit_int_eq_self)

lemma wrap32_id: "- 2147483648 \<le> x \<Longrightarrow> x < 2147483648 \<Longrightarrow> wrap32 x = x"
  by (simp add: wrap32_def signed_take_bit_int_eq_self)

lemma wrap32_eq_iff: "wrap32 x = x \<longleftrightarrow> - 2147483648 \<le> x \<and> x < 2147483648"
  by (auto simp: wrap32_def signed_take_bit_int_eq_self_iff)

text \<open>\<open>atomic.Int64.Add\<close>.\<close>

definition ctr_add :: "int \<Rightarrow> int \<Rightarrow> int" where
  "ctr_add c n = wrap64 (c + n)"

lemma wrap64_range: "minInt64 \<le> wrap64 x" "wrap64 x \<le> maxInt64"
  using signed_take_bit_int_less_exp [of 63 x] signed_take_bit_int_greater_eq_minus_exp [of 63 x]
  by (simp_all add: wrap64_def)

lemma ctr_add_wrap64 [simp]: "ctr_add (wrap64 a) b = wrap64 (a + b)"
  unfolding ctr_add_def wrap64_def
  by (metis signed_take_bit_add signed_take_bit_signed_take_bit min.idem)

lemma wrap64_add [simp]: "wrap64 (wrap64 a + b) = wrap64 (a + b)" "wrap64 (a + wrap64 b) = wrap64 (a + b)"
  using ctr_add_wrap64 [of a b] ctr_add_wrap64 [of b a] by (simp_all add: ctr_add_def add.commute)

lemma ctr_add_commute: "ctr_add a b = ctr_add b a"
  by (simp add: ctr_add_def add.commute)

lemma ctr_add_wrap64_right [simp]: "ctr_add a (wrap64 b) = wrap64 (a + b)"
  using ctr_add_wrap64 [of b a] by (simp add: ctr_add_commute add.commute)

lemma wrap64_0 [simp]: "wrap64 0 = 0"
  by (simp add: wrap64_def)

section \<open>Times and durations\<close>

text \<open>
  A \<open>time.Time\<close> is the number of nanoseconds since Go's zero time, so \<open>IsZero\<close> is the
  test against \<open>0\<close>; a \<open>time.Duration\<close> is a number of nanoseconds.  \<open>Time.Sub\<close> (and
  with it \<open>time.Since\<close>) saturates at the ends of the 64-bit range.
\<close>

type_synonym gotime = int
type_synonym duration = int

abbreviation millisecond :: duration where "millisecond \<equiv> 1000000"
abbreviation second :: duration where "second \<equiv> 1000000000"

definition time_Add :: "gotime \<Rightarrow> duration \<Rightarrow> gotime" where
  "time_Add t d = t + d"

definition time_Sub :: "gotime \<Rightarrow> gotime \<Rightarrow> duration" where
  "time_Sub t u = max minInt64 (min maxInt64 (t - u))"

definition time_After :: "gotime \<Rightarrow> gotime \<Rightarrow> bool" where
  "time_After t u \<longleftrightarrow> u < t"

definition IsZero :: "gotime \<Rightarrow> bool" where
  "IsZero t \<longleftrightarrow> t = 0"

lemma time_Sub_ge_iff: "d \<le> maxInt64 \<Longrightarrow> minInt64 < d \<Longrightarrow> d \<le> time_Sub t u \<longleftrightarrow> u + d \<le> t"
  by (auto simp: time_Sub_def max_def min_def)

section \<open>Errors\<close>

text \<open>
  The sentinel errors of the packages, the API's \<open>AppError\<close>, an error made by
  \<open>errors.New\<close> or received from code outside the repository (\<open>ErrText\<close>), an error of the
  Postgres driver with its SQLSTATE (\<open>PqErr\<close>), and \<open>fmt.Errorf("prefix: %w", err)\<close> (\<open>Wrap\<close>).
  \<open>errors.Is\<close> walks the chain of wrapped errors.
\<close>

datatype go_error =
    ErrNotFound | ErrAlreadyClosed | ErrDuplicate
  | ErrVendorUnavailable | ErrCircuitOpen
  | ErrSignatureMismatch | ErrBodyTooLarge
  | ErrAuditDropped | ErrNoRows
  | ErrText string
  | PqErr string string
  | AppErr string string int
  | Wrap string go_error

fun errors_Is :: "go_error \<Rightarrow> go_error \<Rightarrow> bool" where
  "errors_Is (Wrap p e) target \<longleftrightarrow> Wrap p e = target \<or> errors_Is e target"
| "errors_Is e target \<longleftrightarrow> e = target"

fun error_text :: "go_error \<Rightarrow> string" where
  "error_text ErrNotFound = ''alert not found''"
| "error_text ErrAlreadyClosed = ''alert already closed''"
| "error_text ErrDuplicate = ''alert already exists''"
| "error_text ErrVendorUnavailable = ''vendor unavailable''"
| "error_text ErrCircuitOpen = ''circuit breaker open''"
| "error_text ErrSignatureMismatch = ''webhook signature mismatch''"
| "error_text ErrBodyTooLarge = ''webhook body too large''"
| "error_text ErrAuditDropped = ''audit event dropped''"
| "error_text ErrNoRows = ''sql: no rows in result set''"
| "error_text (ErrText s) = s"
| "error_text (PqErr code s) = ''pq: '' @ s"
| "error_text (AppErr c m st) = m"
| "error_text (Wrap p e) = p @ '': '' @ error_text e"

section \<open>The world of a call\<close>

text \<open>
  \<open>time.Now\<close> and \<open>uuid.NewV7\<close> return the next of a sequence of clock readings and of
  identifiers; the record counts how many of each have been used.  What is known of the two
  sequences is a hypothesis of the theorems that need it: the clock does not run backwards,
  identifiers are non-empty and never repeat.
\<close>

record world =
  clk :: "nat \<Rightarrow> gotime"
  ticks :: nat
  uuids :: "nat \<Rightarrow> string"
  drawn :: nat

definition time_Now :: "world \<Rightarrow> gotime \<times> world" where
  "time_Now w = (clk w (ticks w), w\<lparr>ticks := Suc (ticks w)\<rparr>)"

definition newID :: "world \<Rightarrow> string \<times> world" where
  "newID w = (uuids w (drawn w), w\<lparr>drawn := Suc (drawn w)\<rparr>)"

definition fresh_ids :: "world \<Rightarrow> bool" where
  "fresh_ids w \<longleftrightarrow> inj (uuids w) \<and> (\<forall>n. uuids w n \<noteq> '''')"

lemma time_Now_simps [simp]:
  "fst (time_Now w) = clk w (ticks w)"
  "snd (time_Now w) = w\<lparr>ticks := Suc (ticks w)\<rparr>"
  by (simp_all add: time_Now_def)

lemma newID_simps [simp]:
  "fst (newID w) = uuids w (drawn w)"
  "snd (newID w) = w\<lparr>drawn := Suc (drawn w)\<rparr>"
  by (simp_all add: newID_def)

lemma fresh_ids_ticks [simp]: "fresh_ids (w\<lparr>ticks := n\<rparr>) = fresh_ids w"
  by (simp add: fresh_ids_def)

lemma fresh_ids_drawn [simp]: "fresh_ids (w\<lparr>drawn := n\<rparr>) = fresh_ids w"
  by (simp add: fresh_ids_def)

text \<open>Every call leaves the two sequences as they are and only moves forward in them.\<close>

definition world_le :: "world \<Rightarrow> world \<Rightarrow> bool" where
  "world_le w w' \<longleftrightarrow> clk w' = clk w \<and> uuids w' = uuids w \<and> ticks w \<le> ticks w' \<and> drawn w \<le> drawn w'"

lemma world_le_refl [simp]: "world_le w w"
  by (simp add: world_le_def)

lemma world_le_trans: "world_le w w' \<Longrightarrow> world_le w' w'' \<Longrightarrow> world_le w w''"
  by (auto simp: world_le_def)

lemma world_le_ticks [simp]: "world_le w (w\<lparr>ticks := Suc (ticks w)\<rparr>)"
  by (simp add: world_le_def)

lemma world_le_drawn [simp]: "world_le w (w\<lparr>drawn := Suc (drawn w), ticks := Suc (ticks w)\<rparr>)"
  by (simp add: world_le_def)

lemma world_le_fresh: "world_le w w' \<Longrightarrow> fresh_ids w' = fresh_ids w"
  by (simp add: world_le_def fresh_ids_def)

text \<open>The identifiers given out so far.\<close>

definition used_ids :: "world \<Rightarrow> string set" where
  "used_ids w = uuids w ` {..< drawn w}"

lemma used_ids_mono: "world_le w w' \<Longrightarrow> used_ids w \<subseteq> used_ids w'"
  by (auto simp: world_le_def used_ids_def)

lemma used_ids_ticks [simp]: "used_ids (w\<lparr>ticks := n\<rparr>) = used_ids w"
  by (simp add: used_ids_def)

lemma fresh_not_used: "fresh_ids w \<Longrightarrow> uuids w (drawn w + k) \<notin> used_ids w"
  by (auto simp: fresh_ids_def used_ids_def dest: injD)

lemma fresh_nonempty: "fresh_ids w \<Longrightarrow> uuids w n \<noteq> ''''"
  by (simp add: fresh_ids_def)

section \<open>Go maps as association lists\<close>

text \<open>
  A Go \<open>map\<close> that the code ranges over or takes the length of is an association list with
  distinct keys; \<open>map_of\<close> reads it, \<open>AList.update\<close> stores, \<open>AList.delete\<close> removes.
\<close>

abbreviation keys_of :: "('k \<times> 'v) list \<Rightarrow> 'k list" where
  "keys_of m \<equiv> map fst m"

lemma map_of_update [simp]: "map_of (AList.update k v m) k' = (if k' = k then Some v else map_of m k')"
  by (auto simp: update_conv)

lemma map_of_alist_delete [simp]: "map_of (AList.delete k m) k' = (if k' = k then None else map_of m k')"
  by (auto simp: delete_conv)

lemma update_fresh: "map_of m k = None \<Longrightarrow> AList.update k v m = m @ [(k, v)]"
  by (induction m) (auto split: if_splits)

lemma keys_update_present:
  "map_of m k \<noteq> None \<Longrightarrow> keys_of (AList.update k v m) = keys_of m"
  by (induction m) (auto split: if_splits)

lemma values_update:
  "x \<in> snd ` set (AList.update k v m) \<Longrightarrow> x = v \<or> x \<in> snd ` set m"
  by (induction m) (auto split: if_splits)

lemma update_mem: "(k', x) \<in> set (AList.update k v m) \<Longrightarrow> k' = k \<and> x = v \<or> (k', x) \<in> set m"
  by (induction m) (auto split: if_splits)

lemma image_values_update:
  "f ` snd ` set (AList.update k v m) \<subseteq> insert (f v) (f ` snd ` set m)"
  by (auto dest!: values_update [OF imageI [where f = snd], simplified])

lemma image_values_delete: "f ` snd ` set (AList.delete k m) \<subseteq> f ` snd ` set m"
  by (intro image_mono) (auto simp: AList.delete_eq)

lemma map_of_SomeE:
  assumes "map_of m k = Some v"
  obtains "(k, v) \<in> set m"
  using assms by (blast dest: map_of_SomeD)

lemma map_of_eq_Some: "distinct (keys_of m) \<Longrightarrow> map_of m k = Some v \<longleftrightarrow> (k, v) \<in> set m"
  by simp

section \<open>Sums as results\<close>

definition is_ok :: "'e + 'a \<Rightarrow> bool" where
  "is_ok r = (case r of Inl _ \<Rightarrow> False | Inr _ \<Rightarrow> True)"

lemma is_ok_simps [simp]: "is_ok (Inr x)" "\<not> is_ok (Inl e)"
  by (simp_all add: is_ok_def)

lemma is_ok_iff: "is_ok r \<longleftrightarrow> (\<exists>x. r = Inr x)"
  by (cases r) auto

section \<open>Slices\<close>

text \<open>A Go slice: \<open>None\<close> is the \<open>nil\<close> slice, which has no elements but is not the empty slice.\<close>

type_synonym 'a slice = "'a list option"

fun items :: "'a slice \<Rightarrow> 'a list" where
  "items None = []"
| "items (Some xs) = xs"

end
