(* ===== verification/Go_Strings.thy ===== *)
theory Go_Strings
  imports Kyt_Prelude
begin

text \<open>
  The parts of Go's \<open>strings\<close>, \<open>strconv\<close> and \<open>os\<close> packages that the service calls, on byte
  strings.  \<open>strings.TrimSpace\<close> follows \<open>unicode.IsSpace\<close> on the UTF-8 encodings of the
  white-space code points.  \<open>strings.ToLower\<close> is exact on ASCII strings; on a string with
  other bytes its result is that of the Unicode case tables, the parameter \<open>ul\<close>.
\<close>

section \<open>Prefixes, searching and splitting\<close>

abbreviation HasPrefix :: "string \<Rightarrow> string \<Rightarrow> bool" where
  "HasPrefix s p \<equiv> prefix p s"

abbreviation HasSuffix :: "string \<Rightarrow> string \<Rightarrow> bool" where
  "HasSuffix s p \<equiv> suffix p s"

definition TrimPrefix :: "string \<Rightarrow> string \<Rightarrow> string" where
  "TrimPrefix s p = (if HasPrefix s p then drop (length p) s else s)"

fun IndexByte :: "string \<Rightarrow> char \<Rightarrow> nat option" where
  "IndexByte [] c = None"
| "IndexByte (x # xs) c = (if x = c then Some 0 else map_option Suc (IndexByte xs c))"

fun Contains :: "string \<Rightarrow> string \<Rightarrow> bool" where
  "Contains [] sub \<longleftrightarrow> sub = []"
| "Contains (x # xs) sub \<longleftrightarrow> prefix sub (x # xs) \<or> Contains xs sub"

fun Split :: "string \<Rightarrow> char \<Rightarrow> string list" where
  "Split [] c = [[]]"
| "Split (x # xs) c =
     (if x = c then [] # Split xs c
      else (case Split xs c of [] \<Rightarrow> [[x]] | y # ys \<Rightarrow> (x # y) # ys))"

lemma TrimPrefix_append [simp]: "TrimPrefix (p @ s) p = s"
  by (simp add: TrimPrefix_def)

lemma IndexByte_append: "c \<notin> set k \<Longrightarrow> IndexByte (k @ c # v) c = Some (length k)"
  by (induction k) auto

lemma IndexByte_Some:
  "IndexByte s c = Some i \<Longrightarrow> i < length s \<and> s ! i = c \<and> c \<notin> set (take i s)"
  by (induction s arbitrary: i) (auto split: if_splits)

lemma Split_nonempty: "Split s c \<noteq> []"
  by (induction s) (auto split: list.splits)

lemma Split_no_sep: "c \<notin> set s \<Longrightarrow> Split s c = [s]"
  by (induction s) auto

lemma Split_append: "c \<notin> set s \<Longrightarrow> Split (s @ c # t) c = s # Split t c"
  by (induction s) (auto split: list.splits)

lemma Contains_iff: "Contains s sub \<longleftrightarrow> (\<exists>pre post. s = pre @ sub @ post)"
proof (induction s)
  case Nil
  then show ?case by auto
next
  case (Cons x xs)
  have "(\<exists>pre post. x # xs = pre @ sub @ post) \<longleftrightarrow>
      prefix sub (x # xs) \<or> (\<exists>pre post. xs = pre @ sub @ post)"
    by (auto simp: prefix_def Cons_eq_append_conv)
  with Cons show ?case by simp
qed

section \<open>White space and letter case\<close>

definition space1 :: "char \<Rightarrow> bool" where
  "space1 c \<longleftrightarrow> c \<in> set [CHR 0x09, CHR 0x0A, CHR 0x0B, CHR 0x0C, CHR 0x0D, CHR 0x20]"

definition space2 :: "char \<Rightarrow> char \<Rightarrow> bool" where
  "space2 a b \<longleftrightarrow> a = CHR 0xC2 \<and> b \<in> set [CHR 0x85, CHR 0xA0]"

definition space3 :: "char \<Rightarrow> char \<Rightarrow> char \<Rightarrow> bool" where
  "space3 a b c \<longleftrightarrow>
     (a = CHR 0xE1 \<and> b = CHR 0x9A \<and> c = CHR 0x80)
   \<or> (a = CHR 0xE2 \<and> b = CHR 0x80 \<and> c \<in> set [CHR 0x80, CHR 0x81, CHR 0x82, CHR 0x83, CHR 0x84,
         CHR 0x85, CHR 0x86, CHR 0x87, CHR 0x88, CHR 0x89, CHR 0x8A, CHR 0xA8, CHR 0xA9, CHR 0xAF])
   \<or> (a = CHR 0xE2 \<and> b = CHR 0x81 \<and> c = CHR 0x9F)
   \<or> (a = CHR 0xE3 \<and> b = CHR 0x80 \<and> c = CHR 0x80)"

fun trim_by :: "(char \<Rightarrow> bool) \<Rightarrow> (char \<Rightarrow> char \<Rightarrow> bool) \<Rightarrow> (char \<Rightarrow> char \<Rightarrow> char \<Rightarrow> bool)
    \<Rightarrow> string \<Rightarrow> string" where
  "trim_by p1 p2 p3 [] = []"
| "trim_by p1 p2 p3 [a] = (if p1 a then [] else [a])"
| "trim_by p1 p2 p3 [a, b] =
     (if p1 a then trim_by p1 p2 p3 [b] else if p2 a b then [] else [a, b])"
| "trim_by p1 p2 p3 (a # b # c # s) =
     (if p1 a then trim_by p1 p2 p3 (b # c # s)
      else if p2 a b then trim_by p1 p2 p3 (c # s)
      else if p3 a b c then trim_by p1 p2 p3 s
      else a # b # c # s)"

definition TrimSpace :: "string \<Rightarrow> string" where
  "TrimSpace s =
     rev (trim_by space1 (\<lambda>a b. space2 b a) (\<lambda>a b c. space3 c b a)
       (rev (trim_by space1 space2 space3 s)))"

definition ascii_lower :: "char \<Rightarrow> char" where
  "ascii_lower c =
     (let n = (of_char c :: nat) in if 65 \<le> n \<and> n \<le> 90 then char_of (n + 32) else c)"

definition is_ascii :: "string \<Rightarrow> bool" where
  "is_ascii s \<longleftrightarrow> list_all (\<lambda>c. (of_char c :: nat) < 128) s"

definition ToLower :: "(string \<Rightarrow> string) \<Rightarrow> string \<Rightarrow> string" where
  "ToLower ul s = (if is_ascii s then map ascii_lower s else ul s)"

lemma TrimSpace_Nil [simp]: "TrimSpace [] = []"
  by (simp add: TrimSpace_def)

text \<open>A string that starts and ends with a printing ASCII character is not trimmed.\<close>

definition visible :: "char \<Rightarrow> bool" where
  "visible c \<longleftrightarrow> 33 \<le> (of_char c :: nat) \<and> (of_char c :: nat) < 128"

lemma trim_by_keep:
  "\<not> p1 c \<Longrightarrow> \<forall>b. \<not> p2 c b \<Longrightarrow> \<forall>b d. \<not> p3 c b d \<Longrightarrow> trim_by p1 p2 p3 (c # s) = c # s"
  by (cases s; cases "tl s") (auto split: list.splits simp: neq_Nil_conv)

lemma visible_not_space:
  assumes "visible c"
  shows "\<not> space1 c" "\<not> space2 c b" "\<not> space2 b c" "\<not> space3 c b d" "\<not> space3 d b c"
  using assms by (auto simp: visible_def space1_def space2_def space3_def)

lemma TrimSpace_visible:
  assumes "s \<noteq> []" and "visible (hd s)" and "visible (last s)"
  shows "TrimSpace s = s"
proof -
  have "trim_by space1 space2 space3 s = s"
    using assms(1,2) by (cases s) (simp_all add: trim_by_keep visible_not_space)
  moreover have "trim_by space1 (\<lambda>a b. space2 b a) (\<lambda>a b c. space3 c b a) (rev s) = rev s"
    using assms(1,3) by (cases s rule: rev_cases) (simp_all add: trim_by_keep visible_not_space)
  ultimately show ?thesis by (simp add: TrimSpace_def)
qed

section \<open>Decimal integers\<close>

definition digit_val :: "char \<Rightarrow> int option" where
  "digit_val c = (let n = (of_char c :: nat) in if 48 \<le> n \<and> n \<le> 57 then Some (int n - 48) else None)"

fun digits_val :: "int \<Rightarrow> string \<Rightarrow> int option" where
  "digits_val acc [] = Some acc"
| "digits_val acc (c # cs) =
     (case digit_val c of None \<Rightarrow> None | Some d \<Rightarrow> digits_val (10 * acc + d) cs)"

text \<open>
  \<open>strconv.Atoi\<close>: an optional sign, then one or more decimal digits, and an error outside the
  64-bit range.
\<close>

definition Atoi :: "string \<Rightarrow> int option" where
  "Atoi s =
     (let (neg, ds) = (case s of
          [] \<Rightarrow> (False, [])
        | c # cs \<Rightarrow> if c = CHR ''-'' then (True, cs) else if c = CHR ''+'' then (False, cs) else (False, s))
      in if ds = [] then None
         else (case digits_val 0 ds of
             None \<Rightarrow> None
           | Some n \<Rightarrow> (let v = (if neg then - n else n) in
               if minInt64 \<le> v \<and> v \<le> maxInt64 then Some v else None)))"

fun nat_digits :: "nat \<Rightarrow> string" where
  "nat_digits n = (if n < 10 then [char_of (48 + n)]
     else nat_digits (n div 10) @ [char_of (48 + n mod 10)])"

declare nat_digits.simps [simp del]

definition Itoa :: "int \<Rightarrow> string" where
  "Itoa n = (if n < 0 then CHR ''-'' # nat_digits (nat (- n)) else nat_digits (nat n))"

lemma digit_val_char_of: "d < 10 \<Longrightarrow> digit_val (char_of (48 + d)) = Some (int d)"
  by (simp add: digit_val_def Let_def)

lemma digits_val_append:
  "digits_val acc (xs @ ys) =
     (case digits_val acc xs of None \<Rightarrow> None | Some a \<Rightarrow> digits_val a ys)"
  by (induction xs arbitrary: acc) (auto split: option.splits)

lemma digits_val_nat_digits: "digits_val 0 (nat_digits n) = Some (int n)"
proof (induction n rule: nat_digits.induct)
  case (1 n)
  show ?case
  proof (cases "n < 10")
    case True
    then show ?thesis
      by (subst nat_digits.simps) (simp add: digit_val_char_of)
  next
    case False
    have "int (n div 10) * 10 + int (n mod 10) = int n"
      by presburger
    with False 1 show ?thesis
      by (subst nat_digits.simps)
        (simp add: digits_val_append digit_val_char_of mult.commute)
  qed
qed

lemma nat_digits_head:
  "\<exists>c cs. nat_digits n = c # cs \<and> (48 \<le> (of_char c :: nat) \<and> (of_char c :: nat) \<le> 57)"
proof (induction n rule: nat_digits.induct)
  case (1 n)
  then show ?case by (subst nat_digits.simps) auto
qed

lemma nat_digits_digits: "c \<in> set (nat_digits n) \<Longrightarrow> 48 \<le> (of_char c :: nat) \<and> (of_char c :: nat) \<le> 57"
proof (induction n rule: nat_digits.induct)
  case (1 n)
  show ?case
  proof (cases "n < 10")
    case True
    with 1(2) show ?thesis by (simp add: nat_digits.simps[of n])
  next
    case False
    with 1(2) consider "c \<in> set (nat_digits (n div 10))" | "c = char_of (48 + n mod 10)"
      by (auto simp: nat_digits.simps[of n])
    then show ?thesis
    proof cases
      case 1
      with \<open>\<not> n < 10\<close> show ?thesis using "1.IH" by blast
    next
      case 2
      then show ?thesis by simp
    qed
  qed
qed

lemma Atoi_Itoa: "minInt64 \<le> n \<Longrightarrow> n \<le> maxInt64 \<Longrightarrow> Atoi (Itoa n) = Some n"
proof -
  assume range: "minInt64 \<le> n" "n \<le> maxInt64"
  show ?thesis
  proof (cases "n < 0")
    case True
    obtain c cs where "nat_digits (nat (- n)) = c # cs" using nat_digits_head by blast
    moreover have "digits_val 0 (nat_digits (nat (- n))) = Some (- n)"
      using True by (simp add: digits_val_nat_digits)
    ultimately show ?thesis using True range by (simp add: Atoi_def Itoa_def)
  next
    case False
    obtain c cs where c: "nat_digits (nat n) = c # cs" "48 \<le> (of_char c :: nat)"
      using nat_digits_head by blast
    then have "c \<noteq> CHR ''-''" "c \<noteq> CHR ''+''" by auto
    moreover have "digits_val 0 (nat_digits (nat n)) = Some n"
      using False by (simp add: digits_val_nat_digits)
    ultimately show ?thesis using False range c(1) by (simp add: Atoi_def Itoa_def)
  qed
qed

section \<open>The environment\<close>

text \<open>
  The environment is the list \<open>os.Environ()\<close> of \<open>KEY=VALUE\<close> strings; \<open>os.Getenv\<close> is the value
  of the first string that starts with the key and an equals sign, empty when there is none.
\<close>

type_synonym environ = "string list"

definition Getenv :: "environ \<Rightarrow> string \<Rightarrow> string" where
  "Getenv env key =
     (case find (\<lambda>kv. HasPrefix kv (key @ ''='')) env of
        None \<Rightarrow> ''''
      | Some kv \<Rightarrow> drop (Suc (length key)) kv)"

definition envOr :: "environ \<Rightarrow> string \<Rightarrow> string \<Rightarrow> string" where
  "envOr env key def = (let v = Getenv env key in if v \<noteq> '''' then v else def)"

definition envInt :: "environ \<Rightarrow> string \<Rightarrow> int \<Rightarrow> int" where
  "envInt env key def =
     (let v = Getenv env key in
      if v \<noteq> '''' then (case Atoi v of Some n \<Rightarrow> n | None \<Rightarrow> def) else def)"

end
