(* ===== verification/Go_Crypto.thy ===== *)
theory Go_Crypto
  imports Go_Strings
begin

text \<open>
  What the webhook verifier uses of Go's standard library: \<open>crypto/sha256\<close> (FIPS 180-4),
  \<open>crypto/hmac\<close> (RFC 2104) and \<open>encoding/hex\<close>, on byte strings.
\<close>

unbundle bit_operations_syntax

section \<open>SHA-256\<close>

type_synonym w32 = "32 word"

definition byte_of :: "char \<Rightarrow> nat" where
  "byte_of c = of_char c"

definition be_word :: "char \<Rightarrow> char \<Rightarrow> char \<Rightarrow> char \<Rightarrow> w32" where
  "be_word a b c d = word_of_nat (((byte_of a * 256 + byte_of b) * 256 + byte_of c) * 256 + byte_of d)"

fun be_words :: "string \<Rightarrow> w32 list" where
  "be_words (a # b # c # d # s) = be_word a b c d # be_words s"
| "be_words s = []"

fun be_bytes :: "nat \<Rightarrow> nat \<Rightarrow> string" where
  "be_bytes 0 n = []"
| "be_bytes (Suc k) n = be_bytes k (n div 256) @ [char_of (n mod 256)]"

definition word_bytes :: "w32 \<Rightarrow> string" where
  "word_bytes x = be_bytes 4 (unat x)"

text \<open>Padding to a multiple of 64 bytes: a one bit, zeros, and the bit length in 64 bits.\<close>

definition sha_pad :: "string \<Rightarrow> string" where
  "sha_pad m =
     m @ [CHR 0x80] @ replicate ((119 - length m mod 64) mod 64) (CHR 0x00)
       @ be_bytes 8 (8 * length m mod 2 ^ 64)"

function blocks :: "string \<Rightarrow> string list" where
  "blocks m = (if m = [] then [] else take 64 m # blocks (drop 64 m))"
  by pat_completeness auto
termination by (relation "measure length") auto

declare blocks.simps [simp del]

definition sha_K :: "w32 list" where
  "sha_K =
     [1116352408, 1899447441, 3049323471, 3921009573, 961987163, 1508970993,
      2453635748, 2870763221, 3624381080, 310598401, 607225278, 1426881987,
      1925078388, 2162078206, 2614888103, 3248222580, 3835390401, 4022224774,
      264347078, 604807628, 770255983, 1249150122, 1555081692, 1996064986,
      2554220882, 2821834349, 2952996808, 3210313671, 3336571891, 3584528711,
      113926993, 338241895, 666307205, 773529912, 1294757372, 1396182291,
      1695183700, 1986661051, 2177026350, 2456956037, 2730485921, 2820302411,
      3259730800, 3345764771, 3516065817, 3600352804, 4094571909, 275423344,
      430227734, 506948616, 659060556, 883997877, 958139571, 1322822218,
      1537002063, 1747873779, 1955562222, 2024104815, 2227730452, 2361852424,
      2428436474, 2756734187, 3204031479, 3329325298]"

definition sha_init :: "w32 list" where
  "sha_init =
     [1779033703, 3144134277, 1013904242, 2773480762, 1359893119, 2600822924,
      528734635, 1541459225]"

definition sigma0 :: "w32 \<Rightarrow> w32" where
  "sigma0 x = (word_rotr 7 x XOR word_rotr 18 x) XOR drop_bit 3 x"

definition sigma1 :: "w32 \<Rightarrow> w32" where
  "sigma1 x = (word_rotr 17 x XOR word_rotr 19 x) XOR drop_bit 10 x"

definition Sigma0 :: "w32 \<Rightarrow> w32" where
  "Sigma0 x = (word_rotr 2 x XOR word_rotr 13 x) XOR word_rotr 22 x"

definition Sigma1 :: "w32 \<Rightarrow> w32" where
  "Sigma1 x = (word_rotr 6 x XOR word_rotr 11 x) XOR word_rotr 25 x"

definition Ch :: "w32 \<Rightarrow> w32 \<Rightarrow> w32 \<Rightarrow> w32" where
  "Ch x y z = (x AND y) XOR (NOT x AND z)"

definition Maj :: "w32 \<Rightarrow> w32 \<Rightarrow> w32 \<Rightarrow> w32" where
  "Maj x y z = ((x AND y) XOR (x AND z)) XOR (y AND z)"

text \<open>The message schedule, extended one word at a time.\<close>

fun schedule :: "nat \<Rightarrow> w32 list \<Rightarrow> w32 list" where
  "schedule 0 ws = ws"
| "schedule (Suc n) ws =
     (let t = length ws in
      schedule n (ws @ [sigma1 (ws ! (t - 2)) + ws ! (t - 7) + sigma0 (ws ! (t - 15)) + ws ! (t - 16)]))"

fun sha_round :: "w32 \<times> w32 \<Rightarrow> w32 list \<Rightarrow> w32 list" where
  "sha_round (k, w) [a, b, c, d, e, f, g, h] =
     (let t1 = h + Sigma1 e + Ch e f g + k + w; t2 = Sigma0 a + Maj a b c
      in [t1 + t2, a, b, c, d + t1, e, f, g])"
| "sha_round kw st = st"

definition sha_block :: "w32 list \<Rightarrow> string \<Rightarrow> w32 list" where
  "sha_block st blk = map2 (+) st (fold sha_round (zip sha_K (schedule 48 (be_words blk))) st)"

definition sha256 :: "string \<Rightarrow> string" where
  "sha256 m = concat (map word_bytes (foldl sha_block sha_init (blocks (sha_pad m))))"

section \<open>HMAC\<close>

definition xor_byte :: "nat \<Rightarrow> char \<Rightarrow> char" where
  "xor_byte k c = char_of (k XOR byte_of c)"

definition hmac_key :: "string \<Rightarrow> string" where
  "hmac_key key =
     (let k = (if length key > 64 then sha256 key else key) in k @ replicate (64 - length k) (CHR 0x00))"

definition hmac_sha256 :: "string \<Rightarrow> string \<Rightarrow> string" where
  "hmac_sha256 key body =
     (let k = hmac_key key in
      sha256 (map (xor_byte 0x5c) k @ sha256 (map (xor_byte 0x36) k @ body)))"

section \<open>Hexadecimal\<close>

text \<open>\<open>hex.DecodeString\<close>: an error for an odd length or a character that is no hexadecimal digit.\<close>

definition hex_nibble :: "char \<Rightarrow> nat option" where
  "hex_nibble c =
     (let n = byte_of c in
      if 48 \<le> n \<and> n \<le> 57 then Some (n - 48)
      else if 97 \<le> n \<and> n \<le> 102 then Some (n - 87)
      else if 65 \<le> n \<and> n \<le> 70 then Some (n - 55)
      else None)"

fun DecodeString :: "string \<Rightarrow> string option" where
  "DecodeString [] = Some []"
| "DecodeString [c] = None"
| "DecodeString (a # b # s) =
     (case (hex_nibble a, hex_nibble b) of
        (Some x, Some y) \<Rightarrow> map_option (Cons (char_of (16 * x + y))) (DecodeString s)
      | _ \<Rightarrow> None)"

definition hex_char :: "nat \<Rightarrow> char" where
  "hex_char n = (if n < 10 then char_of (48 + n) else char_of (87 + n))"

definition EncodeToString :: "string \<Rightarrow> string" where
  "EncodeToString s = concat (map (\<lambda>c. [hex_char (byte_of c div 16), hex_char (byte_of c mod 16)]) s)"

lemma byte_of_less: "byte_of c < 256"
  by (simp add: byte_of_def)

lemma hex_nibble_char: "n < 16 \<Longrightarrow> hex_nibble (hex_char n) = Some n"
  by (simp add: hex_nibble_def hex_char_def byte_of_def Let_def)

lemma DecodeString_Encode [simp]: "DecodeString (EncodeToString s) = Some s"
proof (induction s)
  case Nil
  then show ?case by (simp add: EncodeToString_def)
next
  case (Cons c s)
  have "byte_of c div 16 < 16" "byte_of c mod 16 < 16" using byte_of_less [of c] by auto
  moreover have "char_of (16 * (byte_of c div 16) + byte_of c mod 16) = c"
    by (simp add: byte_of_def)
  ultimately show ?case using Cons by (simp add: EncodeToString_def hex_nibble_char)
qed

lemma EncodeToString_eq_Nil [simp]: "EncodeToString s = [] \<longleftrightarrow> s = []"
  by (cases s) (simp_all add: EncodeToString_def)

section \<open>Lengths\<close>

lemma length_be_bytes [simp]: "length (be_bytes k n) = k"
  by (induction k arbitrary: n) simp_all

lemma length_sha_round [simp]: "length (sha_round kw st) = length st"
  by (induction kw st rule: sha_round.induct) (simp_all add: Let_def)

lemma length_fold_round [simp]: "length (fold sha_round kws st) = length st"
  by (induction kws arbitrary: st) simp_all

lemma length_sha_block [simp]: "length (sha_block st blk) = length st"
  by (simp add: sha_block_def)

lemma length_sha_fold [simp]: "length (foldl sha_block st blks) = length st"
  by (induction blks arbitrary: st) simp_all

lemma length_sha256: "length (sha256 m) = 32"
proof -
  have "length (concat (map word_bytes ws)) = 4 * length ws" for ws
    by (induction ws) (simp_all add: word_bytes_def)
  then show ?thesis by (simp add: sha256_def sha_init_def)
qed

lemma length_hmac: "length (hmac_sha256 key body) = 32"
  by (simp add: hmac_sha256_def Let_def length_sha256)

lemma hmac_not_Nil [simp]: "hmac_sha256 key body \<noteq> []"
  using length_hmac [of key body] by auto

text \<open>The padded message is a whole number of blocks, so no input byte is left out.\<close>

lemma pad_zeros:
  assumes "(r::nat) < 64"
  shows "r + (9 + (119 - r) mod 64) = (if r < 56 then 64 else 128)"
proof (cases "r < 56")
  case True
  then have "119 - r = 64 * 1 + (55 - r)" by linarith
  then have "(119 - r) mod 64 = (55 - r) mod 64" by (metis mod_mult_self4)
  also have "\<dots> = 55 - r" by (rule mod_less) simp
  finally show ?thesis using True by simp
next
  case False
  then have "(119 - r) mod 64 = 119 - r" by (intro mod_less) simp
  then show ?thesis using False assms by simp
qed

lemma pad_arith: "(n + (9 + (119 - n mod 64) mod 64)) mod 64 = (0::nat)"
proof -
  define q r where "q = n div 64" and "r = n mod 64"
  have n: "n = 64 * q + r" by (simp add: q_def r_def)
  have r: "r < 64" by (simp add: r_def)
  have "n + (9 + (119 - r) mod 64) = 64 * q + (r + (9 + (119 - r) mod 64))" using n by linarith
  also have "\<dots> = 64 * q + (if r < 56 then 64 else 128)" by (simp only: pad_zeros [OF r])
  also have "\<dots> = 64 * (q + (if r < 56 then 1 else 2))" by simp
  finally show ?thesis unfolding r_def by (simp only: mod_mult_self1_is_0)
qed

lemma length_sha_pad: "length (sha_pad m) mod 64 = 0"
proof -
  have "length (sha_pad m) = length m + (9 + (119 - length m mod 64) mod 64)"
    unfolding sha_pad_def length_append length_be_bytes length_replicate by simp
  then show ?thesis using pad_arith [of "length m"] by (simp only:)
qed

end
