(* ===== verification/Decision.thy ===== *)
theory Decision
  imports Go_Strings
begin

text \<open>
  \<open>internal/decision/decision.go\<close>: thresholds with per-chain overrides, the mapping from a
  risk score to an exposure and from an exposure to a decision, and the reload from the
  environment.  The mutex of \<open>Thresholds\<close> makes each operation atomic, so an operation is a
  function of the record.  \<open>ul\<close> is Unicode lower-casing (see \<open>ToLower\<close>).
\<close>

section \<open>Constants\<close>

abbreviation ExposureSanctioned :: string where "ExposureSanctioned \<equiv> ''SANCTIONED''"
abbreviation ExposureHighRisk :: string where "ExposureHighRisk \<equiv> ''HIGH_RISK''"
abbreviation ExposureUnknown :: string where "ExposureUnknown \<equiv> ''UNKNOWN''"
abbreviation ExposureClean :: string where "ExposureClean \<equiv> ''CLEAN''"

abbreviation DecisionBlock :: string where "DecisionBlock \<equiv> ''BLOCK''"
abbreviation DecisionManualReview :: string where "DecisionManualReview \<equiv> ''MANUAL_REVIEW''"
abbreviation DecisionAllow :: string where "DecisionAllow \<equiv> ''ALLOW''"

section \<open>Thresholds\<close>

record chainThreshold =
  ct_Block :: int
  ct_HighRisk :: int

record Thresholds =
  BlockThreshold :: int
  HighRiskThreshold :: int
  UnknownDecision :: string
  perChain :: "string \<rightharpoonup> chainThreshold"

definition zero_chainThreshold :: chainThreshold where
  "zero_chainThreshold = \<lparr>ct_Block = 0, ct_HighRisk = 0\<rparr>"

definition NewThresholds :: "int \<Rightarrow> int \<Rightarrow> string \<Rightarrow> Thresholds" where
  "NewThresholds block highRisk unknownDecision =
     \<lparr>BlockThreshold = block, HighRiskThreshold = highRisk,
      UnknownDecision =
        (if unknownDecision \<noteq> DecisionBlock \<and> unknownDecision \<noteq> DecisionManualReview
         then DecisionManualReview else unknownDecision),
      perChain = Map.empty\<rparr>"

text \<open>One turn of the loop of \<open>ReloadFromEnv\<close> over \<open>os.Environ()\<close>.\<close>

definition reload_entry ::
    "(string \<Rightarrow> string) \<Rightarrow> string \<Rightarrow> (string \<rightharpoonup> chainThreshold) \<Rightarrow> (string \<rightharpoonup> chainThreshold)" where
  "reload_entry ul kv m =
     (if \<not> HasPrefix kv ''BLOCK_THRESHOLD_'' \<and> \<not> HasPrefix kv ''HIGH_RISK_THRESHOLD_'' then m
      else case IndexByte kv (CHR ''='') of
        None \<Rightarrow> m
      | Some eq \<Rightarrow>
          (let key = take eq kv; val = drop (Suc eq) kv in
           case Atoi val of
             None \<Rightarrow> m
           | Some n \<Rightarrow>
               if HasPrefix key ''BLOCK_THRESHOLD_'' then
                 (let chain = ToLower ul (TrimPrefix key ''BLOCK_THRESHOLD_'');
                      c = (case m chain of Some c \<Rightarrow> c | None \<Rightarrow> zero_chainThreshold)
                  in m(chain \<mapsto> c\<lparr>ct_Block := n\<rparr>))
               else if HasPrefix key ''HIGH_RISK_THRESHOLD_'' then
                 (let chain = ToLower ul (TrimPrefix key ''HIGH_RISK_THRESHOLD_'');
                      c = (case m chain of Some c \<Rightarrow> c | None \<Rightarrow> zero_chainThreshold)
                  in m(chain \<mapsto> c\<lparr>ct_HighRisk := n\<rparr>))
               else m))"

definition ReloadFromEnv :: "(string \<Rightarrow> string) \<Rightarrow> environ \<Rightarrow> Thresholds \<Rightarrow> Thresholds" where
  "ReloadFromEnv ul env t =
     (let ud = envOr env ''UNKNOWN_DECISION'' (UnknownDecision t);
          ud' = (if ud \<noteq> DecisionManualReview \<and> ud \<noteq> DecisionBlock then DecisionManualReview else ud)
      in t\<lparr>BlockThreshold := envInt env ''BLOCK_THRESHOLD'' (BlockThreshold t),
           HighRiskThreshold := envInt env ''HIGH_RISK_THRESHOLD'' (HighRiskThreshold t),
           UnknownDecision := ud',
           perChain := fold (reload_entry ul) env Map.empty\<rparr>)"

definition DefaultThresholds :: "(string \<Rightarrow> string) \<Rightarrow> environ \<Rightarrow> Thresholds" where
  "DefaultThresholds ul env =
     ReloadFromEnv ul env
       \<lparr>BlockThreshold = envInt env ''BLOCK_THRESHOLD'' 90,
        HighRiskThreshold = envInt env ''HIGH_RISK_THRESHOLD'' 50,
        UnknownDecision = envOr env ''UNKNOWN_DECISION'' DecisionManualReview,
        perChain = Map.empty\<rparr>"

definition SetChainOverride ::
    "(string \<Rightarrow> string) \<Rightarrow> string \<Rightarrow> int \<Rightarrow> int \<Rightarrow> Thresholds \<Rightarrow> Thresholds" where
  "SetChainOverride ul chain block highRisk t =
     t\<lparr>perChain := (perChain t)(ToLower ul chain \<mapsto> \<lparr>ct_Block = block, ct_HighRisk = highRisk\<rparr>)\<rparr>"

definition thresholdsFor :: "(string \<Rightarrow> string) \<Rightarrow> Thresholds \<Rightarrow> string \<Rightarrow> int \<times> int" where
  "thresholdsFor ul t chain =
     (case perChain t (ToLower ul chain) of
        None \<Rightarrow> (BlockThreshold t, HighRiskThreshold t)
      | Some c \<Rightarrow>
          (if ct_Block c > 0 then ct_Block c else BlockThreshold t,
           if ct_HighRisk c > 0 then ct_HighRisk c else HighRiskThreshold t))"

definition ExposureFromScore :: "(string \<Rightarrow> string) \<Rightarrow> Thresholds \<Rightarrow> int \<Rightarrow> string \<Rightarrow> string" where
  "ExposureFromScore ul t score chain =
     (let (block, high) = thresholdsFor ul t chain in
      if score \<ge> block then ExposureSanctioned
      else if score \<ge> high then ExposureHighRisk
      else if score < 0 then ExposureUnknown
      else ExposureClean)"

definition Decide :: "Thresholds \<Rightarrow> string \<Rightarrow> string" where
  "Decide t exposure =
     (if exposure = ExposureSanctioned then DecisionBlock
      else if exposure = ExposureHighRisk then DecisionManualReview
      else if exposure = ExposureClean then DecisionAllow
      else if exposure = ExposureUnknown then
        (let ud = UnknownDecision t in
         if ud \<noteq> DecisionBlock \<and> ud \<noteq> DecisionManualReview then DecisionManualReview else ud)
      else DecisionManualReview)"

definition SeverityFor :: "string \<Rightarrow> string" where
  "SeverityFor exposure =
     (if exposure = ExposureSanctioned then ''critical''
      else if exposure = ExposureHighRisk then ''high''
      else if exposure = ExposureUnknown then ''medium''
      else ''low'')"

definition DecideVendorUnreachable :: string where
  "DecideVendorUnreachable = DecisionManualReview"

section \<open>Decisions\<close>

lemma Decide_simps [simp]:
  "Decide t ExposureSanctioned = DecisionBlock"
  "Decide t ExposureHighRisk = DecisionManualReview"
  "Decide t ExposureClean = DecisionAllow"
  by (simp_all add: Decide_def)

lemma Decide_range: "Decide t e \<in> {DecisionBlock, DecisionManualReview, DecisionAllow}"
  by (auto simp: Decide_def Let_def)

lemma Decide_allow_iff: "Decide t e = DecisionAllow \<longleftrightarrow> e = ExposureClean"
  by (auto simp: Decide_def Let_def)

lemma Decide_block_iff:
  "Decide t e = DecisionBlock \<longleftrightarrow>
     e = ExposureSanctioned \<or> (e = ExposureUnknown \<and> UnknownDecision t = DecisionBlock)"
  by (auto simp: Decide_def Let_def)

lemma DecideVendorUnreachable_not_allow [simp]: "DecideVendorUnreachable \<noteq> DecisionAllow"
  by (simp add: DecideVendorUnreachable_def)

lemma SeverityFor_nonempty [simp]: "SeverityFor e \<noteq> ''''"
  by (simp add: SeverityFor_def)

text \<open>
  A decision is one of \<open>BLOCK\<close>, \<open>MANUAL_REVIEW\<close>, \<open>ALLOW\<close>, and it is \<open>ALLOW\<close> for the
  exposure \<open>CLEAN\<close> and for no other string, whatever \<open>UNKNOWN_DECISION\<close> is configured:
  an exposure the service does not know never passes.
\<close>

theorem decide_allows_only_clean:
  "Decide t e \<in> {DecisionBlock, DecisionManualReview, DecisionAllow}
   \<and> (Decide t e = DecisionAllow \<longleftrightarrow> e = ExposureClean)"
  using Decide_range Decide_allow_iff by blast

section \<open>From score to decision\<close>

lemma ExposureFromScore_eq:
  assumes "thresholdsFor ul t chain = (block, high)"
  shows "ExposureFromScore ul t score chain =
    (if score \<ge> block then ExposureSanctioned else if score \<ge> high then ExposureHighRisk
     else if score < 0 then ExposureUnknown else ExposureClean)"
  using assms by (simp add: ExposureFromScore_def)

text \<open>
  The decision reached from a bare score.  With the effective thresholds of the chain it is
  \<open>ALLOW\<close> exactly for a non-negative score below both of them, and at or above the block
  threshold it is \<open>BLOCK\<close> even when the two thresholds are configured in the wrong order.
\<close>

theorem score_decision:
  assumes "thresholdsFor ul t chain = (block, high)"
  shows "(Decide t (ExposureFromScore ul t score chain) = DecisionAllow \<longleftrightarrow>
            0 \<le> score \<and> score < block \<and> score < high)
       \<and> (score \<ge> block \<longrightarrow> Decide t (ExposureFromScore ul t score chain) = DecisionBlock)
       \<and> (high \<le> score \<and> score < block \<longrightarrow>
            Decide t (ExposureFromScore ul t score chain) = DecisionManualReview)"
  by (auto simp: ExposureFromScore_eq [OF assms] Decide_allow_iff)

theorem score_decision_witness:
  "thresholdsFor id (NewThresholds 90 50 DecisionManualReview) ''ethereum'' = (90, 50)
   \<and> Decide (NewThresholds 90 50 DecisionManualReview)
       (ExposureFromScore id (NewThresholds 90 50 DecisionManualReview) 49 ''ethereum'') = DecisionAllow"
proof -
  have h: "thresholdsFor id (NewThresholds 90 50 DecisionManualReview) ''ethereum'' = (90, 50)"
    by (simp add: thresholdsFor_def NewThresholds_def)
  show ?thesis using h score_decision [OF h, of 49] by simp
qed

fun decision_rank :: "string \<Rightarrow> nat" where
  "decision_rank d =
     (if d = DecisionBlock then 2 else if d = DecisionManualReview then 1 else 0)"

text \<open>
  A higher score never yields a milder decision: for non-negative scores the decision reached
  from the score is monotone in \<open>ALLOW\<close> < \<open>MANUAL_REVIEW\<close> < \<open>BLOCK\<close>, for any configuration.
\<close>

theorem score_decision_mono:
  assumes "0 \<le> s" and "s \<le> s'"
  shows "decision_rank (Decide t (ExposureFromScore ul t s chain))
       \<le> decision_rank (Decide t (ExposureFromScore ul t s' chain))"
proof -
  obtain block high where th: "thresholdsFor ul t chain = (block, high)"
    by fastforce
  show ?thesis
    using assms by (auto simp: ExposureFromScore_eq [OF th])
qed

theorem score_decision_mono_witness:
  "decision_rank (Decide (NewThresholds 90 50 [])
      (ExposureFromScore id (NewThresholds 90 50 []) 10 ''btc''))
   \<le> decision_rank (Decide (NewThresholds 90 50 [])
      (ExposureFromScore id (NewThresholds 90 50 []) 95 ''btc''))"
  by (rule score_decision_mono) simp_all

section \<open>Reloading from the environment\<close>

text \<open>
  The reference reading of the environment: each entry on its own is an override of one field
  of one chain, or nothing, and the last override of a field wins.
\<close>

datatype override_field = OBlock | OHighRisk

definition parse_entry :: "(string \<Rightarrow> string) \<Rightarrow> string \<Rightarrow> (override_field \<times> string \<times> int) option" where
  "parse_entry ul kv =
     (case IndexByte kv (CHR ''='') of
        None \<Rightarrow> None
      | Some eq \<Rightarrow>
          (case Atoi (drop (Suc eq) kv) of
             None \<Rightarrow> None
           | Some n \<Rightarrow>
               if HasPrefix (take eq kv) ''BLOCK_THRESHOLD_'' then
                 Some (OBlock, ToLower ul (TrimPrefix (take eq kv) ''BLOCK_THRESHOLD_''), n)
               else if HasPrefix (take eq kv) ''HIGH_RISK_THRESHOLD_'' then
                 Some (OHighRisk, ToLower ul (TrimPrefix (take eq kv) ''HIGH_RISK_THRESHOLD_''), n)
               else None))"

fun last_override :: "override_field \<Rightarrow> string \<Rightarrow> (override_field \<times> string \<times> int) list \<Rightarrow> int \<Rightarrow> int" where
  "last_override f c [] acc = acc"
| "last_override f c ((f', c', n) # es) acc =
     last_override f c es (if f' = f \<and> c' = c then n else acc)"

definition entry_overrides :: "(string \<Rightarrow> string) \<Rightarrow> environ \<Rightarrow> (override_field \<times> string \<times> int) list" where
  "entry_overrides ul env = List.map_filter (parse_entry ul) env"

definition field_of :: "override_field \<Rightarrow> chainThreshold option \<Rightarrow> int" where
  "field_of f c = (case c of None \<Rightarrow> 0 | Some c \<Rightarrow> (case f of OBlock \<Rightarrow> ct_Block c | OHighRisk \<Rightarrow> ct_HighRisk c))"

lemma prefix_take_drop: "prefix p (take n s) \<Longrightarrow> prefix p s"
  using prefix_order.trans take_is_prefix by blast

lemma reload_entry_field:
  "field_of f (reload_entry ul kv m c) =
     (case parse_entry ul kv of
        None \<Rightarrow> field_of f (m c)
      | Some (f', c', n) \<Rightarrow> if f' = f \<and> c' = c then n else field_of f (m c))"
proof (cases "IndexByte kv (CHR ''='')")
  case None
  then show ?thesis by (simp add: reload_entry_def parse_entry_def)
next
  case (Some eq)
  note ix = this
  show ?thesis
  proof (cases "Atoi (drop (Suc eq) kv)")
    case None
    with ix show ?thesis by (simp add: reload_entry_def parse_entry_def)
  next
    case (Some n)
    have pb: "prefix ''BLOCK_THRESHOLD_'' (take eq kv) \<Longrightarrow> prefix ''BLOCK_THRESHOLD_'' kv"
      and ph: "prefix ''HIGH_RISK_THRESHOLD_'' (take eq kv) \<Longrightarrow> prefix ''HIGH_RISK_THRESHOLD_'' kv"
      by (rule prefix_take_drop, assumption)+
    consider (b) "prefix ''BLOCK_THRESHOLD_'' (take eq kv)"
      | (h) "\<not> prefix ''BLOCK_THRESHOLD_'' (take eq kv)" "prefix ''HIGH_RISK_THRESHOLD_'' (take eq kv)"
      | (n) "\<not> prefix ''BLOCK_THRESHOLD_'' (take eq kv)" "\<not> prefix ''HIGH_RISK_THRESHOLD_'' (take eq kv)"
      by blast
    then show ?thesis
    proof cases
      case b
      then show ?thesis using ix Some pb
        by (cases f)
          (auto simp: reload_entry_def parse_entry_def field_of_def Let_def zero_chainThreshold_def
            simp del: prefix_code split: option.splits)
    next
      case h
      then show ?thesis using ix Some ph
        by (cases f)
          (auto simp: reload_entry_def parse_entry_def field_of_def Let_def zero_chainThreshold_def
            simp del: prefix_code split: option.splits)
    next
      case n
      then show ?thesis using ix Some
        by (simp add: reload_entry_def parse_entry_def Let_def del: prefix_code)
    qed
  qed
qed

lemma fold_reload_field:
  "field_of f (fold (reload_entry ul) env m c) =
     last_override f c (entry_overrides ul env) (field_of f (m c))"
proof (induction env arbitrary: m)
  case Nil
  then show ?case by (simp add: entry_overrides_def List.map_filter_def)
next
  case (Cons kv env)
  then show ?case
    by (auto simp: entry_overrides_def List.map_filter_def reload_entry_field split: option.splits)
qed

lemma thresholdsFor_field:
  "thresholdsFor ul t chain =
     (let b = field_of OBlock (perChain t (ToLower ul chain));
          h = field_of OHighRisk (perChain t (ToLower ul chain))
      in (if b > 0 then b else BlockThreshold t, if h > 0 then h else HighRiskThreshold t))"
  by (simp add: thresholdsFor_def field_of_def Let_def split: option.splits)

text \<open>
  C29: What a reload makes effective, against the reference reading of the environment: for each
  chain the last well-formed, positive \<open>BLOCK_THRESHOLD_<CHAIN>\<close> (and, independently,
  \<open>HIGH_RISK_THRESHOLD_<CHAIN>\<close>) entry, else the global variable, else the value before the
  reload; overrides of an earlier load are forgotten.
\<close>

theorem reload_thresholds:
  "thresholdsFor ul (ReloadFromEnv ul env t) chain =
     (let b = last_override OBlock (ToLower ul chain) (entry_overrides ul env) 0;
          h = last_override OHighRisk (ToLower ul chain) (entry_overrides ul env) 0
      in (if b > 0 then b else envInt env ''BLOCK_THRESHOLD'' (BlockThreshold t),
          if h > 0 then h else envInt env ''HIGH_RISK_THRESHOLD'' (HighRiskThreshold t)))"
  by (simp add: thresholdsFor_field ReloadFromEnv_def Let_def fold_reload_field)
    (simp add: field_of_def)

text \<open>
  After any reload, \<open>UNKNOWN_DECISION\<close> is \<open>BLOCK\<close> or \<open>MANUAL_REVIEW\<close>, and it is \<open>BLOCK\<close> only
  for the upper-case spelling.  The README documents the value \<open>block\<close>, which is taken as
  \<open>MANUAL_REVIEW\<close>.
\<close>

theorem reload_unknown_decision:
  "UnknownDecision (ReloadFromEnv ul env t) \<in> {DecisionBlock, DecisionManualReview}
   \<and> (UnknownDecision (ReloadFromEnv ul env t) = DecisionBlock \<longleftrightarrow>
        Getenv env ''UNKNOWN_DECISION'' = DecisionBlock
        \<or> Getenv env ''UNKNOWN_DECISION'' = '''' \<and> UnknownDecision t = DecisionBlock)
   \<and> UnknownDecision (ReloadFromEnv ul [''UNKNOWN_DECISION=block''] t) = DecisionManualReview"
  by (auto simp: ReloadFromEnv_def Let_def envOr_def Getenv_def)

end
