(* ===== verification/Go_Json.thy ===== *)
theory Go_Json
  imports Go_Strings
begin

text \<open>
  What the service uses of \<open>encoding/json\<close>: \<open>Unmarshal\<close> into a struct of string and integer
  fields, and \<open>Marshal\<close> of structs and maps with such values.  Decoding is in the order of Go's
  package: the whole input is validated first (a lexer and a pushdown automaton over the tokens,
  both structural), then the members are stored one by one, later duplicates over earlier ones,
  names matched exactly or else up to case folding, \<open>null\<close> leaving a field alone and a value of
  the wrong type recorded as an error.  The wording of the package's errors is not modelled: they
  are \<open>ErrText ''json''\<close>.
\<close>

section \<open>UTF-8\<close>

definition cont :: "char \<Rightarrow> bool" where
  "cont c \<longleftrightarrow> (let n = (of_char c :: nat) in 128 \<le> n \<and> n < 192)"

definition utf8_len :: "string \<Rightarrow> nat" where
  \<comment> \<open>the length of the encoded rune at the front, \<open>0\<close> when the front is not a valid encoding\<close>
  "utf8_len s =
     (case s of [] \<Rightarrow> 0 | a # s1 \<Rightarrow>
       (let n = (of_char a :: nat) in
        if n < 128 then 1
        else (case s1 of [] \<Rightarrow> 0 | b # s2 \<Rightarrow>
          (let m = (of_char b :: nat) in
           if 194 \<le> n \<and> n < 224 then (if cont b then 2 else 0)
           else (case s2 of [] \<Rightarrow> 0 | c # s3 \<Rightarrow>
             if 224 \<le> n \<and> n < 240 then
               (if cont b \<and> cont c \<and> (n = 224 \<longrightarrow> 160 \<le> m) \<and> (n = 237 \<longrightarrow> m < 160) then 3 else 0)
             else (case s3 of [] \<Rightarrow> 0 | d # s4 \<Rightarrow>
               if 240 \<le> n \<and> n < 245 then
                 (if cont b \<and> cont c \<and> cont d \<and> (n = 240 \<longrightarrow> 144 \<le> m) \<and> (n = 244 \<longrightarrow> m < 144)
                  then 4 else 0)
               else 0))))))"

text \<open>A text in UTF-8.\<close>

fun valid_utf8 :: "string \<Rightarrow> bool" where
  "valid_utf8 [] \<longleftrightarrow> True"
| "valid_utf8 (c # cs) \<longleftrightarrow> (case utf8_len (c # cs) of 0 \<Rightarrow> False | Suc k \<Rightarrow> valid_utf8 (drop k cs))"

definition utf8_enc :: "nat \<Rightarrow> string" where
  "utf8_enc r =
     (if r < 128 then [char_of r]
      else if r < 2048 then [char_of (192 + r div 64), char_of (128 + r mod 64)]
      else if r < 65536 then
        [char_of (224 + r div 4096), char_of (128 + r div 64 mod 64), char_of (128 + r mod 64)]
      else [char_of (240 + r div 262144), char_of (128 + r div 4096 mod 64),
            char_of (128 + r div 64 mod 64), char_of (128 + r mod 64)])"

definition rune_error :: string where
  "rune_error = [CHR 0xEF, CHR 0xBF, CHR 0xBD]"

section \<open>Tokens\<close>

datatype jtok = TLBrace | TRBrace | TLBrack | TRBrack | TColon | TComma
  | TStr string | TNum string | TTrue | TFalse | TNull

definition hex_val :: "char \<Rightarrow> nat option" where
  "hex_val c = (let n = (of_char c :: nat) in
     if 48 \<le> n \<and> n \<le> 57 then Some (n - 48)
     else if 97 \<le> n \<and> n \<le> 102 then Some (n - 87)
     else if 65 \<le> n \<and> n \<le> 70 then Some (n - 55)
     else None)"

definition hex4 :: "char \<Rightarrow> char \<Rightarrow> char \<Rightarrow> char \<Rightarrow> nat option" where
  "hex4 a b c d =
     (case (hex_val a, hex_val b, hex_val c, hex_val d) of
        (Some p, Some q, Some r, Some s) \<Rightarrow> Some (4096 * p + 256 * q + 16 * r + s)
      | _ \<Rightarrow> None)"

abbreviation bslash :: char where "bslash \<equiv> CHR 0x5C"
abbreviation dquote :: char where "dquote \<equiv> CHR 0x22"

definition simple_escape :: "char \<Rightarrow> char option" where
  "simple_escape e =
     (if e = CHR ''b'' then Some (CHR 0x08) else if e = CHR ''f'' then Some (CHR 0x0C)
      else if e = CHR ''n'' then Some (CHR 0x0A) else if e = CHR ''r'' then Some (CHR 0x0D)
      else if e = CHR ''t'' then Some (CHR 0x09) else if e = bslash then Some bslash
      else if e = CHR ''/'' then Some (CHR ''/'') else if e = dquote then Some dquote
      else None)"

text \<open>The rest of a string literal, after its opening quote: its raw text and what follows.\<close>

fun lex_str :: "string \<Rightarrow> (string \<times> string) option" where
  "lex_str [] = None"
| "lex_str (c # cs) =
     (if c = dquote then Some ([], cs)
      else if c = bslash then
        (case cs of
           [] \<Rightarrow> None
         | e # es \<Rightarrow>
             if e = CHR ''u'' then
               (case es of
                  h1 # h2 # h3 # h4 # r \<Rightarrow>
                    (case hex4 h1 h2 h3 h4 of
                       None \<Rightarrow> None
                     | Some _ \<Rightarrow> map_option (\<lambda>(s, t). (c # e # h1 # h2 # h3 # h4 # s, t)) (lex_str r))
                | _ \<Rightarrow> None)
             else if simple_escape e = None then None
             else map_option (\<lambda>(s, t). (c # e # s, t)) (lex_str es))
      else if (of_char c :: nat) < 32 then None
      else map_option (\<lambda>(s, t). (c # s, t)) (lex_str cs))"

lemma lex_str_shorter: "lex_str s = Some (r, t) \<Longrightarrow> length t < length s"
  by (induction s arbitrary: r t rule: lex_str.induct)
    (fastforce split: if_splits list.splits option.splits)+

definition is_digit :: "char \<Rightarrow> bool" where
  "is_digit c \<longleftrightarrow> (let n = (of_char c :: nat) in 48 \<le> n \<and> n \<le> 57)"

definition num_char :: "char \<Rightarrow> bool" where
  "num_char c \<longleftrightarrow> is_digit c \<or> c \<in> set ''+-.eE''"

definition word_char :: "char \<Rightarrow> bool" where
  "word_char c \<longleftrightarrow> (let n = (of_char c :: nat) in 97 \<le> n \<and> n \<le> 122)"

definition num_int :: "string \<Rightarrow> string option" where
  "num_int s =
     (let t = (case s of c # r \<Rightarrow> if c = CHR ''-'' then r else s | [] \<Rightarrow> s) in
      case t of [] \<Rightarrow> None
      | d # r \<Rightarrow> if d = CHR ''0'' then Some r else if is_digit d then Some (dropWhile is_digit r) else None)"

definition num_frac :: "string \<Rightarrow> string option" where
  "num_frac s =
     (case s of
        c # r \<Rightarrow> if c = CHR ''.'' then
            (case r of d # q \<Rightarrow> if is_digit d then Some (dropWhile is_digit q) else None | [] \<Rightarrow> None)
          else Some s
      | [] \<Rightarrow> Some s)"

definition num_exp :: "string \<Rightarrow> string option" where
  "num_exp s =
     (case s of
        c # r \<Rightarrow> if c \<in> set ''eE'' then
            (let q = (case r of p # q \<Rightarrow> if p \<in> set ''+-'' then q else r | [] \<Rightarrow> r) in
             case q of d # u \<Rightarrow> if is_digit d then Some (dropWhile is_digit u) else None | [] \<Rightarrow> None)
          else Some s
      | [] \<Rightarrow> Some s)"

definition valid_number :: "string \<Rightarrow> bool" where
  "valid_number s =
     (Option.bind (Option.bind (num_int s) num_frac) num_exp = Some [])"

definition word_tok :: "string \<Rightarrow> jtok option" where
  "word_tok s = (if s = ''true'' then Some TTrue else if s = ''false'' then Some TFalse
     else if s = ''null'' then Some TNull else None)"

definition punct :: "char \<Rightarrow> jtok option" where
  "punct c = (if c = CHR 0x7B then Some TLBrace else if c = CHR 0x7D then Some TRBrace
     else if c = CHR 0x5B then Some TLBrack else if c = CHR 0x5D then Some TRBrack
     else if c = CHR '':'' then Some TColon else if c = CHR '','' then Some TComma else None)"

definition json_space :: "char \<Rightarrow> bool" where
  "json_space c \<longleftrightarrow> c \<in> set [CHR 0x20, CHR 0x09, CHR 0x0A, CHR 0x0D]"

function lex :: "string \<Rightarrow> jtok list option" where
  "lex [] = Some []"
| "lex (c # cs) =
     (if json_space c then lex cs
      else case punct c of
        Some t \<Rightarrow> map_option (Cons t) (lex cs)
      | None \<Rightarrow>
          if c = dquote then
            (case lex_str cs of None \<Rightarrow> None
             | Some (r, t) \<Rightarrow> if length t < length (c # cs) then map_option (Cons (TStr r)) (lex t) else None)
          else if word_char c then
            (case word_tok (c # takeWhile word_char cs) of None \<Rightarrow> None
             | Some t \<Rightarrow> map_option (Cons t) (lex (dropWhile word_char cs)))
          else if num_char c then
            (let n = c # takeWhile num_char cs in
             if valid_number n then map_option (Cons (TNum n)) (lex (dropWhile num_char cs)) else None)
          else None)"
  by pat_completeness auto
termination
  by (relation "measure length") (auto simp: less_Suc_eq_le length_dropWhile_le)

section \<open>Values\<close>

datatype json = JNull | JBool bool | JNum string | JStr string
  | JArr "json list" | JObj "(string \<times> json) list"

text \<open>\<open>unquote\<close> of the package: escapes, surrogate pairs, invalid UTF-8 as U+FFFD.\<close>

fun unquote :: "string \<Rightarrow> string" where
  "unquote [] = []"
| "unquote (c # cs) =
     (if c = bslash then
        (case cs of
           [] \<Rightarrow> []
         | e # es \<Rightarrow>
             if e = CHR ''u'' then
               (case es of
                  h1 # h2 # h3 # h4 # r \<Rightarrow>
                    (case hex4 h1 h2 h3 h4 of
                       None \<Rightarrow> []
                     | Some n \<Rightarrow>
                         if 55296 \<le> n \<and> n < 57344 then
                           (case r of
                              s1 # s2 # g1 # g2 # g3 # g4 # q \<Rightarrow>
                                (case (if s1 = bslash \<and> s2 = CHR ''u'' then hex4 g1 g2 g3 g4 else None) of
                                   None \<Rightarrow> rune_error @ unquote r
                                 | Some m \<Rightarrow>
                                     if n < 56320 \<and> 56320 \<le> m \<and> m < 57344
                                     then utf8_enc (65536 + (n - 55296) * 1024 + (m - 56320)) @ unquote q
                                     else rune_error @ unquote r)
                            | _ \<Rightarrow> rune_error @ unquote r)
                         else utf8_enc n @ unquote r)
                | _ \<Rightarrow> [])
             else (case simple_escape e of None \<Rightarrow> [] | Some x \<Rightarrow> x # unquote es))
      else if (of_char c :: nat) < 128 then c # unquote cs
      else (case utf8_len (c # cs) of
          0 \<Rightarrow> rune_error @ unquote cs
        | Suc k \<Rightarrow> c # take k cs @ unquote (drop k cs)))"

text \<open>The automaton: what is expected next, and the arrays and objects that are open.\<close>

datatype frame = FArr "json list" | FMem "(string \<times> json) list" string

datatype pstate =
    PVal "frame list" | PValEnd "frame list"
  | PKeyEnd "frame list" | PKey "(string \<times> json) list" "frame list"
  | PColon "(string \<times> json) list" string "frame list"
  | PAfterArr "json list" "frame list" | PAfterObj "(string \<times> json) list" "frame list"
  | PDone json

abbreviation maxNestingDepth :: nat where "maxNestingDepth \<equiv> 10000"

fun deliver :: "json \<Rightarrow> frame list \<Rightarrow> pstate" where
  "deliver v [] = PDone v"
| "deliver v (FArr vs # st) = PAfterArr (vs @ [v]) st"
| "deliver v (FMem ms k # st) = PAfterObj (ms @ [(k, v)]) st"

fun value_step :: "frame list \<Rightarrow> jtok \<Rightarrow> pstate option" where
  "value_step st (TStr s) = Some (deliver (JStr (unquote s)) st)"
| "value_step st (TNum s) = Some (deliver (JNum s) st)"
| "value_step st TTrue = Some (deliver (JBool True) st)"
| "value_step st TFalse = Some (deliver (JBool False) st)"
| "value_step st TNull = Some (deliver JNull st)"
| "value_step st TLBrace = (if length st < maxNestingDepth then Some (PKeyEnd st) else None)"
| "value_step st TLBrack = (if length st < maxNestingDepth then Some (PValEnd st) else None)"
| "value_step st _ = None"

fun parse_step :: "pstate \<Rightarrow> jtok \<Rightarrow> pstate option" where
  "parse_step (PVal st) t = value_step st t"
| "parse_step (PValEnd st) t = (if t = TRBrack then Some (deliver (JArr []) st) else value_step (FArr [] # st) t)"
| "parse_step (PKeyEnd st) t =
     (case t of TRBrace \<Rightarrow> Some (deliver (JObj []) st) | TStr k \<Rightarrow> Some (PColon [] (unquote k) st) | _ \<Rightarrow> None)"
| "parse_step (PKey ms st) t = (case t of TStr k \<Rightarrow> Some (PColon ms (unquote k) st) | _ \<Rightarrow> None)"
| "parse_step (PColon ms k st) t = (if t = TColon then Some (PVal (FMem ms k # st)) else None)"
| "parse_step (PAfterArr vs st) t =
     (if t = TComma then Some (PVal (FArr vs # st))
      else if t = TRBrack then Some (deliver (JArr vs) st) else None)"
| "parse_step (PAfterObj ms st) t =
     (if t = TComma then Some (PKey ms st)
      else if t = TRBrace then Some (deliver (JObj ms) st) else None)"
| "parse_step (PDone v) t = None"

fun parse_run :: "pstate \<Rightarrow> jtok list \<Rightarrow> pstate option" where
  "parse_run p [] = Some p"
| "parse_run p (t # ts) = (case parse_step p t of None \<Rightarrow> None | Some q \<Rightarrow> parse_run q ts)"

definition parse_json :: "string \<Rightarrow> json option" where
  "parse_json s =
     (case lex s of None \<Rightarrow> None
      | Some ts \<Rightarrow> (case parse_run (PVal []) ts of Some (PDone v) \<Rightarrow> Some v | _ \<Rightarrow> None))"

section \<open>Unmarshal into a struct\<close>

fun fold_name :: "string \<Rightarrow> string" where
  "fold_name [] = []"
| "fold_name (c # cs) =
     (let n = (of_char c :: nat) in
      if 97 \<le> n \<and> n \<le> 122 then char_of (n - 32) # fold_name cs
      else (case cs of
          d # ds \<Rightarrow>
            if c = CHR 0xC5 \<and> d = CHR 0xBF then CHR ''S'' # fold_name ds
            else (case ds of
                e # es \<Rightarrow> if c = CHR 0xE2 \<and> d = CHR 0x84 \<and> e = CHR 0xAA then CHR ''K'' # fold_name es
                          else c # fold_name cs
              | [] \<Rightarrow> c # fold_name cs)
        | [] \<Rightarrow> [c]))"

definition find_field :: "string list \<Rightarrow> string \<Rightarrow> string option" where
  "find_field names k =
     (if k \<in> set names then Some k else find (\<lambda>f. fold_name f = fold_name k) names)"

lemma find_field_exact [simp]: "k \<in> set names \<Longrightarrow> find_field names k = Some k"
  by (simp add: find_field_def)

definition set_str :: "(string \<Rightarrow> 'a \<Rightarrow> 'a) \<Rightarrow> json \<Rightarrow> 'a \<Rightarrow> 'a option" where
  "set_str upd v r = (case v of JStr s \<Rightarrow> Some (upd s r) | JNull \<Rightarrow> Some r | _ \<Rightarrow> None)"

definition set_int :: "(int \<Rightarrow> 'a \<Rightarrow> 'a) \<Rightarrow> json \<Rightarrow> 'a \<Rightarrow> 'a option" where
  "set_int upd v r =
     (case v of
        JNum l \<Rightarrow> (case Atoi l of Some n \<Rightarrow> Some (upd n r) | None \<Rightarrow> None)
      | JNull \<Rightarrow> Some r
      | _ \<Rightarrow> None)"

fun store_members ::
    "string list \<Rightarrow> (string \<Rightarrow> json \<Rightarrow> 'a \<Rightarrow> 'a option) \<Rightarrow> (string \<times> json) list \<Rightarrow> 'a \<times> bool \<Rightarrow> 'a \<times> bool" where
  "store_members names setf [] (r, bad) = (r, bad)"
| "store_members names setf ((k, v) # ms) (r, bad) =
     (case find_field names k of
        None \<Rightarrow> store_members names setf ms (r, bad)
      | Some f \<Rightarrow>
          (case setf f v r of
             None \<Rightarrow> store_members names setf ms (r, True)
           | Some r' \<Rightarrow> store_members names setf ms (r', bad)))"

definition json_error :: go_error where
  "json_error = ErrText ''json''"

definition unmarshal ::
    "string list \<Rightarrow> (string \<Rightarrow> json \<Rightarrow> 'a \<Rightarrow> 'a option) \<Rightarrow> 'a \<Rightarrow> string \<Rightarrow> go_error + 'a" where
  "unmarshal names setf init s =
     (case parse_json s of
        None \<Rightarrow> Inl json_error
      | Some JNull \<Rightarrow> Inr init
      | Some (JObj ms) \<Rightarrow>
          (case store_members names setf ms (init, False) of
             (r, bad) \<Rightarrow> if bad then Inl json_error else Inr r)
      | Some _ \<Rightarrow> Inl json_error)"

section \<open>Marshal\<close>

definition hex_digit :: "nat \<Rightarrow> char" where
  "hex_digit n = (if n < 10 then char_of (48 + n) else char_of (87 + n))"

definition escape_ascii :: "char \<Rightarrow> string" where
  "escape_ascii c =
     (let n = (of_char c :: nat) in
      if c = bslash \<or> c = dquote then [bslash, c]
      else if n = 8 then [bslash, CHR ''b''] else if n = 12 then [bslash, CHR ''f'']
      else if n = 10 then [bslash, CHR ''n''] else if n = 13 then [bslash, CHR ''r'']
      else if n = 9 then [bslash, CHR ''t'']
      else if n < 32 \<or> c = CHR ''<'' \<or> c = CHR ''>'' \<or> c = CHR ''&'' then
        [bslash, CHR ''u'', CHR ''0'', CHR ''0'', hex_digit (n div 16), hex_digit (n mod 16)]
      else [c])"

fun json_escape :: "string \<Rightarrow> string" where
  "json_escape [] = []"
| "json_escape (c # cs) =
     (if (of_char c :: nat) < 128 then escape_ascii c @ json_escape cs
      else (case utf8_len (c # cs) of
          0 \<Rightarrow> bslash # ''ufffd'' @ json_escape cs
        | Suc k \<Rightarrow>
            (if c # take k cs = [CHR 0xE2, CHR 0x80, CHR 0xA8] then bslash # ''u2028''
             else if c # take k cs = [CHR 0xE2, CHR 0x80, CHR 0xA9] then bslash # ''u2029''
             else c # take k cs) @ json_escape (drop k cs)))"

definition json_quote :: "string \<Rightarrow> string" where
  "json_quote s = dquote # json_escape s @ [dquote]"

text \<open>
  The values the service marshals are flat objects.  A struct has its fields in declaration
  order; a \<open>map[string]any\<close> has its keys sorted, which the callers of \<open>marshal_obj\<close> write out.
\<close>

datatype jfield = VStr string | VInt int

fun marshal_field :: "jfield \<Rightarrow> string" where
  "marshal_field (VStr s) = json_quote s"
| "marshal_field (VInt n) = Itoa n"

fun marshal_members :: "(string \<times> jfield) list \<Rightarrow> string" where
  "marshal_members [] = []"
| "marshal_members [(k, v)] = json_quote k @ '':'' @ marshal_field v"
| "marshal_members ((k, v) # ms) = json_quote k @ '':'' @ marshal_field v @ '','' @ marshal_members ms"

definition marshal_obj :: "(string \<times> jfield) list \<Rightarrow> string" where
  "marshal_obj ms = CHR 0x7B # marshal_members ms @ [CHR 0x7D]"

section \<open>Printing and parsing agree\<close>

lemma char_eq_of_char: "(of_char c :: nat) = of_char d \<Longrightarrow> c = d"
  by simp

lemma hex_digit_val: "n < 16 \<Longrightarrow> hex_val (hex_digit n) = Some n"
  by (simp add: hex_digit_def hex_val_def Let_def)

lemma hex_val_zero [simp]: "hex_val (CHR ''0'') = Some 0"
  by (simp add: hex_val_def)

lemma hex4_escape:
  "n < 128 \<Longrightarrow> hex4 (CHR ''0'') (CHR ''0'') (hex_digit (n div 16)) (hex_digit (n mod 16)) = Some n"
  by (simp add: hex4_def hex_digit_val)

lemma lex_str_escape_ascii:
  assumes "(of_char c :: nat) < 128"
  shows "lex_str (escape_ascii c @ s) = map_option (\<lambda>(r, t). (escape_ascii c @ r, t)) (lex_str s)"
proof -
  let ?n = "of_char c :: nat"
  have "hex4 (CHR ''0'') (CHR ''0'') (hex_digit (?n div 16)) (hex_digit (?n mod 16)) = Some ?n"
    using assms by (rule hex4_escape)
  then show ?thesis
    by (auto simp: escape_ascii_def simple_escape_def Let_def option.map_comp comp_def
        split_beta' intro!: option.map_cong0)
qed

lemma unquote_escape_ascii:
  assumes "(of_char c :: nat) < 128"
  shows "unquote (escape_ascii c @ s) = c # unquote s"
proof -
  let ?n = "of_char c :: nat"
  have h: "hex4 (CHR ''0'') (CHR ''0'') (hex_digit (?n div 16)) (hex_digit (?n mod 16)) = Some ?n"
    using assms by (rule hex4_escape)
  have e: "utf8_enc ?n = [c]" using assms by (simp add: utf8_enc_def)
  have chars: "?n = 8 \<Longrightarrow> c = CHR 0x08" "?n = 12 \<Longrightarrow> c = CHR 0x0C" "?n = 10 \<Longrightarrow> c = CHR 0x0A"
    "?n = 13 \<Longrightarrow> c = CHR 0x0D" "?n = 9 \<Longrightarrow> c = CHR 0x09"
    by (rule char_eq_of_char, simp)+
  show ?thesis
    using assms h e chars
    by (auto simp: escape_ascii_def simple_escape_def Let_def)
qed

lemma is_ascii_Cons [simp]: "is_ascii (c # s) \<longleftrightarrow> (of_char c :: nat) < 128 \<and> is_ascii s"
  by (simp add: is_ascii_def)

lemma is_ascii_Nil [simp]: "is_ascii []"
  by (simp add: is_ascii_def)

lemma is_ascii_append [simp]: "is_ascii (s @ t) \<longleftrightarrow> is_ascii s \<and> is_ascii t"
  by (simp add: is_ascii_def)

lemma lex_str_json_escape:
  "is_ascii s \<Longrightarrow> lex_str (json_escape s @ dquote # t) = Some (json_escape s, t)"
proof (induction s)
  case Nil
  then show ?case by simp
next
  case (Cons c s)
  then show ?case by (simp add: lex_str_escape_ascii del: lex_str.simps(2))
qed

lemma unquote_json_escape: "is_ascii s \<Longrightarrow> unquote (json_escape s) = s"
  by (induction s) (simp_all add: unquote_escape_ascii del: unquote.simps(2))

text \<open>The same for every text in UTF-8.\<close>

lemma cont_high: "cont b \<Longrightarrow> 128 \<le> (of_char b :: nat)"
  by (simp add: cont_def Let_def)

lemma utf8_len_cases:
  assumes "utf8_len (c # cs) = Suc k"
  obtains "k = 0" "(of_char c :: nat) < 128"
    | b r where "k = 1" "cs = [b] @ r" "\<not> (of_char c :: nat) < 128" "cont b" "\<And>x. utf8_len (c # [b] @ x) = 2"
    | b d r where "k = 2" "cs = [b, d] @ r" "\<not> (of_char c :: nat) < 128" "cont b" "cont d" "\<And>x. utf8_len (c # [b, d] @ x) = 3"
    | b d e r where "k = 3" "cs = [b, d, e] @ r" "\<not> (of_char c :: nat) < 128" "cont b" "cont d" "cont e"
        "\<And>x. utf8_len (c # [b, d, e] @ x) = 4"
proof -
  let ?n = "of_char c :: nat"
  note u = assms [unfolded utf8_len_def Let_def, simplified]
  show thesis
  proof (cases "?n < 128")
    case True
    then show ?thesis using u that(1) by simp
  next
    case big: False
    then obtain b bs where b: "cs = b # bs" using u by (cases cs) simp_all
    show ?thesis
    proof (cases "194 \<le> ?n \<and> ?n < 224")
      case True
      then have "k = 1" "cont b" using u big b by (auto split: if_splits)
      then show ?thesis using that(2) [of b bs] True b big by (simp add: utf8_len_def Let_def)
    next
      case two: False
      then obtain d ds where d: "bs = d # ds" using u big b by (cases bs) auto
      show ?thesis
      proof (cases "224 \<le> ?n \<and> ?n < 240")
        case True
        then have "k = 2" "cont b" "cont d" "?n = 224 \<longrightarrow> 160 \<le> (of_char b :: nat)" "?n = 237 \<longrightarrow> (of_char b :: nat) < 160"
          using u big b d two by (auto split: if_splits)
        then show ?thesis using that(3) [of b d ds] True b d big two by (simp add: utf8_len_def Let_def)
      next
        case three: False
        then obtain e es where e: "ds = e # es" using u big b d two by (cases ds) auto
        have "k = 3" "cont b" "cont d" "cont e" "240 \<le> ?n" "?n < 245" "?n = 240 \<longrightarrow> 144 \<le> (of_char b :: nat)"
          "?n = 244 \<longrightarrow> (of_char b :: nat) < 144"
          using u big b d e two three by (auto split: if_splits)
        then show ?thesis using that(4) [of b d e es] b d e big two three by (simp add: utf8_len_def Let_def)
      qed
    qed
  qed
qed

lemma utf8_len_prefix:
  assumes "utf8_len (c # cs) = Suc k"
  shows "k \<le> length cs" and "utf8_len (c # take k cs @ x) = Suc k" and "k = 0 \<longleftrightarrow> (of_char c :: nat) < 128"
    and "\<forall>b \<in> set (take k cs). 128 \<le> (of_char b :: nat)"
  by (rule utf8_len_cases [OF assms]; simp add: cont_high utf8_len_def [of "c # x"] Let_def)+

lemma lex_str_high:
  "\<forall>b \<in> set bs. 128 \<le> (of_char b :: nat) \<Longrightarrow> lex_str (bs @ s) = map_option (\<lambda>(r, t). (bs @ r, t)) (lex_str s)"
proof (induction bs)
  case Nil
  then show ?case by (simp add: option.map_ident case_prod_unfold)
next
  case (Cons b bs)
  then have "b \<noteq> dquote" "b \<noteq> bslash" "\<not> (of_char b :: nat) < 32" by auto
  then show ?case using Cons by (simp add: option.map_comp comp_def case_prod_unfold)
qed

lemma separator_chars:
  "char_of (226 :: nat) = CHR 0xE2" "char_of (128 :: nat) = CHR 0x80" "char_of (168 :: nat) = CHR 0xA8" "char_of (169 :: nat) = CHR 0xA9"
  by code_simp+

lemma utf8_json_escape:
  "valid_utf8 s \<Longrightarrow> lex_str (json_escape s @ dquote # t) = Some (json_escape s, t) \<and> unquote (json_escape s) = s"
proof (induction s rule: valid_utf8.induct)
  case 1
  then show ?case by simp
next
  case (2 c cs)
  then obtain k where k: "utf8_len (c # cs) = Suc k" "valid_utf8 (drop k cs)" by (auto split: nat.splits)
  note p = utf8_len_prefix [OF k(1)]
  have IH: "lex_str (json_escape (drop k cs) @ dquote # t) = Some (json_escape (drop k cs), t)"
    "unquote (json_escape (drop k cs)) = drop k cs" using 2(1) [OF k] by simp_all
  show ?case
  proof (cases "(of_char c :: nat) < 128")
    case True
    then have "k = 0" using p(3) by simp
    then show ?thesis using IH True by (simp add: lex_str_escape_ascii unquote_escape_ascii del: lex_str.simps(2) unquote.simps(2))
  next
    case False
    let ?run = "c # take k cs"
    have s: "?run @ drop k cs = c # cs" by simp
    have high: "\<forall>b \<in> set ?run. 128 \<le> (of_char b :: nat)" using False p(4) by auto
    have e: "json_escape (c # cs) =
        (if ?run = [CHR 0xE2, CHR 0x80, CHR 0xA8] then bslash # ''u2028''
         else if ?run = [CHR 0xE2, CHR 0x80, CHR 0xA9] then bslash # ''u2029'' else ?run) @ json_escape (drop k cs)"
      using False k(1) by simp
    show ?thesis
    proof (cases "?run = [CHR 0xE2, CHR 0x80, CHR 0xA8]")
      case True
      note e1 = e [unfolded if_P [OF True]]
      have "unquote (json_escape (c # cs)) = [CHR 0xE2, CHR 0x80, CHR 0xA8] @ drop k cs"
        unfolding e1 using IH(2) by (simp add: hex4_def hex_val_def utf8_enc_def separator_chars)
      then have "unquote (json_escape (c # cs)) = c # cs" unfolding True [symmetric] s .
      then show ?thesis unfolding e1 using IH(1) by (simp add: hex4_def hex_val_def)
    next
      case ls: False
      show ?thesis
      proof (cases "?run = [CHR 0xE2, CHR 0x80, CHR 0xA9]")
        case True
        note e1 = e [unfolded if_not_P [OF ls] if_P [OF True]]
        have "unquote (json_escape (c # cs)) = [CHR 0xE2, CHR 0x80, CHR 0xA9] @ drop k cs"
          unfolding e1 using IH(2) by (simp add: hex4_def hex_val_def utf8_enc_def separator_chars)
        then have "unquote (json_escape (c # cs)) = c # cs" unfolding True [symmetric] s .
        then show ?thesis unfolding e1 using IH(1) by (simp add: hex4_def hex_val_def)
      next
        case ps: False
        note e1 = e [unfolded if_not_P [OF ls] if_not_P [OF ps]]
        have "c \<noteq> bslash" using False by auto
        then have "unquote (?run @ json_escape (drop k cs)) = ?run @ unquote (json_escape (drop k cs))"
          using False p(1,2) by simp
        moreover have "lex_str (?run @ json_escape (drop k cs) @ dquote # t) = Some (?run @ json_escape (drop k cs), t)"
          unfolding lex_str_high [OF high] IH(1) by simp
        ultimately show ?thesis unfolding e1 append_assoc IH(2) s by simp
      qed
    qed
  qed
qed

lemma lex_json_quote:
  assumes "is_ascii s"
  shows "lex (json_quote s @ t) = map_option (Cons (TStr (json_escape s))) (lex t)"
  using lex_str_json_escape [OF assms, of t]
  by (simp add: json_quote_def json_space_def punct_def)

lemma ascii_utf8: "is_ascii s \<Longrightarrow> valid_utf8 s"
proof (induction s)
  case (Cons c s)
  then have "utf8_len (c # s) = Suc 0" by (simp add: utf8_len_def)
  then show ?case using Cons by simp
qed simp

lemma lex_quote_utf8:
  "valid_utf8 s \<Longrightarrow> lex (json_quote s @ t) = map_option (Cons (TStr (json_escape s))) (lex t)"
  using utf8_json_escape [of s t] by (simp add: json_quote_def json_space_def punct_def)

lemma num_char_Itoa: "c \<in> set (Itoa n) \<Longrightarrow> num_char c"
  by (auto simp: Itoa_def num_char_def is_digit_def Let_def dest: nat_digits_digits split: if_splits)

lemma is_digit_nat_digits: "c \<in> set (nat_digits n) \<Longrightarrow> is_digit c"
  by (auto simp: is_digit_def Let_def dest: nat_digits_digits)

lemma nat_digits_no_zero: "nat_digits n = CHR ''0'' # r \<Longrightarrow> r = []"
proof (induction n arbitrary: r rule: nat_digits.induct)
  case (1 n)
  show ?case
  proof (cases "n < 10")
    case True
    with 1(2) show ?thesis by (simp add: nat_digits.simps [of n])
  next
    case False
    with 1(2) obtain q where q: "nat_digits (n div 10) = CHR ''0'' # q"
      using nat_digits_head [of "n div 10"] by (auto simp: nat_digits.simps [of n])
    then have "q = []" using 1(1) False by blast
    then have "digits_val 0 (nat_digits (n div 10)) = Some 0"
      using q by (simp add: digit_val_def)
    then have "n div 10 = 0" by (simp add: digits_val_nat_digits)
    with False show ?thesis by simp
  qed
qed

lemma valid_number_Itoa: "valid_number (Itoa n)"
proof -
  have v: "Option.bind (Option.bind (case nat_digits m of [] \<Rightarrow> None
      | d # r \<Rightarrow> if d = CHR ''0'' then Some r else if is_digit d then Some (dropWhile is_digit r) else None)
      num_frac) num_exp = Some []" for m
  proof -
    obtain c cs where c: "nat_digits m = c # cs" using nat_digits_head by blast
    then have d: "is_digit c" "dropWhile is_digit cs = []"
      using is_digit_nat_digits [of _ m] by (auto simp: dropWhile_eq_Nil_conv)
    have z: "c = CHR ''0'' \<Longrightarrow> cs = []" using c nat_digits_no_zero by blast
    show ?thesis
      by (cases "c = CHR ''0''") (simp_all add: c d z num_frac_def num_exp_def)
  qed
  show ?thesis
  proof (cases "n < 0")
    case True
    then show ?thesis using v [of "nat (- n)"] by (simp add: valid_number_def num_int_def Itoa_def)
  next
    case False
    obtain c cs where c: "nat_digits (nat n) = c # cs" "48 \<le> (of_char c :: nat)"
      using nat_digits_head by blast
    then have "c \<noteq> CHR ''-''" by auto
    with False c(1) show ?thesis
      using v [of "nat n"] by (simp add: valid_number_def num_int_def Itoa_def)
  qed
qed

lemma digit_classes:
  assumes "is_digit c"
  shows "num_char c" and "\<not> word_char c" and "\<not> json_space c" and "punct c = None" and "c \<noteq> dquote"
proof -
  show "num_char c" using assms by (simp add: num_char_def)
  show "\<not> word_char c" using assms by (simp add: is_digit_def word_char_def Let_def)
  show "\<not> json_space c" using assms by (auto simp: json_space_def is_digit_def)
  show "punct c = None" using assms by (auto simp: punct_def is_digit_def)
  show "c \<noteq> dquote" using assms by (auto simp: is_digit_def)
qed

lemma Itoa_Cons: "\<exists>c cs. Itoa n = c # cs \<and> num_char c \<and> \<not> word_char c \<and> \<not> json_space c
    \<and> punct c = None \<and> c \<noteq> dquote"
proof (cases "n < 0")
  case True
  then show ?thesis
    by (simp add: Itoa_def num_char_def word_char_def json_space_def punct_def)
next
  case False
  obtain c cs where c: "nat_digits (nat n) = c # cs" using nat_digits_head by blast
  then have "is_digit c" using is_digit_nat_digits [of c "nat n"] by simp
  with False c digit_classes show ?thesis by (simp add: Itoa_def)
qed

lemma lex_Itoa:
  assumes "t = [] \<or> \<not> num_char (hd t)"
  shows "lex (Itoa n @ t) = map_option (Cons (TNum (Itoa n))) (lex t)"
proof -
  obtain c cs where c: "Itoa n = c # cs" and k: "num_char c" "\<not> word_char c" "\<not> json_space c"
    "punct c = None" "c \<noteq> dquote" using Itoa_Cons by blast
  have "\<forall>x \<in> set cs. num_char x" using c num_char_Itoa [of _ n] by auto
  then have "takeWhile num_char (cs @ t) = cs" "dropWhile num_char (cs @ t) = t"
    using assms by (cases t; simp)+
  moreover have "valid_number (c # cs)" using valid_number_Itoa [of n] c by simp
  ultimately show ?thesis using c k by (simp add: Let_def)
qed

text \<open>The tokens of a marshalled object and their run through the automaton.\<close>

fun field_tok :: "jfield \<Rightarrow> jtok" where
  "field_tok (VStr s) = TStr (json_escape s)"
| "field_tok (VInt n) = TNum (Itoa n)"

fun field_json :: "jfield \<Rightarrow> json" where
  "field_json (VStr s) = JStr s"
| "field_json (VInt n) = JNum (Itoa n)"

fun ascii_field :: "string \<times> jfield \<Rightarrow> bool" where
  "ascii_field (k, VStr s) = (is_ascii k \<and> is_ascii s)"
| "ascii_field (k, VInt n) = is_ascii k"

fun member_toks :: "(string \<times> jfield) list \<Rightarrow> jtok list" where
  "member_toks [] = []"
| "member_toks [(k, v)] = [TStr (json_escape k), TColon, field_tok v]"
| "member_toks ((k, v) # ms) = TStr (json_escape k) # TColon # field_tok v # TComma # member_toks ms"

lemma lex_punct: "punct c = Some t \<Longrightarrow> \<not> json_space c \<Longrightarrow> lex (c # s) = map_option (Cons t) (lex s)"
  by simp

lemma lex_field:
  assumes "ascii_field (k, v)" and "t \<noteq> []" and "\<not> num_char (hd t)"
  shows "lex (marshal_field v @ t) = map_option (Cons (field_tok v)) (lex t)"
  using assms by (cases v) (simp_all add: lex_json_quote lex_Itoa del: lex.simps)

lemma lex_colon: "lex (CHR '':'' # s) = map_option (Cons TColon) (lex s)"
  and lex_comma: "lex (CHR '','' # s) = map_option (Cons TComma) (lex s)"
  and lex_rbrace: "lex (CHR 0x7D # s) = map_option (Cons TRBrace) (lex s)"
  and lex_lbrace: "lex (CHR 0x7B # s) = map_option (Cons TLBrace) (lex s)"
  by (simp_all add: punct_def json_space_def)

lemma lex_members:
  assumes "list_all ascii_field ms"
  shows "lex (marshal_members ms @ [CHR 0x7D]) = Some (member_toks ms @ [TRBrace])"
  using assms
proof (induction ms rule: marshal_members.induct)
  case 1
  then show ?case by (simp add: lex_rbrace del: lex.simps(2))
next
  case (2 k v)
  then have a: "ascii_field (k, v)" "is_ascii k" by (cases v; simp)+
  show ?case
    by (simp add: lex_json_quote [OF a(2)] lex_colon lex_rbrace num_char_def is_digit_def
        lex_field [OF a(1)] del: lex.simps(2))
next
  case (3 k v m ms)
  then have a: "ascii_field (k, v)" "is_ascii k" by (cases v; simp)+
  show ?case
    using 3 by (simp add: lex_json_quote [OF a(2)] lex_colon lex_comma num_char_def is_digit_def
        lex_field [OF a(1)] del: lex.simps(2))
qed

lemma value_step_field: "ascii_field (k, v) \<Longrightarrow> value_step st (field_tok v) = Some (deliver (field_json v) st)"
  by (cases v) (simp_all add: unquote_json_escape)

lemma parse_members:
  assumes "list_all ascii_field ms" and "ms \<noteq> []"
  shows "parse_run (PKey acc []) (member_toks ms @ [TRBrace]) =
    Some (PDone (JObj (acc @ map (\<lambda>(k, v). (k, field_json v)) ms)))"
  using assms
proof (induction ms arbitrary: acc rule: member_toks.induct)
  case 1
  then show ?case by simp
next
  case (2 k v)
  then have a: "ascii_field (k, v)" "is_ascii k" by (cases v; simp)+
  show ?case by (simp add: unquote_json_escape [OF a(2)] value_step_field [OF a(1)])
next
  case (3 k v m ms)
  then have a: "ascii_field (k, v)" "is_ascii k" by (cases v; simp)+
  show ?case using 3 by (simp add: unquote_json_escape [OF a(2)] value_step_field [OF a(1)])
qed

lemma parse_key_first:
  "ms \<noteq> [] \<Longrightarrow> parse_run (PKeyEnd []) (member_toks ms @ ts) = parse_run (PKey [] []) (member_toks ms @ ts)"
  by (cases ms rule: member_toks.cases) simp_all

lemma parse_marshal_obj:
  assumes "list_all ascii_field ms"
  shows "parse_json (marshal_obj ms) = Some (JObj (map (\<lambda>(k, v). (k, field_json v)) ms))"
proof (cases "ms = []")
  case True
  then show ?thesis by (simp add: parse_json_def marshal_obj_def lex_lbrace lex_rbrace del: lex.simps(2))
next
  case False
  then show ?thesis
    using parse_members [OF assms False, of "[]"]
    by (simp add: parse_json_def marshal_obj_def lex_lbrace lex_members [OF assms] parse_key_first
        del: lex.simps(2))
qed

end
