(* ===== verification/Vendor.thy ===== *)
theory Vendor
  imports Go_Json
begin

text \<open>
  \<open>internal/vendor/vendor.go\<close> and \<open>env.go\<close>: the request and response of a vendor screen, the
  \<open>ScreenProvider\<close> interface, the idempotency key and the vendor configuration.  A Go interface
  is a record of its methods over the state \<open>'p\<close> of the implementation.
\<close>

section \<open>Requests, responses, providers\<close>

record ScreenRequest =
  vq_TxID :: string
  vq_Address :: string
  vq_SourceAddress :: string
  vq_Chain :: string
  vq_Amount :: string
  vq_IdempotencyKey :: string

record ScreenResponse =
  vr_Vendor :: string
  vr_RiskScore :: int
  vr_Exposure :: string
  vr_RawRequest :: string
  vr_RawResponse :: string

record 'p ScreenProvider =
  prov_Name :: "'p \<Rightarrow> string"
  prov_Screen :: "world \<Rightarrow> 'p \<Rightarrow> ScreenRequest \<Rightarrow> (go_error + ScreenResponse) \<times> world \<times> 'p"

text \<open>
  What the screen path relies on: a provider, whatever it answers, does not turn the clock back and
  does not give out an identifier twice.
\<close>

locale screen_provider =
  fixes prov :: "'p ScreenProvider"
  assumes advances: "prov_Screen prov w p q = (r, w', p') \<Longrightarrow> world_le w w'"

definition IdempotencyKey :: "string \<Rightarrow> string \<Rightarrow> string \<Rightarrow> string" where
  "IdempotencyKey txID address chain = txID @ '':'' @ address @ '':'' @ chain"

section \<open>Configuration\<close>

record VendorConfig =
  VendorTimeout :: duration
  CircuitBreakerThreshold :: int
  CircuitBreakerOpenFor :: duration
  ChainalysisAPIKey :: string
  ChainalysisAPIURL :: string
  TRMAPIKey :: string
  TRMAPIURL :: string

text \<open>
  \<open>time.Duration(n) * time.Millisecond\<close> is a 64-bit product.  \<open>pd\<close> is \<open>time.ParseDuration\<close>, whose
  result for fractional inputs is defined by floating-point arithmetic.
\<close>

definition envDuration ::
    "(string \<Rightarrow> duration option) \<Rightarrow> environ \<Rightarrow> string \<Rightarrow> duration \<Rightarrow> duration" where
  "envDuration pd env key def =
     (let v = Getenv env key in
      if v \<noteq> '''' then
        (case Atoi v of
           Some n \<Rightarrow> if key = ''VENDOR_TIMEOUT_MS'' then wrap64 (n * millisecond) else wrap64 (n * second)
         | None \<Rightarrow> (case pd v of Some d \<Rightarrow> d | None \<Rightarrow> def))
      else def)"

definition DefaultConfig :: "(string \<Rightarrow> duration option) \<Rightarrow> environ \<Rightarrow> VendorConfig" where
  "DefaultConfig pd env =
     \<lparr>VendorTimeout = envDuration pd env ''VENDOR_TIMEOUT_MS'' (800 * millisecond),
      CircuitBreakerThreshold = envInt env ''VENDOR_CIRCUIT_BREAKER_THRESHOLD'' 5,
      CircuitBreakerOpenFor = 60 * second,
      ChainalysisAPIKey = Getenv env ''CHAINALYSIS_API_KEY'',
      ChainalysisAPIURL = envOr env ''CHAINALYSIS_API_URL'' ''https://api.chainalysis.com'',
      TRMAPIKey = Getenv env ''TRM_API_KEY'',
      TRMAPIURL = envOr env ''TRM_API_URL'' ''https://api.trmlabs.com''\<rparr>"

section \<open>Idempotency keys\<close>

lemma colon_split:
  assumes "CHR '':'' \<notin> set a" and "CHR '':'' \<notin> set b"
  shows "a @ CHR '':'' # s = b @ CHR '':'' # t \<longleftrightarrow> a = b \<and> s = t"
  using assms
proof (induction a arbitrary: b)
  case Nil
  then show ?case by (cases b) auto
next
  case (Cons x a)
  then show ?case by (cases b) auto
qed

text \<open>
  Two screens share an idempotency key exactly when they have the same transaction, address
  and chain, provided transaction ids and addresses contain no colon.  Without that the key is
  ambiguous: \<open>(a:b, c, d)\<close> and \<open>(a, b:c, d)\<close> share one, and the second screen is answered with
  the vendor response of the first.
\<close>

theorem idempotency_key_injective:
  "(CHR '':'' \<notin> set t \<and> CHR '':'' \<notin> set t' \<and> CHR '':'' \<notin> set a \<and> CHR '':'' \<notin> set a' \<longrightarrow>
     (IdempotencyKey t a c = IdempotencyKey t' a' c' \<longleftrightarrow> t = t' \<and> a = a' \<and> c = c'))
   \<and> IdempotencyKey (x @ '':'' @ y) z c = IdempotencyKey x (y @ '':'' @ z) c"
  using colon_split [of t t'] colon_split [of a a'] by (auto simp: IdempotencyKey_def)

theorem idempotency_key_injective_witness:
  "IdempotencyKey ''tx1'' ''0xa'' ''ethereum'' \<noteq> IdempotencyKey ''tx1'' ''0xb'' ''ethereum''"
  using idempotency_key_injective [of "''tx1''" "''tx1''" "''0xa''" "''0xb''" "''ethereum''" "''ethereum''"
      "[]" "[]" "[]"]
  by simp

end
