(* ===== verification/Cache.thy ===== *)
theory Cache
  imports Vendor
begin

text \<open>
  The address-risk cache as the screen path sees it: \<open>screen.Verdict\<close> and the \<open>screen.Cache\<close>
  interface (\<open>internal/screen/screen.go\<close>), \<open>store.TTLFor\<close> (\<open>internal/store/cache.go\<close>) and
  \<open>MemoryCache\<close> (\<open>internal/screen/memory_cache.go\<close>).  Two contracts are stated: a
  \<open>verdict_cache\<close> only ever returns verdicts that were set, and a \<open>keyed_cache\<close> returns the last
  verdict set under a key until its time to live has passed.
\<close>

section \<open>Verdicts and the cache interface\<close>

record Verdict =
  vd_Address :: string
  vd_Chain :: string
  vd_RiskScore :: int
  vd_Exposure :: string
  vd_Decision :: string
  vd_Vendor :: string

record 's CacheOps =
  c_Get :: "world \<Rightarrow> 's \<Rightarrow> string \<Rightarrow> string \<Rightarrow> (go_error + Verdict option) \<times> world \<times> 's"
  c_Set :: "world \<Rightarrow> 's \<Rightarrow> Verdict \<Rightarrow> go_error option \<times> world \<times> 's"
  c_Delete :: "world \<Rightarrow> 's \<Rightarrow> string \<Rightarrow> string \<Rightarrow> go_error option \<times> world \<times> 's"

definition TTLFor :: "string \<Rightarrow> duration \<Rightarrow> duration \<Rightarrow> duration" where
  "TTLFor exposure defaultTTL sanctionedTTL =
     (if exposure = ''SANCTIONED'' then sanctionedTTL else defaultTTL)"

section \<open>The in-memory cache\<close>

record cacheEntry =
  ce_verdict :: Verdict
  ce_expiresAt :: gotime

record MemoryCache =
  mc_mem :: "(string \<times> cacheEntry) list"
  mc_defaultTTL :: duration
  mc_sanctionedTTL :: duration

definition cacheKey :: "string \<Rightarrow> string \<Rightarrow> string" where
  "cacheKey address chain = chain @ '':'' @ address"

definition NewMemoryCache :: "duration \<Rightarrow> duration \<Rightarrow> MemoryCache" where
  "NewMemoryCache defaultTTL sanctionedTTL =
     \<lparr>mc_mem = [], mc_defaultTTL = defaultTTL, mc_sanctionedTTL = sanctionedTTL\<rparr>"

definition MemoryCache_Get ::
    "world \<Rightarrow> MemoryCache \<Rightarrow> string \<Rightarrow> string \<Rightarrow> (go_error + Verdict option) \<times> world \<times> MemoryCache" where
  "MemoryCache_Get w c address chain =
     (case map_of (mc_mem c) (cacheKey address chain) of
        None \<Rightarrow> (Inr None, w, c)
      | Some e \<Rightarrow>
          (let (now, w1) = time_Now w in
           if time_After now (ce_expiresAt e) then (Inr None, w1, c)
           else (Inr (Some (ce_verdict e)), w1, c)))"

definition MemoryCache_Set ::
    "world \<Rightarrow> MemoryCache \<Rightarrow> Verdict \<Rightarrow> go_error option \<times> world \<times> MemoryCache" where
  "MemoryCache_Set w c v =
     (let ttl = (if vd_Exposure v = ''SANCTIONED'' then mc_sanctionedTTL c else mc_defaultTTL c);
          (now, w1) = time_Now w
      in (None, w1,
          c\<lparr>mc_mem := AList.update (cacheKey (vd_Address v) (vd_Chain v))
               \<lparr>ce_verdict = v, ce_expiresAt = time_Add now ttl\<rparr> (mc_mem c)\<rparr>))"

definition MemoryCache_Delete ::
    "world \<Rightarrow> MemoryCache \<Rightarrow> string \<Rightarrow> string \<Rightarrow> go_error option \<times> world \<times> MemoryCache" where
  "MemoryCache_Delete w c address chain =
     (None, w, c\<lparr>mc_mem := AList.delete (cacheKey address chain) (mc_mem c)\<rparr>)"

definition MemoryCache_Len :: "MemoryCache \<Rightarrow> nat" where
  "MemoryCache_Len c = length (mc_mem c)"

definition memory_cache :: "MemoryCache CacheOps" where
  "memory_cache = \<lparr>c_Get = MemoryCache_Get, c_Set = MemoryCache_Set, c_Delete = MemoryCache_Delete\<rparr>"

section \<open>Contracts\<close>

text \<open>The calls a cache receives, from screens (get, set) and webhooks (delete).\<close>

datatype cache_op = CacheGet string string | CacheSet Verdict | CacheDelete string string

fun cache_step :: "'s CacheOps \<Rightarrow> cache_op \<Rightarrow> world \<times> 's \<Rightarrow> world \<times> 's" where
  "cache_step ops (CacheGet a c) (w, s) = snd (c_Get ops w s a c)"
| "cache_step ops (CacheSet v) (w, s) = snd (c_Set ops w s v)"
| "cache_step ops (CacheDelete a c) (w, s) = snd (c_Delete ops w s a c)"

fun writes_key :: "(string \<Rightarrow> string \<Rightarrow> 'k) \<Rightarrow> cache_op \<Rightarrow> 'k option" where
  "writes_key key (CacheGet a c) = None"
| "writes_key key (CacheSet v) = Some (key (vd_Address v) (vd_Chain v))"
| "writes_key key (CacheDelete a c) = Some (key a c)"

locale verdict_cache =
  fixes ops :: "'s CacheOps"
    and held :: "'s \<Rightarrow> Verdict set"
  assumes get_held: "c_Get ops w s a c = (r, w', s') \<Longrightarrow>
      held s' \<subseteq> held s \<and> (\<forall>v. r = Inr (Some v) \<longrightarrow> v \<in> held s)"
    and set_held: "c_Set ops w s v = (e, w', s') \<Longrightarrow> held s' \<subseteq> insert v (held s)"
    and delete_held: "c_Delete ops w s a c = (e, w', s') \<Longrightarrow> held s' \<subseteq> held s"
    and get_world: "c_Get ops w s a c = (r, w', s') \<Longrightarrow> world_le w w'"
    and set_world: "c_Set ops w s v = (e, w', s') \<Longrightarrow> world_le w w'"
    and delete_world: "c_Delete ops w s a c = (e, w', s') \<Longrightarrow> world_le w w'"
begin

lemma step_held:
  assumes "cache_step ops op (w, s) = (w', s')" and "u \<in> held s'"
  shows "u \<in> held s \<or> op = CacheSet u"
proof (cases op)
  case (CacheGet a c)
  then show ?thesis using assms get_held [of w s a c] by (cases "c_Get ops w s a c") auto
next
  case (CacheSet v)
  then show ?thesis using assms set_held [of w s v] by (cases "c_Set ops w s v") auto
next
  case (CacheDelete a c)
  then show ?thesis using assms delete_held [of w s a c] by (cases "c_Delete ops w s a c") auto
qed

lemma run_held:
  "u \<in> held (snd (fold (cache_step ops) os (w, s))) \<Longrightarrow> u \<in> held s \<or> CacheSet u \<in> set os"
proof (induction os arbitrary: w s)
  case Nil
  then show ?case by simp
next
  case (Cons op os)
  obtain w1 s1 where s1: "cache_step ops op (w, s) = (w1, s1)" by fastforce
  with Cons show ?case using step_held [OF s1] by auto
qed

end

locale keyed_cache = verdict_cache +
  fixes key :: "string \<Rightarrow> string \<Rightarrow> 'k"
    and entry :: "'s \<Rightarrow> 'k \<rightharpoonup> Verdict \<times> gotime"
    and ttl :: "'s \<Rightarrow> Verdict \<Rightarrow> duration"
  assumes get_entry: "c_Get ops w s a c = (r, w', s') \<Longrightarrow>
      s' = s \<and> r = Inr (case entry s (key a c) of
        None \<Rightarrow> None | Some (v, t) \<Rightarrow> if t < clk w (ticks w) then None else Some v)"
    and set_entry: "c_Set ops w s v = (e, w', s') \<Longrightarrow>
      entry s' = (entry s)(key (vd_Address v) (vd_Chain v) \<mapsto> (v, clk w (ticks w) + ttl s v))"
    and delete_entry: "c_Delete ops w s a c = (e, w', s') \<Longrightarrow> entry s' = (entry s)(key a c := None)"
begin

lemma step_entry:
  assumes "cache_step ops op (w, s) = (w', s')"
  shows "entry s' = (case op of
      CacheGet a c \<Rightarrow> entry s
    | CacheSet v \<Rightarrow> (entry s)(key (vd_Address v) (vd_Chain v) \<mapsto> (v, clk w (ticks w) + ttl s v))
    | CacheDelete a c \<Rightarrow> (entry s)(key a c := None))"
proof (cases op)
  case (CacheGet a c)
  then show ?thesis using assms get_entry [of w s a c] by (cases "c_Get ops w s a c") simp
next
  case (CacheSet v)
  then show ?thesis using assms set_entry [of w s v] by (cases "c_Set ops w s v") simp
next
  case (CacheDelete a c)
  then show ?thesis using assms delete_entry [of w s a c] by (cases "c_Delete ops w s a c") simp
qed

lemma step_untouched:
  "cache_step ops op (w, s) = (w', s') \<Longrightarrow> writes_key key op \<noteq> Some k \<Longrightarrow> entry s' k = entry s k"
  by (drule step_entry, cases op) auto

lemma run_untouched:
  "\<forall>op \<in> set os. writes_key key op \<noteq> Some k \<Longrightarrow>
     entry (snd (fold (cache_step ops) os (w, s))) k = entry s k"
proof (induction os arbitrary: w s)
  case Nil
  then show ?case by simp
next
  case (Cons op os)
  obtain w1 s1 where s1: "cache_step ops op (w, s) = (w1, s1)" by fastforce
  then have "entry s1 k = entry s k" using step_untouched Cons.prems by simp
  moreover have "entry (snd (fold (cache_step ops) os (w1, s1))) k = entry s1 k"
    using Cons.prems by (intro Cons.IH) simp
  ultimately show ?case using s1 by simp
qed

text \<open>Every entry stays filed under the key of its own verdict.\<close>

definition filed :: "'s \<Rightarrow> bool" where
  "filed s \<longleftrightarrow> (\<forall>k v t. entry s k = Some (v, t) \<longrightarrow> k = key (vd_Address v) (vd_Chain v))"

lemma step_filed: "cache_step ops op (w, s) = (w', s') \<Longrightarrow> filed s \<Longrightarrow> filed s'"
  by (drule step_entry, cases op) (auto simp: filed_def split: if_splits)

lemma run_filed: "filed s \<Longrightarrow> filed (snd (fold (cache_step ops) os (w, s)))"
proof (induction os arbitrary: w s)
  case Nil
  then show ?case by simp
next
  case (Cons op os)
  obtain w1 s1 where s1: "cache_step ops op (w, s) = (w1, s1)" by fastforce
  then show ?case using Cons step_filed by simp
qed

text \<open>What a read returns after a run that does not write its key.\<close>

lemma read_after_run:
  assumes "\<forall>op \<in> set os. writes_key key op \<noteq> Some (key a c)"
    and "fold (cache_step ops) os (w, s) = (w1, s1)"
  shows "fst (c_Get ops w1 s1 a c) = Inr (case entry s (key a c) of
     None \<Rightarrow> None | Some (v, t) \<Rightarrow> if t < clk w1 (ticks w1) then None else Some v)"
proof -
  have "entry s1 (key a c) = entry s (key a c)"
    using run_untouched [OF assms(1), of w s] assms(2) by simp
  then show ?thesis using get_entry [of w1 s1 a c] by (cases "c_Get ops w1 s1 a c") simp
qed

end

section \<open>The in-memory cache satisfies both\<close>

definition mc_held :: "MemoryCache \<Rightarrow> Verdict set" where
  "mc_held c = ce_verdict ` snd ` set (mc_mem c)"

definition mc_entry :: "MemoryCache \<Rightarrow> string \<rightharpoonup> Verdict \<times> gotime" where
  "mc_entry c k = map_option (\<lambda>e. (ce_verdict e, ce_expiresAt e)) (map_of (mc_mem c) k)"

definition mc_ttl :: "MemoryCache \<Rightarrow> Verdict \<Rightarrow> duration" where
  "mc_ttl c v = TTLFor (vd_Exposure v) (mc_defaultTTL c) (mc_sanctionedTTL c)"

lemma memory_cache_simps [simp]:
  "c_Get memory_cache = MemoryCache_Get"
  "c_Set memory_cache = MemoryCache_Set"
  "c_Delete memory_cache = MemoryCache_Delete"
  by (simp_all add: memory_cache_def)

lemma memory_get:
  "MemoryCache_Get w c a ch = (r, w', c') \<Longrightarrow> c' = c \<and>
     r = Inr (case mc_entry c (cacheKey a ch) of
        None \<Rightarrow> None | Some (v, t) \<Rightarrow> if t < clk w (ticks w) then None else Some v)"
  by (auto simp: MemoryCache_Get_def mc_entry_def time_Now_def time_After_def split: option.splits if_splits)

lemma memory_set:
  "MemoryCache_Set w c v = (e, w', c') \<Longrightarrow>
     mc_entry c' = (mc_entry c)(cacheKey (vd_Address v) (vd_Chain v) \<mapsto> (v, clk w (ticks w) + mc_ttl c v))"
  by (auto simp: MemoryCache_Set_def mc_entry_def time_Now_def time_Add_def mc_ttl_def TTLFor_def)

lemma memory_set_mem:
  "MemoryCache_Set w c v = (e, w', c') \<Longrightarrow>
     mc_mem c' = AList.update (cacheKey (vd_Address v) (vd_Chain v))
       \<lparr>ce_verdict = v, ce_expiresAt = clk w (ticks w) + mc_ttl c v\<rparr> (mc_mem c)"
  by (auto simp: MemoryCache_Set_def time_Now_def time_Add_def mc_ttl_def TTLFor_def)

lemma memory_delete_mem:
  "MemoryCache_Delete w c a ch = (e, w', c') \<Longrightarrow> mc_mem c' = AList.delete (cacheKey a ch) (mc_mem c)"
  by (auto simp: MemoryCache_Delete_def)

lemma memory_set_ttls:
  "MemoryCache_Set w c v = (e, w', c') \<Longrightarrow>
     mc_defaultTTL c' = mc_defaultTTL c \<and> mc_sanctionedTTL c' = mc_sanctionedTTL c"
  by (auto simp: MemoryCache_Set_def time_Now_def)

lemma memory_delete:
  "MemoryCache_Delete w c a ch = (e, w', c') \<Longrightarrow> mc_entry c' = (mc_entry c)(cacheKey a ch := None)"
  by (auto simp: MemoryCache_Delete_def mc_entry_def)

lemma mc_held_get: "mc_entry c k = Some (v, t) \<Longrightarrow> v \<in> mc_held c"
  by (auto simp: mc_entry_def mc_held_def dest!: map_of_SomeD) (force simp: image_iff)

interpretation mcv: verdict_cache memory_cache mc_held
proof unfold_locales
  fix w c a ch r w' c' v e
  {
    assume "c_Get memory_cache w c a ch = (r, w', c')"
    then have get: "MemoryCache_Get w c a ch = (r, w', c')" by simp
    have "v \<in> mc_held c" if r: "r = Inr (Some v)" for v
    proof -
      obtain t where "mc_entry c (cacheKey a ch) = Some (v, t)"
        using memory_get [OF get] r
        by (cases "mc_entry c (cacheKey a ch)") (auto split: if_splits prod.splits)
      then show ?thesis by (rule mc_held_get)
    qed
    then show "mc_held c' \<subseteq> mc_held c \<and> (\<forall>v. r = Inr (Some v) \<longrightarrow> v \<in> mc_held c)"
      using memory_get [OF get] by simp
  }
  show "c_Set memory_cache w c v = (e, w', c') \<Longrightarrow> mc_held c' \<subseteq> insert v (mc_held c)"
    using image_values_update [of ce_verdict "cacheKey (vd_Address v) (vd_Chain v)"
        "\<lparr>ce_verdict = v, ce_expiresAt = clk w (ticks w) + mc_ttl c v\<rparr>" "mc_mem c"]
    by (simp add: memory_set_mem mc_held_def)
  show "c_Delete memory_cache w c a ch = (e, w', c') \<Longrightarrow> mc_held c' \<subseteq> mc_held c"
    using image_values_delete [of ce_verdict "cacheKey a ch" "mc_mem c"]
    by (simp add: memory_delete_mem mc_held_def)
  show "c_Get memory_cache w c a ch = (r, w', c') \<Longrightarrow> world_le w w'"
    by (auto simp: MemoryCache_Get_def time_Now_def split: option.splits if_splits)
  show "c_Set memory_cache w c v = (e, w', c') \<Longrightarrow> world_le w w'"
    by (auto simp: MemoryCache_Set_def time_Now_def)
  show "c_Delete memory_cache w c a ch = (e, w', c') \<Longrightarrow> world_le w w'"
    by (auto simp: MemoryCache_Delete_def)
qed

interpretation mck: keyed_cache memory_cache mc_held cacheKey mc_entry mc_ttl
  by unfold_locales (use memory_get memory_set memory_delete in auto)

section \<open>What the cache serves\<close>

text \<open>
  Time to live.  A verdict set at time \<open>t\<close> is served, whatever other addresses are read, set or
  deleted meanwhile, exactly until \<open>t\<close> plus the time to live of its exposure: the sanctioned one for
  \<open>SANCTIONED\<close>, the default one for every other exposure.
\<close>

theorem cache_serves_until_expiry:
  assumes "MemoryCache_Set w c v = (e, w1, c1)"
    and "\<forall>op \<in> set os. writes_key cacheKey op \<noteq> Some (cacheKey (vd_Address v) (vd_Chain v))"
    and "fold (cache_step memory_cache) os (w1, c1) = (w2, c2)"
  shows "fst (MemoryCache_Get w2 c2 (vd_Address v) (vd_Chain v)) = Inr
    (if clk w2 (ticks w2)
          \<le> clk w (ticks w) + TTLFor (vd_Exposure v) (mc_defaultTTL c) (mc_sanctionedTTL c)
     then Some v else None)"
  using mck.read_after_run [OF assms(2,3)] memory_set [OF assms(1)]
  by (simp add: mc_ttl_def not_le)

definition demo_verdict :: Verdict where
  "demo_verdict = \<lparr>vd_Address = ''0xbad'', vd_Chain = ''ethereum'', vd_RiskScore = 95,
     vd_Exposure = ''SANCTIONED'', vd_Decision = ''BLOCK'', vd_Vendor = ''mock''\<rparr>"

definition demo_cache_world :: world where
  "demo_cache_world = \<lparr>clk = (\<lambda>n. 100 * int n), ticks = 0, uuids = (\<lambda>n. replicate (Suc n) (CHR ''a'')), drawn = 0\<rparr>"

theorem cache_serves_until_expiry_witness:
  "let (e, w1, c1) = MemoryCache_Set demo_cache_world (NewMemoryCache 50 250) demo_verdict;
       (w2, c2) = fold (cache_step memory_cache) [CacheDelete ''0xabc'' ''ethereum''] (w1, c1)
   in fst (MemoryCache_Get w2 c2 ''0xbad'' ''ethereum'') = Inr (Some demo_verdict)"
  using cache_serves_until_expiry [of demo_cache_world "NewMemoryCache 50 250" demo_verdict None _ _
      "[CacheDelete ''0xabc'' ''ethereum'']"]
  by (simp add: MemoryCache_Set_def time_Now_def MemoryCache_Delete_def demo_verdict_def
      cacheKey_def demo_cache_world_def TTLFor_def NewMemoryCache_def)

text \<open>
  Deletion.  Once the entry of an address is deleted (a webhook re-classification), the cache
  misses for that address until a verdict is set for it again.
\<close>

theorem cache_delete_forgets:
  assumes "MemoryCache_Delete w c a ch = (e, w1, c1)"
    and "\<forall>op \<in> set os. writes_key cacheKey op \<noteq> Some (cacheKey a ch)"
    and "fold (cache_step memory_cache) os (w1, c1) = (w2, c2)"
  shows "fst (MemoryCache_Get w2 c2 a ch) = Inr None"
  using mck.read_after_run [OF assms(2,3)] memory_delete [OF assms(1)] by simp

theorem cache_delete_forgets_witness:
  "let (e0, w0, c0) = MemoryCache_Set demo_cache_world (NewMemoryCache 50 250) demo_verdict;
       (e, w1, c1) = MemoryCache_Delete w0 c0 ''0xbad'' ''ethereum''
   in fst (MemoryCache_Get w1 c1 ''0xbad'' ''ethereum'') = Inr None"
  using cache_delete_forgets [of _ _ "''0xbad''" "''ethereum''" _ _ _ "[]"]
  by (auto split: prod.splits)

text \<open>
  No verdict of another address.  As long as no chain name contains a colon, whatever the cache
  serves for an address and chain was set for that address and chain, after any sequence of calls.
\<close>

theorem cache_serves_own_address:
  assumes "fold (cache_step memory_cache) os (w, NewMemoryCache d s) = (w1, c1)"
    and "\<forall>v. CacheSet v \<in> set os \<longrightarrow> CHR '':'' \<notin> set (vd_Chain v)" and "CHR '':'' \<notin> set ch"
    and "fst (MemoryCache_Get w1 c1 a ch) = Inr (Some v)"
  shows "vd_Address v = a \<and> vd_Chain v = ch \<and> CacheSet v \<in> set os"
proof -
  have entry: "\<exists>t. mc_entry c1 (cacheKey a ch) = Some (v, t)"
    using assms(4) memory_get [of w1 c1 a ch]
    by (cases "MemoryCache_Get w1 c1 a ch") (auto split: option.splits if_splits)
  have "mck.filed (NewMemoryCache d s)" by (simp add: mck.filed_def mc_entry_def NewMemoryCache_def)
  then have "mck.filed c1" using mck.run_filed [of _ os w] assms(1) by (metis snd_conv)
  then have key: "cacheKey a ch = cacheKey (vd_Address v) (vd_Chain v)"
    using entry by (auto simp: mck.filed_def)
  have set: "CacheSet v \<in> set os"
    using mcv.run_held [of v os w "NewMemoryCache d s"] entry assms(1) mc_held_get
    by (auto simp: mc_held_def NewMemoryCache_def)
  then show ?thesis using key assms(2,3) colon_split [of ch "vd_Chain v"] by (auto simp: cacheKey_def)
qed

theorem cache_serves_own_address_witness:
  "fst (MemoryCache_Get demo_cache_world
      (snd (fold (cache_step memory_cache) [CacheSet demo_verdict] (demo_cache_world, NewMemoryCache 50 250)))
      ''0xbad'' ''ethereum'') = Inr (Some demo_verdict)
   \<and> vd_Chain demo_verdict = ''ethereum''"
proof -
  obtain w1 c1 where run: "fold (cache_step memory_cache) [CacheSet demo_verdict]
      (demo_cache_world, NewMemoryCache 50 250) = (w1, c1)" by fastforce
  then have got: "fst (MemoryCache_Get demo_cache_world c1 ''0xbad'' ''ethereum'') = Inr (Some demo_verdict)"
    and got1: "fst (MemoryCache_Get w1 c1 ''0xbad'' ''ethereum'') = Inr (Some demo_verdict)"
    by (auto simp: MemoryCache_Set_def MemoryCache_Get_def time_Now_def demo_verdict_def time_After_def
        time_Add_def cacheKey_def demo_cache_world_def NewMemoryCache_def)
  show ?thesis
    using cache_serves_own_address [OF run _ _ got1] got run by (simp add: demo_verdict_def)
qed

text \<open>
  With colons the key is ambiguous: chain \<open>x:y\<close> with address \<open>z\<close> and chain \<open>x\<close> with address
  \<open>y:z\<close> share an entry, so a read for the second is answered with whatever the first holds.
\<close>

theorem cache_key_ambiguous:
  "MemoryCache_Get w c (y @ '':'' @ z) x = MemoryCache_Get w c z (x @ '':'' @ y)"
  by (simp add: MemoryCache_Get_def cacheKey_def)
end
