(* ===== verification/Idempotent.thy ===== *)
theory Idempotent
  imports Vendor
begin

text \<open>
  \<open>internal/vendor/idempotent.go\<close> and \<open>mock_provider.go\<close>: the store of vendor responses keyed by
  idempotency key, its in-memory implementation, the provider that answers retries from it, and
  the mock provider.  The locale \<open>response_store\<close> is the contract the Go interface documents;
  the replay lemma is proved in it and \<open>MemoryResponseStore\<close> is shown to satisfy it.
\<close>

section \<open>The response store\<close>

record VendorResponseRecord =
  vrr_ID :: string
  vrr_Vendor :: string
  vrr_RequestPayload :: string
  vrr_ResponsePayload :: string
  vrr_IdempotencyKey :: string
  vrr_Address :: string
  vrr_Chain :: string
  vrr_TxID :: string
  vrr_CreatedAt :: gotime

record 's ResponseStore =
  rs_Get :: "'s \<Rightarrow> string \<Rightarrow> (go_error + VendorResponseRecord option) \<times> 's"
  rs_Put :: "world \<Rightarrow> 's \<Rightarrow> VendorResponseRecord \<Rightarrow> go_error option \<times> world \<times> 's"

type_synonym MemoryResponseStore = "(string \<times> VendorResponseRecord) list"

definition NewMemoryResponseStore :: MemoryResponseStore where
  "NewMemoryResponseStore = []"

definition MemoryResponseStore_Get ::
    "MemoryResponseStore \<Rightarrow> string \<Rightarrow> (go_error + VendorResponseRecord option) \<times> MemoryResponseStore" where
  "MemoryResponseStore_Get s key = (Inr (map_of s key), s)"

definition MemoryResponseStore_Put ::
    "world \<Rightarrow> MemoryResponseStore \<Rightarrow> VendorResponseRecord \<Rightarrow> go_error option \<times> world \<times> MemoryResponseStore" where
  "MemoryResponseStore_Put w s rec =
     (if vrr_IdempotencyKey rec = '''' then (Some (ErrText ''idempotency key required''), w, s)
      else if map_of s (vrr_IdempotencyKey rec) \<noteq> None then (None, w, s)
      else if IsZero (vrr_CreatedAt rec) then
        (let (now, w1) = time_Now w;
             rec1 = rec\<lparr>vrr_CreatedAt := now\<rparr>
         in (None, w1, AList.update (vrr_IdempotencyKey rec1) rec1 s))
      else (None, w, AList.update (vrr_IdempotencyKey rec) rec s))"

definition MemoryResponseStore_Len :: "MemoryResponseStore \<Rightarrow> nat" where
  "MemoryResponseStore_Len s = length s"

definition memory_response_store :: "MemoryResponseStore ResponseStore" where
  "memory_response_store = \<lparr>rs_Get = MemoryResponseStore_Get, rs_Put = MemoryResponseStore_Put\<rparr>"

section \<open>The idempotent provider\<close>

text \<open>The request with the key that \<open>Screen\<close> uses.\<close>

definition with_key :: "ScreenRequest \<Rightarrow> ScreenRequest" where
  "with_key req =
     (if vq_IdempotencyKey req = ''''
      then req\<lparr>vq_IdempotencyKey := IdempotencyKey (vq_TxID req) (vq_Address req) (vq_Chain req)\<rparr>
      else req)"

text \<open>Re-hydration: \<open>json.Unmarshal\<close> into \<open>risk_score\<close> and \<open>exposure\<close>.\<close>

definition verdict_setter :: "string \<Rightarrow> string \<Rightarrow> json \<Rightarrow> int \<times> string \<Rightarrow> (int \<times> string) option" where
  "verdict_setter score_key f v r =
     (if f = score_key then set_int (\<lambda>n (_, e). (n, e)) v r else set_str (\<lambda>e (n, _). (n, e)) v r)"

definition hydrate :: "string \<Rightarrow> go_error + (int \<times> string)" where
  "hydrate raw = unmarshal [''risk_score'', ''exposure''] (verdict_setter ''risk_score'') (0, '''') raw"

definition marshal_request :: "ScreenRequest \<Rightarrow> string" where
  "marshal_request q = marshal_obj
     [(''TxID'', VStr (vq_TxID q)), (''Address'', VStr (vq_Address q)),
      (''SourceAddress'', VStr (vq_SourceAddress q)), (''Chain'', VStr (vq_Chain q)),
      (''Amount'', VStr (vq_Amount q)), (''IdempotencyKey'', VStr (vq_IdempotencyKey q))]"

definition marshal_verdict :: "string \<Rightarrow> int \<Rightarrow> string" where
  "marshal_verdict exposure score =
     marshal_obj [(''exposure'', VStr exposure), (''risk_score'', VInt score)]"

definition replay_of :: "VendorResponseRecord \<Rightarrow> int \<times> string \<Rightarrow> ScreenResponse" where
  "replay_of cached v =
     \<lparr>vr_Vendor = vrr_Vendor cached, vr_RiskScore = fst v, vr_Exposure = snd v,
      vr_RawRequest = vrr_RequestPayload cached, vr_RawResponse = vrr_ResponsePayload cached\<rparr>"

definition fill_raw :: "ScreenRequest \<Rightarrow> ScreenResponse \<Rightarrow> ScreenResponse" where
  "fill_raw req resp =
     resp\<lparr>vr_RawRequest := (if vr_RawRequest resp = '''' then marshal_request req else vr_RawRequest resp),
          vr_RawResponse := (if vr_RawResponse resp = ''''
             then marshal_verdict (vr_Exposure resp) (vr_RiskScore resp) else vr_RawResponse resp)\<rparr>"

definition IdempotentProvider_Screen ::
    "'p ScreenProvider \<Rightarrow> 's ResponseStore \<Rightarrow> world \<Rightarrow> 'p \<times> 's \<Rightarrow> ScreenRequest
     \<Rightarrow> (go_error + ScreenResponse) \<times> world \<times> ('p \<times> 's)" where
  "IdempotentProvider_Screen inner store w ps req0 =
     (let (p, s) = ps;
          req = with_key req0;
          (got, s1) = rs_Get store s (vq_IdempotencyKey req);
          hit = (case got of
                   Inr (Some cached) \<Rightarrow>
                     (case hydrate (vrr_ResponsePayload cached) of
                        Inr v \<Rightarrow> Some (replay_of cached v)
                      | Inl _ \<Rightarrow> None)
                 | _ \<Rightarrow> None)
      in case hit of
           Some resp \<Rightarrow> (Inr resp, w, (p, s1))
         | None \<Rightarrow>
             (case prov_Screen inner w p req of
                (Inl e, w1, p1) \<Rightarrow> (Inl e, w1, (p1, s1))
              | (Inr resp0, w1, p1) \<Rightarrow>
                  (let resp = fill_raw req resp0;
                       (now, w2) = time_Now w1;
                       rec = \<lparr>vrr_ID = '''', vrr_Vendor = vr_Vendor resp,
                              vrr_RequestPayload = vr_RawRequest resp,
                              vrr_ResponsePayload = vr_RawResponse resp,
                              vrr_IdempotencyKey = vq_IdempotencyKey req,
                              vrr_Address = vq_Address req, vrr_Chain = vq_Chain req,
                              vrr_TxID = vq_TxID req, vrr_CreatedAt = now\<rparr>;
                       (err, w3, s2) = rs_Put store w2 s1 rec
                   in case err of
                        Some e \<Rightarrow> (Inl (Wrap ''persist vendor response'' e), w3, (p1, s2))
                      | None \<Rightarrow> (Inr resp, w3, (p1, s2)))))"

definition idempotent_provider :: "'p ScreenProvider \<Rightarrow> 's ResponseStore \<Rightarrow> ('p \<times> 's) ScreenProvider" where
  "idempotent_provider inner store =
     \<lparr>prov_Name = (\<lambda>(p, s). prov_Name inner p),
      prov_Screen = IdempotentProvider_Screen inner store\<rparr>"

section \<open>The mock provider\<close>

record MockResponse =
  mr_Address :: string
  mr_Chain :: string
  mr_RiskScore :: int
  mr_Exposure :: string
  mr_Err :: "go_error option"

record MockProvider =
  mp_name :: string
  mp_responses :: "string \<rightharpoonup> MockResponse"
  mp_calls :: int
  mp_failNext :: int

definition NewMockProvider :: "string \<Rightarrow> MockProvider" where
  "NewMockProvider name = \<lparr>mp_name = name, mp_responses = Map.empty, mp_calls = 0, mp_failNext = 0\<rparr>"

definition mock_key :: "string \<Rightarrow> string \<Rightarrow> string" where
  "mock_key addr chain = addr @ ''|'' @ chain"

definition SetResponse :: "string \<Rightarrow> string \<Rightarrow> MockResponse \<Rightarrow> MockProvider \<Rightarrow> MockProvider" where
  "SetResponse addr chain r m =
     m\<lparr>mp_responses := (mp_responses m)(mock_key addr chain \<mapsto> r\<lparr>mr_Address := addr, mr_Chain := chain\<rparr>)\<rparr>"

definition FailNextN :: "int \<Rightarrow> MockProvider \<Rightarrow> MockProvider" where
  "FailNextN n m = m\<lparr>mp_failNext := n\<rparr>"

definition MockProvider_Screen ::
    "world \<Rightarrow> MockProvider \<Rightarrow> ScreenRequest \<Rightarrow> (go_error + ScreenResponse) \<times> world \<times> MockProvider" where
  "MockProvider_Screen w m0 req =
     (let m = m0\<lparr>mp_calls := mp_calls m0 + 1\<rparr> in
      if mp_failNext m > 0 then
        (Inl ErrVendorUnavailable, w, m\<lparr>mp_failNext := mp_failNext m - 1\<rparr>)
      else case mp_responses m (mock_key (vq_Address req) (vq_Chain req)) of
          None \<Rightarrow>
            (Inr \<lparr>vr_Vendor = mp_name m, vr_RiskScore = 0, vr_Exposure = ''CLEAN'',
                  vr_RawRequest = '''', vr_RawResponse = ''''\<rparr>, w, m)
        | Some r \<Rightarrow>
            (case mr_Err r of
               Some e \<Rightarrow> (Inl e, w, m)
             | None \<Rightarrow>
                 (Inr \<lparr>vr_Vendor = mp_name m, vr_RiskScore = mr_RiskScore r, vr_Exposure = mr_Exposure r,
                       vr_RawRequest = '''', vr_RawResponse = ''''\<rparr>, w, m)))"

definition mock_provider :: "MockProvider ScreenProvider" where
  "mock_provider = \<lparr>prov_Name = mp_name, prov_Screen = MockProvider_Screen\<rparr>"

section \<open>The contract of a response store\<close>

locale response_store =
  fixes ops :: "'s ResponseStore"
    and ok :: "'s \<Rightarrow> bool"
    and contents :: "'s \<Rightarrow> string \<rightharpoonup> VendorResponseRecord"
  assumes get_contents: "ok s \<Longrightarrow> rs_Get ops s k = (Inr (contents s k), s)"
    and put_ok: "ok s \<Longrightarrow> ok (snd (snd (rs_Put ops w s r)))"
    and put_present: "ok s \<Longrightarrow> vrr_IdempotencyKey r \<noteq> '''' \<Longrightarrow> contents s (vrr_IdempotencyKey r) = Some r' \<Longrightarrow>
      rs_Put ops w s r = (None, w, s)"
    and put_absent: "ok s \<Longrightarrow> vrr_IdempotencyKey r \<noteq> '''' \<Longrightarrow> contents s (vrr_IdempotencyKey r) = None \<Longrightarrow>
      vrr_CreatedAt r \<noteq> 0 \<Longrightarrow>
      fst (rs_Put ops w s r) = None \<and>
      contents (snd (snd (rs_Put ops w s r))) = (contents s)(vrr_IdempotencyKey r \<mapsto> r)"
begin

lemma replay:
  assumes "ok s" and "contents s (vq_IdempotencyKey (with_key req)) = Some c"
    and "hydrate (vrr_ResponsePayload c) = Inr v"
  shows "IdempotentProvider_Screen inner ops w (p, s) req = (Inr (replay_of c v), w, (p, s))"
  using assms by (simp add: IdempotentProvider_Screen_def get_contents)

lemma first_call:
  assumes "ok s" and "contents s (vq_IdempotencyKey (with_key req)) = None"
    and "prov_Screen inner w p (with_key req) = (Inr r, w1, p1)"
    and "vq_IdempotencyKey (with_key req) \<noteq> ''''"
    and "clk w1 (ticks w1) \<noteq> 0"
  shows "\<exists>w' s' c. IdempotentProvider_Screen inner ops w (p, s) req =
      (Inr (fill_raw (with_key req) r), w', (p1, s')) \<and> ok s'
      \<and> contents s' = (contents s)(vq_IdempotencyKey (with_key req) \<mapsto> c)
      \<and> vrr_Vendor c = vr_Vendor r
      \<and> vrr_ResponsePayload c = vr_RawResponse (fill_raw (with_key req) r)
      \<and> vrr_RequestPayload c = vr_RawRequest (fill_raw (with_key req) r)"
proof -
  let ?k = "with_key req" and ?f = "fill_raw (with_key req) r"
  let ?w2 = "w1\<lparr>ticks := Suc (ticks w1)\<rparr>"
  define c where "c = \<lparr>vrr_ID = '''', vrr_Vendor = vr_Vendor ?f, vrr_RequestPayload = vr_RawRequest ?f,
      vrr_ResponsePayload = vr_RawResponse ?f, vrr_IdempotencyKey = vq_IdempotencyKey ?k,
      vrr_Address = vq_Address ?k, vrr_Chain = vq_Chain ?k, vrr_TxID = vq_TxID ?k,
      vrr_CreatedAt = clk w1 (ticks w1)\<rparr>"
  obtain e w' s' where put: "rs_Put ops ?w2 s c = (e, w', s')" by (metis prod_cases3)
  have "contents s (vrr_IdempotencyKey c) = None" "vrr_IdempotencyKey c \<noteq> ''''" "vrr_CreatedAt c \<noteq> 0"
    using assms by (simp_all add: c_def)
  then have "e = None" "contents s' = (contents s)(vq_IdempotencyKey ?k \<mapsto> c)"
    using put_absent [OF assms(1), of c ?w2] put by (auto simp: c_def)
  moreover have "ok s'" using put_ok [OF assms(1), of ?w2 c] put by simp
  moreover have "IdempotentProvider_Screen inner ops w (p, s) req =
      (case e of Some e \<Rightarrow> (Inl (Wrap ''persist vendor response'' e), w', (p1, s'))
       | None \<Rightarrow> (Inr ?f, w', (p1, s')))"
    using assms put by (simp add: IdempotentProvider_Screen_def get_contents time_Now_def c_def Let_def)
  moreover have "vrr_Vendor c = vr_Vendor r" by (simp add: c_def fill_raw_def)
  ultimately show ?thesis by (auto simp: c_def)
qed

end

lemma memory_response_store_simps [simp]:
  "rs_Get memory_response_store = MemoryResponseStore_Get"
  "rs_Put memory_response_store = MemoryResponseStore_Put"
  by (simp_all add: memory_response_store_def)

interpretation mrs: response_store memory_response_store "\<lambda>s. distinct (keys_of s)" map_of
proof unfold_locales
  fix s :: MemoryResponseStore and k w r r'
  assume d: "distinct (keys_of s)"
  show "rs_Get memory_response_store s k = (Inr (map_of s k), s)"
    by (simp add: MemoryResponseStore_Get_def)
  show "distinct (keys_of (snd (snd (rs_Put memory_response_store w s r))))"
    using d by (simp add: MemoryResponseStore_Put_def time_Now_def distinct_update)
  show "vrr_IdempotencyKey r \<noteq> '''' \<Longrightarrow> map_of s (vrr_IdempotencyKey r) = Some r' \<Longrightarrow>
      rs_Put memory_response_store w s r = (None, w, s)"
    by (simp add: MemoryResponseStore_Put_def)
  show "vrr_IdempotencyKey r \<noteq> '''' \<Longrightarrow> map_of s (vrr_IdempotencyKey r) = None \<Longrightarrow> vrr_CreatedAt r \<noteq> 0 \<Longrightarrow>
      fst (rs_Put memory_response_store w s r) = None \<and>
      map_of (snd (snd (rs_Put memory_response_store w s r))) = (map_of s)(vrr_IdempotencyKey r \<mapsto> r)"
    by (auto simp: MemoryResponseStore_Put_def IsZero_def)
qed

section \<open>The providers advance the world\<close>

interpretation mock_adv: screen_provider mock_provider
  by unfold_locales
    (auto simp: mock_provider_def MockProvider_Screen_def Let_def split: if_splits option.splits)

lemma memory_put_advances: "rs_Put memory_response_store w s r = (e, w', s') \<Longrightarrow> world_le w w'"
  by (auto simp: MemoryResponseStore_Put_def time_Now_def Let_def split: if_splits)

lemma idempotent_advances:
  assumes "screen_provider inner"
  shows "screen_provider (idempotent_provider inner memory_response_store)"
proof
  fix w ps q r w' ps'
  assume "prov_Screen (idempotent_provider inner memory_response_store) w ps q = (r, w', ps')"
  then have run: "IdempotentProvider_Screen inner memory_response_store w ps q = (r, w', ps')"
    by (simp add: idempotent_provider_def)
  obtain p s where ps: "ps = (p, s)" by fastforce
  obtain r1 w1 p1 where inner: "prov_Screen inner w p (with_key q) = (r1, w1, p1)" by (metis prod_cases3)
  then have le: "world_le w w1" using screen_provider.advances [OF assms] by blast
  have put: "world_le w w3" if "rs_Put memory_response_store (w1\<lparr>ticks := Suc (ticks w1)\<rparr>) s rec = (e, w3, s2)"
    for rec e w3 s2
    using memory_put_advances [OF that] le world_le_ticks [of w1] by (meson world_le_trans)
  show "world_le w w'"
    using run inner le
    by (auto simp: IdempotentProvider_Screen_def ps MemoryResponseStore_Get_def time_Now_def Let_def
        simp del: memory_response_store_simps(2)
        dest: put split: option.splits sum.splits prod.splits)
qed

interpretation idem_mock: screen_provider "idempotent_provider mock_provider memory_response_store"
  by (rule idempotent_advances) (rule mock_adv.screen_provider_axioms)

section \<open>Retries\<close>

lemma hydrate_marshal_verdict:
  assumes "is_ascii e" and "minInt64 \<le> n" and "n \<le> maxInt64"
  shows "hydrate (marshal_verdict e n) = Inr (n, e)"
proof -
  have "list_all ascii_field [(''exposure'', VStr e), (''risk_score'', VInt n)]"
    using assms(1) by (simp add: is_ascii_def)
  then show ?thesis
    using assms
    by (simp add: hydrate_def unmarshal_def marshal_verdict_def parse_marshal_obj verdict_setter_def
        set_str_def set_int_def Atoi_Itoa)
qed

text \<open>The first answer for a key, whatever the clock says.\<close>

lemma memory_first_answer:
  assumes "distinct (keys_of s)" and "map_of s (vq_IdempotencyKey (with_key req)) = None"
    and "IdempotentProvider_Screen inner memory_response_store w (p, s) req = (Inr r, w', (p', s'))"
  shows "\<exists>r0 w1 c. prov_Screen inner w p (with_key req) = (Inr r0, w1, p') \<and> r = fill_raw (with_key req) r0
    \<and> distinct (keys_of s') \<and> map_of s' (vq_IdempotencyKey (with_key req)) = Some c \<and> vrr_Vendor c = vr_Vendor r
    \<and> vrr_ResponsePayload c = vr_RawResponse r \<and> vrr_RequestPayload c = vr_RawRequest r"
proof -
  obtain x w1 p1 where v: "prov_Screen inner w p (with_key req) = (x, w1, p1)" by (metis prod_cases3)
  then obtain r0 where x: "x = Inr r0"
    using assms(2,3) by (cases x) (simp_all add: IdempotentProvider_Screen_def MemoryResponseStore_Get_def Let_def)
  show ?thesis using assms v unfolding x
    by (auto simp: IdempotentProvider_Screen_def MemoryResponseStore_Get_def MemoryResponseStore_Put_def time_Now_def Let_def
        distinct_update split: if_splits prod.splits option.splits)
qed

text \<open>
  A provider that leaves the raw payload empty gets one from its score and exposure, so that a retry returns
  the first answer without calling it.
\<close>

theorem filled_answer_replayed:
  assumes "distinct (keys_of s)" and "map_of s (vq_IdempotencyKey (with_key req)) = None"
    and "prov_Screen inner w p (with_key req) = (Inr r, w1, p1)"
    and "vq_IdempotencyKey (with_key req) \<noteq> ''''" and "clk w1 (ticks w1) \<noteq> 0"
    and "vr_RawResponse r = ''''" and "is_ascii (vr_Exposure r)"
    and "minInt64 \<le> vr_RiskScore r" and "vr_RiskScore r \<le> maxInt64"
  shows "\<exists>w' s'. IdempotentProvider_Screen inner memory_response_store w (p, s) req
            = (Inr (fill_raw (with_key req) r), w', (p1, s'))
       \<and> (\<forall>req' v q. vq_IdempotencyKey (with_key req') = vq_IdempotencyKey (with_key req) \<longrightarrow>
            IdempotentProvider_Screen inner memory_response_store v (q, s') req'
              = (Inr (fill_raw (with_key req) r), v, (q, s')))"
proof -
  let ?f = "fill_raw (with_key req) r"
  obtain w' s' c where call: "IdempotentProvider_Screen inner memory_response_store w (p, s) req = (Inr ?f, w', (p1, s'))"
    and ok: "distinct (keys_of s')" and c: "map_of s' = (map_of s)(vq_IdempotencyKey (with_key req) \<mapsto> c)"
    "vrr_Vendor c = vr_Vendor r" "vrr_ResponsePayload c = vr_RawResponse ?f" "vrr_RequestPayload c = vr_RawRequest ?f"
    using mrs.first_call [OF assms(1-5)] by blast
  have "vr_RawResponse ?f = marshal_verdict (vr_Exposure r) (vr_RiskScore r)"
    using assms(6) by (simp add: fill_raw_def)
  then have h: "hydrate (vrr_ResponsePayload c) = Inr (vr_RiskScore r, vr_Exposure r)"
    using c(3) hydrate_marshal_verdict assms(7-9) by simp
  have "replay_of c (vr_RiskScore r, vr_Exposure r) = ?f"
    using c by (simp add: replay_of_def fill_raw_def)
  then have "IdempotentProvider_Screen inner memory_response_store v (q, s') req' = (Inr ?f, v, (q, s'))"
    if "vq_IdempotencyKey (with_key req') = vq_IdempotencyKey (with_key req)" for req' v q
    using mrs.replay [OF ok _ h, of req' inner v q] that c(1) by simp
  with call show ?thesis by blast
qed

definition demo_request :: ScreenRequest where
  "demo_request = \<lparr>vq_TxID = ''tx1'', vq_Address = ''0xbad'', vq_SourceAddress = '''', vq_Chain = ''ethereum'',
     vq_Amount = ''100'', vq_IdempotencyKey = ''''\<rparr>"

definition retry_world :: world where
  "retry_world = \<lparr>clk = (\<lambda>n. int n + 1), ticks = 0, uuids = (\<lambda>n. replicate (Suc n) (CHR ''i'')), drawn = 0\<rparr>"

definition demo_mock :: MockProvider where
  "demo_mock = SetResponse ''0xbad'' ''ethereum''
     \<lparr>mr_Address = '''', mr_Chain = '''', mr_RiskScore = 99, mr_Exposure = ''SANCTIONED'', mr_Err = None\<rparr>
     (NewMockProvider ''mock'')"

lemma demo_mock_screen:
  "prov_Screen mock_provider retry_world demo_mock (with_key demo_request) =
     (Inr \<lparr>vr_Vendor = ''mock'', vr_RiskScore = 99, vr_Exposure = ''SANCTIONED'',
           vr_RawRequest = '''', vr_RawResponse = ''''\<rparr>, retry_world, demo_mock\<lparr>mp_calls := 1\<rparr>)"
  by (simp add: mock_provider_def MockProvider_Screen_def demo_mock_def SetResponse_def NewMockProvider_def
      demo_request_def with_key_def mock_key_def)

theorem filled_answer_replayed_witness:
  "\<exists>w' s' r. IdempotentProvider_Screen mock_provider memory_response_store retry_world (demo_mock, []) demo_request
        = (Inr r, w', (demo_mock\<lparr>mp_calls := 1\<rparr>, s'))
     \<and> IdempotentProvider_Screen mock_provider memory_response_store w' (demo_mock\<lparr>mp_calls := 1\<rparr>, s') demo_request
        = (Inr r, w', (demo_mock\<lparr>mp_calls := 1\<rparr>, s'))"
  using filled_answer_replayed [of "[]" demo_request, OF _ _ demo_mock_screen]
  by (force simp: with_key_def demo_request_def IdempotencyKey_def retry_world_def)

text \<open>
  The response store never changes its answer: a later \<open>Put\<close> for a key that is present leaves
  the store as it is, so across any sequence of screens the record of a key, once made, stays.
\<close>

theorem response_store_first_wins:
  assumes "map_of s k = Some c"
  shows "map_of (snd (snd (snd (IdempotentProvider_Screen inner memory_response_store w (p, s) req)))) k = Some c"
proof -
  have put: "map_of (snd (snd (MemoryResponseStore_Put w' s r))) k = Some c" for w' r
    using assms by (auto simp: MemoryResponseStore_Put_def time_Now_def)
  show ?thesis
    using assms put
    by (simp add: IdempotentProvider_Screen_def MemoryResponseStore_Get_def Let_def time_Now_def split_beta
        split: option.splits sum.splits prod.splits)
qed

definition demo_record :: VendorResponseRecord where
  "demo_record = \<lparr>vrr_ID = '''', vrr_Vendor = ''mock'', vrr_RequestPayload = '''', vrr_ResponsePayload = '''',
     vrr_IdempotencyKey = ''k'', vrr_Address = ''0xbad'', vrr_Chain = ''ethereum'', vrr_TxID = ''tx1'',
     vrr_CreatedAt = 1\<rparr>"

theorem response_store_first_wins_witness:
  "map_of (snd (snd (snd (IdempotentProvider_Screen mock_provider memory_response_store retry_world
      (demo_mock, [(''k'', demo_record)]) demo_request)))) ''k'' = Some demo_record"
  by (rule response_store_first_wins) simp

end
