(* ===== verification/Alert.thy ===== *)
theory Alert
  imports Kyt_Prelude
begin

text \<open>
  \<open>internal/alert/alert.go\<close>: the alert, its store interface and in-memory store, and the service
  that creates, assigns and closes alerts.  The locale \<open>alert_store\<close> is the contract of a store;
  the life-cycle of alerts is proved in it for any store, and \<open>MemoryStore\<close> satisfies it.
\<close>

section \<open>Alerts and stores\<close>

abbreviation StatusOpen :: string where "StatusOpen \<equiv> ''OPEN''"
abbreviation StatusInReview :: string where "StatusInReview \<equiv> ''IN_REVIEW''"
abbreviation StatusClosed :: string where "StatusClosed \<equiv> ''CLOSED''"

record Alert =
  al_ID :: string
  al_ScreenID :: string
  al_TxID :: string
  al_Address :: string
  al_Chain :: string
  al_Exposure :: string
  al_Severity :: string
  al_Status :: string
  al_Assignee :: string
  al_CreatedAt :: gotime
  al_ClosedAt :: "gotime option"

definition zero_Alert :: Alert where
  "zero_Alert = \<lparr>al_ID = '''', al_ScreenID = '''', al_TxID = '''', al_Address = '''', al_Chain = '''',
     al_Exposure = '''', al_Severity = '''', al_Status = '''', al_Assignee = '''', al_CreatedAt = 0,
     al_ClosedAt = None\<rparr>"

record 's AlertStore =
  as_Create :: "'s \<Rightarrow> Alert \<Rightarrow> (go_error + Alert) \<times> 's"
  as_Get :: "'s \<Rightarrow> string \<Rightarrow> go_error + Alert option"
  as_List :: "'s \<Rightarrow> string \<Rightarrow> go_error + Alert slice"
  as_Update :: "'s \<Rightarrow> Alert \<Rightarrow> go_error option \<times> 's"

section \<open>The service\<close>

definition AlertService_Create ::
    "'s AlertStore \<Rightarrow> world \<Rightarrow> 's \<Rightarrow> string \<Rightarrow> string \<Rightarrow> string \<Rightarrow> string \<Rightarrow> string \<Rightarrow> string
     \<Rightarrow> (go_error + Alert) \<times> world \<times> 's" where
  "AlertService_Create store w s screenID txID address chain exposure severity0 =
     (let (i, w1) = newID w;
          (now, w2) = time_Now w1;
          severity = (if severity0 = '''' then ''medium'' else severity0);
          a = \<lparr>al_ID = i, al_ScreenID = screenID, al_TxID = txID, al_Address = address,
               al_Chain = chain, al_Exposure = exposure, al_Severity = severity,
               al_Status = StatusOpen, al_Assignee = '''', al_CreatedAt = now, al_ClosedAt = None\<rparr>;
          (r, s1) = as_Create store s a
      in (r, w2, s1))"

definition AlertService_Get :: "'s AlertStore \<Rightarrow> 's \<Rightarrow> string \<Rightarrow> go_error + Alert" where
  "AlertService_Get store s i =
     (case as_Get store s i of
        Inl e \<Rightarrow> Inl e
      | Inr None \<Rightarrow> Inl ErrNotFound
      | Inr (Some a) \<Rightarrow> Inr a)"

definition AlertService_List :: "'s AlertStore \<Rightarrow> 's \<Rightarrow> string \<Rightarrow> go_error + Alert slice" where
  "AlertService_List store s status = as_List store s status"

definition AlertService_Assign ::
    "'s AlertStore \<Rightarrow> 's \<Rightarrow> string \<Rightarrow> string \<Rightarrow> (go_error + Alert) \<times> 's" where
  "AlertService_Assign store s i assignee =
     (case AlertService_Get store s i of
        Inl e \<Rightarrow> (Inl e, s)
      | Inr a \<Rightarrow>
          if al_Status a = StatusClosed then (Inl ErrAlreadyClosed, s)
          else
            (let a1 = a\<lparr>al_Status := StatusInReview, al_Assignee := assignee\<rparr> in
             case as_Update store s a1 of
               (Some e, s1) \<Rightarrow> (Inl e, s1)
             | (None, s1) \<Rightarrow> (Inr a1, s1)))"

definition AlertService_Close ::
    "'s AlertStore \<Rightarrow> world \<Rightarrow> 's \<Rightarrow> string \<Rightarrow> string \<Rightarrow> (go_error + Alert) \<times> world \<times> 's" where
  "AlertService_Close store w s i assignee =
     (let (now, w1) = time_Now w in
      case AlertService_Get store s i of
        Inl e \<Rightarrow> (Inl e, w1, s)
      | Inr a \<Rightarrow>
          if al_Status a = StatusClosed then (Inl ErrAlreadyClosed, w1, s)
          else
            (let a1 = a\<lparr>al_Status := StatusClosed\<rparr>;
                 a2 = (if assignee \<noteq> '''' then a1\<lparr>al_Assignee := assignee\<rparr> else a1);
                 a3 = a2\<lparr>al_ClosedAt := Some now\<rparr>
             in case as_Update store s a3 of
                  (Some e, s1) \<Rightarrow> (Inl e, w1, s1)
                | (None, s1) \<Rightarrow> (Inr a3, w1, s1)))"

section \<open>The in-memory store\<close>

record MemoryStore =
  ms_mem :: "string \<rightharpoonup> Alert"
  ms_order :: "string list"

definition NewMemoryStore :: MemoryStore where
  "NewMemoryStore = \<lparr>ms_mem = Map.empty, ms_order = []\<rparr>"

definition MemoryStore_Create :: "MemoryStore \<Rightarrow> Alert \<Rightarrow> (go_error + Alert) \<times> MemoryStore" where
  "MemoryStore_Create s a =
     (if al_ID a = '''' then (Inl (ErrText ''alert id required''), s)
      else if ms_mem s (al_ID a) \<noteq> None then (Inl ErrDuplicate, s)
      else (Inr a, s\<lparr>ms_mem := (ms_mem s)(al_ID a \<mapsto> a), ms_order := ms_order s @ [al_ID a]\<rparr>))"

definition MemoryStore_Get :: "MemoryStore \<Rightarrow> string \<Rightarrow> go_error + Alert option" where
  "MemoryStore_Get s i = Inr (ms_mem s i)"

definition MemoryStore_List :: "MemoryStore \<Rightarrow> string \<Rightarrow> go_error + Alert slice" where
  "MemoryStore_List s status =
     Inr (Some (filter (\<lambda>a. status = '''' \<or> al_Status a = status)
       (map (\<lambda>i. case ms_mem s i of Some a \<Rightarrow> a | None \<Rightarrow> zero_Alert) (ms_order s))))"

definition MemoryStore_Update :: "MemoryStore \<Rightarrow> Alert \<Rightarrow> go_error option \<times> MemoryStore" where
  "MemoryStore_Update s a =
     (if ms_mem s (al_ID a) = None then (Some ErrNotFound, s)
      else (None, s\<lparr>ms_mem := (ms_mem s)(al_ID a \<mapsto> a)\<rparr>))"

definition memory_alert_store :: "MemoryStore AlertStore" where
  "memory_alert_store = \<lparr>as_Create = MemoryStore_Create, as_Get = MemoryStore_Get,
     as_List = MemoryStore_List, as_Update = MemoryStore_Update\<rparr>"

section \<open>Well-formed alerts\<close>

definition wf_alert :: "Alert \<Rightarrow> bool" where
  "wf_alert a \<longleftrightarrow>
     al_ID a \<noteq> '''' \<and> al_Severity a \<noteq> ''''
   \<and> al_Status a \<in> {StatusOpen, StatusInReview, StatusClosed}
   \<and> (al_Status a = StatusClosed \<longleftrightarrow> al_ClosedAt a \<noteq> None)"

definition wf_table :: "(string \<rightharpoonup> Alert) \<Rightarrow> bool" where
  "wf_table t \<longleftrightarrow> (\<forall>i a. t i = Some a \<longrightarrow> wf_alert a \<and> al_ID a = i)"

definition closed_copy :: "gotime \<Rightarrow> string \<Rightarrow> Alert \<Rightarrow> Alert" where
  "closed_copy now who a =
     a\<lparr>al_Status := StatusClosed, al_Assignee := (if who \<noteq> '''' then who else al_Assignee a),
       al_ClosedAt := Some now\<rparr>"

definition assigned_copy :: "string \<Rightarrow> Alert \<Rightarrow> Alert" where
  "assigned_copy who a = a\<lparr>al_Status := StatusInReview, al_Assignee := who\<rparr>"

lemma copy_id [simp]: "al_ID (closed_copy now who a) = al_ID a" "al_ID (assigned_copy who a) = al_ID a"
  by (simp_all add: closed_copy_def assigned_copy_def)

lemma copy_wf:
  "wf_alert a \<Longrightarrow> wf_alert (closed_copy now who a)"
  "wf_alert a \<Longrightarrow> al_Status a \<noteq> StatusClosed \<Longrightarrow> wf_alert (assigned_copy who a)"
  by (auto simp: wf_alert_def closed_copy_def assigned_copy_def)

text \<open>The alert that \<open>Create\<close> makes.\<close>

definition new_alert ::
    "string \<Rightarrow> string \<Rightarrow> string \<Rightarrow> string \<Rightarrow> string \<Rightarrow> string \<Rightarrow> string \<Rightarrow> gotime \<Rightarrow> Alert" where
  "new_alert i sid tx ad ch ex sev now =
     \<lparr>al_ID = i, al_ScreenID = sid, al_TxID = tx, al_Address = ad, al_Chain = ch, al_Exposure = ex,
      al_Severity = (if sev = '''' then ''medium'' else sev), al_Status = StatusOpen, al_Assignee = '''',
      al_CreatedAt = now, al_ClosedAt = None\<rparr>"

text \<open>What never changes in an alert once it is created.\<close>

definition same_flow :: "Alert \<Rightarrow> Alert \<Rightarrow> bool" where
  "same_flow a b \<longleftrightarrow> al_ID a = al_ID b \<and> al_ScreenID a = al_ScreenID b \<and> al_TxID a = al_TxID b
     \<and> al_Address a = al_Address b \<and> al_Chain a = al_Chain b \<and> al_Exposure a = al_Exposure b
     \<and> al_Severity a = al_Severity b \<and> al_CreatedAt a = al_CreatedAt b"

lemma same_flow_refl [simp]: "same_flow a a"
  by (simp add: same_flow_def)

lemma same_flow_trans: "same_flow a b \<Longrightarrow> same_flow b c \<Longrightarrow> same_flow a c"
  by (simp add: same_flow_def)

lemma same_flow_copy [simp]: "same_flow a (closed_copy now who a)" "same_flow a (assigned_copy who a)"
  by (simp_all add: same_flow_def closed_copy_def assigned_copy_def)

section \<open>The contract of an alert store\<close>

locale alert_store =
  fixes ops :: "'s AlertStore"
    and ok :: "'s \<Rightarrow> bool"
    and table :: "'s \<Rightarrow> string \<rightharpoonup> Alert"
  assumes keyed: "ok s \<Longrightarrow> table s i = Some a \<Longrightarrow> al_ID a = i"
    and create_new: "ok s \<Longrightarrow> al_ID a \<noteq> '''' \<Longrightarrow> table s (al_ID a) = None \<Longrightarrow>
      fst (as_Create ops s a) = Inr a \<and> ok (snd (as_Create ops s a))
      \<and> table (snd (as_Create ops s a)) = (table s)(al_ID a \<mapsto> a)"
    and create_refused: "ok s \<Longrightarrow> al_ID a = '''' \<or> table s (al_ID a) \<noteq> None \<Longrightarrow>
      (\<exists>e. as_Create ops s a = (Inl e, s))"
    and get_table: "ok s \<Longrightarrow> as_Get ops s i = Inr (table s i)"
    and list_table: "ok s \<Longrightarrow> \<exists>xs. as_List ops s st = Inr xs \<and> distinct (map al_ID (items xs))
      \<and> set (items xs) = {a. table s (al_ID a) = Some a \<and> (st = '''' \<or> al_Status a = st)}"
    and update_present: "ok s \<Longrightarrow> table s (al_ID a) \<noteq> None \<Longrightarrow>
      fst (as_Update ops s a) = None \<and> ok (snd (as_Update ops s a))
      \<and> table (snd (as_Update ops s a)) = (table s)(al_ID a \<mapsto> a)"
begin

lemma service_get: "ok s \<Longrightarrow> AlertService_Get ops s i =
    (case table s i of None \<Rightarrow> Inl ErrNotFound | Some a \<Rightarrow> Inr a)"
  by (simp add: AlertService_Get_def get_table split: option.split)

lemma service_create:
  assumes "ok s" and "table s (uuids w (drawn w)) = None" and "uuids w (drawn w) \<noteq> ''''"
  shows "\<exists>s'. AlertService_Create ops w s sid tx ad ch ex sev =
      (Inr (new_alert (uuids w (drawn w)) sid tx ad ch ex sev (clk w (ticks w))),
       w\<lparr>drawn := Suc (drawn w), ticks := Suc (ticks w)\<rparr>, s') \<and> ok s'
      \<and> table s' = (table s)(uuids w (drawn w) \<mapsto> new_alert (uuids w (drawn w)) sid tx ad ch ex sev (clk w (ticks w)))"
proof -
  let ?a = "new_alert (uuids w (drawn w)) sid tx ad ch ex sev (clk w (ticks w))"
  obtain r s' where c: "as_Create ops s ?a = (r, s')" by fastforce
  then have "r = Inr ?a" "ok s'" "table s' = (table s)(al_ID ?a \<mapsto> ?a)"
    using create_new [OF assms(1), of ?a] assms(2,3) by (simp_all add: new_alert_def)
  moreover have "AlertService_Create ops w s sid tx ad ch ex sev =
      (r, w\<lparr>drawn := Suc (drawn w), ticks := Suc (ticks w)\<rparr>, s')"
    using c by (simp add: AlertService_Create_def time_Now_def newID_def new_alert_def Let_def)
  ultimately show ?thesis by (simp add: new_alert_def)
qed

lemma service_create_fails:
  assumes "ok s" and "uuids w (drawn w) = '''' \<or> table s (uuids w (drawn w)) \<noteq> None"
  shows "\<exists>e. AlertService_Create ops w s sid tx ad ch ex sev =
      (Inl e, w\<lparr>drawn := Suc (drawn w), ticks := Suc (ticks w)\<rparr>, s)"
proof -
  define a where "a = \<lparr>al_ID = uuids w (drawn w), al_ScreenID = sid, al_TxID = tx, al_Address = ad,
      al_Chain = ch, al_Exposure = ex, al_Severity = (if sev = '''' then ''medium'' else sev),
      al_Status = StatusOpen, al_Assignee = '''', al_CreatedAt = clk w (ticks w), al_ClosedAt = None\<rparr>"
  then obtain e where "as_Create ops s a = (Inl e, s)"
    using create_refused [OF assms(1), of a] assms(2) by auto
  then show ?thesis by (simp add: AlertService_Create_def time_Now_def newID_def a_def Let_def)
qed

lemma service_assign:
  assumes "ok s"
  shows "AlertService_Assign ops s i who =
    (case table s i of
       None \<Rightarrow> (Inl ErrNotFound, s)
     | Some a \<Rightarrow>
         if al_Status a = StatusClosed then (Inl ErrAlreadyClosed, s)
         else (Inr (assigned_copy who a), snd (as_Update ops s (assigned_copy who a))))"
proof -
  have "as_Update ops s (assigned_copy who a) = (None, snd (as_Update ops s (assigned_copy who a)))"
    if "table s i = Some a" for a
    using update_present [OF assms, of "assigned_copy who a"] keyed [OF assms that] that
    by (simp add: prod_eq_iff)
  then show ?thesis
    unfolding AlertService_Assign_def service_get [OF assms] assigned_copy_def [symmetric] Let_def
    by (auto split: option.splits prod.splits)
qed

lemma service_close:
  assumes "ok s"
  shows "AlertService_Close ops w s i who =
    (case table s i of
       None \<Rightarrow> (Inl ErrNotFound, w\<lparr>ticks := Suc (ticks w)\<rparr>, s)
     | Some a \<Rightarrow>
         if al_Status a = StatusClosed then (Inl ErrAlreadyClosed, w\<lparr>ticks := Suc (ticks w)\<rparr>, s)
         else (Inr (closed_copy (clk w (ticks w)) who a), w\<lparr>ticks := Suc (ticks w)\<rparr>,
               snd (as_Update ops s (closed_copy (clk w (ticks w)) who a))))"
proof -
  have eq: "(if who \<noteq> '''' then a\<lparr>al_Status := StatusClosed\<rparr>\<lparr>al_Assignee := who\<rparr>
      else a\<lparr>al_Status := StatusClosed\<rparr>)\<lparr>al_ClosedAt := Some now\<rparr> = closed_copy now who a" for a now
    by (simp add: closed_copy_def)
  show ?thesis
  proof (cases "table s i")
    case None
    then show ?thesis by (simp add: AlertService_Close_def service_get [OF assms] time_Now_def)
  next
    case (Some a)
    let ?a = "closed_copy (clk w (ticks w)) who a"
    have "fst (as_Update ops s ?a) = None"
      using update_present [OF assms, of ?a] keyed [OF assms Some] Some by simp
    then obtain s' where u: "as_Update ops s ?a = (None, s')" by (metis prod.collapse)
    with Some show ?thesis
      unfolding AlertService_Close_def service_get [OF assms] time_Now_def Let_def eq
      by (simp add: Let_def eq)
  qed
qed

lemma update_wf:
  assumes "ok s" and "wf_table (table s)" and "table s (al_ID a) \<noteq> None" and "wf_alert a"
  shows "ok (snd (as_Update ops s a))" and "wf_table (table (snd (as_Update ops s a)))"
    and "table (snd (as_Update ops s a)) = (table s)(al_ID a \<mapsto> a)"
  using assms update_present [of s a] by (auto simp: wf_table_def)

text \<open>One operation of the service, as seen by an alert that is already there.\<close>

lemma create_evolves:
  assumes "ok s" and "wf_table (table s)"
    and "AlertService_Create ops w s sid tx ad ch ex sev = (r, w', s')"
  shows "ok s' \<and> wf_table (table s') \<and> (\<forall>i a. table s i = Some a \<longrightarrow> table s' i = Some a)"
proof (cases "uuids w (drawn w) = '''' \<or> table s (uuids w (drawn w)) \<noteq> None")
  case True
  then show ?thesis
    using service_create_fails [OF assms(1), of w sid tx ad ch ex sev] assms by auto
next
  case False
  let ?a = "new_alert (uuids w (drawn w)) sid tx ad ch ex sev (clk w (ticks w))"
  have a: "ok s'" "table s' = (table s)(uuids w (drawn w) \<mapsto> ?a)"
    using False service_create [OF assms(1), of w sid tx ad ch ex sev] assms(3) by auto
  have "wf_alert ?a" "al_ID ?a = uuids w (drawn w)"
    using False by (simp_all add: wf_alert_def new_alert_def)
  then show ?thesis using a assms(2) False by (auto simp: wf_table_def)
qed

lemma assign_evolves:
  assumes "ok s" and "wf_table (table s)" and "AlertService_Assign ops s j who = (r, s')"
  shows "ok s' \<and> wf_table (table s') \<and>
    (\<forall>i a. table s i = Some a \<longrightarrow>
       table s' i = Some (if i = j \<and> al_Status a \<noteq> StatusClosed then assigned_copy who a else a))"
proof (cases "table s j")
  case None
  then show ?thesis using assms service_assign [OF assms(1), of j who] by auto
next
  case (Some a)
  then have a: "wf_alert a" "al_ID a = j" using assms(2) by (auto simp: wf_table_def)
  then show ?thesis
    using assms Some service_assign [OF assms(1), of j who]
      update_wf [OF assms(1,2), of "assigned_copy who a"] copy_wf(2) [OF a(1), of who]
    by (auto split: if_splits)
qed

lemma close_evolves:
  assumes "ok s" and "wf_table (table s)" and "AlertService_Close ops w s j who = (r, w', s')"
  shows "ok s' \<and> wf_table (table s') \<and>
    (\<forall>i a. table s i = Some a \<longrightarrow> table s' i = Some
       (if i = j \<and> al_Status a \<noteq> StatusClosed then closed_copy (clk w (ticks w)) who a else a))"
proof (cases "table s j")
  case None
  then show ?thesis using assms service_close [OF assms(1), of w j who] by auto
next
  case (Some a)
  then have a: "wf_alert a" "al_ID a = j" using assms(2) by (auto simp: wf_table_def)
  then show ?thesis
    using assms Some service_close [OF assms(1), of w j who] copy_wf(1) [OF a(1)]
      update_wf [OF assms(1,2), of "closed_copy (clk w (ticks w)) who a"]
    by (auto split: if_splits)
qed

end

section \<open>The in-memory store satisfies it\<close>

definition mem_ok :: "MemoryStore \<Rightarrow> bool" where
  "mem_ok s \<longleftrightarrow> distinct (ms_order s) \<and> set (ms_order s) = dom (ms_mem s)
     \<and> (\<forall>i a. ms_mem s i = Some a \<longrightarrow> al_ID a = i)"

lemma memory_alert_store_simps [simp]:
  "as_Create memory_alert_store = MemoryStore_Create"
  "as_Get memory_alert_store = MemoryStore_Get"
  "as_List memory_alert_store = MemoryStore_List"
  "as_Update memory_alert_store = MemoryStore_Update"
  by (simp_all add: memory_alert_store_def)

lemma mem_list:
  assumes "mem_ok s"
  shows "\<exists>xs. MemoryStore_List s st = Inr (Some xs) \<and> distinct (map al_ID xs)
    \<and> set xs = {a. ms_mem s (al_ID a) = Some a \<and> (st = '''' \<or> al_Status a = st)}"
proof -
  let ?get = "\<lambda>i. case ms_mem s i of Some a \<Rightarrow> a | None \<Rightarrow> zero_Alert"
  have get: "ms_mem s i = Some (?get i)" "al_ID (?get i) = i" if "i \<in> set (ms_order s)" for i
    using assms that by (auto simp: mem_ok_def)
  have ids: "map al_ID (map ?get (ms_order s)) = ms_order s"
    using get(2) by (simp add: map_idI)
  have "distinct (map al_ID (filter P (map ?get (ms_order s))))" for P
    using assms ids by (intro distinct_map_filter) (simp add: mem_ok_def)
  moreover have "set (map ?get (ms_order s)) = {a. ms_mem s (al_ID a) = Some a}"
  proof (intro set_eqI iffI)
    fix a assume "a \<in> set (map ?get (ms_order s))"
    then obtain i where "i \<in> set (ms_order s)" "a = ?get i" by auto
    then show "a \<in> {a. ms_mem s (al_ID a) = Some a}" using get [of i] by simp
  next
    fix a assume a: "a \<in> {a. ms_mem s (al_ID a) = Some a}"
    then have "al_ID a \<in> dom (ms_mem s)" by (simp add: domI)
    moreover have "set (ms_order s) = dom (ms_mem s)" using assms by (simp only: mem_ok_def)
    ultimately have "al_ID a \<in> set (ms_order s)" by simp
    then show "a \<in> set (map ?get (ms_order s))" using a by (force intro: rev_image_eqI)
  qed
  ultimately show ?thesis by (auto simp: MemoryStore_List_def)
qed

lemma mem_create_new:
  assumes "mem_ok s" and "al_ID a \<noteq> ''''" and "ms_mem s (al_ID a) = None"
  shows "MemoryStore_Create s a =
      (Inr a, s\<lparr>ms_mem := (ms_mem s)(al_ID a \<mapsto> a), ms_order := ms_order s @ [al_ID a]\<rparr>)"
    and "mem_ok (s\<lparr>ms_mem := (ms_mem s)(al_ID a \<mapsto> a), ms_order := ms_order s @ [al_ID a]\<rparr>)"
  using assms by (simp_all add: MemoryStore_Create_def mem_ok_def domIff)

lemma mem_update_present:
  assumes "mem_ok s" and "ms_mem s (al_ID a) \<noteq> None"
  shows "MemoryStore_Update s a = (None, s\<lparr>ms_mem := (ms_mem s)(al_ID a \<mapsto> a)\<rparr>)"
    and "mem_ok (s\<lparr>ms_mem := (ms_mem s)(al_ID a \<mapsto> a)\<rparr>)"
  using assms by (simp_all add: MemoryStore_Update_def mem_ok_def domIff insert_absorb)

interpretation mas: alert_store memory_alert_store mem_ok ms_mem
proof unfold_locales
  fix s i a st
  assume ok: "mem_ok s"
  show "ms_mem s i = Some a \<Longrightarrow> al_ID a = i"
    using ok by (simp add: mem_ok_def)
  show "\<exists>xs. as_List memory_alert_store s st = Inr xs \<and> distinct (map al_ID (items xs))
      \<and> set (items xs) = {a. ms_mem s (al_ID a) = Some a \<and> (st = '''' \<or> al_Status a = st)}"
    using mem_list [OF ok, of st] by auto
  show "as_Get memory_alert_store s i = Inr (ms_mem s i)"
    by (simp add: MemoryStore_Get_def)
  show "al_ID a = '''' \<or> ms_mem s (al_ID a) \<noteq> None \<Longrightarrow> \<exists>e. as_Create memory_alert_store s a = (Inl e, s)"
    by (auto simp: MemoryStore_Create_def)
  show "al_ID a \<noteq> '''' \<Longrightarrow> ms_mem s (al_ID a) = None \<Longrightarrow>
      fst (as_Create memory_alert_store s a) = Inr a \<and> mem_ok (snd (as_Create memory_alert_store s a))
      \<and> ms_mem (snd (as_Create memory_alert_store s a)) = (ms_mem s)(al_ID a \<mapsto> a)"
    using mem_create_new [OF ok, of a] by simp
  show "ms_mem s (al_ID a) \<noteq> None \<Longrightarrow>
      fst (as_Update memory_alert_store s a) = None \<and> mem_ok (snd (as_Update memory_alert_store s a))
      \<and> ms_mem (snd (as_Update memory_alert_store s a)) = (ms_mem s)(al_ID a \<mapsto> a)"
    using mem_update_present [OF ok, of a] by simp
qed

section \<open>Life cycle\<close>

text \<open>
  The operations that reach the store: creation (by screens, webhooks and reviews), assignment and
  closing (by the dashboard), each in a world of its own.
\<close>

datatype alert_op =
    OpCreate world string string string string string string
  | OpAssign string string
  | OpClose world string string

fun alert_run_op :: "alert_op \<Rightarrow> MemoryStore \<Rightarrow> MemoryStore" where
  "alert_run_op (OpCreate w sid tx ad ch ex sev) s =
     snd (snd (AlertService_Create memory_alert_store w s sid tx ad ch ex sev))"
| "alert_run_op (OpAssign i who) s = snd (AlertService_Assign memory_alert_store s i who)"
| "alert_run_op (OpClose w i who) s = snd (snd (AlertService_Close memory_alert_store w s i who))"

definition alert_good :: "MemoryStore \<Rightarrow> bool" where
  "alert_good s \<longleftrightarrow> mem_ok s \<and> wf_table (ms_mem s)"

lemma alert_good_new: "alert_good NewMemoryStore"
  by (simp add: alert_good_def mem_ok_def NewMemoryStore_def wf_table_def)

lemma alert_op_evolves:
  assumes "alert_good s"
  shows "alert_good (alert_run_op op s) \<and>
    (\<forall>i a. ms_mem s i = Some a \<longrightarrow> (\<exists>b. ms_mem (alert_run_op op s) i = Some b \<and> same_flow a b
       \<and> (al_Status a = StatusClosed \<longrightarrow> b = a) \<and> (al_Status b = StatusOpen \<longrightarrow> b = a)))"
proof -
  have ok: "mem_ok s" and wf: "wf_table (ms_mem s)" using assms by (auto simp: alert_good_def)
  show ?thesis
  proof (cases op)
    case (OpCreate w sid tx ad ch ex sev)
    obtain r w' s' where "AlertService_Create memory_alert_store w s sid tx ad ch ex sev = (r, w', s')"
      by (metis prod_cases3)
    with OpCreate mas.create_evolves [OF ok wf this] show ?thesis by (simp add: alert_good_def)
  next
    case (OpAssign j who)
    obtain r s' where "AlertService_Assign memory_alert_store s j who = (r, s')" by fastforce
    with OpAssign mas.assign_evolves [OF ok wf this] show ?thesis
      by (auto simp: alert_good_def assigned_copy_def same_flow_def)
  next
    case (OpClose w j who)
    obtain r w' s' where "AlertService_Close memory_alert_store w s j who = (r, w', s')"
      by (metis prod_cases3)
    with OpClose mas.close_evolves [OF ok wf this] show ?thesis
      by (auto simp: alert_good_def closed_copy_def same_flow_def)
  qed
qed

lemma alert_run_evolves:
  assumes "alert_good s" and "ms_mem s i = Some a"
  shows "\<exists>b. ms_mem (fold alert_run_op ops s) i = Some b \<and> same_flow a b
       \<and> (al_Status a = StatusClosed \<longrightarrow> b = a) \<and> (al_Status b = StatusOpen \<longrightarrow> b = a)"
  using assms
proof (induction ops arbitrary: s a)
  case Nil
  then show ?case by simp
next
  case (Cons op ops)
  note ev = alert_op_evolves [OF Cons.prems(1), of op]
  obtain b where b: "ms_mem (alert_run_op op s) i = Some b" "same_flow a b"
    "al_Status a = StatusClosed \<longrightarrow> b = a" "al_Status b = StatusOpen \<longrightarrow> b = a"
    using conjunct2 [OF ev, rule_format, OF Cons.prems(2)] by (elim exE conjE)
  obtain c where c: "ms_mem (fold alert_run_op ops (alert_run_op op s)) i = Some c" "same_flow b c"
    "al_Status b = StatusClosed \<longrightarrow> c = b" "al_Status c = StatusOpen \<longrightarrow> c = b"
    using Cons.IH [OF conjunct1 [OF ev] b(1)] by (elim exE conjE)
  have "same_flow a c" using b(2) c(2) by (rule same_flow_trans)
  moreover have "al_Status a = StatusClosed \<longrightarrow> c = a" using b(3) c(3) by metis
  moreover have "al_Status c = StatusOpen \<longrightarrow> c = a" using b(4) c(4) by metis
  ultimately show ?case using c(1) unfolding fold_simps by (intro exI [of _ c] conjI)
qed

lemma alert_run_good: "alert_good s \<Longrightarrow> alert_good (fold alert_run_op ops s)"
  by (induction ops arbitrary: s) (auto simp: alert_op_evolves)

text \<open>
  The life cycle of an alert.  Whatever sequence of creations, assignments and closings follows,
  an alert is never lost and its flow, exposure, severity and creation time never change; a closed
  alert never changes at all; and an alert that has left \<open>OPEN\<close> does not return to it.
\<close>

theorem alert_lifecycle:
  assumes "alert_good s" and "ms_mem s i = Some a"
  shows "\<exists>b. ms_mem (fold alert_run_op ops s) i = Some b \<and> same_flow a b
       \<and> (al_Status a = StatusClosed \<longrightarrow> b = a) \<and> (al_Status b = StatusOpen \<longrightarrow> b = a)"
  using assms by (rule alert_run_evolves)

definition demo_alert_world :: world where
  "demo_alert_world = \<lparr>clk = (\<lambda>n. 100 + int n), ticks = 0, uuids = (\<lambda>n. replicate (Suc n) (CHR ''a'')), drawn = 0\<rparr>"

definition demo_alerts :: MemoryStore where
  "demo_alerts = alert_run_op
     (OpCreate demo_alert_world ''s1'' ''tx1'' ''0xbad'' ''ethereum'' ''SANCTIONED'' ''critical'') NewMemoryStore"

lemma demo_alerts_good: "alert_good demo_alerts"
  unfolding demo_alerts_def using alert_op_evolves [OF alert_good_new] by blast

lemma demo_alerts_mem: "ms_mem demo_alerts ''a'' = Some
    \<lparr>al_ID = ''a'', al_ScreenID = ''s1'', al_TxID = ''tx1'', al_Address = ''0xbad'', al_Chain = ''ethereum'',
     al_Exposure = ''SANCTIONED'', al_Severity = ''critical'', al_Status = ''OPEN'', al_Assignee = '''',
     al_CreatedAt = 100, al_ClosedAt = None\<rparr>"
  by (simp add: demo_alerts_def AlertService_Create_def MemoryStore_Create_def NewMemoryStore_def
      demo_alert_world_def time_Now_def newID_def Let_def)

lemma demo_alerts_none: "i \<noteq> ''a'' \<Longrightarrow> ms_mem demo_alerts i = None"
  by (simp add: demo_alerts_def AlertService_Create_def MemoryStore_Create_def NewMemoryStore_def
      demo_alert_world_def time_Now_def newID_def Let_def)

theorem alert_lifecycle_witness:
  "\<exists>b. ms_mem (fold alert_run_op [OpAssign ''a'' ''ann'', OpClose demo_alert_world ''a'' ''''] demo_alerts) ''a'' = Some b
     \<and> al_TxID b = ''tx1''"
  using alert_lifecycle [OF demo_alerts_good demo_alerts_mem,
      of "[OpAssign ''a'' ''ann'', OpClose demo_alert_world ''a'' '''']"]
  by (auto simp: same_flow_def)

text \<open>
  Every store the service can reach is well formed: each alert is filed under its own non-empty
  id, has a severity and one of the three states, and has a closing time exactly when it is closed;
  listing all alerts returns each of them once.
\<close>

theorem reachable_alerts_well_formed:
  "wf_table (ms_mem (fold alert_run_op ops NewMemoryStore))
   \<and> (\<exists>xs. AlertService_List memory_alert_store (fold alert_run_op ops NewMemoryStore) '''' = Inr (Some xs)
        \<and> distinct (map al_ID xs)
        \<and> set xs = ran (ms_mem (fold alert_run_op ops NewMemoryStore)))"
proof -
  let ?s = "fold alert_run_op ops NewMemoryStore"
  have g: "alert_good ?s" by (rule alert_run_good [OF alert_good_new])
  then obtain xs where xs: "MemoryStore_List ?s '''' = Inr (Some xs)" "distinct (map al_ID xs)"
    "set xs = {a. ms_mem ?s (al_ID a) = Some a}"
    using mem_list [of ?s "''''"] by (auto simp: alert_good_def)
  moreover have "{a. ms_mem ?s (al_ID a) = Some a} = ran (ms_mem ?s)"
    using g by (auto simp: alert_good_def wf_table_def ran_def)
  ultimately show ?thesis using g by (simp add: alert_good_def AlertService_List_def)
qed

text \<open>
  Closing.  An open alert is closed with the time of the call and the given assignee (or the one it
  has), a closed one is refused with \<open>ErrAlreadyClosed\<close> and an unknown id with \<open>ErrNotFound\<close>,
  the store unchanged.
\<close>

theorem close_alert_outcome:
  assumes "alert_good s"
  shows "AlertService_Close memory_alert_store w s i who =
    (case ms_mem s i of
       None \<Rightarrow> (Inl ErrNotFound, w\<lparr>ticks := Suc (ticks w)\<rparr>, s)
     | Some a \<Rightarrow>
         if al_Status a = StatusClosed then (Inl ErrAlreadyClosed, w\<lparr>ticks := Suc (ticks w)\<rparr>, s)
         else (let b = a\<lparr>al_Status := StatusClosed,
                         al_Assignee := (if who \<noteq> '''' then who else al_Assignee a),
                         al_ClosedAt := Some (clk w (ticks w))\<rparr>
               in (Inr b, w\<lparr>ticks := Suc (ticks w)\<rparr>, s\<lparr>ms_mem := (ms_mem s)(i \<mapsto> b)\<rparr>)))"
proof (cases "ms_mem s i")
  case None
  then show ?thesis using assms mas.service_close [of s w i who] by (simp add: alert_good_def)
next
  case (Some a)
  then have "al_ID a = i" using assms by (auto simp: alert_good_def wf_table_def)
  then show ?thesis
    using Some assms mas.service_close [of s w i who]
      mem_update_present [of s "closed_copy (clk w (ticks w)) who a"]
    by (simp add: alert_good_def closed_copy_def Let_def)
qed

theorem close_alert_outcome_witness:
  "fst (AlertService_Close memory_alert_store demo_alert_world demo_alerts ''zz'' ''ann'') = Inl ErrNotFound"
  using close_alert_outcome [OF demo_alerts_good, of demo_alert_world "''zz''" "''ann''"]
  by (simp add: demo_alerts_none)

end
