(* ===== verification/Audit_Events.thy ===== *)
theory Audit_Events
  imports Kyt_Prelude
begin

text \<open>
  \<open>internal/audit/audit.go\<close>: the audit event, the sink interface, the emitter with its bounded queue
  and worker goroutine, and the in-memory sink.  The emitter is shared by the request goroutines
  (\<open>Emit\<close>, \<open>Close\<close>) and the worker (\<open>run\<close>), so its behaviour is a step relation in which the
  worker's turns interleave with the calls in any order.
\<close>

section \<open>Events and sinks\<close>

record Event =
  ev_ScreenID :: string
  ev_TxID :: string
  ev_Address :: string
  ev_Chain :: string
  ev_Amount :: string
  ev_Decision :: string
  ev_Exposure :: string
  ev_RiskScore :: int
  ev_Vendor :: string
  ev_CacheHit :: bool
  ev_Source :: string
  ev_Operator :: string
  ev_CreatedAt :: gotime

record 's Sink =
  sk_Emit :: "world \<Rightarrow> 's \<Rightarrow> Event \<Rightarrow> go_error option \<times> world \<times> 's"

record MemorySink =
  snk_mem :: "Event list"
  snk_fail :: bool

definition NewMemorySink :: MemorySink where
  "NewMemorySink = \<lparr>snk_mem = [], snk_fail = False\<rparr>"

definition MemorySink_SetFail :: "bool \<Rightarrow> MemorySink \<Rightarrow> MemorySink" where
  "MemorySink_SetFail f s = s\<lparr>snk_fail := f\<rparr>"

definition MemorySink_Emit :: "world \<Rightarrow> MemorySink \<Rightarrow> Event \<Rightarrow> go_error option \<times> world \<times> MemorySink" where
  "MemorySink_Emit w s e =
     (if snk_fail s then (Some (ErrText ''sink unavailable''), w, s)
      else (None, w, s\<lparr>snk_mem := snk_mem s @ [e]\<rparr>))"

definition MemorySink_Events :: "MemorySink \<Rightarrow> Event list" where
  "MemorySink_Events s = snk_mem s"

definition memory_sink :: "MemorySink Sink" where
  "memory_sink = \<lparr>sk_Emit = MemorySink_Emit\<rparr>"

section \<open>The emitter\<close>

text \<open>
  \<open>em_inflight\<close> is the event the worker has received and is handing to the sink, \<open>em_stopped\<close> says that
  \<open>stopCh\<close> is closed and \<open>em_running\<close> that the worker has not returned (\<open>wg\<close> is not yet done).
\<close>

record Emitter =
  em_queue :: "Event list"
  em_cap :: nat
  em_drops :: int
  em_emitted :: int
  em_inflight :: "Event option"
  em_stopped :: bool
  em_running :: bool

definition NewEmitter :: "int \<Rightarrow> Emitter" where
  "NewEmitter queueSize =
     \<lparr>em_queue = [], em_cap = nat (if queueSize \<le> 0 then 1024 else queueSize), em_drops = 0,
      em_emitted = 0, em_inflight = None, em_stopped = False, em_running = True\<rparr>"

definition stamp_event :: "world \<Rightarrow> Event \<Rightarrow> Event \<times> world" where
  "stamp_event w ev =
     (if IsZero (ev_CreatedAt ev) then
        (let (now, w1) = time_Now w in (ev\<lparr>ev_CreatedAt := now\<rparr>, w1))
      else (ev, w))"

definition Emitter_Emit :: "world \<Rightarrow> Emitter \<Rightarrow> Event \<Rightarrow> go_error option \<times> world \<times> Emitter" where
  "Emitter_Emit w e ev0 =
     (let (ev, w1) = stamp_event w ev0 in
      if length (em_queue e) < em_cap e
      then (None, w1, e\<lparr>em_queue := em_queue e @ [ev]\<rparr>)
      else (Some ErrAuditDropped, w1, e\<lparr>em_drops := ctr_add (em_drops e) 1\<rparr>))"

definition Emitter_Drops :: "Emitter \<Rightarrow> int" where
  "Emitter_Drops e = em_drops e"

definition Emitter_Emitted :: "Emitter \<Rightarrow> int" where
  "Emitter_Emitted e = em_emitted e"

text \<open>
  The cases of the \<open>select\<close> in \<open>run\<close>, each enabled by its guard: receive an event, hand it to the
  sink and count the outcome, or return once \<open>stopCh\<close> is closed.
\<close>

fun worker_receive :: "Emitter \<Rightarrow> Emitter option" where
  "worker_receive e =
     (if em_running e \<and> em_inflight e = None then
        (case em_queue e of [] \<Rightarrow> None | ev # q \<Rightarrow> Some (e\<lparr>em_queue := q, em_inflight := Some ev\<rparr>))
      else None)"

definition worker_deliver ::
    "'s Sink \<Rightarrow> world \<Rightarrow> 's \<Rightarrow> Emitter \<Rightarrow> (bool \<times> world \<times> 's \<times> Emitter) option" where
  "worker_deliver sink w s e =
     (case em_inflight e of
        None \<Rightarrow> None
      | Some ev \<Rightarrow>
          (case sk_Emit sink w s ev of
             (Some err, w1, s1) \<Rightarrow>
               Some (False, w1, s1, e\<lparr>em_inflight := None, em_drops := ctr_add (em_drops e) 1\<rparr>)
           | (None, w1, s1) \<Rightarrow>
               Some (True, w1, s1, e\<lparr>em_inflight := None, em_emitted := ctr_add (em_emitted e) 1\<rparr>)))"

definition worker_return :: "Emitter \<Rightarrow> Emitter option" where
  "worker_return e =
     (if em_running e \<and> em_inflight e = None \<and> em_stopped e then Some (e\<lparr>em_running := False\<rparr>) else None)"

text \<open>\<open>Close\<close> closes \<open>stopCh\<close> (once) and then waits until the worker has returned.\<close>

definition Emitter_Close_begin :: "Emitter \<Rightarrow> Emitter" where
  "Emitter_Close_begin e = e\<lparr>em_stopped := True\<rparr>"

definition Emitter_Close_returns :: "Emitter \<Rightarrow> bool" where
  "Emitter_Close_returns e \<longleftrightarrow> em_stopped e \<and> \<not> em_running e"

section \<open>The system\<close>

text \<open>
  The emitter with its sink.  The last three fields are observations of the run: the events for which
  \<open>Emit\<close> returned nil, those the worker has handed to the sink with the outcome, and the number
  refused because the queue was full.
\<close>

record 's audit_sys =
  sys_emitter :: Emitter
  sys_sink :: 's
  sys_world :: world
  sys_accepted :: "Event list"
  sys_handled :: "(Event \<times> bool) list"
  sys_refused :: nat

definition audit_init :: "int \<Rightarrow> 's \<Rightarrow> world \<Rightarrow> 's audit_sys" where
  "audit_init queueSize s w =
     \<lparr>sys_emitter = NewEmitter queueSize, sys_sink = s, sys_world = w, sys_accepted = [],
      sys_handled = [], sys_refused = 0\<rparr>"

inductive audit_step :: "'s Sink \<Rightarrow> 's audit_sys \<Rightarrow> 's audit_sys \<Rightarrow> bool" for sink where
  step_accept: "Emitter_Emit (sys_world y) (sys_emitter y) ev = (None, w, e) \<Longrightarrow>
     audit_step sink y (y\<lparr>sys_emitter := e, sys_world := w,
       sys_accepted := sys_accepted y @ [fst (stamp_event (sys_world y) ev)]\<rparr>)"
| step_refuse: "Emitter_Emit (sys_world y) (sys_emitter y) ev = (Some err, w, e) \<Longrightarrow>
     audit_step sink y (y\<lparr>sys_emitter := e, sys_world := w, sys_refused := Suc (sys_refused y)\<rparr>)"
| step_receive: "worker_receive (sys_emitter y) = Some e \<Longrightarrow>
     audit_step sink y (y\<lparr>sys_emitter := e\<rparr>)"
| step_deliver: "worker_deliver sink (sys_world y) (sys_sink y) (sys_emitter y) = Some (ok, w, s, e) \<Longrightarrow>
     em_inflight (sys_emitter y) = Some ev \<Longrightarrow>
     audit_step sink y (y\<lparr>sys_emitter := e, sys_world := w, sys_sink := s,
       sys_handled := sys_handled y @ [(ev, ok)]\<rparr>)"
| step_close: "audit_step sink y (y\<lparr>sys_emitter := Emitter_Close_begin (sys_emitter y)\<rparr>)"
| step_return: "worker_return (sys_emitter y) = Some e \<Longrightarrow>
     audit_step sink y (y\<lparr>sys_emitter := e\<rparr>)"

inductive_cases audit_stepE: "audit_step sink y z"

abbreviation audit_steps :: "'s Sink \<Rightarrow> 's audit_sys \<Rightarrow> 's audit_sys \<Rightarrow> bool" where
  "audit_steps sink \<equiv> (audit_step sink)\<^sup>*\<^sup>*"

section \<open>Conservation of events\<close>

definition pending :: "Emitter \<Rightarrow> Event list" where
  "pending e = (case em_inflight e of None \<Rightarrow> [] | Some ev \<Rightarrow> [ev]) @ em_queue e"

definition failures :: "(Event \<times> bool) list \<Rightarrow> nat" where
  "failures hs = length (filter (\<lambda>h. \<not> snd h) hs)"

definition delivered :: "(Event \<times> bool) list \<Rightarrow> Event list" where
  "delivered hs = map fst (filter snd hs)"

lemma observed_simps [simp]:
  "failures [] = 0" "delivered [] = []"
  "failures (hs @ [h]) = failures hs + (if snd h then 0 else 1)"
  "delivered (hs @ [h]) = delivered hs @ (if snd h then [fst h] else [])"
  by (simp_all add: failures_def delivered_def)

definition audit_inv :: "'s audit_sys \<Rightarrow> bool" where
  "audit_inv y \<longleftrightarrow>
     sys_accepted y = map fst (sys_handled y) @ pending (sys_emitter y)
   \<and> length (em_queue (sys_emitter y)) \<le> em_cap (sys_emitter y)
   \<and> em_emitted (sys_emitter y) = wrap64 (int (length (delivered (sys_handled y))))
   \<and> em_drops (sys_emitter y) = wrap64 (int (sys_refused y + failures (sys_handled y)))
   \<and> (\<not> em_running (sys_emitter y) \<longrightarrow> em_inflight (sys_emitter y) = None \<and> em_stopped (sys_emitter y))"

lemma audit_inv_init: "audit_inv (audit_init n s w)"
  by (simp add: audit_inv_def audit_init_def NewEmitter_def pending_def)

lemma Emit_accepts:
  "Emitter_Emit w e ev = (None, w', e') \<Longrightarrow>
     e' = e\<lparr>em_queue := em_queue e @ [fst (stamp_event w ev)]\<rparr> \<and> length (em_queue e) < em_cap e"
  by (auto simp: Emitter_Emit_def split: prod.splits if_splits)

lemma Emit_refuses:
  "Emitter_Emit w e ev = (Some err, w', e') \<Longrightarrow>
     e' = e\<lparr>em_drops := ctr_add (em_drops e) 1\<rparr> \<and> err = ErrAuditDropped \<and> em_cap e \<le> length (em_queue e)"
  by (auto simp: Emitter_Emit_def split: prod.splits if_splits)

lemma receive_some:
  "worker_receive e = Some e' \<longleftrightarrow>
     (\<exists>ev q. em_running e \<and> em_inflight e = None \<and> em_queue e = ev # q
        \<and> e' = e\<lparr>em_queue := q, em_inflight := Some ev\<rparr>)"
  by (auto split: if_splits list.splits)

declare worker_receive.simps [simp del]

lemma deliver_some:
  "worker_deliver sink w s e = Some (ok, w', s', e') \<Longrightarrow>
     \<exists>ev. em_inflight e = Some ev \<and>
       (if ok then sk_Emit sink w s ev = (None, w', s')
          \<and> e' = e\<lparr>em_inflight := None, em_emitted := ctr_add (em_emitted e) 1\<rparr>
        else (\<exists>err. sk_Emit sink w s ev = (Some err, w', s'))
          \<and> e' = e\<lparr>em_inflight := None, em_drops := ctr_add (em_drops e) 1\<rparr>)"
  by (auto simp: worker_deliver_def split: option.splits prod.splits)

lemma audit_inv_step: "audit_step sink y z \<Longrightarrow> audit_inv y \<Longrightarrow> audit_inv z"
proof (induction rule: audit_step.induct)
  case (step_accept y ev w e)
  then show ?case using Emit_accepts [OF step_accept(1)] by (auto simp: audit_inv_def pending_def)
next
  case (step_refuse y ev err w e)
  then show ?case using Emit_refuses [OF step_refuse(1)]
    by (auto simp: audit_inv_def pending_def add_ac)
next
  case (step_receive y e)
  then show ?case by (auto simp: audit_inv_def pending_def receive_some)
next
  case (step_deliver y ok w s e ev)
  then show ?case using deliver_some [OF step_deliver(1)]
    by (auto simp: audit_inv_def pending_def add_ac split: if_splits)
next
  case (step_close y)
  then show ?case by (simp add: audit_inv_def pending_def Emitter_Close_begin_def)
next
  case (step_return y e)
  then show ?case by (auto simp: audit_inv_def pending_def worker_return_def split: if_splits)
qed

lemma audit_reach_inv: "audit_steps sink (audit_init n s w) y \<Longrightarrow> audit_inv y"
  by (induction rule: rtranclp_induct) (auto intro: audit_inv_init audit_inv_step)

text \<open>
  C30: Conservation.  In any interleaving of emissions, worker turns and closing, with any sink: the
  events accepted are, in order, those handed to the sink, the one in flight and those queued; the
  queue never exceeds its bound; and the counters are exact (modulo 64 bits): \<open>Emitted\<close> counts the
  successful deliveries, \<open>Drops\<close> the refused events plus the failed deliveries.
\<close>

theorem audit_events_conserved:
  assumes "audit_steps sink (audit_init n s w) y"
  shows "sys_accepted y = map fst (sys_handled y) @ pending (sys_emitter y)
    \<and> length (em_queue (sys_emitter y)) \<le> em_cap (sys_emitter y)
    \<and> Emitter_Emitted (sys_emitter y) = wrap64 (int (length (delivered (sys_handled y))))
    \<and> Emitter_Drops (sys_emitter y) = wrap64 (int (sys_refused y + failures (sys_handled y)))"
  using audit_reach_inv [OF assms] by (simp add: audit_inv_def Emitter_Emitted_def Emitter_Drops_def)

section \<open>The contract of a sink\<close>

text \<open>\<open>view\<close> is what the sink keeps of an event.\<close>

locale audit_log =
  fixes sink :: "'s Sink"
    and log :: "'s \<Rightarrow> 'e list"
    and view :: "Event \<Rightarrow> 'e"
  assumes emit_ok: "sk_Emit sink w s ev = (None, w', s') \<Longrightarrow> log s' = log s @ [view ev]"
    and emit_failed: "sk_Emit sink w s ev = (Some err, w', s') \<Longrightarrow> log s' = log s"
begin

lemma step_log:
  "audit_step sink y z \<Longrightarrow> log (sys_sink y) = l0 @ map view (delivered (sys_handled y)) \<Longrightarrow>
     log (sys_sink z) = l0 @ map view (delivered (sys_handled z))"
proof (induction rule: audit_step.induct)
  case (step_deliver y ok w s e ev)
  then show ?case using deliver_some [OF step_deliver(1)]
    by (auto dest: emit_ok emit_failed split: if_splits)
qed simp_all

lemma reach_log:
  "audit_steps sink (audit_init n s w) y \<Longrightarrow> log (sys_sink y) = log s @ map view (delivered (sys_handled y))"
  by (induction rule: rtranclp_induct) (auto simp: audit_init_def intro: step_log)

text \<open>What the sink holds is what was accepted, in the order it was accepted, without the failures.\<close>

lemma delivered_subseq: "subseq (delivered hs) (map fst hs @ rest)"
proof (induction hs)
  case Nil
  then show ?case by (simp add: delivered_def)
next
  case (Cons h hs)
  then show ?case by (cases "snd h") (auto simp: delivered_def)
qed

lemma reach_in_order:
  "audit_steps sink (audit_init n s w) y \<Longrightarrow>
     \<exists>sent. log (sys_sink y) = log s @ map view sent \<and> subseq sent (sys_accepted y)"
  using reach_log [of n s w y] audit_reach_inv [of sink n s w y] delivered_subseq [of "sys_handled y"]
  by (auto simp: audit_inv_def)

end

interpretation mem_sink: audit_log memory_sink MemorySink_Events "\<lambda>e. e"
  by unfold_locales (auto simp: memory_sink_def MemorySink_Emit_def MemorySink_Events_def split: if_splits)

section \<open>Delivery\<close>

text \<open>
  Order of the audit log.  The in-memory sink holds a subsequence of the accepted events, in the
  order they were accepted: no event is invented, duplicated or overtaken.
\<close>

theorem audit_log_in_order:
  assumes "audit_steps memory_sink (audit_init n NewMemorySink w) y"
  shows "MemorySink_Events (sys_sink y) = delivered (sys_handled y)
    \<and> subseq (MemorySink_Events (sys_sink y)) (sys_accepted y)"
  using mem_sink.reach_log [OF assms] mem_sink.reach_in_order [OF assms]
  by (simp add: MemorySink_Events_def NewMemorySink_def)

lemma drain_inflight:
  assumes "em_inflight (sys_emitter y) = Some ev" and "\<not> snk_fail (sys_sink y)"
  shows "\<exists>z. audit_step memory_sink y z \<and> em_inflight (sys_emitter z) = None
    \<and> em_queue (sys_emitter z) = em_queue (sys_emitter y) \<and> em_running (sys_emitter z) = em_running (sys_emitter y)
    \<and> \<not> snk_fail (sys_sink z) \<and> MemorySink_Events (sys_sink z) = MemorySink_Events (sys_sink y) @ [ev]
    \<and> sys_accepted z = sys_accepted y"
proof -
  let ?e = "(sys_emitter y)\<lparr>em_inflight := None, em_emitted := ctr_add (em_emitted (sys_emitter y)) 1\<rparr>"
  let ?s = "(sys_sink y)\<lparr>snk_mem := snk_mem (sys_sink y) @ [ev]\<rparr>"
  have "worker_deliver memory_sink (sys_world y) (sys_sink y) (sys_emitter y) = Some (True, sys_world y, ?s, ?e)"
    using assms by (simp add: worker_deliver_def memory_sink_def MemorySink_Emit_def)
  from step_deliver [OF this assms(1)] show ?thesis
    using assms by (intro exI conjI) (assumption, simp_all add: MemorySink_Events_def)
qed

lemma drain_queue:
  assumes "em_queue (sys_emitter y) = q" and "em_inflight (sys_emitter y) = None"
    and "em_running (sys_emitter y)" and "\<not> snk_fail (sys_sink y)"
  shows "\<exists>z. audit_steps memory_sink y z \<and> pending (sys_emitter z) = []
    \<and> MemorySink_Events (sys_sink z) = MemorySink_Events (sys_sink y) @ q
    \<and> sys_accepted z = sys_accepted y"
  using assms
proof (induction q arbitrary: y)
  case Nil
  then show ?case by (intro exI [of _ y]) (simp add: pending_def)
next
  case (Cons ev q)
  let ?e = "(sys_emitter y)\<lparr>em_queue := q, em_inflight := Some ev\<rparr>"
  let ?y = "y\<lparr>sys_emitter := ?e\<rparr>"
  have "worker_receive (sys_emitter y) = Some ?e" using Cons.prems by (simp add: receive_some)
  then have r: "audit_step memory_sink y ?y" by (rule step_receive)
  obtain z1 where z1: "audit_step memory_sink ?y z1" "em_inflight (sys_emitter z1) = None"
    "em_queue (sys_emitter z1) = q" "em_running (sys_emitter z1)" "\<not> snk_fail (sys_sink z1)"
    "MemorySink_Events (sys_sink z1) = MemorySink_Events (sys_sink y) @ [ev]"
    "sys_accepted z1 = sys_accepted y"
    using drain_inflight [of ?y ev] Cons.prems by auto
  obtain z where "audit_steps memory_sink z1 z" "pending (sys_emitter z) = []"
    "MemorySink_Events (sys_sink z) = MemorySink_Events (sys_sink z1) @ q" "sys_accepted z = sys_accepted z1"
    using Cons.IH [OF z1(3,2,4,5)] by auto
  with r z1 show ?case
    by (intro exI [of _ z]) (auto intro: converse_rtranclp_into_rtranclp)
qed

text \<open>
  C31: Delivery.  From every state in which the worker runs and the sink works, the worker alone can
  empty the queue, and then the sink has received every pending event in order.
\<close>

theorem audit_worker_drains:
  assumes "em_running (sys_emitter y)" and "\<not> snk_fail (sys_sink y)"
  shows "\<exists>z. audit_steps memory_sink y z \<and> pending (sys_emitter z) = []
    \<and> MemorySink_Events (sys_sink z) = MemorySink_Events (sys_sink y) @ pending (sys_emitter y)
    \<and> sys_accepted z = sys_accepted y"
proof (cases "em_inflight (sys_emitter y)")
  case None
  then show ?thesis using drain_queue [of y] assms by (simp add: pending_def)
next
  case (Some ev)
  obtain z1 where z1: "audit_step memory_sink y z1" "em_inflight (sys_emitter z1) = None"
    "em_queue (sys_emitter z1) = em_queue (sys_emitter y)" "em_running (sys_emitter z1)"
    "\<not> snk_fail (sys_sink z1)" "MemorySink_Events (sys_sink z1) = MemorySink_Events (sys_sink y) @ [ev]"
    "sys_accepted z1 = sys_accepted y"
    using drain_inflight [OF Some assms(2)] assms(1) by auto
  obtain z where "audit_steps memory_sink z1 z" "pending (sys_emitter z) = []"
    "MemorySink_Events (sys_sink z) = MemorySink_Events (sys_sink z1) @ em_queue (sys_emitter y)"
    "sys_accepted z = sys_accepted z1"
    using drain_queue [OF z1(3,2,4,5)] by auto
  with z1 Some show ?thesis
    by (intro exI [of _ z]) (auto simp: pending_def intro: converse_rtranclp_into_rtranclp)
qed

section \<open>Closing\<close>

lemma stopped_step:
  assumes "audit_step sink y z" and "audit_inv y" and "\<not> em_running (sys_emitter y)"
  shows "sys_sink z = sys_sink y \<and> sys_handled z = sys_handled y \<and> \<not> em_running (sys_emitter z)
    \<and> prefix (em_queue (sys_emitter y)) (em_queue (sys_emitter z))"
  using assms
proof (induction rule: audit_step.induct)
  case (step_accept y ev w e)
  then show ?case using Emit_accepts [OF step_accept(1)] by auto
next
  case (step_refuse y ev err w e)
  then show ?case using Emit_refuses [OF step_refuse(1)] by auto
next
  case (step_receive y e)
  then show ?case by (auto simp: receive_some)
next
  case (step_deliver y ok w s e ev)
  then show ?case by (simp add: audit_inv_def)
next
  case (step_close y)
  then show ?case by (simp add: Emitter_Close_begin_def)
next
  case (step_return y e)
  then show ?case by (simp add: worker_return_def)
qed

lemma stopped_steps:
  assumes "audit_steps sink y z" and "audit_inv y" and "\<not> em_running (sys_emitter y)"
  shows "audit_inv z \<and> sys_sink z = sys_sink y \<and> sys_handled z = sys_handled y \<and> \<not> em_running (sys_emitter z)
    \<and> prefix (em_queue (sys_emitter y)) (em_queue (sys_emitter z))"
  using assms
proof (induction rule: rtranclp_induct)
  case base
  then show ?case by simp
next
  case (step y' z')
  then show ?case using stopped_step [of sink y' z'] audit_inv_step [of sink y' z']
    by (auto intro: prefix_order.trans)
qed

text \<open>
  C32: \<open>Close\<close> does not drain.  Once \<open>Close\<close> can return, the sink is never written again: what is left in
  the queue stays there, and events accepted afterwards (for which \<open>Emit\<close> still returns nil) are
  never delivered.
\<close>

theorem audit_close_abandons_queue:
  assumes "audit_steps sink (audit_init n s w) y" and "Emitter_Close_returns (sys_emitter y)"
    and "audit_steps sink y z"
  shows "sys_sink z = sys_sink y \<and> sys_handled z = sys_handled y
    \<and> prefix (em_queue (sys_emitter y)) (em_queue (sys_emitter z))"
  using stopped_steps [OF assms(3) audit_reach_inv [OF assms(1)]] assms(2)
  by (simp add: Emitter_Close_returns_def)

section \<open>A concrete run\<close>

text \<open>One event is accepted, the emitter is closed before the worker takes it, another is accepted.\<close>

definition demo_audit_world :: world where
  "demo_audit_world = \<lparr>clk = (\<lambda>n. 7 + int n), ticks = 0, uuids = (\<lambda>n. replicate (Suc n) (CHR ''a'')), drawn = 0\<rparr>"

definition demo_event :: Event where
  "demo_event = \<lparr>ev_ScreenID = ''s1'', ev_TxID = ''tx1'', ev_Address = ''0xa'', ev_Chain = ''ethereum'',
     ev_Amount = ''1.5'', ev_Decision = ''ALLOW'', ev_Exposure = ''CLEAN'', ev_RiskScore = 3, ev_Vendor = ''mock'',
     ev_CacheHit = False, ev_Source = ''vendor'', ev_Operator = '''', ev_CreatedAt = 5\<rparr>"

definition demo_start :: "MemorySink audit_sys" where
  "demo_start = audit_init 2 NewMemorySink demo_audit_world"

definition demo_queued :: "MemorySink audit_sys" where
  "demo_queued = demo_start\<lparr>sys_emitter := (NewEmitter 2)\<lparr>em_queue := [demo_event]\<rparr>, sys_accepted := [demo_event]\<rparr>"

definition demo_closed :: "MemorySink audit_sys" where
  "demo_closed = demo_queued\<lparr>sys_emitter :=
     (NewEmitter 2)\<lparr>em_queue := [demo_event], em_stopped := True, em_running := False\<rparr>\<rparr>"

definition demo_late :: "MemorySink audit_sys" where
  "demo_late = demo_closed\<lparr>sys_emitter :=
     (NewEmitter 2)\<lparr>em_queue := [demo_event, demo_event], em_stopped := True, em_running := False\<rparr>,
     sys_accepted := [demo_event, demo_event]\<rparr>"

lemmas demo_audit_defs = demo_start_def demo_queued_def demo_closed_def demo_late_def audit_init_def
  NewEmitter_def

lemma demo_stamp [simp]: "stamp_event w demo_event = (demo_event, w)"
  by (simp add: stamp_event_def demo_event_def IsZero_def)

lemma demo_queued_step: "audit_step memory_sink demo_start demo_queued"
proof -
  have "Emitter_Emit (sys_world demo_start) (sys_emitter demo_start) demo_event
      = (None, sys_world demo_start, sys_emitter demo_queued)"
    by (simp add: Emitter_Emit_def demo_audit_defs)
  from step_accept [OF this] show ?thesis by (simp add: demo_audit_defs)
qed

lemma demo_closed_steps: "audit_steps memory_sink demo_queued demo_closed"
proof -
  let ?y = "demo_queued\<lparr>sys_emitter := Emitter_Close_begin (sys_emitter demo_queued)\<rparr>"
  have "worker_return (sys_emitter ?y) = Some (sys_emitter demo_closed)"
    by (simp add: worker_return_def Emitter_Close_begin_def demo_audit_defs)
  from step_return [OF this] have "audit_step memory_sink ?y demo_closed"
    by (simp add: demo_audit_defs)
  then show ?thesis using step_close [of memory_sink demo_queued] by auto
qed

lemma demo_late_step: "audit_step memory_sink demo_closed demo_late"
proof -
  have "Emitter_Emit (sys_world demo_closed) (sys_emitter demo_closed) demo_event
      = (None, sys_world demo_closed, sys_emitter demo_late)"
    by (simp add: Emitter_Emit_def demo_audit_defs)
  from step_accept [OF this] show ?thesis by (simp add: demo_audit_defs)
qed

lemma demo_queued_reach: "audit_steps memory_sink (audit_init 2 NewMemorySink demo_audit_world) demo_queued"
  using demo_queued_step by (auto simp: demo_start_def)

lemma demo_closed_reach: "audit_steps memory_sink (audit_init 2 NewMemorySink demo_audit_world) demo_closed"
  using demo_queued_reach demo_closed_steps by auto

theorem audit_events_conserved_witness:
  "sys_accepted demo_closed = [demo_event] \<and> pending (sys_emitter demo_closed) = [demo_event]
   \<and> Emitter_Drops (sys_emitter demo_closed) = 0"
  using audit_events_conserved [OF demo_closed_reach] by (simp add: demo_audit_defs)

theorem audit_log_in_order_witness:
  "MemorySink_Events (sys_sink demo_queued) = []"
  using audit_log_in_order [OF demo_queued_reach] by (simp add: demo_audit_defs)

theorem audit_worker_drains_witness:
  "\<exists>z. audit_steps memory_sink demo_queued z \<and> MemorySink_Events (sys_sink z) = [demo_event]"
  using audit_worker_drains [of demo_queued]
  by (auto simp: demo_audit_defs NewMemorySink_def pending_def MemorySink_Events_def)

theorem audit_close_abandons_queue_witness:
  "sys_accepted demo_late = [demo_event, demo_event] \<and> MemorySink_Events (sys_sink demo_late) = []
   \<and> prefix [demo_event] (em_queue (sys_emitter demo_late))"
  using audit_close_abandons_queue [OF demo_closed_reach _
      r_into_rtranclp [where r = "audit_step memory_sink", OF demo_late_step]]
  by (simp add: demo_audit_defs Emitter_Close_returns_def MemorySink_Events_def NewMemorySink_def)

end
