(* ===== verification/Metrics.thy ===== *)
theory Metrics
  imports Go_Strings
begin

text \<open>
  \<open>internal/metrics/metrics.go\<close>: the process-wide counters and the text served on \<open>/metrics\<close>.  The
  counters are \<open>atomic.Int64\<close>, so they wrap at 64 bits.  \<open>scrape\<close> reads a sample back the way a
  Prometheus scraper does: the last field of the line that starts with the sample's name.
\<close>

section \<open>Counters\<close>

record Metrics =
  ScreenTotal :: int
  ScreenDurationSum :: int
  ScreenDurationCount :: int
  CacheHitsTotal :: int
  CacheMissesTotal :: int
  VendorErrorsTotal :: int
  CircuitBreakerState :: int
  AlertsOpen :: int
  AuditDropsTotal :: int
  WebhookAcceptTotal :: int
  WebhookRejectTotal :: int
  WebhookDuplicateTotal :: int

definition zero_Metrics :: Metrics where
  "zero_Metrics = \<lparr>ScreenTotal = 0, ScreenDurationSum = 0, ScreenDurationCount = 0, CacheHitsTotal = 0,
     CacheMissesTotal = 0, VendorErrorsTotal = 0, CircuitBreakerState = 0, AlertsOpen = 0,
     AuditDropsTotal = 0, WebhookAcceptTotal = 0, WebhookRejectTotal = 0, WebhookDuplicateTotal = 0\<rparr>"

definition ObserveScreenDuration :: "int \<Rightarrow> Metrics \<Rightarrow> Metrics" where
  "ObserveScreenDuration nanos m =
     m\<lparr>ScreenDurationSum := ctr_add (ScreenDurationSum m) nanos,
       ScreenDurationCount := ctr_add (ScreenDurationCount m) 1\<rparr>"

section \<open>Rendering\<close>

abbreviation newline :: char where "newline \<equiv> CHR 0x0A"

definition writeCounter :: "string \<Rightarrow> int \<Rightarrow> string" where
  "writeCounter name v =
     ''# TYPE '' @ name @ '' counter'' @ [newline] @ name @ '' '' @ Itoa v @ [newline]"

definition writeGauge :: "string \<Rightarrow> int \<Rightarrow> string" where
  "writeGauge name v =
     ''# TYPE '' @ name @ '' gauge'' @ [newline] @ name @ '' '' @ Itoa v @ [newline]"

definition writeHistogram :: "string \<Rightarrow> int \<Rightarrow> int \<Rightarrow> string" where
  "writeHistogram name sum0 count0 =
     ''# TYPE '' @ name @ '' histogram'' @ [newline]
     @ name @ ''_sum '' @ Itoa sum0 @ [newline] @ name @ ''_count '' @ Itoa count0 @ [newline]"

definition render :: "Metrics \<Rightarrow> string" where
  "render m =
     writeCounter ''kyt_screen_total'' (ScreenTotal m)
     @ writeHistogram ''kyt_screen_duration_seconds'' (ScreenDurationSum m) (ScreenDurationCount m)
     @ writeCounter ''kyt_cache_hits_total'' (CacheHitsTotal m)
     @ writeCounter ''kyt_cache_misses_total'' (CacheMissesTotal m)
     @ writeCounter ''kyt_vendor_errors_total'' (VendorErrorsTotal m)
     @ writeGauge ''kyt_circuit_breaker_state'' (CircuitBreakerState m)
     @ writeGauge ''kyt_alerts_open'' (AlertsOpen m)
     @ writeCounter ''kyt_audit_drops_total'' (AuditDropsTotal m)
     @ writeCounter ''kyt_webhook_accept_total'' (WebhookAcceptTotal m)
     @ writeCounter ''kyt_webhook_reject_total'' (WebhookRejectTotal m)
     @ writeCounter ''kyt_webhook_duplicate_total'' (WebhookDuplicateTotal m)"

section \<open>Scraping\<close>

definition scrape :: "string \<Rightarrow> string \<Rightarrow> int option" where
  "scrape text name =
     (case find (\<lambda>l. HasPrefix l (name @ '' '')) (Split text newline) of
        None \<Rightarrow> None
      | Some l \<Rightarrow> Atoi (drop (Suc (length name)) l))"

text \<open>The samples the service exports, with the field each reports.\<close>

definition samples :: "Metrics \<Rightarrow> (string \<times> int) list" where
  "samples m =
     [(''kyt_screen_total'', ScreenTotal m),
      (''kyt_screen_duration_seconds_sum'', ScreenDurationSum m),
      (''kyt_screen_duration_seconds_count'', ScreenDurationCount m),
      (''kyt_cache_hits_total'', CacheHitsTotal m),
      (''kyt_cache_misses_total'', CacheMissesTotal m),
      (''kyt_vendor_errors_total'', VendorErrorsTotal m),
      (''kyt_circuit_breaker_state'', CircuitBreakerState m),
      (''kyt_alerts_open'', AlertsOpen m),
      (''kyt_audit_drops_total'', AuditDropsTotal m),
      (''kyt_webhook_accept_total'', WebhookAcceptTotal m),
      (''kyt_webhook_reject_total'', WebhookRejectTotal m),
      (''kyt_webhook_duplicate_total'', WebhookDuplicateTotal m)]"

definition comment_line :: "string \<Rightarrow> string \<Rightarrow> string" where
  "comment_line name kind = CHR ''#'' # '' TYPE '' @ name @ kind"

definition sample_line :: "string \<times> int \<Rightarrow> string" where
  "sample_line s = fst s @ CHR '' '' # Itoa (snd s)"

definition lines_of :: "Metrics \<Rightarrow> string list" where
  "lines_of m = concat
     [[comment_line ''kyt_screen_total'' '' counter'', sample_line (samples m ! 0)],
      [comment_line ''kyt_screen_duration_seconds'' '' histogram'', sample_line (samples m ! 1), sample_line (samples m ! 2)],
      [comment_line ''kyt_cache_hits_total'' '' counter'', sample_line (samples m ! 3)],
      [comment_line ''kyt_cache_misses_total'' '' counter'', sample_line (samples m ! 4)],
      [comment_line ''kyt_vendor_errors_total'' '' counter'', sample_line (samples m ! 5)],
      [comment_line ''kyt_circuit_breaker_state'' '' gauge'', sample_line (samples m ! 6)],
      [comment_line ''kyt_alerts_open'' '' gauge'', sample_line (samples m ! 7)],
      [comment_line ''kyt_audit_drops_total'' '' counter'', sample_line (samples m ! 8)],
      [comment_line ''kyt_webhook_accept_total'' '' counter'', sample_line (samples m ! 9)],
      [comment_line ''kyt_webhook_reject_total'' '' counter'', sample_line (samples m ! 10)],
      [comment_line ''kyt_webhook_duplicate_total'' '' counter'', sample_line (samples m ! 11)]]"

definition unlines :: "string list \<Rightarrow> string" where
  "unlines ls = concat (map (\<lambda>l. l @ [newline]) ls)"

lemma Split_unlines: "\<forall>l \<in> set ls. newline \<notin> set l \<Longrightarrow> Split (unlines ls) newline = ls @ [[]]"
  by (induction ls) (simp_all add: unlines_def Split_append)

lemma render_lines: "render m = unlines (lines_of m)"
  by (simp add: render_def lines_of_def unlines_def samples_def writeCounter_def writeGauge_def
      writeHistogram_def comment_line_def sample_line_def)

lemma newline_Itoa: "newline \<notin> set (Itoa n)"
proof
  assume "newline \<in> set (Itoa n)"
  then have "newline \<in> set (nat_digits (nat (- n))) \<or> newline \<in> set (nat_digits (nat n))"
    by (auto simp: Itoa_def split: if_splits)
  then show False using nat_digits_digits [of newline] by auto
qed

lemma lines_of_clean: "\<forall>l \<in> set (lines_of m). newline \<notin> set l"
  by (simp add: lines_of_def samples_def comment_line_def sample_line_def newline_Itoa)

text \<open>
  A line with a sample of another name is skipped: no name contains a space, so the names of two
  lines agree when one starts with the other's name and a space.
\<close>

lemma prefix_sample_line:
  "CHR '' '' \<notin> set n \<Longrightarrow> CHR '' '' \<notin> set k \<Longrightarrow> prefix (n @ '' '') (sample_line (k, v)) \<longleftrightarrow> n = k"
proof (induction n arbitrary: k)
  case Nil
  then show ?case by (cases k) (auto simp: sample_line_def)
next
  case (Cons x n)
  then show ?case by (cases k) (auto simp: sample_line_def)
qed

lemma prefix_comment_line: "hd n = CHR ''k'' \<Longrightarrow> n \<noteq> [] \<Longrightarrow> \<not> prefix (n @ '' '') (comment_line k s)"
  by (cases n) (simp_all add: comment_line_def)

lemma find_append_Some: "find P xs = Some x \<Longrightarrow> find P (xs @ ys) = Some x"
  by (induction xs) (auto split: if_splits)

lemma samples_names:
  "(name, v) \<in> set (samples m) \<Longrightarrow> CHR '' '' \<notin> set name \<and> hd name = CHR ''k'' \<and> name \<noteq> []"
  by (auto simp: samples_def)

lemma find_sample_line:
  assumes "CHR '' '' \<notin> set name" and "hd name = CHR ''k''" and "name \<noteq> []"
    and "\<And>k. k \<in> fst ` set (samples m) \<Longrightarrow> CHR '' '' \<notin> set k"
  shows "find (\<lambda>l. prefix (name @ '' '') l) (lines_of m) =
    map_option (\<lambda>v. sample_line (name, v)) (map_of (samples m) name)"
proof -
  have sample: "prefix (name @ '' '') (sample_line s) \<longleftrightarrow> name = fst s" if "s \<in> set (samples m)" for s
    using prefix_sample_line [OF assms(1) assms(4), of "fst s" "snd s"] that by simp
  note comment = prefix_comment_line [OF assms(2,3)]
  have skip: "find (\<lambda>l. prefix (name @ '' '') l) (comment_line k x # ls)
      = find (\<lambda>l. prefix (name @ '' '') l) ls" for k x ls
    using comment by simp
  have hit: "find (\<lambda>l. prefix (name @ '' '') l) (sample_line s # ls)
      = (if name = fst s then Some (sample_line s) else find (\<lambda>l. prefix (name @ '' '') l) ls)"
    if "s \<in> set (samples m)" for s ls
    using sample [OF that] by simp
  have step: "find (\<lambda>l. prefix (name @ '' '') l) (sample_line s # ls)
      = (if name = fst s then Some (sample_line (name, snd s)) else find (\<lambda>l. prefix (name @ '' '') l) ls)"
    if "s \<in> set (samples m)" for s ls
    using hit [OF that] by (cases s) simp
  obtain s0 s1 s2 s3 s4 s5 s6 s7 s8 s9 s10 s11
    where xs: "samples m = [s0, s1, s2, s3, s4, s5, s6, s7, s8, s9, s10, s11]"
    using samples_def by (rule that)
  have mem: "s \<in> set (samples m) \<longleftrightarrow> s \<in> {s0, s1, s2, s3, s4, s5, s6, s7, s8, s9, s10, s11}" for s
    by (simp only: xs list.set)
  have map: "map_option (\<lambda>v. sample_line (name, v)) (map_of (s # ss) name) =
      (if name = fst s then Some (sample_line (name, snd s))
       else map_option (\<lambda>v. sample_line (name, v)) (map_of ss name))" for s :: "string \<times> int" and ss
    by (cases s) simp
  show ?thesis
    unfolding lines_of_def xs map by (simp add: skip step mem del: find.simps(2))
qed

text \<open>
  C33: Round trip of the metrics endpoint: scraping \<open>/metrics\<close> for any exported sample gives the value of
  the counter it reports.
\<close>

theorem metrics_scrape_roundtrip:
  assumes "(name, v) \<in> set (samples m)" and "minInt64 \<le> v" and "v \<le> maxInt64"
  shows "scrape (render m) name = Some v"
proof -
  have "map_of (samples m) name = Some v"
    using assms(1) by (intro map_of_is_SomeI) (simp_all add: samples_def)
  then have "find (\<lambda>l. prefix (name @ '' '') l) (lines_of m) = Some (sample_line (name, v))"
    using find_sample_line [of name m] samples_names assms(1) by fastforce
  then have "find (\<lambda>l. prefix (name @ '' '') l) (lines_of m @ [[]]) = Some (sample_line (name, v))"
    by (rule find_append_Some)
  then show ?thesis
    using assms(2,3) by (simp add: scrape_def render_lines Split_unlines lines_of_clean sample_line_def Atoi_Itoa)
qed

theorem metrics_scrape_roundtrip_witness:
  "scrape (render (zero_Metrics\<lparr>CacheHitsTotal := 7\<rparr>)) ''kyt_cache_hits_total'' = Some 7"
  using metrics_scrape_roundtrip [of "''kyt_cache_hits_total''" 7 "zero_Metrics\<lparr>CacheHitsTotal := 7\<rparr>"]
  by (simp add: samples_def)

end
