(* ===== verification/Screen.thy ===== *)
theory Screen
  imports Decision Cache Idempotent Alert Audit_Events Metrics
begin

text \<open>
  \<open>internal/screen/screen.go\<close>: the synchronous screen path and the in-memory screen store.  A service
  holds interfaces, so it is a record of operation tables; the state of everything it talks to is
  the record \<open>screen_state\<close>.  A nil cache, screen store, alert service or emitter is \<open>None\<close> (or
  \<open>False\<close>).  One call is one function; the components it calls lock themselves.
\<close>

section \<open>Requests, responses, rows\<close>

record Request =
  rq_TxID :: string
  rq_Address :: string
  rq_SourceAddress :: string
  rq_Chain :: string
  rq_Amount :: string

record Response =
  rp_ScreenID :: string
  rp_RiskScore :: int
  rp_Exposure :: string
  rp_Decision :: string
  rp_Vendor :: string
  rp_CacheHit :: bool

record ScreenRecord =
  sr_ScreenID :: string
  sr_TxID :: string
  sr_Address :: string
  sr_SourceAddress :: string
  sr_Chain :: string
  sr_Amount :: string
  sr_RiskScore :: int
  sr_Exposure :: string
  sr_Decision :: string
  sr_Vendor :: string
  sr_VendorResponseID :: string
  sr_CacheHit :: bool
  sr_CreatedAt :: gotime

record 's ScreenStore =
  ss_Put :: "'s \<Rightarrow> ScreenRecord \<Rightarrow> go_error option \<times> 's"
  ss_Get :: "'s \<Rightarrow> string \<Rightarrow> go_error + ScreenRecord option"
  ss_ListByAddress :: "'s \<Rightarrow> string \<Rightarrow> string \<Rightarrow> go_error + ScreenRecord list"

section \<open>The service\<close>

record ('c, 'p, 's, 'a) Service =
  svc_cache :: "'c CacheOps option"
  svc_provider :: "'p ScreenProvider"
  svc_threshold :: Thresholds
  svc_screens :: "'s ScreenStore option"
  svc_alerts :: "'a AlertStore option"
  svc_audit :: bool
  svc_lower :: "string \<Rightarrow> string"

record ('c, 'p, 's, 'a) screen_state =
  st_world :: world
  st_cache :: 'c
  st_provider :: 'p
  st_screens :: 's
  st_alerts :: 'a
  st_audit :: Emitter
  st_metrics :: Metrics

definition validate :: "Request \<Rightarrow> go_error option" where
  "validate req =
     (if TrimSpace (rq_TxID req) = '''' then Some (ErrText ''tx_id is required'')
      else if TrimSpace (rq_Address req) = '''' then Some (ErrText ''address is required'')
      else if TrimSpace (rq_Chain req) = '''' then Some (ErrText ''chain is required'')
      else if TrimSpace (rq_Amount req) = '''' then Some (ErrText ''amount is required'')
      else None)"

text \<open>\<open>finalize\<close>: the row, the alert for a decision other than \<open>ALLOW\<close>, the audit event.\<close>

definition finalize_alert ::
    "('c, 'p, 's, 'a) Service \<Rightarrow> ('c, 'p, 's, 'a) screen_state \<Rightarrow> string \<Rightarrow> Request \<Rightarrow> string \<Rightarrow> string
     \<Rightarrow> ('c, 'p, 's, 'a) screen_state" where
  "finalize_alert svc st i req exposure dec =
     (if dec \<noteq> DecisionAllow then
        (case svc_alerts svc of
           None \<Rightarrow> st
         | Some store \<Rightarrow>
             (case AlertService_Create store (st_world st) (st_alerts st) i (rq_TxID req) (rq_Address req)
                     (rq_Chain req) exposure (SeverityFor exposure) of
                (_, w, a) \<Rightarrow>
                  st\<lparr>st_world := w, st_alerts := a,
                    st_metrics := (st_metrics st)\<lparr>AlertsOpen := ctr_add (AlertsOpen (st_metrics st)) 1\<rparr>\<rparr>))
      else st)"

definition finalize_audit ::
    "('c, 'p, 's, 'a) Service \<Rightarrow> ('c, 'p, 's, 'a) screen_state \<Rightarrow> Event \<Rightarrow> ('c, 'p, 's, 'a) screen_state" where
  "finalize_audit svc st ev =
     (if svc_audit svc then
        (case Emitter_Emit (st_world st) (st_audit st) ev of
           (_, w, e) \<Rightarrow> st\<lparr>st_world := w, st_audit := e\<rparr>)
      else st)"

definition finalize ::
    "('c, 'p, 's, 'a) Service \<Rightarrow> ('c, 'p, 's, 'a) screen_state \<Rightarrow> Request \<Rightarrow> int \<Rightarrow> string \<Rightarrow> string \<Rightarrow> string
     \<Rightarrow> bool \<Rightarrow> (go_error + Response) \<times> ('c, 'p, 's, 'a) screen_state" where
  "finalize svc st req score exposure dec vend cacheHit =
     (let (i, w1) = newID (st_world st);
          (now, w2) = time_Now w1;
          st2 = st\<lparr>st_world := w2\<rparr>;
          rec = \<lparr>sr_ScreenID = i, sr_TxID = rq_TxID req, sr_Address = rq_Address req,
                 sr_SourceAddress = rq_SourceAddress req, sr_Chain = rq_Chain req,
                 sr_Amount = rq_Amount req, sr_RiskScore = score, sr_Exposure = exposure,
                 sr_Decision = dec, sr_Vendor = vend, sr_VendorResponseID = '''',
                 sr_CacheHit = cacheHit, sr_CreatedAt = now\<rparr>;
          (err, st3) = (case svc_screens svc of
              None \<Rightarrow> (None, st2)
            | Some store \<Rightarrow>
                (case ss_Put store (st_screens st2) rec of (err, s) \<Rightarrow> (err, st2\<lparr>st_screens := s\<rparr>)))
      in case err of
           Some e \<Rightarrow> (Inl (Wrap ''persist screen'' e), st3)
         | None \<Rightarrow>
             (let st4 = finalize_alert svc st3 i req exposure dec;
                  st5 = finalize_audit svc st4
                    \<lparr>ev_ScreenID = i, ev_TxID = rq_TxID req, ev_Address = rq_Address req,
                     ev_Chain = rq_Chain req, ev_Amount = rq_Amount req, ev_Decision = dec,
                     ev_Exposure = exposure, ev_RiskScore = score, ev_Vendor = vend,
                     ev_CacheHit = cacheHit,
                     ev_Source = (if cacheHit then ''cache'' else ''vendor''), ev_Operator = '''',
                     ev_CreatedAt = now\<rparr>
              in (Inr \<lparr>rp_ScreenID = i, rp_RiskScore = score, rp_Exposure = exposure,
                       rp_Decision = dec, rp_Vendor = vend, rp_CacheHit = cacheHit\<rparr>, st5)))"

text \<open>\<open>Screen\<close> in three parts: the cache lookup, the vendor call on a miss, and the timing around both.\<close>

definition screen_lookup ::
    "('c, 'p, 's, 'a) Service \<Rightarrow> ('c, 'p, 's, 'a) screen_state \<Rightarrow> Request
     \<Rightarrow> Verdict option \<times> ('c, 'p, 's, 'a) screen_state" where
  "screen_lookup svc st req =
     (case svc_cache svc of
        None \<Rightarrow> (None, st)
      | Some cache \<Rightarrow>
          (case c_Get cache (st_world st) (st_cache st) (rq_Address req) (rq_Chain req) of
             (r, w, c) \<Rightarrow>
               ((case r of Inr (Some v) \<Rightarrow> Some v | _ \<Rightarrow> None), st\<lparr>st_world := w, st_cache := c\<rparr>)))"

definition vendor_request_of :: "Request \<Rightarrow> ScreenRequest" where
  "vendor_request_of req =
     \<lparr>vq_TxID = rq_TxID req, vq_Address = rq_Address req, vq_SourceAddress = rq_SourceAddress req,
      vq_Chain = rq_Chain req, vq_Amount = rq_Amount req,
      vq_IdempotencyKey = IdempotencyKey (rq_TxID req) (rq_Address req) (rq_Chain req)\<rparr>"

definition screen_vendor ::
    "('c, 'p, 's, 'a) Service \<Rightarrow> ('c, 'p, 's, 'a) screen_state \<Rightarrow> Request
     \<Rightarrow> (go_error + Response) \<times> ('c, 'p, 's, 'a) screen_state" where
  "screen_vendor svc st req =
     (case prov_Screen (svc_provider svc) (st_world st) (st_provider st) (vendor_request_of req) of
        (Inl verr, w, p) \<Rightarrow>
          (let st1 = st\<lparr>st_world := w, st_provider := p,
                 st_metrics := (st_metrics st)\<lparr>VendorErrorsTotal := ctr_add (VendorErrorsTotal (st_metrics st)) 1\<rparr>\<rparr>
           in finalize svc st1 req 0 ExposureUnknown DecideVendorUnreachable '''' False)
      | (Inr vresp, w, p) \<Rightarrow>
          (let st1 = st\<lparr>st_world := w, st_provider := p\<rparr>;
               exposure = (if vr_Exposure vresp = ''''
                 then ExposureFromScore (svc_lower svc) (svc_threshold svc) (vr_RiskScore vresp) (rq_Chain req)
                 else vr_Exposure vresp);
               decisionVal = Decide (svc_threshold svc) exposure;
               st2 = (case svc_cache svc of
                   None \<Rightarrow> st1
                 | Some cache \<Rightarrow>
                     (case c_Set cache (st_world st1) (st_cache st1)
                        \<lparr>vd_Address = rq_Address req, vd_Chain = rq_Chain req, vd_RiskScore = vr_RiskScore vresp,
                         vd_Exposure = exposure, vd_Decision = decisionVal, vd_Vendor = vr_Vendor vresp\<rparr> of
                        (_, w1, c) \<Rightarrow> st1\<lparr>st_world := w1, st_cache := c\<rparr>))
           in finalize svc st2 req (vr_RiskScore vresp) exposure decisionVal (vr_Vendor vresp) False))"

definition screen_body ::
    "('c, 'p, 's, 'a) Service \<Rightarrow> ('c, 'p, 's, 'a) screen_state \<Rightarrow> Request
     \<Rightarrow> (go_error + Response) \<times> ('c, 'p, 's, 'a) screen_state" where
  "screen_body svc st req =
     (case screen_lookup svc st req of
        (Some v, st1) \<Rightarrow>
          finalize svc
            (st1\<lparr>st_metrics := (st_metrics st1)\<lparr>CacheHitsTotal := ctr_add (CacheHitsTotal (st_metrics st1)) 1\<rparr>\<rparr>)
            req (vd_RiskScore v) (vd_Exposure v) (vd_Decision v) (vd_Vendor v) True
      | (None, st1) \<Rightarrow>
          screen_vendor svc
            (st1\<lparr>st_metrics := (st_metrics st1)\<lparr>CacheMissesTotal := ctr_add (CacheMissesTotal (st_metrics st1)) 1\<rparr>\<rparr>)
            req)"

definition Service_Screen ::
    "('c, 'p, 's, 'a) Service \<Rightarrow> ('c, 'p, 's, 'a) screen_state \<Rightarrow> Request
     \<Rightarrow> (go_error + Response) \<times> ('c, 'p, 's, 'a) screen_state" where
  "Service_Screen svc st req =
     (case validate req of
        Some e \<Rightarrow> (Inl e, st)
      | None \<Rightarrow>
          (let (start, w0) = time_Now (st_world st);
               (r, st1) = screen_body svc (st\<lparr>st_world := w0\<rparr>) req;
               (end, w1) = time_Now (st_world st1);
               m = ObserveScreenDuration (time_Sub end start) (st_metrics st1)
           in (r, st1\<lparr>st_world := w1, st_metrics := m\<lparr>ScreenTotal := ctr_add (ScreenTotal m) 1\<rparr>\<rparr>)))"

text \<open>\<open>NewService\<close>, with every dependency given.\<close>

definition NewService ::
    "'c CacheOps \<Rightarrow> 'p ScreenProvider \<Rightarrow> Thresholds \<Rightarrow> 's ScreenStore \<Rightarrow> 'a AlertStore \<Rightarrow> (string \<Rightarrow> string)
     \<Rightarrow> ('c, 'p, 's, 'a) Service" where
  "NewService cache prov th screens alerts lower =
     \<lparr>svc_cache = Some cache, svc_provider = prov, svc_threshold = th, svc_screens = Some screens,
      svc_alerts = Some alerts, svc_audit = True, svc_lower = lower\<rparr>"

section \<open>The in-memory screen store\<close>

text \<open>
  \<open>ListByAddress\<close> ranges over a Go map, whose order is unspecified, and sorts with \<open>sort.Slice\<close>, which
  is not stable; \<open>ord\<close> is the order of the iteration, and sorting it stably gives every result an
  unstable sort of some order can give.
\<close>

type_synonym MemoryScreenStore = "(string \<times> ScreenRecord) list"

definition NewMemoryScreenStore :: MemoryScreenStore where
  "NewMemoryScreenStore = []"

definition MemoryScreenStore_Put :: "MemoryScreenStore \<Rightarrow> ScreenRecord \<Rightarrow> go_error option \<times> MemoryScreenStore" where
  "MemoryScreenStore_Put s rec =
     (if sr_ScreenID rec = '''' then (Some (ErrText ''screen id required''), s)
      else (None, AList.update (sr_ScreenID rec) rec s))"

definition MemoryScreenStore_Get :: "MemoryScreenStore \<Rightarrow> string \<Rightarrow> go_error + ScreenRecord option" where
  "MemoryScreenStore_Get s i = Inr (map_of s i)"

definition MemoryScreenStore_ListByAddress ::
    "(MemoryScreenStore \<Rightarrow> MemoryScreenStore) \<Rightarrow> MemoryScreenStore \<Rightarrow> string \<Rightarrow> string
     \<Rightarrow> go_error + ScreenRecord list" where
  "MemoryScreenStore_ListByAddress ord s address chain =
     Inr (sort_key sr_CreatedAt
       (filter (\<lambda>r. sr_Address r = address \<and> sr_Chain r = chain) (map snd (ord s))))"

definition MemoryScreenStore_Len :: "MemoryScreenStore \<Rightarrow> nat" where
  "MemoryScreenStore_Len s = length s"

definition memory_screen_store :: "(MemoryScreenStore \<Rightarrow> MemoryScreenStore) \<Rightarrow> MemoryScreenStore ScreenStore" where
  "memory_screen_store ord =
     \<lparr>ss_Put = MemoryScreenStore_Put, ss_Get = MemoryScreenStore_Get,
      ss_ListByAddress = MemoryScreenStore_ListByAddress ord\<rparr>"

section \<open>The contract of a screen store\<close>

locale screen_store =
  fixes ops :: "'s ScreenStore"
    and ok :: "'s \<Rightarrow> bool"
    and rows :: "'s \<Rightarrow> string \<rightharpoonup> ScreenRecord"
  assumes put_ok: "ok s \<Longrightarrow> sr_ScreenID r \<noteq> '''' \<Longrightarrow>
      fst (ss_Put ops s r) = None \<and> ok (snd (ss_Put ops s r))
      \<and> rows (snd (ss_Put ops s r)) = (rows s)(sr_ScreenID r \<mapsto> r)"
    and get_rows: "ok s \<Longrightarrow> ss_Get ops s i = Inr (rows s i)"
    and rows_keyed: "ok s \<Longrightarrow> rows s i = Some r \<Longrightarrow> sr_ScreenID r = i"
    and list_rows: "ok s \<Longrightarrow> \<exists>xs. ss_ListByAddress ops s a c = Inr xs \<and> distinct (map sr_ScreenID xs)
      \<and> sorted (map sr_CreatedAt xs)
      \<and> set xs = {r. rows s (sr_ScreenID r) = Some r \<and> sr_Address r = a \<and> sr_Chain r = c}"
begin

text \<open>A row is found again, under its id and in the listing of its address, until it is overwritten.\<close>

lemma get_put: "ok s \<Longrightarrow> sr_ScreenID r \<noteq> '''' \<Longrightarrow>
    ss_Get ops (snd (ss_Put ops s r)) i = Inr (if i = sr_ScreenID r then Some r else rows s i)"
  using put_ok [of s r] get_rows [of "snd (ss_Put ops s r)" i] by simp

lemma list_put:
  assumes "ok s" and "sr_ScreenID r \<noteq> ''''" and "rows s (sr_ScreenID r) = None"
  shows "\<exists>xs. ss_ListByAddress ops (snd (ss_Put ops s r)) a c = Inr xs \<and>
    (r \<in> set xs \<longleftrightarrow> sr_Address r = a \<and> sr_Chain r = c)"
  using put_ok [OF assms(1,2)] list_rows [of "snd (ss_Put ops s r)" a c] by auto

end

text \<open>The in-memory store satisfies it when the map's iteration visits every entry once.\<close>

definition mss_ok :: "(MemoryScreenStore \<Rightarrow> MemoryScreenStore) \<Rightarrow> MemoryScreenStore \<Rightarrow> bool" where
  "mss_ok ord s \<longleftrightarrow> (\<forall>m. mset (ord m) = mset m) \<and> distinct (keys_of s)
     \<and> (\<forall>(k, r) \<in> set s. sr_ScreenID r = k)"

lemma mss_list:
  assumes "mss_ok ord s"
  shows "\<exists>xs. MemoryScreenStore_ListByAddress ord s a c = Inr xs \<and> distinct (map sr_ScreenID xs)
      \<and> sorted (map sr_CreatedAt xs)
      \<and> set xs = {r. map_of s (sr_ScreenID r) = Some r \<and> sr_Address r = a \<and> sr_Chain r = c}"
proof -
  have perm: "mset (ord s) = mset s" and keys: "distinct (keys_of s)"
    and filed: "\<And>k r. (k, r) \<in> set s \<Longrightarrow> sr_ScreenID r = k"
    using assms by (auto simp: mss_ok_def)
  have set: "set (ord s) = set s" using perm by (metis set_mset_mset)
  have ids: "map (sr_ScreenID \<circ> snd) (ord s) = map fst (ord s)"
    using filed set by auto
  have "mset (map fst (ord s)) = mset (map fst s)" using perm by simp
  then have "distinct (map fst (ord s))" using keys by (metis mset_eq_imp_distinct_iff)
  then have d: "distinct (map sr_ScreenID (map snd (ord s)))" using ids by (metis list.map_comp)
  have "distinct (map sr_ScreenID (sort_key sr_CreatedAt (filter P (map snd (ord s)))))" for P
  proof -
    have "distinct (map sr_ScreenID (filter P (map snd (ord s))))" using d by (rule distinct_map_filter)
    moreover have "mset (map sr_ScreenID (sort_key sr_CreatedAt (filter P (map snd (ord s)))))
        = mset (map sr_ScreenID (filter P (map snd (ord s))))" by simp
    ultimately show ?thesis using mset_eq_imp_distinct_iff by blast
  qed
  moreover have "snd ` set s = {r. map_of s (sr_ScreenID r) = Some r}"
  proof (intro set_eqI iffI)
    fix r assume "r \<in> snd ` set s"
    then obtain k where "(k, r) \<in> set s" by auto
    then show "r \<in> {r. map_of s (sr_ScreenID r) = Some r}" using keys filed by simp
  next
    fix r assume "r \<in> {r. map_of s (sr_ScreenID r) = Some r}"
    then show "r \<in> snd ` set s" by (auto dest!: map_of_SomeD intro: rev_image_eqI)
  qed
  ultimately show ?thesis
    using set by (auto simp: MemoryScreenStore_ListByAddress_def)
qed

lemma mss_put:
  assumes "mss_ok ord s" and "sr_ScreenID r \<noteq> ''''"
  shows "mss_ok ord (AList.update (sr_ScreenID r) r s)"
proof -
  have "(k, r') \<in> set (AList.update (sr_ScreenID r) r s) \<Longrightarrow> sr_ScreenID r' = k" for k r'
    using assms(1) by (auto simp: mss_ok_def dest!: update_mem)
  then show ?thesis using assms(1) by (auto simp: mss_ok_def distinct_update)
qed

lemma memory_screen_store_simps [simp]:
  "ss_Put (memory_screen_store ord) = MemoryScreenStore_Put"
  "ss_Get (memory_screen_store ord) = MemoryScreenStore_Get"
  "ss_ListByAddress (memory_screen_store ord) = MemoryScreenStore_ListByAddress ord"
  by (simp_all add: memory_screen_store_def)

interpretation mss: screen_store "memory_screen_store ord" "mss_ok ord" map_of for ord
proof unfold_locales
  fix s :: MemoryScreenStore and r i a c
  assume ok: "mss_ok ord s"
  show "sr_ScreenID r \<noteq> '''' \<Longrightarrow>
      fst (ss_Put (memory_screen_store ord) s r) = None \<and> mss_ok ord (snd (ss_Put (memory_screen_store ord) s r))
      \<and> map_of (snd (ss_Put (memory_screen_store ord) s r)) = (map_of s)(sr_ScreenID r \<mapsto> r)"
    using mss_put [OF ok] by (auto simp: MemoryScreenStore_Put_def)
  show "ss_Get (memory_screen_store ord) s i = Inr (map_of s i)"
    by (simp add: MemoryScreenStore_Get_def)
  show "map_of s i = Some r \<Longrightarrow> sr_ScreenID r = i"
    using ok by (auto simp: mss_ok_def dest!: map_of_SomeD)
  show "\<exists>xs. ss_ListByAddress (memory_screen_store ord) s a c = Inr xs \<and> distinct (map sr_ScreenID xs)
      \<and> sorted (map sr_CreatedAt xs)
      \<and> set xs = {r. map_of s (sr_ScreenID r) = Some r \<and> sr_Address r = a \<and> sr_Chain r = c}"
    using mss_list [OF ok] by simp
qed

section \<open>What one screen leaves behind\<close>

text \<open>The row, the alert and the event that belong to an answered request.\<close>

definition row_of :: "Request \<Rightarrow> Response \<Rightarrow> gotime \<Rightarrow> ScreenRecord" where
  "row_of req resp now =
     \<lparr>sr_ScreenID = rp_ScreenID resp, sr_TxID = rq_TxID req, sr_Address = rq_Address req,
      sr_SourceAddress = rq_SourceAddress req, sr_Chain = rq_Chain req, sr_Amount = rq_Amount req,
      sr_RiskScore = rp_RiskScore resp, sr_Exposure = rp_Exposure resp, sr_Decision = rp_Decision resp,
      sr_Vendor = rp_Vendor resp, sr_VendorResponseID = '''', sr_CacheHit = rp_CacheHit resp,
      sr_CreatedAt = now\<rparr>"

definition alert_of :: "string \<Rightarrow> Request \<Rightarrow> Response \<Rightarrow> gotime \<Rightarrow> Alert" where
  "alert_of i req resp now =
     new_alert i (rp_ScreenID resp) (rq_TxID req) (rq_Address req) (rq_Chain req) (rp_Exposure resp)
       (SeverityFor (rp_Exposure resp)) now"

definition event_of :: "Request \<Rightarrow> Response \<Rightarrow> gotime \<Rightarrow> Event" where
  "event_of req resp now =
     \<lparr>ev_ScreenID = rp_ScreenID resp, ev_TxID = rq_TxID req, ev_Address = rq_Address req,
      ev_Chain = rq_Chain req, ev_Amount = rq_Amount req, ev_Decision = rp_Decision resp,
      ev_Exposure = rp_Exposure resp, ev_RiskScore = rp_RiskScore resp, ev_Vendor = rp_Vendor resp,
      ev_CacheHit = rp_CacheHit resp, ev_Source = (if rp_CacheHit resp then ''cache'' else ''vendor''),
      ev_Operator = '''', ev_CreatedAt = now\<rparr>"

text \<open>
  The specification of a screen, over what the stores contain: one new row; one new alert exactly when
  the decision is not \<open>ALLOW\<close>; one event queued, or counted as dropped when the queue is full.
\<close>

definition screen_effect ::
    "Request \<Rightarrow> Response \<Rightarrow> (string \<rightharpoonup> ScreenRecord) \<Rightarrow> (string \<rightharpoonup> ScreenRecord)
     \<Rightarrow> (string \<rightharpoonup> Alert) \<Rightarrow> (string \<rightharpoonup> Alert) \<Rightarrow> Emitter \<Rightarrow> Emitter \<Rightarrow> bool" where
  "screen_effect req resp rows rows' table table' em em' \<longleftrightarrow>
     rows (rp_ScreenID resp) = None
   \<and> (\<exists>now. rows' = rows(rp_ScreenID resp \<mapsto> row_of req resp now))
   \<and> (if rp_Decision resp = DecisionAllow then table' = table
      else (\<exists>i now. table i = None \<and> table' = table(i \<mapsto> alert_of i req resp now)))
   \<and> (\<exists>now. em' = (if length (em_queue em) < em_cap em
        then em\<lparr>em_queue := em_queue em @ [event_of req resp now]\<rparr>
        else em\<lparr>em_drops := ctr_add (em_drops em) 1\<rparr>))"

lemma finalize_alert_frame [frame_simps]:
  "st_cache (finalize_alert svc st i req ex dec) = st_cache st"
  "st_provider (finalize_alert svc st i req ex dec) = st_provider st"
  "st_screens (finalize_alert svc st i req ex dec) = st_screens st"
  "st_audit (finalize_alert svc st i req ex dec) = st_audit st"
  "CacheHitsTotal (st_metrics (finalize_alert svc st i req ex dec)) = CacheHitsTotal (st_metrics st)"
  "CacheMissesTotal (st_metrics (finalize_alert svc st i req ex dec)) = CacheMissesTotal (st_metrics st)"
  "ScreenTotal (st_metrics (finalize_alert svc st i req ex dec)) = ScreenTotal (st_metrics st)"
  "ScreenDurationCount (st_metrics (finalize_alert svc st i req ex dec)) = ScreenDurationCount (st_metrics st)"
  by (simp_all add: finalize_alert_def split: option.split prod.split)

lemma finalize_audit_frame [frame_simps]:
  "st_cache (finalize_audit svc st ev) = st_cache st"
  "st_provider (finalize_audit svc st ev) = st_provider st"
  "st_screens (finalize_audit svc st ev) = st_screens st"
  "st_alerts (finalize_audit svc st ev) = st_alerts st"
  "st_metrics (finalize_audit svc st ev) = st_metrics st"
  by (simp_all add: finalize_audit_def split: prod.split)

text \<open>The result of \<open>Put\<close> is all that decides between the two outcomes of \<open>finalize\<close>.\<close>

definition put_row ::
    "('c, 'p, 's, 'a) Service \<Rightarrow> ScreenRecord \<Rightarrow> ('c, 'p, 's, 'a) screen_state
     \<Rightarrow> go_error option \<times> ('c, 'p, 's, 'a) screen_state" where
  "put_row svc rec st =
     (case svc_screens svc of
        None \<Rightarrow> (None, st)
      | Some store \<Rightarrow> (case ss_Put store (st_screens st) rec of (err, s) \<Rightarrow> (err, st\<lparr>st_screens := s\<rparr>)))"

lemma put_row_frame [frame_simps]:
  "st_cache (snd (put_row svc rec st)) = st_cache st"
  "st_provider (snd (put_row svc rec st)) = st_provider st"
  "st_alerts (snd (put_row svc rec st)) = st_alerts st"
  "st_audit (snd (put_row svc rec st)) = st_audit st"
  "st_metrics (snd (put_row svc rec st)) = st_metrics st"
  "st_world (snd (put_row svc rec st)) = st_world st"
  by (simp_all add: put_row_def split: option.split prod.split)

definition answer_of :: "string \<Rightarrow> int \<Rightarrow> string \<Rightarrow> string \<Rightarrow> string \<Rightarrow> bool \<Rightarrow> Response" where
  "answer_of i score ex dec vend hit =
     \<lparr>rp_ScreenID = i, rp_RiskScore = score, rp_Exposure = ex, rp_Decision = dec, rp_Vendor = vend,
      rp_CacheHit = hit\<rparr>"

lemma answer_of_simps [simp]:
  "rp_ScreenID (answer_of i score ex dec vend hit) = i"
  "rp_RiskScore (answer_of i score ex dec vend hit) = score"
  "rp_Exposure (answer_of i score ex dec vend hit) = ex"
  "rp_Decision (answer_of i score ex dec vend hit) = dec"
  "rp_Vendor (answer_of i score ex dec vend hit) = vend"
  "rp_CacheHit (answer_of i score ex dec vend hit) = hit"
  by (simp_all add: answer_of_def)

lemma finalize_unfold:
  "finalize svc st req score ex dec vend hit =
     (let w = st_world st; i = uuids w (drawn w); now = clk w (ticks w);
          resp = answer_of i score ex dec vend hit;
          (err, st3) = put_row svc (row_of req resp now)
            (st\<lparr>st_world := w\<lparr>drawn := Suc (drawn w), ticks := Suc (ticks w)\<rparr>\<rparr>)
      in case err of
           Some e \<Rightarrow> (Inl (Wrap ''persist screen'' e), st3)
         | None \<Rightarrow> (Inr resp, finalize_audit svc (finalize_alert svc st3 i req ex dec) (event_of req resp now)))"
  by (simp add: finalize_def put_row_def row_of_def event_of_def answer_of_def newID_def time_Now_def Let_def
      split: option.split prod.split)

lemma finalize_frame [frame_simps]:
  "st_cache (snd (finalize svc st req score ex dec vend hit)) = st_cache st"
  "st_provider (snd (finalize svc st req score ex dec vend hit)) = st_provider st"
  "CacheHitsTotal (st_metrics (snd (finalize svc st req score ex dec vend hit))) = CacheHitsTotal (st_metrics st)"
  "CacheMissesTotal (st_metrics (snd (finalize svc st req score ex dec vend hit))) = CacheMissesTotal (st_metrics st)"
  "ScreenTotal (st_metrics (snd (finalize svc st req score ex dec vend hit))) = ScreenTotal (st_metrics st)"
  "ScreenDurationCount (st_metrics (snd (finalize svc st req score ex dec vend hit))) = ScreenDurationCount (st_metrics st)"
  by (simp_all add: finalize_unfold Let_def frame_simps split: option.split prod.split)
    (auto simp: put_row_frame dest: arg_cong [where f = snd])

lemma finalize_response:
  "fst (finalize svc st req score ex dec vend hit) = Inr resp \<Longrightarrow>
     rp_RiskScore resp = score \<and> rp_Exposure resp = ex \<and> rp_Decision resp = dec
     \<and> rp_Vendor resp = vend \<and> rp_CacheHit resp = hit"
  by (auto simp: finalize_unfold Let_def split: option.splits prod.splits)

text \<open>The verdict that a vendor's answer leads to, and the two outcomes of the vendor call.\<close>

definition verdict_of :: "('c, 'p, 's, 'a) Service \<Rightarrow> Request \<Rightarrow> ScreenResponse \<Rightarrow> Verdict" where
  "verdict_of svc req vr =
     (let ex = (if vr_Exposure vr = ''''
        then ExposureFromScore (svc_lower svc) (svc_threshold svc) (vr_RiskScore vr) (rq_Chain req)
        else vr_Exposure vr)
      in \<lparr>vd_Address = rq_Address req, vd_Chain = rq_Chain req, vd_RiskScore = vr_RiskScore vr,
          vd_Exposure = ex, vd_Decision = Decide (svc_threshold svc) ex, vd_Vendor = vr_Vendor vr\<rparr>)"

lemma verdict_of_simps [simp]:
  "vd_Address (verdict_of svc req vr) = rq_Address req" "vd_Chain (verdict_of svc req vr) = rq_Chain req"
  "vd_RiskScore (verdict_of svc req vr) = vr_RiskScore vr" "vd_Vendor (verdict_of svc req vr) = vr_Vendor vr"
  "vd_Decision (verdict_of svc req vr) = Decide (svc_threshold svc) (vd_Exposure (verdict_of svc req vr))"
  by (simp_all add: verdict_of_def Let_def)

lemma screen_vendor_error:
  "prov_Screen (svc_provider svc) (st_world st) (st_provider st) (vendor_request_of req) = (Inl e, w, p) \<Longrightarrow>
     screen_vendor svc st req = finalize svc
       (st\<lparr>st_world := w, st_provider := p,
           st_metrics := (st_metrics st)\<lparr>VendorErrorsTotal := ctr_add (VendorErrorsTotal (st_metrics st)) 1\<rparr>\<rparr>)
       req 0 ExposureUnknown DecideVendorUnreachable '''' False"
  by (simp add: screen_vendor_def)

lemma screen_vendor_answer:
  "prov_Screen (svc_provider svc) (st_world st) (st_provider st) (vendor_request_of req) = (Inr vr, w, p) \<Longrightarrow>
   svc_cache svc = Some cache \<Longrightarrow> c_Set cache w (st_cache st) (verdict_of svc req vr) = (e, w1, c) \<Longrightarrow>
     screen_vendor svc st req = finalize svc (st\<lparr>st_provider := p, st_world := w1, st_cache := c\<rparr>) req
       (vr_RiskScore vr) (vd_Exposure (verdict_of svc req vr)) (vd_Decision (verdict_of svc req vr))
       (vr_Vendor vr) False"
  by (simp add: screen_vendor_def verdict_of_def Let_def split del: if_split)

lemma screen_body_hit:
  "screen_lookup svc st req = (Some v, st1) \<Longrightarrow>
     screen_body svc st req = finalize svc
       (st1\<lparr>st_metrics := (st_metrics st1)\<lparr>CacheHitsTotal := ctr_add (CacheHitsTotal (st_metrics st1)) 1\<rparr>\<rparr>)
       req (vd_RiskScore v) (vd_Exposure v) (vd_Decision v) (vd_Vendor v) True"
  by (simp add: screen_body_def)

lemma screen_body_miss:
  "screen_lookup svc st req = (None, st1) \<Longrightarrow>
     screen_body svc st req = screen_vendor svc
       (st1\<lparr>st_metrics := (st_metrics st1)\<lparr>CacheMissesTotal := ctr_add (CacheMissesTotal (st_metrics st1)) 1\<rparr>\<rparr>) req"
  by (simp add: screen_body_def)

lemma Service_Screen_valid:
  "validate req = None \<Longrightarrow>
     screen_body svc (st\<lparr>st_world := (st_world st)\<lparr>ticks := Suc (ticks (st_world st))\<rparr>\<rparr>) req = (r, st1) \<Longrightarrow>
     \<exists>m. Service_Screen svc st req = (r, st1\<lparr>st_world := (st_world st1)\<lparr>ticks := Suc (ticks (st_world st1))\<rparr>,
         st_metrics := m\<rparr>)
       \<and> CacheHitsTotal m = CacheHitsTotal (st_metrics st1) \<and> CacheMissesTotal m = CacheMissesTotal (st_metrics st1)
       \<and> ScreenTotal m = ctr_add (ScreenTotal (st_metrics st1)) 1
       \<and> ScreenDurationCount m = ctr_add (ScreenDurationCount (st_metrics st1)) 1"
  by (simp add: Service_Screen_def time_Now_def ObserveScreenDuration_def Let_def)
    (rule exI, rule conjI, rule refl, simp)

locale screen_path =
  provider: screen_provider prov + cache: verdict_cache cops held
  + screens: screen_store sops sok rows + alerts: alert_store aops aok table
  for prov :: "'p ScreenProvider"
    and cops :: "'c CacheOps" and held :: "'c \<Rightarrow> Verdict set"
    and sops :: "'s ScreenStore" and sok :: "'s \<Rightarrow> bool" and rows :: "'s \<Rightarrow> string \<rightharpoonup> ScreenRecord"
    and aops :: "'a AlertStore" and aok :: "'a \<Rightarrow> bool" and table :: "'a \<Rightarrow> string \<rightharpoonup> Alert"
begin

definition path_ok :: "('c, 'p, 's, 'a) screen_state \<Rightarrow> bool" where
  "path_ok st \<longleftrightarrow> fresh_ids (st_world st) \<and> sok (st_screens st) \<and> aok (st_alerts st)
     \<and> dom (rows (st_screens st)) \<subseteq> used_ids (st_world st)
     \<and> dom (table (st_alerts st)) \<subseteq> used_ids (st_world st)"

lemma path_ok_world:
  "path_ok st \<Longrightarrow> world_le (st_world st) w \<Longrightarrow> path_ok (st\<lparr>st_world := w\<rparr>)"
  using used_ids_mono [of "st_world st" w] by (auto simp: path_ok_def world_le_fresh)

lemma path_ok_other [simp]:
  "path_ok (st\<lparr>st_cache := c\<rparr>) = path_ok st" "path_ok (st\<lparr>st_provider := p\<rparr>) = path_ok st"
  "path_ok (st\<lparr>st_metrics := m\<rparr>) = path_ok st" "path_ok (st\<lparr>st_audit := e\<rparr>) = path_ok st"
  by (simp_all add: path_ok_def)

abbreviation service :: "Thresholds \<Rightarrow> (string \<Rightarrow> string) \<Rightarrow> ('c, 'p, 's, 'a) Service" where
  "service th ul \<equiv> NewService cops prov th sops aops ul"

lemma finalize_alert_effect:
  assumes ok: "path_ok st"
  shows "\<exists>w a m. finalize_alert (service th ul) st i req ex dec = st\<lparr>st_world := w, st_alerts := a, st_metrics := m\<rparr>
    \<and> path_ok (st\<lparr>st_world := w, st_alerts := a, st_metrics := m\<rparr>) \<and> world_le (st_world st) w
    \<and> (dec = DecisionAllow \<longrightarrow> table a = table (st_alerts st))
   \<and> (dec \<noteq> DecisionAllow \<longrightarrow> (\<exists>j now. table (st_alerts st) j = None \<and> table a = (table (st_alerts st))(j \<mapsto>
          new_alert j i (rq_TxID req) (rq_Address req) (rq_Chain req) ex (SeverityFor ex) now)))"
proof (cases "dec = DecisionAllow")
  case True
  have "st = st\<lparr>st_world := st_world st, st_alerts := st_alerts st, st_metrics := st_metrics st\<rparr>" by simp
  then show ?thesis using True ok
    by (intro exI [of _ "st_world st"] exI [of _ "st_alerts st"] exI [of _ "st_metrics st"])
      (simp add: finalize_alert_def)
next
  case False
  let ?w = "st_world st"
  let ?j = "uuids ?w (drawn ?w)"
  let ?w' = "?w\<lparr>drawn := Suc (drawn ?w), ticks := Suc (ticks ?w)\<rparr>"
  have new: "table (st_alerts st) ?j = None" "?j \<noteq> ''''" and aok: "aok (st_alerts st)"
    using ok fresh_not_used [of ?w 0] fresh_nonempty [of ?w "drawn ?w"] by (auto simp: path_ok_def)
  let ?a = "new_alert ?j i (rq_TxID req) (rq_Address req) (rq_Chain req) ex (SeverityFor ex) (clk ?w (ticks ?w))"
  obtain s' where c: "AlertService_Create aops ?w (st_alerts st) i (rq_TxID req) (rq_Address req)
      (rq_Chain req) ex (SeverityFor ex) = (Inr ?a, ?w', s')" "aok s'"
    "table s' = (table (st_alerts st))(?j \<mapsto> ?a)"
    using alerts.service_create [OF aok new(1) new(2), of i "rq_TxID req" "rq_Address req" "rq_Chain req" ex "SeverityFor ex"]
    by (elim exE conjE)
  have "?j \<in> used_ids ?w'" by (simp add: used_ids_def)
  then have "path_ok (st\<lparr>st_world := ?w', st_alerts := s', st_metrics := m\<rparr>)" for m
    using ok c(2,3) used_ids_mono [of ?w ?w'] by (auto simp: path_ok_def fresh_ids_def)
  moreover have "finalize_alert (service th ul) st i req ex dec = st\<lparr>st_world := ?w', st_alerts := s',
      st_metrics := (st_metrics st)\<lparr>AlertsOpen := ctr_add (AlertsOpen (st_metrics st)) 1\<rparr>\<rparr>"
    using False c(1) by (simp add: finalize_alert_def NewService_def)
  moreover have "\<exists>j now. table (st_alerts st) j = None \<and> table s' = (table (st_alerts st))(j \<mapsto>
          new_alert j i (rq_TxID req) (rq_Address req) (rq_Chain req) ex (SeverityFor ex) now)"
    using new(1) c(3) by blast
  ultimately show ?thesis using False world_le_drawn [of ?w]
    by (intro exI [of _ ?w'] exI [of _ s']
        exI [of _ "(st_metrics st)\<lparr>AlertsOpen := ctr_add (AlertsOpen (st_metrics st)) 1\<rparr>"] conjI impI) blast+
qed

lemma finalize_audit_effect:
  assumes "path_ok st"
  shows "\<exists>w e. finalize_audit (service th ul) st (event_of req resp now) = st\<lparr>st_world := w, st_audit := e\<rparr>
    \<and> path_ok (st\<lparr>st_world := w, st_audit := e\<rparr>) \<and> world_le (st_world st) w
    \<and> (\<exists>t. e = (if length (em_queue (st_audit st)) < em_cap (st_audit st)
        then (st_audit st)\<lparr>em_queue := em_queue (st_audit st) @ [event_of req resp t]\<rparr>
        else (st_audit st)\<lparr>em_drops := ctr_add (em_drops (st_audit st)) 1\<rparr>))"
proof -
  obtain ev w1 where s: "stamp_event (st_world st) (event_of req resp now) = (ev, w1)" by fastforce
  have le: "world_le (st_world st) w1" and ev: "\<exists>t. ev = event_of req resp t"
    using s by (auto simp: stamp_event_def time_Now_def event_of_def split: if_splits)
  then obtain t where t: "ev = event_of req resp t" by blast
  let ?e = "if length (em_queue (st_audit st)) < em_cap (st_audit st)
        then (st_audit st)\<lparr>em_queue := em_queue (st_audit st) @ [event_of req resp t]\<rparr>
        else (st_audit st)\<lparr>em_drops := ctr_add (em_drops (st_audit st)) 1\<rparr>"
  have "finalize_audit (service th ul) st (event_of req resp now) = st\<lparr>st_world := w1, st_audit := ?e\<rparr>"
    using s t by (simp add: finalize_audit_def NewService_def Emitter_Emit_def)
  moreover have "path_ok (st\<lparr>st_world := w1, st_audit := ?e\<rparr>)"
    using path_ok_world [OF assms le] by (simp add: path_ok_def)
  ultimately show ?thesis using le by blast
qed

lemma put_row_effect:
  assumes "path_ok st" and "sr_ScreenID r \<in> used_ids (st_world st)"
  shows "\<exists>s. put_row (service th ul) r st = (None, st\<lparr>st_screens := s\<rparr>) \<and> path_ok (st\<lparr>st_screens := s\<rparr>)
    \<and> rows s = (rows (st_screens st))(sr_ScreenID r \<mapsto> r)"
proof -
  obtain e s where p: "ss_Put sops (st_screens st) r = (e, s)" by fastforce
  obtain n where "sr_ScreenID r = uuids (st_world st) n" using assms(2) by (auto simp: used_ids_def)
  then have "sr_ScreenID r \<noteq> ''''" using assms(1) fresh_nonempty [of "st_world st" n] by (simp add: path_ok_def)
  then have "e = None" "sok s" "rows s = (rows (st_screens st))(sr_ScreenID r \<mapsto> r)"
    using screens.put_ok [of "st_screens st" r] assms(1) p by (auto simp: path_ok_def)
  moreover have "dom (rows s) \<subseteq> used_ids (st_world st)"
    using calculation(3) assms by (auto simp: path_ok_def)
  ultimately show ?thesis using p assms(1)
    by (intro exI [of _ s]) (simp add: put_row_def NewService_def path_ok_def)
qed

lemma finalize_tail:
  assumes "path_ok st"
  shows "\<exists>st'. finalize_audit (service th ul) (finalize_alert (service th ul) st (rp_ScreenID resp) req
        (rp_Exposure resp) (rp_Decision resp)) (event_of req resp now) = st'
    \<and> st_screens st' = st_screens st \<and> path_ok st' \<and> world_le (st_world st) (st_world st')
    \<and> (if rp_Decision resp = DecisionAllow then table (st_alerts st') = table (st_alerts st)
       else (\<exists>j t. table (st_alerts st) j = None \<and> table (st_alerts st') = (table (st_alerts st))(j \<mapsto> alert_of j req resp t)))
    \<and> (\<exists>t. st_audit st' = (if length (em_queue (st_audit st)) < em_cap (st_audit st)
        then (st_audit st)\<lparr>em_queue := em_queue (st_audit st) @ [event_of req resp t]\<rparr>
        else (st_audit st)\<lparr>em_drops := ctr_add (em_drops (st_audit st)) 1\<rparr>))"
proof -
  obtain w a m where a: "finalize_alert (service th ul) st (rp_ScreenID resp) req (rp_Exposure resp) (rp_Decision resp)
      = st\<lparr>st_world := w, st_alerts := a, st_metrics := m\<rparr>"
    "path_ok (st\<lparr>st_world := w, st_alerts := a, st_metrics := m\<rparr>)" "world_le (st_world st) w"
    "rp_Decision resp = DecisionAllow \<longrightarrow> table a = table (st_alerts st)"
    "rp_Decision resp \<noteq> DecisionAllow \<longrightarrow>
      (\<exists>j t. table (st_alerts st) j = None \<and> table a = (table (st_alerts st))(j \<mapsto> alert_of j req resp t))"
    using finalize_alert_effect [OF assms, of th ul "rp_ScreenID resp" req "rp_Exposure resp" "rp_Decision resp"]
    unfolding alert_of_def by (elim exE conjE)
  define st3 where "st3 = st\<lparr>st_world := w, st_alerts := a, st_metrics := m\<rparr>"
  obtain w' e where e: "finalize_audit (service th ul) st3 (event_of req resp now) = st3\<lparr>st_world := w', st_audit := e\<rparr>"
    "path_ok (st3\<lparr>st_world := w', st_audit := e\<rparr>)" "world_le (st_world st3) w'"
    "\<exists>t. e = (if length (em_queue (st_audit st3)) < em_cap (st_audit st3)
        then (st_audit st3)\<lparr>em_queue := em_queue (st_audit st3) @ [event_of req resp t]\<rparr>
        else (st_audit st3)\<lparr>em_drops := ctr_add (em_drops (st_audit st3)) 1\<rparr>)"
    using finalize_audit_effect [OF a(2), of th ul req resp now] unfolding st3_def [symmetric] by blast
  have same: "st_audit st3 = st_audit st" "st_world st3 = w" "st_alerts st3 = a" "st_screens st3 = st_screens st"
    by (simp_all add: st3_def)
  have le: "world_le (st_world st) w'" using a(3) e(3) same(2) world_le_trans by metis
  show ?thesis
    using e le a(4,5) unfolding a(1) st3_def [symmetric] same
    by (intro exI [of _ "st3\<lparr>st_world := w', st_audit := e\<rparr>"] conjI) (simp_all add: same)
qed

lemma finalize_effect:
  assumes "path_ok st"
  shows "\<exists>i st'. finalize (service th ul) st req score ex dec vend hit = (Inr (answer_of i score ex dec vend hit), st')
    \<and> screen_effect req (answer_of i score ex dec vend hit) (rows (st_screens st)) (rows (st_screens st'))
        (table (st_alerts st)) (table (st_alerts st')) (st_audit st) (st_audit st')
    \<and> path_ok st' \<and> world_le (st_world st) (st_world st')"
proof -
  let ?w = "st_world st"
  let ?i = "uuids ?w (drawn ?w)" and ?now = "clk ?w (ticks ?w)"
  let ?w1 = "?w\<lparr>drawn := Suc (drawn ?w), ticks := Suc (ticks ?w)\<rparr>"
  let ?st1 = "st\<lparr>st_world := ?w1\<rparr>"
  let ?resp = "answer_of ?i score ex dec vend hit"
  have ok1: "path_ok ?st1" using path_ok_world [OF assms] by simp
  have new: "rows (st_screens st) ?i = None"
    using assms fresh_not_used [of ?w 0] by (auto simp: path_ok_def)
  obtain s where s: "put_row (service th ul) (row_of req ?resp ?now) ?st1 = (None, ?st1\<lparr>st_screens := s\<rparr>)"
    "path_ok (?st1\<lparr>st_screens := s\<rparr>)" "rows s = (rows (st_screens st))(?i \<mapsto> row_of req ?resp ?now)"
    using put_row_effect [OF ok1, of "row_of req ?resp ?now"] by (auto simp: row_of_def used_ids_def)
  define st2 where "st2 = ?st1\<lparr>st_screens := s\<rparr>"
  have same: "st_screens st2 = s" "st_alerts st2 = st_alerts st" "st_audit st2 = st_audit st" "st_world st2 = ?w1"
    by (simp_all add: st2_def)
  obtain st' where st': "finalize_audit (service th ul) (finalize_alert (service th ul) st2 ?i req ex dec)
        (event_of req ?resp ?now) = st'"
    "st_screens st' = s" "path_ok st'" "world_le ?w1 (st_world st')"
    "if dec = DecisionAllow then table (st_alerts st') = table (st_alerts st)
       else (\<exists>j t. table (st_alerts st) j = None \<and> table (st_alerts st') = (table (st_alerts st))(j \<mapsto> alert_of j req ?resp t))"
    "\<exists>t. st_audit st' = (if length (em_queue (st_audit st)) < em_cap (st_audit st)
        then (st_audit st)\<lparr>em_queue := em_queue (st_audit st) @ [event_of req ?resp t]\<rparr>
        else (st_audit st)\<lparr>em_drops := ctr_add (em_drops (st_audit st)) 1\<rparr>)"
    using finalize_tail [OF s(2), of th ul ?resp req ?now] unfolding st2_def [symmetric] same answer_of_simps
    by blast
  have "finalize (service th ul) st req score ex dec vend hit = (Inr ?resp, st')"
    using s(1) st'(1) by (simp add: finalize_unfold Let_def st2_def)
  moreover have "screen_effect req ?resp (rows (st_screens st)) (rows (st_screens st'))
      (table (st_alerts st)) (table (st_alerts st')) (st_audit st) (st_audit st')"
    using new s(3) st'(5,6) unfolding screen_effect_def answer_of_simps st'(2) by blast
  moreover have "world_le ?w (st_world st')"
    using st'(4) world_le_drawn [of ?w] by (meson world_le_trans)
  ultimately show ?thesis using st'(3) by blast
qed

text \<open>
  Every path through a screen ends in \<open>finalize\<close>, with the stores as the call found them; and if no
  verdict in the cache allows a flow that is not clean, neither does the call, nor does it cache one.
\<close>

lemma body_reaches_finalize:
  assumes "path_ok st"
  shows "\<exists>st1 score ex dec vend hit. screen_body (service th ul) st req
        = finalize (service th ul) st1 req score ex dec vend hit
    \<and> st_screens st1 = st_screens st \<and> st_alerts st1 = st_alerts st \<and> st_audit st1 = st_audit st
    \<and> path_ok st1 \<and> world_le (st_world st) (st_world st1)"
proof -
  obtain r w c where g: "c_Get cops (st_world st) (st_cache st) (rq_Address req) (rq_Chain req) = (r, w, c)"
    by (metis prod_cases3)
  have le: "world_le (st_world st) w" using cache.get_world [OF g] .
  define st1 where "st1 = st\<lparr>st_world := w, st_cache := c\<rparr>"
  have look: "screen_lookup (service th ul) st req = ((case r of Inr (Some v) \<Rightarrow> Some v | _ \<Rightarrow> None), st1)"
    using g by (simp add: screen_lookup_def NewService_def st1_def)
  have st1: "st_screens st1 = st_screens st" "st_alerts st1 = st_alerts st" "st_audit st1 = st_audit st"
    "path_ok st1" "st_world st1 = w"
    using path_ok_world [OF assms le] by (simp_all add: st1_def path_ok_def)
  show ?thesis
  proof (cases "case r of Inr (Some v) \<Rightarrow> Some v | _ \<Rightarrow> None")
    case (Some v)
    then show ?thesis using screen_body_hit [of "service th ul" st req v st1] look st1 le
      by (intro exI conjI) (simp | assumption)+
  next
    case None
    define st2 where "st2 = st1\<lparr>st_metrics := (st_metrics st1)\<lparr>CacheMissesTotal := ctr_add (CacheMissesTotal (st_metrics st1)) 1\<rparr>\<rparr>"
    have body: "screen_body (service th ul) st req = screen_vendor (service th ul) st2 req"
      using look None screen_body_miss by (simp add: st2_def)
    have st2: "st_screens st2 = st_screens st" "st_alerts st2 = st_alerts st" "st_audit st2 = st_audit st"
      "path_ok st2" "st_world st2 = w"
      using st1 by (simp_all add: st2_def)
    obtain a w2 p where v: "prov_Screen prov (st_world st2) (st_provider st2) (vendor_request_of req) = (a, w2, p)"
      by (metis prod_cases3)
    have le2: "world_le w w2" using provider.advances [OF v] st2(5) by simp
    show ?thesis
    proof (cases a)
      case (Inl verr)
      let ?st3 = "st2\<lparr>st_world := w2, st_provider := p,
                 st_metrics := (st_metrics st2)\<lparr>VendorErrorsTotal := ctr_add (VendorErrorsTotal (st_metrics st2)) 1\<rparr>\<rparr>"
      have "screen_vendor (service th ul) st2 req = finalize (service th ul) ?st3 req 0 ExposureUnknown DecideVendorUnreachable '''' False"
        using v Inl by (intro screen_vendor_error) (simp add: NewService_def)
      moreover have "path_ok ?st3" using path_ok_world [OF st2(4), of w2] le2 st2(5) by simp
      moreover have "world_le (st_world st) (st_world ?st3)" using le le2 by (simp add: world_le_trans)
      ultimately show ?thesis using body st2 by (intro exI conjI) (assumption | simp)+
    next
      case (Inr vr)
      let ?v = "verdict_of (service th ul) req vr"
      obtain e w3 c3 where s: "c_Set cops w2 (st_cache st2) ?v = (e, w3, c3)" by (metis prod_cases3)
      have le3: "world_le w2 w3" using cache.set_world [OF s] .
      let ?st3 = "st2\<lparr>st_provider := p, st_world := w3, st_cache := c3\<rparr>"
      have "screen_vendor (service th ul) st2 req
          = finalize (service th ul) ?st3 req (vr_RiskScore vr) (vd_Exposure ?v) (vd_Decision ?v) (vr_Vendor vr) False"
        using v Inr s by (intro screen_vendor_answer) (simp_all add: NewService_def)
      moreover have "world_le (st_world st2) w3" using le2 le3 st2(5) by (metis world_le_trans)
      moreover have "path_ok ?st3" using path_ok_world [OF st2(4)] calculation(2) by (simp add: path_ok_def)
      moreover have "world_le (st_world st) (st_world ?st3)" using le calculation(2) st2(5) by (simp add: world_le_trans)
      ultimately show ?thesis using body st2 by (intro exI conjI) (assumption | simp)+
    qed
  qed
qed

lemma screen_has_effect:
  assumes "path_ok st" and "validate req = None"
  shows "\<exists>resp st'. Service_Screen (service th ul) st req = (Inr resp, st')
    \<and> screen_effect req resp (rows (st_screens st)) (rows (st_screens st'))
        (table (st_alerts st)) (table (st_alerts st')) (st_audit st) (st_audit st')
    \<and> path_ok st' \<and> world_le (st_world st) (st_world st')"
proof -
  let ?st0 = "st\<lparr>st_world := (st_world st)\<lparr>ticks := Suc (ticks (st_world st))\<rparr>\<rparr>"
  have ok0: "path_ok ?st0" using path_ok_world [OF assms(1)] by simp
  obtain st1 score ex dec vend hit where b: "screen_body (service th ul) ?st0 req
        = finalize (service th ul) st1 req score ex dec vend hit"
    "st_screens st1 = st_screens st" "st_alerts st1 = st_alerts st" "st_audit st1 = st_audit st"
    "path_ok st1" "world_le (st_world ?st0) (st_world st1)"
    using body_reaches_finalize [OF ok0, of th ul req] by auto
  obtain i st2 where f: "finalize (service th ul) st1 req score ex dec vend hit = (Inr (answer_of i score ex dec vend hit), st2)"
    "screen_effect req (answer_of i score ex dec vend hit) (rows (st_screens st1)) (rows (st_screens st2))
        (table (st_alerts st1)) (table (st_alerts st2)) (st_audit st1) (st_audit st2)"
    "path_ok st2" "world_le (st_world st1) (st_world st2)"
    using finalize_effect [OF b(5), of th ul req score ex dec vend hit] by (elim exE conjE)
  obtain w m where w: "Service_Screen (service th ul) st req
      = (Inr (answer_of i score ex dec vend hit), st2\<lparr>st_world := w, st_metrics := m\<rparr>)"
    and w': "w = (st_world st2)\<lparr>ticks := Suc (ticks (st_world st2))\<rparr>"
    using Service_Screen_valid [OF assms(2), of "service th ul" st] b(1) f(1) by auto
  have "world_le (st_world st) (st_world st1)" using b(6) world_le_ticks [of "st_world st"] world_le_trans by fastforce
  then have "world_le (st_world st) w"
    using f(4) world_le_ticks [of "st_world st2"] unfolding w' by (meson world_le_trans)
  moreover have "path_ok (st2\<lparr>st_world := w, st_metrics := m\<rparr>)"
    using path_ok_world [OF f(3), of w] by (simp add: w')
  ultimately show ?thesis using w f(2) b(2-4)
    by (intro exI [of _ "answer_of i score ex dec vend hit"] exI [of _ "st2\<lparr>st_world := w, st_metrics := m\<rparr>"]) simp
qed

end

section \<open>Clean verdicts\<close>

definition verdict_clean :: "Verdict \<Rightarrow> bool" where
  "verdict_clean v \<longleftrightarrow> (vd_Decision v = DecisionAllow \<longrightarrow> vd_Exposure v = ExposureClean)"

lemma verdict_of_clean [simp]: "verdict_clean (verdict_of svc req vr)"
  by (simp add: verdict_clean_def Decide_allow_iff)

definition response_clean :: "go_error + Response \<Rightarrow> bool" where
  "response_clean r \<longleftrightarrow> (\<forall>resp. r = Inr resp \<longrightarrow> rp_Decision resp = DecisionAllow \<longrightarrow> rp_Exposure resp = ExposureClean)"

lemma finalize_clean:
  "finalize svc st req score ex dec vend hit = (r, st') \<Longrightarrow> (dec = DecisionAllow \<longrightarrow> ex = ExposureClean) \<Longrightarrow>
     response_clean r \<and> st_cache st' = st_cache st"
  using finalize_response [of svc st req score ex dec vend hit] finalize_frame(1) [of svc st req score ex dec vend hit]
  by (auto simp: response_clean_def)

context verdict_cache
begin

text \<open>A cache that holds clean verdicts only stays so, and every answer is clean, whatever the vendor says.\<close>

lemma vendor_clean:
  assumes "svc_cache svc = Some ops" and "\<forall>v \<in> held (st_cache st). verdict_clean v"
    and "screen_vendor svc st req = (r, st')"
  shows "response_clean r \<and> (\<forall>v \<in> held (st_cache st'). verdict_clean v)"
proof -
  obtain a w p where v: "prov_Screen (svc_provider svc) (st_world st) (st_provider st) (vendor_request_of req) = (a, w, p)"
    by (metis prod_cases3)
  show ?thesis
  proof (cases a)
    case (Inl e)
    define st1 where "st1 = st\<lparr>st_world := w, st_provider := p,
        st_metrics := (st_metrics st)\<lparr>VendorErrorsTotal := ctr_add (VendorErrorsTotal (st_metrics st)) 1\<rparr>\<rparr>"
    have "finalize svc st1 req 0 ExposureUnknown DecideVendorUnreachable '''' False = (r, st')"
      using screen_vendor_error [of svc st req e w p] v Inl assms(3) by (simp add: st1_def)
    from finalize_clean [OF this] assms(2) show ?thesis by (simp add: st1_def)
  next
    case (Inr vr)
    obtain e w1 c where s: "c_Set ops w (st_cache st) (verdict_of svc req vr) = (e, w1, c)"
      by (metis prod_cases3)
    have "\<forall>v \<in> held c. verdict_clean v" using set_held [OF s] assms(2) by auto
    moreover define st1 where "st1 = st\<lparr>st_provider := p, st_world := w1, st_cache := c\<rparr>"
    have "finalize svc st1 req (vr_RiskScore vr) (vd_Exposure (verdict_of svc req vr))
        (vd_Decision (verdict_of svc req vr)) (vr_Vendor vr) False = (r, st')"
      using screen_vendor_answer [of svc st req vr w p, OF _ assms(1) s] v Inr assms(3)
      by (simp add: st1_def del: verdict_of_simps)
    from finalize_clean [OF this] have "response_clean r \<and> st_cache st' = c"
      by (simp add: st1_def Decide_allow_iff)
    ultimately show ?thesis by simp
  qed
qed

lemma screen_clean:
  assumes "svc_cache svc = Some ops" and "\<forall>v \<in> held (st_cache st). verdict_clean v"
    and "Service_Screen svc st req = (r, st')"
  shows "response_clean r \<and> (\<forall>v \<in> held (st_cache st'). verdict_clean v)"
proof (cases "validate req")
  case (Some e)
  then show ?thesis using assms by (auto simp: Service_Screen_def response_clean_def)
next
  case None
  define st0 where "st0 = st\<lparr>st_world := (st_world st)\<lparr>ticks := Suc (ticks (st_world st))\<rparr>\<rparr>"
  obtain r1 st1 where b: "screen_body svc st0 req = (r1, st1)" by fastforce
  have same: "r = r1" "st_cache st' = st_cache st1"
    using Service_Screen_valid [OF None b [unfolded st0_def]] assms(3) by auto
  obtain a w c where g: "c_Get ops (st_world st0) (st_cache st0) (rq_Address req) (rq_Chain req) = (a, w, c)"
    by (metis prod_cases3)
  have held: "\<forall>v \<in> held c. verdict_clean v"
    using get_held [OF g] assms(2) by (auto simp: st0_def)
  have look: "screen_lookup svc st0 req = ((case a of Inr (Some v) \<Rightarrow> Some v | _ \<Rightarrow> None), st0\<lparr>st_world := w, st_cache := c\<rparr>)"
    using g assms(1) by (simp add: screen_lookup_def)
  have "response_clean r1 \<and> (\<forall>v \<in> held (st_cache st1). verdict_clean v)"
  proof (cases "case a of Inr (Some v) \<Rightarrow> Some v | _ \<Rightarrow> None")
    case None
    define st2 where "st2 = st0\<lparr>st_world := w, st_cache := c\<rparr>"
    define st3 where "st3 = st2\<lparr>st_metrics := (st_metrics st2)\<lparr>CacheMissesTotal := ctr_add (CacheMissesTotal (st_metrics st2)) 1\<rparr>\<rparr>"
    have "screen_vendor svc st3 req = (r1, st1)"
      using screen_body_miss [of svc st0 req st2] look None b by (simp add: st2_def st3_def)
    from vendor_clean [OF assms(1) _ this] held show ?thesis by (simp add: st2_def st3_def)
  next
    case (Some v)
    then have "a = Inr (Some v)" by (simp split: sum.splits option.splits)
    then have clean: "verdict_clean v" using get_held [OF g] assms(2) by (simp add: st0_def)
    define st2 where "st2 = st0\<lparr>st_world := w, st_cache := c\<rparr>"
    define st3 where "st3 = st2\<lparr>st_metrics := (st_metrics st2)\<lparr>CacheHitsTotal := ctr_add (CacheHitsTotal (st_metrics st2)) 1\<rparr>\<rparr>"
    have "finalize svc st3 req (vd_RiskScore v) (vd_Exposure v) (vd_Decision v) (vd_Vendor v) True = (r1, st1)"
      using screen_body_hit [of svc st0 req v st2] look Some b by (simp add: st2_def st3_def)
    from finalize_clean [OF this] clean held show ?thesis
      by (simp add: st2_def st3_def verdict_clean_def)
  qed
  then show ?thesis using same by simp
qed

end

section \<open>A run of screens\<close>

fun screen_run ::
    "('c, 'p, 's, 'a) Service \<Rightarrow> Request list \<Rightarrow> ('c, 'p, 's, 'a) screen_state
     \<Rightarrow> (go_error + Response) list \<times> ('c, 'p, 's, 'a) screen_state" where
  "screen_run svc [] st = ([], st)"
| "screen_run svc (req # reqs) st =
     (let (r, st1) = Service_Screen svc st req; (rs, st2) = screen_run svc reqs st1 in (r # rs, st2))"

lemma screen_run_clean:
  assumes "svc_cache svc = Some memory_cache" and "\<forall>v \<in> mc_held (st_cache st). verdict_clean v"
  shows "\<forall>r \<in> set (fst (screen_run svc reqs st)). response_clean r"
  using assms
proof (induction reqs arbitrary: st)
  case Nil
  then show ?case by simp
next
  case (Cons req reqs)
  obtain r st1 where s: "Service_Screen svc st req = (r, st1)" by fastforce
  note c = mcv.screen_clean [OF Cons.prems s]
  then show ?case using s Cons.IH [of st1] Cons.prems(1) by (auto split: prod.splits)
qed

section \<open>The service over the in-memory stores\<close>

lemma memory_path:
  "screen_provider prov \<Longrightarrow>
     screen_path prov memory_cache mc_held (memory_screen_store ord) (mss_ok ord) map_of
       memory_alert_store mem_ok ms_mem"
  by (intro screen_path.intro mcv.verdict_cache_axioms mss.screen_store_axioms mas.alert_store_axioms)

interpretation sp: screen_path mock_provider memory_cache mc_held "memory_screen_store ord" "mss_ok ord"
    map_of memory_alert_store mem_ok ms_mem for ord
  by (rule memory_path) (rule mock_adv.screen_provider_axioms)

abbreviation memory_service ::
    "(MemoryScreenStore \<Rightarrow> MemoryScreenStore) \<Rightarrow> 'p ScreenProvider \<Rightarrow> Thresholds \<Rightarrow> (string \<Rightarrow> string)
     \<Rightarrow> (MemoryCache, 'p, MemoryScreenStore, MemoryStore) Service" where
  "memory_service ord prov th ul \<equiv>
     NewService memory_cache prov th (memory_screen_store ord) memory_alert_store ul"

text \<open>
  The states the service reaches from empty stores: identifiers are unique and the stores hold only
  identifiers already given out.
\<close>

definition memory_state_ok ::
    "(MemoryScreenStore \<Rightarrow> MemoryScreenStore) \<Rightarrow> ('c, 'p, MemoryScreenStore, MemoryStore) screen_state
     \<Rightarrow> bool" where
  "memory_state_ok ord st \<longleftrightarrow> fresh_ids (st_world st) \<and> mss_ok ord (st_screens st) \<and> mem_ok (st_alerts st)
     \<and> dom (map_of (st_screens st)) \<subseteq> used_ids (st_world st)
     \<and> dom (ms_mem (st_alerts st)) \<subseteq> used_ids (st_world st)"

lemma memory_screen_effect:
  assumes "screen_provider prov" and "memory_state_ok ord st" and "validate req = None"
  shows "\<exists>resp st'. Service_Screen (memory_service ord prov th ul) st req = (Inr resp, st')
    \<and> screen_effect req resp (map_of (st_screens st)) (map_of (st_screens st'))
        (ms_mem (st_alerts st)) (ms_mem (st_alerts st')) (st_audit st) (st_audit st')
    \<and> memory_state_ok ord st'"
  using screen_path.screen_has_effect [OF memory_path [OF assms(1)], of ord st req th ul] assms(2,3)
  by (auto simp: memory_state_ok_def screen_path.path_ok_def [OF memory_path [OF assms(1)]])

text \<open>
  C22: What a screen leaves behind.  With any provider, a valid request in a reachable state is always
  answered, and the answer leaves exactly one new row that agrees with it, one new open alert of the
  exposure's severity exactly when the decision is not \<open>ALLOW\<close>, and one audit event (or one counted
  drop when the queue is full); the state stays reachable.
\<close>

theorem screen_records_everything:
  assumes "screen_provider prov" and "memory_state_ok ord st" and "validate req = None"
  shows "\<exists>resp st'. Service_Screen (memory_service ord prov th ul) st req = (Inr resp, st')
    \<and> screen_effect req resp (map_of (st_screens st)) (map_of (st_screens st'))
        (ms_mem (st_alerts st)) (ms_mem (st_alerts st')) (st_audit st) (st_audit st')
    \<and> memory_state_ok ord st'"
  using assms by (rule memory_screen_effect)

definition demo_request1 :: Request where
  "demo_request1 = \<lparr>rq_TxID = ''tx1'', rq_Address = ''0xbad'', rq_SourceAddress = '''', rq_Chain = ''ethereum'',
     rq_Amount = ''1.5''\<rparr>"

definition demo_thresholds :: Thresholds where
  "demo_thresholds = NewThresholds 90 50 DecisionManualReview"

definition demo_screen_world :: world where
  "demo_screen_world = \<lparr>clk = (\<lambda>n. 100 + int n), ticks = 0, uuids = (\<lambda>n. replicate (Suc n) (CHR ''a'')), drawn = 0\<rparr>"

definition demo_state :: "(MemoryCache, MockProvider, MemoryScreenStore, MemoryStore) screen_state" where
  "demo_state = \<lparr>st_world = demo_screen_world, st_cache = NewMemoryCache 1000 5000,
     st_provider = SetResponse ''0xbad'' ''ethereum''
       \<lparr>mr_Address = '''', mr_Chain = '''', mr_RiskScore = 95, mr_Exposure = '''', mr_Err = None\<rparr>
       (NewMockProvider ''mock''),
     st_screens = NewMemoryScreenStore, st_alerts = NewMemoryStore, st_audit = NewEmitter 2,
     st_metrics = zero_Metrics\<rparr>"

lemma demo_screen_world_fresh: "fresh_ids demo_screen_world"
  by (auto simp: fresh_ids_def demo_screen_world_def inj_def dest: arg_cong [where f = length])

lemma demo_state_ok: "memory_state_ok (\<lambda>m. m) demo_state"
  by (simp add: memory_state_ok_def demo_state_def demo_screen_world_fresh mss_ok_def mem_ok_def
      NewMemoryScreenStore_def NewMemoryStore_def)

lemma demo_request_valid: "validate demo_request1 = None"
  by (simp add: validate_def demo_request1_def TrimSpace_visible visible_def)

theorem screen_records_everything_witness:
  "\<exists>resp st'. Service_Screen (memory_service (\<lambda>m. m) mock_provider demo_thresholds id) demo_state demo_request1 = (Inr resp, st')
    \<and> map_of (st_screens st') (rp_ScreenID resp) \<noteq> None"
  using screen_records_everything [OF mock_adv.screen_provider_axioms demo_state_ok demo_request_valid,
      of demo_thresholds id]
  by (auto simp: screen_effect_def)

text \<open>
  Nothing is allowed but clean flows.  Whatever provider, thresholds and stores the service has and
  whatever requests it receives: starting from a cache that holds no allowed verdict that is not clean
  (an empty one, say), every answer with decision \<open>ALLOW\<close> has exposure \<open>CLEAN\<close>.
\<close>

theorem screen_allows_only_clean:
  assumes "svc_cache svc = Some memory_cache" and "\<forall>v \<in> mc_held (st_cache st). verdict_clean v"
    and "Inr resp \<in> set (fst (screen_run svc reqs st))" and "rp_Decision resp = DecisionAllow"
  shows "rp_Exposure resp = ExposureClean"
  using screen_run_clean [OF assms(1,2), of reqs] assms(3,4) by (auto simp: response_clean_def)

section \<open>Outcomes\<close>

abbreviation tick :: "world \<Rightarrow> world" where
  "tick w \<equiv> w\<lparr>ticks := Suc (ticks w)\<rparr>"

text \<open>The answer of a screen is that of the \<open>finalize\<close> its body ends in.\<close>

lemma screen_outcome:
  assumes "validate req = None"
    and "screen_body svc (st\<lparr>st_world := tick (st_world st)\<rparr>) req = finalize svc st1 req score ex dec vend hit"
    and "Service_Screen svc st req = (Inr resp, st')"
  shows "rp_RiskScore resp = score \<and> rp_Exposure resp = ex \<and> rp_Decision resp = dec \<and> rp_Vendor resp = vend
    \<and> rp_CacheHit resp = hit \<and> st_cache st' = st_cache st1 \<and> st_provider st' = st_provider st1"
proof -
  obtain r st2 where f: "finalize svc st1 req score ex dec vend hit = (r, st2)" by fastforce
  have "r = Inr resp" "st_cache st' = st_cache st2" "st_provider st' = st_provider st2"
    using Service_Screen_valid [OF assms(1), of svc st r st2] assms(2,3) f by auto
  then show ?thesis
    using finalize_response [of svc st1 req score ex dec vend hit resp] f
      finalize_frame(1,2) [of svc st1 req score ex dec vend hit] by auto
qed

lemma lookup_memory:
  assumes "svc_cache svc = Some memory_cache"
    and "MemoryCache_Get (st_world st) (st_cache st) (rq_Address req) (rq_Chain req) = (Inr a, w, c)"
  shows "screen_lookup svc st req = (a, st\<lparr>st_world := w, st_cache := st_cache st\<rparr>)"
  using assms memory_get [OF assms(2)] by (simp add: screen_lookup_def split: option.split)

lemma get_memory_total: "\<exists>a w. MemoryCache_Get w0 c ad ch = (Inr a, w, c) \<and> world_le w0 w"
  by (auto simp: MemoryCache_Get_def time_Now_def split: option.split)

lemma cached_screen:
  assumes "svc_cache svc = Some memory_cache" and "validate req = None"
    and "fst (MemoryCache_Get (tick (st_world st)) (st_cache st) (rq_Address req) (rq_Chain req)) = Inr (Some v)"
    and "Service_Screen svc st req = (Inr resp, st')"
  shows "rp_RiskScore resp = vd_RiskScore v \<and> rp_Exposure resp = vd_Exposure v \<and> rp_Decision resp = vd_Decision v
    \<and> rp_Vendor resp = vd_Vendor v \<and> rp_CacheHit resp \<and> st_provider st' = st_provider st
    \<and> st_cache st' = st_cache st"
proof -
  let ?st0 = "st\<lparr>st_world := tick (st_world st)\<rparr>"
  obtain w where g: "MemoryCache_Get (st_world ?st0) (st_cache ?st0) (rq_Address req) (rq_Chain req) = (Inr (Some v), w, st_cache st)"
    using get_memory_total [of "tick (st_world st)" "st_cache st" "rq_Address req" "rq_Chain req"] assms(3) by auto
  show ?thesis
    using screen_outcome [OF assms(2) screen_body_hit [OF lookup_memory [OF assms(1) g]] assms(4)] by simp
qed

text \<open>
  A cached verdict answers the request: score, exposure, decision and vendor are those of the
  verdict, the answer is marked as a cache hit, and the vendor is not called.
\<close>

theorem cached_screen_replays_verdict:
  assumes "svc_cache svc = Some memory_cache" and "validate req = None"
    and "fst (MemoryCache_Get (tick (st_world st)) (st_cache st) (rq_Address req) (rq_Chain req)) = Inr (Some v)"
    and "Service_Screen svc st req = (Inr resp, st')"
  shows "rp_RiskScore resp = vd_RiskScore v \<and> rp_Exposure resp = vd_Exposure v \<and> rp_Decision resp = vd_Decision v
    \<and> rp_Vendor resp = vd_Vendor v \<and> rp_CacheHit resp \<and> st_provider st' = st_provider st
    \<and> st_cache st' = st_cache st"
  using assms by (rule cached_screen)

text \<open>
  C23: Fail safe.  When the cache misses and the vendor fails, for whatever reason, the request is
  answered with \<open>MANUAL_REVIEW\<close>, exposure \<open>UNKNOWN\<close> and score 0, an alert is opened, and nothing is
  cached.
\<close>

theorem vendor_failure_fails_safe:
  assumes "screen_provider prov" and "memory_state_ok ord st" and "validate req = None"
    and "fst (MemoryCache_Get (tick (st_world st)) (st_cache st) (rq_Address req) (rq_Chain req)) = Inr None"
    and "\<forall>w. \<exists>e w1 p1. prov_Screen prov w (st_provider st) (vendor_request_of req) = (Inl e, w1, p1)"
  shows "\<exists>resp st' i now. Service_Screen (memory_service ord prov th ul) st req = (Inr resp, st')
    \<and> rp_Decision resp = DecisionManualReview \<and> rp_Exposure resp = ExposureUnknown \<and> rp_RiskScore resp = 0
    \<and> rp_Vendor resp = '''' \<and> \<not> rp_CacheHit resp \<and> st_cache st' = st_cache st
    \<and> ms_mem (st_alerts st) i = None
    \<and> ms_mem (st_alerts st') = (ms_mem (st_alerts st))(i \<mapsto> alert_of i req resp now)"
proof -
  let ?svc = "memory_service ord prov th ul"
  obtain resp st' where s: "Service_Screen ?svc st req = (Inr resp, st')"
    and eff: "screen_effect req resp (map_of (st_screens st)) (map_of (st_screens st'))
        (ms_mem (st_alerts st)) (ms_mem (st_alerts st')) (st_audit st) (st_audit st')"
    using memory_screen_effect [OF assms(1-3)] by blast
  define st0 where "st0 = st\<lparr>st_world := tick (st_world st)\<rparr>"
  obtain w where g: "MemoryCache_Get (st_world st0) (st_cache st0) (rq_Address req) (rq_Chain req) = (Inr None, w, st_cache st)"
    using get_memory_total [of "tick (st_world st)" "st_cache st" "rq_Address req" "rq_Chain req"] assms(4)
    by (auto simp: st0_def)
  define st2 where "st2 = st0\<lparr>st_world := w, st_cache := st_cache st0\<rparr>"
  define st3 where "st3 = st2\<lparr>st_metrics := (st_metrics st2)\<lparr>CacheMissesTotal := ctr_add (CacheMissesTotal (st_metrics st2)) 1\<rparr>\<rparr>"
  have same: "st_world st3 = w" "st_provider st3 = st_provider st" "st_cache st3 = st_cache st"
    by (simp_all add: st3_def st2_def st0_def)
  obtain e w1 p1 where v: "prov_Screen (svc_provider ?svc) (st_world st3) (st_provider st3) (vendor_request_of req) = (Inl e, w1, p1)"
    using assms(5) [rule_format, of "st_world st3"] same(2) by (auto simp: NewService_def)
  have "screen_lookup ?svc st0 req = (None, st2)"
    using lookup_memory [of ?svc st0 req None w] g by (simp add: st2_def st0_def NewService_def)
  from screen_body_miss [OF this] have "screen_body ?svc st0 req = screen_vendor ?svc st3 req"
    by (simp add: st3_def)
  note body = this [unfolded screen_vendor_error [OF v] st0_def]
  note out = screen_outcome [OF assms(3) body s]
  have "\<exists>i now. ms_mem (st_alerts st) i = None
      \<and> ms_mem (st_alerts st') = (ms_mem (st_alerts st))(i \<mapsto> alert_of i req resp now)"
    using eff out by (simp add: screen_effect_def)
  then show ?thesis using s out same(3) by (auto simp: DecideVendorUnreachable_def)
qed

definition demo_cached :: "(MemoryCache, MockProvider, MemoryScreenStore, MemoryStore) screen_state" where
  "demo_cached = demo_state\<lparr>st_cache := (NewMemoryCache 1000 5000)
     \<lparr>mc_mem := [(''ethereum:0xbad'', \<lparr>ce_verdict = demo_verdict, ce_expiresAt = 500\<rparr>)]\<rparr>\<rparr>"

lemma demo_cached_ok: "memory_state_ok (\<lambda>m. m) demo_cached"
  using demo_state_ok by (simp add: memory_state_ok_def demo_cached_def)

theorem cached_screen_replays_verdict_witness:
  "\<exists>resp st'. Service_Screen (memory_service (\<lambda>m. m) mock_provider demo_thresholds id) demo_cached demo_request1 = (Inr resp, st')
    \<and> rp_Decision resp = ''BLOCK'' \<and> rp_CacheHit resp"
proof -
  let ?svc = "memory_service (\<lambda>m. m) mock_provider demo_thresholds id"
  obtain resp st' where s: "Service_Screen ?svc demo_cached demo_request1 = (Inr resp, st')"
    using memory_screen_effect [OF mock_adv.screen_provider_axioms demo_cached_ok demo_request_valid] by blast
  have c: "svc_cache ?svc = Some memory_cache" by (simp add: NewService_def)
  have g: "fst (MemoryCache_Get (tick (st_world demo_cached)) (st_cache demo_cached)
      (rq_Address demo_request1) (rq_Chain demo_request1)) = Inr (Some demo_verdict)"
    by (simp add: demo_cached_def demo_state_def demo_screen_world_def MemoryCache_Get_def cacheKey_def
        demo_request1_def time_Now_def time_After_def)
  show ?thesis
    using cached_screen_replays_verdict [OF c demo_request_valid g s] s by (simp add: demo_verdict_def)
qed

definition demo_down :: "(MemoryCache, MockProvider, MemoryScreenStore, MemoryStore) screen_state" where
  "demo_down = demo_state\<lparr>st_provider := FailNextN 3 (NewMockProvider ''mock'')\<rparr>"

lemma demo_down_ok: "memory_state_ok (\<lambda>m. m) demo_down"
  using demo_state_ok by (simp add: memory_state_ok_def demo_down_def)

theorem vendor_failure_fails_safe_witness:
  "\<exists>resp st' i. Service_Screen (memory_service (\<lambda>m. m) mock_provider demo_thresholds id) demo_down demo_request1 = (Inr resp, st')
    \<and> rp_Decision resp = ''MANUAL_REVIEW'' \<and> ms_mem (st_alerts st') i \<noteq> None"
proof -
  have g: "fst (MemoryCache_Get (tick (st_world demo_down)) (st_cache demo_down)
      (rq_Address demo_request1) (rq_Chain demo_request1)) = Inr None"
    by (simp add: demo_down_def demo_state_def NewMemoryCache_def MemoryCache_Get_def)
  have f: "\<forall>w. \<exists>e w1 p1. prov_Screen mock_provider w (st_provider demo_down) (vendor_request_of demo_request1) = (Inl e, w1, p1)"
    by (simp add: mock_provider_def MockProvider_Screen_def demo_down_def FailNextN_def)
  obtain resp st' i now where
    "Service_Screen (memory_service (\<lambda>m. m) mock_provider demo_thresholds id) demo_down demo_request1 = (Inr resp, st')"
    "rp_Decision resp = DecisionManualReview"
    "ms_mem (st_alerts st') = (ms_mem (st_alerts demo_down))(i \<mapsto> alert_of i demo_request1 resp now)"
    using vendor_failure_fails_safe [OF mock_adv.screen_provider_axioms demo_down_ok demo_request_valid g f,
        of demo_thresholds id] by blast
  then show ?thesis by (intro exI [of _ resp] exI [of _ st'] exI [of _ i]) simp
qed

text \<open>
  C38: A second screen of the same address, within the time to live of the first verdict, gets the first
  answer from the cache and does not reach the vendor, whatever its transaction and amount.
\<close>

theorem second_screen_served_from_cache:
  assumes "screen_provider prov" and "memory_state_ok ord st"
    and "validate req = None" and "validate req2 = None"
    and "rq_Address req2 = rq_Address req" and "rq_Chain req2 = rq_Chain req"
    and "\<forall>w. is_ok (fst (prov_Screen prov w (st_provider st) (vendor_request_of req)))"
    and "Service_Screen (memory_service ord prov th ul) st req = (Inr r1, st1)" and "\<not> rp_CacheHit r1"
    and "mono (clk (st_world st))"
    and "clk (st_world st1) (Suc (ticks (st_world st1))) \<le> clk (st_world st) (ticks (st_world st))
       + TTLFor (rp_Exposure r1) (mc_defaultTTL (st_cache st)) (mc_sanctionedTTL (st_cache st))"
    and "Service_Screen (memory_service ord prov th ul) st1 req2 = (Inr r2, st2)"
  shows "rp_RiskScore r2 = rp_RiskScore r1 \<and> rp_Exposure r2 = rp_Exposure r1 \<and> rp_Decision r2 = rp_Decision r1
    \<and> rp_Vendor r2 = rp_Vendor r1 \<and> rp_CacheHit r2 \<and> st_provider st2 = st_provider st1"
proof -
  let ?svc = "memory_service ord prov th ul"
  have svc: "svc_cache ?svc = Some memory_cache" "svc_provider ?svc = prov" by (simp_all add: NewService_def)
  have le: "world_le (st_world st) (st_world st1)"
    using screen_path.screen_has_effect [OF memory_path [OF assms(1)], of ord st req th ul] assms(2,3,8)
    by (auto simp: memory_state_ok_def screen_path.path_ok_def [OF memory_path [OF assms(1)]])
  define st0 where "st0 = st\<lparr>st_world := tick (st_world st)\<rparr>"
  obtain a w where g: "MemoryCache_Get (st_world st0) (st_cache st0) (rq_Address req) (rq_Chain req) = (Inr a, w, st_cache st0)"
    and lew: "world_le (st_world st0) w"
    using get_memory_total by metis
  define s2 where "s2 = st0\<lparr>st_world := w, st_cache := st_cache st0\<rparr>"
  have look: "screen_lookup ?svc st0 req = (a, s2)"
    using lookup_memory [OF svc(1), of st0 req a w] g by (simp add: s2_def)
  have "a = None"
  proof (cases a)
    case (Some v)
    show ?thesis using screen_outcome [OF assms(3) _ assms(8)] screen_body_hit [OF look [unfolded Some]] assms(9)
      unfolding st0_def by blast
  qed simp
  define s3 where "s3 = s2\<lparr>st_metrics := (st_metrics s2)\<lparr>CacheMissesTotal := ctr_add (CacheMissesTotal (st_metrics s2)) 1\<rparr>\<rparr>"
  have s3: "st_world s3 = w" "st_provider s3 = st_provider st" "st_cache s3 = st_cache st"
    by (simp_all add: s3_def s2_def st0_def)
  obtain x w2 p where v: "prov_Screen prov w (st_provider st) (vendor_request_of req) = (x, w2, p)"
    by (metis prod_cases3)
  then obtain vr where vr: "x = Inr vr" using assms(7) by (metis fst_conv is_ok_iff)
  let ?v = "verdict_of ?svc req vr"
  obtain e w3 c where set: "MemoryCache_Set w2 (st_cache st) ?v = (e, w3, c)" by (metis prod_cases3)
  define s4 where "s4 = s3\<lparr>st_provider := p, st_world := w3, st_cache := c\<rparr>"
  have "screen_body ?svc st0 req = finalize ?svc s4 req (vr_RiskScore vr) (vd_Exposure ?v) (vd_Decision ?v) (vr_Vendor vr) False"
    using screen_body_miss [OF look [unfolded \<open>a = None\<close>]] v vr s3 set
      screen_vendor_answer [of ?svc s3 req vr w2 p memory_cache e w3 c] svc
    by (simp add: s4_def s3_def [symmetric] del: verdict_of_simps)
  from screen_outcome [OF assms(3) this [unfolded st0_def] assms(8)]
  have r1: "rp_RiskScore r1 = vd_RiskScore ?v" "rp_Exposure r1 = vd_Exposure ?v" "rp_Decision r1 = vd_Decision ?v"
    "rp_Vendor r1 = vd_Vendor ?v" "st_cache st1 = c"
    by (simp_all add: s4_def del: verdict_of_simps(5))
  have "world_le (st_world st) w2"
    using world_le_trans [OF world_le_trans [OF world_le_ticks lew [unfolded st0_def, simplified]]
        screen_provider.advances [OF assms(1) v]] .
  then have t: "clk (st_world st) (ticks (st_world st)) \<le> clk w2 (ticks w2)"
    using assms(10) by (auto simp: world_le_def mono_def)
  have "mc_entry c (cacheKey (rq_Address req) (rq_Chain req)) = Some (?v, clk w2 (ticks w2) + mc_ttl (st_cache st) ?v)"
    using memory_set [OF set] by simp
  moreover have "clk (st_world st1) (Suc (ticks (st_world st1))) \<le> clk w2 (ticks w2) + mc_ttl (st_cache st) ?v"
    using assms(11) t r1(2) by (simp add: mc_ttl_def)
  ultimately have "fst (MemoryCache_Get (tick (st_world st1)) c (rq_Address req) (rq_Chain req)) = Inr (Some ?v)"
    using memory_get [of "tick (st_world st1)" c "rq_Address req" "rq_Chain req"]
    by (cases "MemoryCache_Get (tick (st_world st1)) c (rq_Address req) (rq_Chain req)") simp
  then have "fst (MemoryCache_Get (tick (st_world st1)) (st_cache st1) (rq_Address req2) (rq_Chain req2)) = Inr (Some ?v)"
    using assms(5,6) r1(5) by simp
  from cached_screen [OF svc(1) assms(4) this assms(12)] r1 show ?thesis
    by (simp del: verdict_of_simps)
qed

lemmas demo_screen_defs = demo_state_def demo_screen_world_def demo_thresholds_def demo_request1_def
  Service_Screen_def screen_body_def screen_lookup_def screen_vendor_def finalize_def finalize_alert_def
  finalize_audit_def vendor_request_of_def NewService_def mock_provider_def MockProvider_Screen_def
  SetResponse_def NewMockProvider_def mock_key_def NewMemoryCache_def MemoryCache_Get_def MemoryCache_Set_def
  cacheKey_def time_Now_def newID_def MemoryScreenStore_Put_def NewMemoryScreenStore_def
  AlertService_Create_def MemoryStore_Create_def NewMemoryStore_def Emitter_Emit_def stamp_event_def
  NewEmitter_def ObserveScreenDuration_def Let_def NewThresholds_def ExposureFromScore_def thresholdsFor_def
  IsZero_def zero_Metrics_def time_Add_def time_After_def

lemma demo_screen_first:
  "fst (Service_Screen (memory_service (\<lambda>m. m) mock_provider demo_thresholds id) demo_state demo_request1) =
     Inr \<lparr>rp_ScreenID = ''a'', rp_RiskScore = 95, rp_Exposure = ''SANCTIONED'', rp_Decision = ''BLOCK'',
          rp_Vendor = ''mock'', rp_CacheHit = False\<rparr>"
  using demo_request_valid by (simp add: demo_screen_defs)

lemma demo_screen_first_world:
  "st_world (snd (Service_Screen (memory_service (\<lambda>m. m) mock_provider demo_thresholds id) demo_state demo_request1)) =
     demo_screen_world\<lparr>ticks := 5, drawn := 2\<rparr>"
  using demo_request_valid by (simp add: demo_screen_defs)

definition demo_clean :: "(MemoryCache, MockProvider, MemoryScreenStore, MemoryStore) screen_state" where
  "demo_clean = demo_state\<lparr>st_provider := NewMockProvider ''mock''\<rparr>"

definition demo_clean_answer :: Response where
  "demo_clean_answer = \<lparr>rp_ScreenID = ''a'', rp_RiskScore = 0, rp_Exposure = ''CLEAN'', rp_Decision = ''ALLOW'',
     rp_Vendor = ''mock'', rp_CacheHit = False\<rparr>"

lemma demo_clean_screen:
  "fst (screen_run (memory_service (\<lambda>m. m) mock_provider demo_thresholds id) [demo_request1] demo_clean)
     = [Inr demo_clean_answer]"
  using demo_request_valid by (simp add: demo_screen_defs demo_clean_def demo_clean_answer_def)

theorem screen_allows_only_clean_witness:
  "Inr demo_clean_answer \<in> set (fst (screen_run (memory_service (\<lambda>m. m) mock_provider demo_thresholds id)
      [demo_request1] demo_clean))
   \<and> rp_Decision demo_clean_answer = ''ALLOW'' \<and> rp_Exposure demo_clean_answer = ''CLEAN''"
proof -
  let ?svc = "memory_service (\<lambda>m. m) mock_provider demo_thresholds id"
  have "svc_cache ?svc = Some memory_cache" by (simp add: NewService_def)
  moreover have "\<forall>v \<in> mc_held (st_cache demo_clean). verdict_clean v"
    by (simp add: demo_clean_def demo_state_def mc_held_def NewMemoryCache_def)
  moreover have "Inr demo_clean_answer \<in> set (fst (screen_run ?svc [demo_request1] demo_clean))"
    by (simp only: demo_clean_screen) simp
  moreover have "rp_Decision demo_clean_answer = DecisionAllow" by (simp add: demo_clean_answer_def)
  ultimately show ?thesis using screen_allows_only_clean [of ?svc demo_clean demo_clean_answer "[demo_request1]"] by blast
qed

theorem second_screen_served_from_cache_witness:
  "let svc = memory_service (\<lambda>m. m) mock_provider demo_thresholds id;
       st1 = snd (Service_Screen svc demo_state demo_request1);
       (r2, st2) = Service_Screen svc st1 (demo_request1\<lparr>rq_TxID := ''tx2'', rq_Amount := ''9''\<rparr>)
   in \<exists>resp. r2 = Inr resp \<and> rp_CacheHit resp \<and> rp_Decision resp = ''BLOCK''"
proof -
  let ?svc = "memory_service (\<lambda>m. m) mock_provider demo_thresholds id"
  let ?req2 = "demo_request1\<lparr>rq_TxID := ''tx2'', rq_Amount := ''9''\<rparr>"
  obtain r1 st1 where s1: "Service_Screen ?svc demo_state demo_request1 = (Inr r1, st1)" and ok1: "memory_state_ok (\<lambda>m. m) st1"
    using memory_screen_effect [OF mock_adv.screen_provider_axioms demo_state_ok demo_request_valid] by blast
  have r1: "\<not> rp_CacheHit r1" "rp_Exposure r1 = ''SANCTIONED''" "rp_Decision r1 = ''BLOCK''"
    and w1: "st_world st1 = demo_screen_world\<lparr>ticks := 5, drawn := 2\<rparr>"
    using demo_screen_first demo_screen_first_world s1 by auto
  have v2: "validate ?req2 = None"
    by (simp add: validate_def demo_request1_def TrimSpace_visible visible_def)
  obtain r2 st2 where s2: "Service_Screen ?svc st1 ?req2 = (Inr r2, st2)"
    using memory_screen_effect [OF mock_adv.screen_provider_axioms ok1 v2] by blast
  have ok: "\<forall>w. is_ok (fst (prov_Screen mock_provider w (st_provider demo_state) (vendor_request_of demo_request1)))"
    by (simp add: mock_provider_def MockProvider_Screen_def demo_state_def SetResponse_def NewMockProvider_def
        vendor_request_of_def demo_request1_def)
  show ?thesis
    using second_screen_served_from_cache [OF mock_adv.screen_provider_axioms demo_state_ok demo_request_valid v2
        _ _ ok s1 r1(1) _ _ s2] r1 w1 s1 s2
    by (simp add: demo_request1_def demo_state_def demo_screen_world_def mono_def TTLFor_def NewMemoryCache_def)
qed

section \<open>Validation and counters\<close>

lemma screen_vendor_metrics [frame_simps]:
  "CacheHitsTotal (st_metrics (snd (screen_vendor svc st req))) = CacheHitsTotal (st_metrics st)"
  "CacheMissesTotal (st_metrics (snd (screen_vendor svc st req))) = CacheMissesTotal (st_metrics st)"
  "ScreenTotal (st_metrics (snd (screen_vendor svc st req))) = ScreenTotal (st_metrics st)"
  "ScreenDurationCount (st_metrics (snd (screen_vendor svc st req))) = ScreenDurationCount (st_metrics st)"
  by (simp_all add: screen_vendor_def Let_def finalize_frame split: prod.split sum.split option.split)

lemma screen_body_metrics:
  defines "after svc st req \<equiv> st_metrics (snd (screen_body svc st req))"
  shows "ScreenTotal (after svc st req) = ScreenTotal (st_metrics st)
    \<and> ScreenDurationCount (after svc st req) = ScreenDurationCount (st_metrics st)
    \<and> (CacheHitsTotal (after svc st req) = ctr_add (CacheHitsTotal (st_metrics st)) 1
          \<and> CacheMissesTotal (after svc st req) = CacheMissesTotal (st_metrics st)
        \<or> CacheHitsTotal (after svc st req) = CacheHitsTotal (st_metrics st)
          \<and> CacheMissesTotal (after svc st req) = ctr_add (CacheMissesTotal (st_metrics st)) 1)"
proof -
  obtain a st1 where l: "screen_lookup svc st req = (a, st1)" by fastforce
  have m: "st_metrics st1 = st_metrics st"
    using l by (auto simp: screen_lookup_def split: option.splits prod.splits)
  show ?thesis
  proof (cases a)
    case None
    then have "screen_body svc st req = screen_vendor svc
       (st1\<lparr>st_metrics := (st_metrics st1)\<lparr>CacheMissesTotal := ctr_add (CacheMissesTotal (st_metrics st1)) 1\<rparr>\<rparr>) req"
      using l screen_body_miss by blast
    then show ?thesis unfolding after_def
      by (simp add: screen_vendor_metrics m)
  next
    case (Some v)
    then have "screen_body svc st req = finalize svc
       (st1\<lparr>st_metrics := (st_metrics st1)\<lparr>CacheHitsTotal := ctr_add (CacheHitsTotal (st_metrics st1)) 1\<rparr>\<rparr>)
       req (vd_RiskScore v) (vd_Exposure v) (vd_Decision v) (vd_Vendor v) True"
      using l screen_body_hit by blast
    then show ?thesis unfolding after_def
      by (simp add: finalize_frame m)
  qed
qed

text \<open>The counters after a number of answered screens, a number of which were cache hits.\<close>

definition counted :: "nat \<Rightarrow> Metrics \<Rightarrow> bool" where
  "counted n m \<longleftrightarrow> ScreenTotal m = wrap64 (int n) \<and> ScreenDurationCount m = wrap64 (int n)
     \<and> (\<exists>h k. h + k = int n \<and> CacheHitsTotal m = wrap64 h \<and> CacheMissesTotal m = wrap64 k)"

lemma counted_screen:
  assumes "counted n (st_metrics st)" and "validate req = None"
  shows "counted (Suc n) (st_metrics (snd (Service_Screen svc st req)))"
proof -
  let ?st0 = "st\<lparr>st_world := tick (st_world st)\<rparr>"
  obtain r st1 where b: "screen_body svc ?st0 req = (r, st1)" by fastforce
  obtain m where m: "st_metrics (snd (Service_Screen svc st req)) = m"
    "CacheHitsTotal m = CacheHitsTotal (st_metrics st1)" "CacheMissesTotal m = CacheMissesTotal (st_metrics st1)"
    "ScreenTotal m = ctr_add (ScreenTotal (st_metrics st1)) 1"
    "ScreenDurationCount m = ctr_add (ScreenDurationCount (st_metrics st1)) 1"
    using Service_Screen_valid [OF assms(2) b] by auto
  obtain h k where hk: "h + k = int n" "CacheHitsTotal (st_metrics st) = wrap64 h" "CacheMissesTotal (st_metrics st) = wrap64 k"
    using assms(1) by (auto simp: counted_def)
  note f = screen_body_metrics [of svc ?st0 req, unfolded b snd_conv]
  have "\<exists>h k. h + k = int (Suc n) \<and> CacheHitsTotal m = wrap64 h \<and> CacheMissesTotal m = wrap64 k"
    using f
  proof (elim conjE disjE)
    assume "CacheHitsTotal (st_metrics st1) = ctr_add (CacheHitsTotal (st_metrics ?st0)) 1"
      and "CacheMissesTotal (st_metrics st1) = CacheMissesTotal (st_metrics ?st0)"
    then show ?thesis using hk m(2,3) by (intro exI [of _ "h + 1"] exI [of _ k]) simp
  next
    assume "CacheHitsTotal (st_metrics st1) = CacheHitsTotal (st_metrics ?st0)"
      and "CacheMissesTotal (st_metrics st1) = ctr_add (CacheMissesTotal (st_metrics ?st0)) 1"
    then show ?thesis using hk m(2,3) by (intro exI [of _ h] exI [of _ "k + 1"]) simp
  qed
  moreover have "ScreenTotal m = wrap64 (int (Suc n))" "ScreenDurationCount m = wrap64 (int (Suc n))"
    using assms(1) f m(4,5) by (simp_all add: counted_def add.commute)
  ultimately show ?thesis unfolding counted_def m(1) by blast
qed

lemma counted_run:
  "counted n (st_metrics st) \<Longrightarrow>
     counted (n + length (filter (\<lambda>req. validate req = None) reqs)) (st_metrics (snd (screen_run svc reqs st)))"
proof (induction reqs arbitrary: n st)
  case Nil
  then show ?case by simp
next
  case (Cons req reqs)
  obtain r st1 where s: "Service_Screen svc st req = (r, st1)" by fastforce
  show ?case
  proof (cases "validate req")
    case None
    then have "counted (Suc n) (st_metrics st1)" using counted_screen [OF Cons.prems None, of svc] s by simp
    from Cons.IH [OF this] show ?thesis using s None
      by (cases "screen_run svc reqs st1") simp
  next
    case (Some e)
    then have "st1 = st" using s by (simp add: Service_Screen_def)
    then show ?thesis using Cons.IH [OF Cons.prems] s Some
      by (cases "screen_run svc reqs st1") simp
  qed
qed

text \<open>
  Validation.  A request with a blank transaction id, address, chain or amount is rejected with the
  error of its first blank field, before anything is read, called or counted; every other request is
  counted as a screen.
\<close>

theorem screen_validation:
  "case filter (\<lambda>(f, v). TrimSpace v = '''')
      [(''tx_id'', rq_TxID req), (''address'', rq_Address req), (''chain'', rq_Chain req), (''amount'', rq_Amount req)] of
     [] \<Rightarrow> ScreenTotal (st_metrics (snd (Service_Screen svc st req))) = ctr_add (ScreenTotal (st_metrics st)) 1
   | (f, v) # _ \<Rightarrow> Service_Screen svc st req = (Inl (ErrText (f @ '' is required'')), st)"
proof (cases "validate req")
  case None
  obtain r st1 where b: "screen_body svc (st\<lparr>st_world := tick (st_world st)\<rparr>) req = (r, st1)" by fastforce
  show ?thesis
    using None Service_Screen_valid [OF None b] screen_body_metrics [of svc "st\<lparr>st_world := tick (st_world st)\<rparr>" req] b
    by (auto simp: validate_def split: if_splits)
next
  case (Some e)
  then have "Service_Screen svc st req = (Inl e, st)" by (simp add: Service_Screen_def)
  then show ?thesis using Some by (auto simp: validate_def split: if_splits)
qed

text \<open>
  Counters.  Over any run of requests, with any provider and stores, \<open>kyt_screen_total\<close> and the
  latency count are the number of requests that passed validation, and cache hits and misses add up to
  it (modulo 64 bits).
\<close>

theorem screen_counters_add_up:
  assumes "st_metrics st = zero_Metrics"
  shows "let m = st_metrics (snd (screen_run svc reqs st));
             n = length (filter (\<lambda>req. validate req = None) reqs)
    in ScreenTotal m = wrap64 (int n) \<and> ScreenDurationCount m = wrap64 (int n)
     \<and> ctr_add (CacheHitsTotal m) (CacheMissesTotal m) = ScreenTotal m"
proof -
  have "counted 0 (st_metrics st)" using assms
    by (auto simp: counted_def zero_Metrics_def intro: exI [of _ 0])
  from counted_run [OF this, of reqs svc] show ?thesis by (auto simp: counted_def Let_def)
qed

theorem screen_counters_add_up_witness:
  "ScreenTotal (st_metrics (snd (screen_run (memory_service (\<lambda>m. m) mock_provider demo_thresholds id)
      [demo_request1, demo_request1\<lparr>rq_Amount := ''''\<rparr>] demo_state))) = 1"
proof -
  have "validate (demo_request1\<lparr>rq_Amount := ''''\<rparr>) \<noteq> None" by (simp add: validate_def)
  then show ?thesis
    using screen_counters_add_up [of demo_state "memory_service (\<lambda>m. m) mock_provider demo_thresholds id"
        "[demo_request1, demo_request1\<lparr>rq_Amount := ''''\<rparr>]"] demo_request_valid
    by (simp add: demo_state_def Let_def wrap64_id)
qed

section \<open>When the row cannot be stored\<close>

text \<open>
  A screen whose row cannot be stored is answered with an error and leaves no alert and no audit
  event, but on a vendor answer the verdict stays in the cache.
\<close>

theorem screen_persist_failure:
  assumes "svc_cache svc = Some memory_cache" and "svc_screens svc = Some store" and "validate req = None"
    and "\<forall>s rec. ss_Put store s rec = (Some err, s)"
    and "fst (MemoryCache_Get (tick (st_world st)) (st_cache st) (rq_Address req) (rq_Chain req)) = Inr None"
    and "\<forall>w. \<exists>w1 p1. prov_Screen (svc_provider svc) w (st_provider st) (vendor_request_of req) = (Inr vr, w1, p1)"
  shows "\<exists>st' t. Service_Screen svc st req = (Inl (Wrap ''persist screen'' err), st')
    \<and> st_alerts st' = st_alerts st \<and> st_audit st' = st_audit st \<and> st_screens st' = st_screens st
    \<and> mc_entry (st_cache st') (cacheKey (rq_Address req) (rq_Chain req)) = Some (verdict_of svc req vr, t)"
proof -
  define st0 where "st0 = st\<lparr>st_world := tick (st_world st)\<rparr>"
  obtain w where g: "MemoryCache_Get (st_world st0) (st_cache st0) (rq_Address req) (rq_Chain req) = (Inr None, w, st_cache st)"
    using get_memory_total [of "tick (st_world st)" "st_cache st" "rq_Address req" "rq_Chain req"] assms(5)
    by (auto simp: st0_def)
  define s2 where "s2 = st0\<lparr>st_world := w, st_cache := st_cache st0\<rparr>"
  define s3 where "s3 = s2\<lparr>st_metrics := (st_metrics s2)\<lparr>CacheMissesTotal := ctr_add (CacheMissesTotal (st_metrics s2)) 1\<rparr>\<rparr>"
  have s3: "st_world s3 = w" "st_provider s3 = st_provider st" "st_cache s3 = st_cache st" "st_alerts s3 = st_alerts st"
    "st_audit s3 = st_audit st" "st_screens s3 = st_screens st"
    by (simp_all add: s3_def s2_def st0_def)
  obtain w2 p where v: "prov_Screen (svc_provider svc) (st_world s3) (st_provider s3) (vendor_request_of req) = (Inr vr, w2, p)"
    using assms(6) [rule_format, of "st_world s3"] s3(2) by auto
  let ?v = "verdict_of svc req vr"
  obtain e w3 c where set: "MemoryCache_Set w2 (st_cache st) ?v = (e, w3, c)" by (metis prod_cases3)
  have set': "c_Set memory_cache w2 (st_cache s3) ?v = (e, w3, c)" using set s3(3) by simp
  define s4 where "s4 = s3\<lparr>st_provider := p, st_world := w3, st_cache := c\<rparr>"
  have "screen_lookup svc st0 req = (None, s2)"
    using lookup_memory [OF assms(1), of st0 req None w] g by (simp add: s2_def st0_def)
  from screen_body_miss [OF this] screen_vendor_answer [OF v assms(1) set']
  have body: "screen_body svc st0 req = finalize svc s4 req (vr_RiskScore vr) (vd_Exposure ?v) (vd_Decision ?v) (vr_Vendor vr) False"
    by (simp add: s4_def s3_def [symmetric] del: verdict_of_simps)
  define s5 where "s5 = s4\<lparr>st_world := (st_world s4)\<lparr>drawn := Suc (drawn (st_world s4)), ticks := Suc (ticks (st_world s4))\<rparr>\<rparr>"
  have "finalize svc s4 req score ex dec vend hit = (Inl (Wrap ''persist screen'' err), s5\<lparr>st_screens := st_screens s5\<rparr>)"
    for score ex dec vend hit
    using assms(2,4) by (simp add: finalize_unfold put_row_def s5_def Let_def)
  with body have "screen_body svc (st\<lparr>st_world := tick (st_world st)\<rparr>) req = (Inl (Wrap ''persist screen'' err), s5)"
    by (simp add: st0_def)
  from Service_Screen_valid [OF assms(3) this] obtain m where
    "Service_Screen svc st req = (Inl (Wrap ''persist screen'' err), s5\<lparr>st_world := tick (st_world s5), st_metrics := m\<rparr>)"
    by blast
  moreover have "mc_entry c (cacheKey (rq_Address req) (rq_Chain req)) = Some (?v, clk w2 (ticks w2) + mc_ttl (st_cache st) ?v)"
    using memory_set [OF set] by simp
  ultimately show ?thesis using s3
    by (intro exI [of _ "s5\<lparr>st_world := tick (st_world s5), st_metrics := m\<rparr>"] exI) (simp add: s5_def s4_def)
qed

definition broken_store :: "MemoryScreenStore ScreenStore" where
  "broken_store = \<lparr>ss_Put = (\<lambda>s r. (Some (ErrText ''connection refused''), s)), ss_Get = MemoryScreenStore_Get,
     ss_ListByAddress = MemoryScreenStore_ListByAddress (\<lambda>m. m)\<rparr>"

theorem screen_persist_failure_witness:
  "let svc = NewService memory_cache mock_provider demo_thresholds broken_store memory_alert_store id;
       (r, st') = Service_Screen svc demo_state demo_request1
   in r = Inl (Wrap ''persist screen'' (ErrText ''connection refused''))
      \<and> mc_entry (st_cache st') ''ethereum:0xbad'' \<noteq> None"
proof -
  let ?svc = "NewService memory_cache mock_provider demo_thresholds broken_store memory_alert_store id"
  have "\<forall>w. \<exists>w1 p1. prov_Screen (svc_provider ?svc) w (st_provider demo_state) (vendor_request_of demo_request1) =
      (Inr \<lparr>vr_Vendor = ''mock'', vr_RiskScore = 95, vr_Exposure = '''', vr_RawRequest = '''', vr_RawResponse = ''''\<rparr>, w1, p1)"
    by (simp add: NewService_def mock_provider_def MockProvider_Screen_def demo_state_def SetResponse_def
        NewMockProvider_def vendor_request_of_def demo_request1_def)
  from screen_persist_failure [of ?svc broken_store demo_request1 "ErrText ''connection refused''", OF _ _ demo_request_valid _ _ this]
  show ?thesis
    by (auto simp: NewService_def broken_store_def demo_state_def NewMemoryCache_def MemoryCache_Get_def
        cacheKey_def demo_request1_def)
qed

end
