(* ===== verification/Review.thy ===== *)
theory Review
  imports Screen
begin

text \<open>
  \<open>internal/review/review.go\<close>: the downstream review of settled transactions of a re-classified
  address.  It lists the screens of the address and opens an alert for each one that was allowed.
  What it logs is left out; a failure to create one alert does not stop the others.
\<close>

section \<open>The trigger\<close>

record ('s, 'a) Trigger =
  tg_screens :: "'s ScreenStore option"
  tg_alerts :: "'a AlertStore option"

definition NewTrigger :: "'s ScreenStore \<Rightarrow> 'a AlertStore \<Rightarrow> ('s, 'a) Trigger" where
  "NewTrigger screens alerts = \<lparr>tg_screens = Some screens, tg_alerts = Some alerts\<rparr>"

text \<open>One turn of the loop over the records.\<close>

definition review_record ::
    "'a AlertStore \<Rightarrow> string \<Rightarrow> string \<Rightarrow> ScreenRecord \<Rightarrow> world \<times> 'a \<Rightarrow> world \<times> 'a" where
  "review_record alerts exposure sev r wa =
     (if sr_Decision r \<noteq> DecisionAllow then wa
      else snd (AlertService_Create alerts (fst wa) (snd wa) (sr_ScreenID r) (sr_TxID r) (sr_Address r)
                  (sr_Chain r) exposure sev))"

definition TriggerReview ::
    "('s, 'a) Trigger \<Rightarrow> world \<Rightarrow> 's \<Rightarrow> 'a \<Rightarrow> string \<Rightarrow> string \<Rightarrow> string \<Rightarrow> string
     \<Rightarrow> go_error option \<times> world \<times> 'a" where
  "TriggerReview t w s a address chain exposure txID =
     (case (tg_screens t, tg_alerts t) of
        (Some screens, Some alerts) \<Rightarrow>
          (case ss_ListByAddress screens s address chain of
             Inl err \<Rightarrow> (None, w, a)
           | Inr records \<Rightarrow>
               (None, fold (review_record alerts exposure (SeverityFor exposure)) records (w, a)))
      | _ \<Rightarrow> (None, w, a))"

section \<open>The alerts it opens\<close>

definition allowed :: "ScreenRecord list \<Rightarrow> ScreenRecord list" where
  "allowed rs = filter (\<lambda>r. sr_Decision r = DecisionAllow) rs"

text \<open>The alerts for a list of records, with the identifiers and times that follow those of a world.\<close>

fun review_alerts :: "world \<Rightarrow> string \<Rightarrow> ScreenRecord list \<Rightarrow> (string \<times> Alert) list" where
  "review_alerts w exposure [] = []"
| "review_alerts w exposure (r # rs) =
     (uuids w (drawn w), new_alert (uuids w (drawn w)) (sr_ScreenID r) (sr_TxID r) (sr_Address r) (sr_Chain r)
        exposure (SeverityFor exposure) (clk w (ticks w)))
     # review_alerts (w\<lparr>drawn := Suc (drawn w), ticks := Suc (ticks w)\<rparr>) exposure rs"

lemma review_alerts_ids:
  "map fst (review_alerts w exposure rs) = map (uuids w) [drawn w ..< drawn w + length rs]"
proof (induction rs arbitrary: w)
  case Nil
  then show ?case by simp
next
  case (Cons r rs)
  have "[drawn w ..< drawn w + length (r # rs)] = drawn w # [Suc (drawn w) ..< Suc (drawn w) + length rs]"
    by (simp add: upt_conv_Cons del: upt_Suc)
  then show ?case using Cons [of "w\<lparr>drawn := Suc (drawn w), ticks := Suc (ticks w)\<rparr>"]
    by (simp del: upt_Suc)
qed

lemma review_alerts_for:
  "(i, a) \<in> set (review_alerts w exposure rs) \<Longrightarrow> \<exists>r \<in> set rs. \<exists>now.
     a = new_alert i (sr_ScreenID r) (sr_TxID r) (sr_Address r) (sr_Chain r) exposure (SeverityFor exposure) now"
  by (induction rs arbitrary: w) fastforce+

lemma review_alerts_cover:
  "r \<in> set rs \<Longrightarrow> \<exists>i a. (i, a) \<in> set (review_alerts w exposure rs) \<and> al_ScreenID a = sr_ScreenID r"
proof (induction rs arbitrary: w)
  case Nil
  then show ?case by simp
next
  case (Cons x rs)
  show ?case
  proof (cases "r = x")
    case True
    let ?a = "new_alert (uuids w (drawn w)) (sr_ScreenID x) (sr_TxID x) (sr_Address x) (sr_Chain x)
        exposure (SeverityFor exposure) (clk w (ticks w))"
    have "(uuids w (drawn w), ?a) \<in> set (review_alerts w exposure (x # rs))" by simp
    moreover have "al_ScreenID ?a = sr_ScreenID r" using True by (simp add: new_alert_def)
    ultimately show ?thesis by blast
  next
    case False
    then obtain i a where "(i, a) \<in> set (review_alerts (w\<lparr>drawn := Suc (drawn w), ticks := Suc (ticks w)\<rparr>) exposure rs)"
      "al_ScreenID a = sr_ScreenID r"
      using Cons by fastforce
    then show ?thesis by (intro exI [of _ i] exI [of _ a]) simp
  qed
qed

lemma review_alerts_distinct:
  assumes "fresh_ids w"
  shows "distinct (map fst (review_alerts w exposure rs))"
proof -
  have "inj_on (uuids w) A" for A using assms by (auto simp: fresh_ids_def inj_on_def)
  then show ?thesis unfolding review_alerts_ids by (simp add: distinct_map)
qed

lemma review_alerts_unused:
  assumes "fresh_ids w"
  shows "fst ` set (review_alerts w exposure rs) \<inter> used_ids w = {}"
proof -
  have "fst ` set (review_alerts w exposure rs) = set (map fst (review_alerts w exposure rs))" by simp
  also have "\<dots> \<subseteq> uuids w ` {drawn w ..}" unfolding review_alerts_ids by auto
  finally have "fst ` set (review_alerts w exposure rs) \<subseteq> uuids w ` {drawn w ..}" .
  moreover have "uuids w ` {drawn w ..} \<inter> used_ids w = {}"
    using assms by (auto simp: used_ids_def fresh_ids_def dest: injD)
  ultimately show ?thesis by blast
qed

context alert_store
begin

text \<open>The loop files exactly these alerts, whatever else the store holds.\<close>

lemma review_loop:
  assumes "ok a" and "fresh_ids w" and "dom (table a) \<subseteq> used_ids w"
  shows "\<exists>w' a'. fold (review_record ops exposure (SeverityFor exposure)) rs (w, a) = (w', a') \<and> ok a'
    \<and> table a' = table a ++ map_of (review_alerts w exposure (allowed rs)) \<and> world_le w w'
    \<and> fresh_ids w' \<and> dom (table a') \<subseteq> used_ids w'"
  using assms
proof (induction rs arbitrary: w a)
  case Nil
  then show ?case by (simp add: allowed_def)
next
  case (Cons r rs)
  show ?case
  proof (cases "sr_Decision r = DecisionAllow")
    case False
    then show ?thesis using Cons.IH [OF Cons.prems] by (simp add: review_record_def allowed_def)
  next
    case True
    let ?i = "uuids w (drawn w)"
    let ?w1 = "w\<lparr>drawn := Suc (drawn w), ticks := Suc (ticks w)\<rparr>"
    let ?a = "new_alert ?i (sr_ScreenID r) (sr_TxID r) (sr_Address r) (sr_Chain r) exposure (SeverityFor exposure)
        (clk w (ticks w))"
    have new: "table a ?i = None" "?i \<noteq> ''''"
      using Cons.prems fresh_not_used [of w 0] fresh_nonempty [of w "drawn w"] by auto
    obtain a1 where c: "AlertService_Create ops w a (sr_ScreenID r) (sr_TxID r) (sr_Address r) (sr_Chain r) exposure
        (SeverityFor exposure) = (Inr ?a, ?w1, a1)" "ok a1" "table a1 = (table a)(?i \<mapsto> ?a)"
      using service_create [OF Cons.prems(1) new, of "sr_ScreenID r" "sr_TxID r" "sr_Address r" "sr_Chain r" exposure
          "SeverityFor exposure"] by blast
    have step: "review_record ops exposure (SeverityFor exposure) r (w, a) = (?w1, a1)"
      using True c(1) by (simp add: review_record_def)
    have fresh1: "fresh_ids ?w1" using Cons.prems(2) by (simp add: fresh_ids_def)
    have dom1: "dom (table a1) \<subseteq> used_ids ?w1"
      using c(3) Cons.prems(3) used_ids_mono [of w ?w1] by (auto simp: used_ids_def)
    obtain w' a' where r: "fold (review_record ops exposure (SeverityFor exposure)) rs (?w1, a1) = (w', a')" "ok a'"
      "table a' = table a1 ++ map_of (review_alerts ?w1 exposure (allowed rs))" "world_le ?w1 w'" "fresh_ids w'"
      "dom (table a') \<subseteq> used_ids w'"
      using Cons.IH [OF c(2) fresh1 dom1] by blast
    have "?i \<notin> fst ` set (review_alerts ?w1 exposure (allowed rs))"
    proof
      assume "?i \<in> fst ` set (review_alerts ?w1 exposure (allowed rs))"
      then have "?i \<in> set (map fst (review_alerts ?w1 exposure (allowed rs)))" by simp
      then have "?i \<in> uuids w ` {Suc (drawn w) ..< Suc (drawn w) + length (allowed rs)}"
        unfolding review_alerts_ids set_map set_upt by simp
      then show False using Cons.prems(2) by (auto simp: fresh_ids_def dest: injD)
    qed
    then have none: "map_of (review_alerts ?w1 exposure (allowed rs)) ?i = None" by (simp add: map_of_eq_None_iff)
    have "table a' = table a ++ map_of (review_alerts w exposure (allowed (r # rs)))"
      using r(3) c(3) none True by (intro ext) (auto simp: allowed_def map_add_def split: option.split)
    moreover have "world_le w w'" using r(4) world_le_drawn [of w] world_le_trans by blast
    ultimately show ?thesis using step r by simp
  qed
qed

end

section \<open>Over the in-memory stores\<close>

definition memory_trigger ::
    "(MemoryScreenStore \<Rightarrow> MemoryScreenStore) \<Rightarrow> (MemoryScreenStore, MemoryStore) Trigger" where
  "memory_trigger ord = NewTrigger (memory_screen_store ord) memory_alert_store"

lemma memory_review:
  assumes "mss_ok ord s" and "mem_ok a" and "fresh_ids w" and "dom (ms_mem a) \<subseteq> used_ids w"
  shows "\<exists>rs w' a'. TriggerReview (memory_trigger ord) w s a address chain exposure tx = (None, w', a')
    \<and> distinct (map sr_ScreenID rs) \<and> sorted (map sr_CreatedAt rs)
    \<and> set rs = {r. map_of s (sr_ScreenID r) = Some r \<and> sr_Address r = address \<and> sr_Chain r = chain}
    \<and> mem_ok a' \<and> ms_mem a' = ms_mem a ++ map_of (review_alerts w exposure (allowed rs))
    \<and> world_le w w' \<and> dom (ms_mem a') \<subseteq> used_ids w'"
proof -
  obtain rs where rs: "ss_ListByAddress (memory_screen_store ord) s address chain = Inr rs"
    "distinct (map sr_ScreenID rs)" "sorted (map sr_CreatedAt rs)"
    "set rs = {r. map_of s (sr_ScreenID r) = Some r \<and> sr_Address r = address \<and> sr_Chain r = chain}"
    using mss.list_rows [OF assms(1), of address chain] by blast
  obtain w' a' where l: "fold (review_record memory_alert_store exposure (SeverityFor exposure)) rs (w, a) = (w', a')"
    "mem_ok a'" "ms_mem a' = ms_mem a ++ map_of (review_alerts w exposure (allowed rs))" "world_le w w'"
    "dom (ms_mem a') \<subseteq> used_ids w'"
    using mas.review_loop [OF assms(2-4), of exposure rs] by blast
  have "TriggerReview (memory_trigger ord) w s a address chain exposure tx = (None, w', a')"
    using rs(1) l(1) by (simp add: TriggerReview_def memory_trigger_def NewTrigger_def)
  then show ?thesis using rs l by blast
qed

text \<open>
  The review opens, in the order of the screens, one alert for each screen of the address and chain
  that was allowed, with the new exposure and its severity, and touches no other alert.
\<close>

theorem review_opens_alerts_for_allowed:
  assumes "mss_ok ord s" and "mem_ok a" and "fresh_ids w" and "dom (ms_mem a) \<subseteq> used_ids w"
  shows "\<exists>rs w' a'. TriggerReview (memory_trigger ord) w s a address chain exposure tx = (None, w', a')
    \<and> distinct (map sr_ScreenID rs) \<and> sorted (map sr_CreatedAt rs)
    \<and> set rs = {r. map_of s (sr_ScreenID r) = Some r \<and> sr_Address r = address \<and> sr_Chain r = chain}
    \<and> ms_mem a' = ms_mem a ++ map_of (review_alerts w exposure (allowed rs))
    \<and> distinct (map fst (review_alerts w exposure (allowed rs)))
    \<and> dom (ms_mem a) \<inter> fst ` set (review_alerts w exposure (allowed rs)) = {}"
proof -
  obtain rs w' a' where m: "TriggerReview (memory_trigger ord) w s a address chain exposure tx = (None, w', a')"
    "distinct (map sr_ScreenID rs)" "sorted (map sr_CreatedAt rs)"
    "set rs = {r. map_of s (sr_ScreenID r) = Some r \<and> sr_Address r = address \<and> sr_Chain r = chain}"
    "ms_mem a' = ms_mem a ++ map_of (review_alerts w exposure (allowed rs))"
    using memory_review [OF assms, of address chain exposure tx] by blast
  have "dom (ms_mem a) \<inter> fst ` set (review_alerts w exposure (allowed rs)) = {}"
    using review_alerts_unused [OF assms(3)] assms(4) by blast
  then show ?thesis using m review_alerts_distinct [OF assms(3)] by blast
qed

definition demo_row :: ScreenRecord where
  "demo_row = \<lparr>sr_ScreenID = ''s1'', sr_TxID = ''tx1'', sr_Address = ''0xbad'', sr_SourceAddress = '''',
     sr_Chain = ''ethereum'', sr_Amount = ''1'', sr_RiskScore = 0, sr_Exposure = ''CLEAN'',
     sr_Decision = ''ALLOW'', sr_Vendor = ''mock'', sr_VendorResponseID = '''', sr_CacheHit = False,
     sr_CreatedAt = 7\<rparr>"

lemma demo_row_ok: "mss_ok (\<lambda>m. m) [(''s1'', demo_row)]"
  by (simp add: mss_ok_def demo_row_def)

theorem review_opens_alerts_for_allowed_witness:
  "\<exists>rs w' a'. TriggerReview (memory_trigger (\<lambda>m. m)) demo_screen_world [(''s1'', demo_row)] NewMemoryStore
      ''0xbad'' ''ethereum'' ''SANCTIONED'' '''' = (None, w', a')
    \<and> demo_row \<in> set rs \<and> ms_mem a' = ms_mem NewMemoryStore
        ++ map_of (review_alerts demo_screen_world ''SANCTIONED'' (allowed rs))"
proof -
  have "mem_ok NewMemoryStore" "dom (ms_mem NewMemoryStore) \<subseteq> used_ids demo_screen_world"
    by (simp_all add: mem_ok_def NewMemoryStore_def)
  from review_opens_alerts_for_allowed [OF demo_row_ok this(1) demo_screen_world_fresh this(2),
      of "''0xbad''" "''ethereum''" "''SANCTIONED''" "''''"]
  obtain rs w' a' where r: "TriggerReview (memory_trigger (\<lambda>m. m)) demo_screen_world [(''s1'', demo_row)] NewMemoryStore
      ''0xbad'' ''ethereum'' ''SANCTIONED'' '''' = (None, w', a')"
    "set rs = {r. map_of [(''s1'', demo_row)] (sr_ScreenID r) = Some r \<and> sr_Address r = ''0xbad'' \<and> sr_Chain r = ''ethereum''}"
    "ms_mem a' = ms_mem NewMemoryStore ++ map_of (review_alerts demo_screen_world ''SANCTIONED'' (allowed rs))"
    by blast
  have "demo_row \<in> set rs" unfolding r(2) by (simp add: demo_row_def)
  then show ?thesis using r by blast
qed

end
