(* ===== verification/Webhook.thy ===== *)
theory Webhook
  imports Go_Crypto Review
begin

text \<open>
  \<open>internal/webhook/webhook.go\<close>: the vendor webhooks.  \<open>Verifier\<close> checks the HMAC of a
  delivery, \<open>Processor.Ingest\<close> deduplicates it by event id, invalidates the cache entry of the
  re-classified address, opens an alert and starts a review in a goroutine of its own.  A started
  review is a pending entry of the state, and runs as a step of its own, in any order with the
  deliveries that follow.
\<close>

section \<open>Signatures\<close>

type_synonym secrets = "string \<rightharpoonup> string"

definition Verify :: "secrets \<Rightarrow> string \<Rightarrow> string \<Rightarrow> string \<Rightarrow> go_error option" where
  "Verify secrets vendor body sig =
     (case secrets vendor of
        None \<Rightarrow> Some ErrSignatureMismatch
      | Some secret \<Rightarrow>
          if sig = '''' then Some ErrSignatureMismatch
          else (case DecodeString sig of
                  None \<Rightarrow> Some ErrSignatureMismatch
                | Some want \<Rightarrow>
                    if want \<noteq> hmac_sha256 secret body then Some ErrSignatureMismatch else None))"

definition signed_by :: "secrets \<Rightarrow> string \<Rightarrow> string \<Rightarrow> string \<Rightarrow> bool" where
  "signed_by secrets vendor body sig \<longleftrightarrow>
     (\<exists>secret. secrets vendor = Some secret \<and> DecodeString sig = Some (hmac_sha256 secret body))"

lemma Verify_iff: "Verify secrets vendor body sig = None \<longleftrightarrow> signed_by secrets vendor body sig"
  by (cases "sig = ''''") (auto simp: Verify_def signed_by_def split: option.splits dest: sym)

lemma Verify_error: "\<not> signed_by secrets vendor body sig \<Longrightarrow>
    Verify secrets vendor body sig = Some ErrSignatureMismatch"
  by (auto simp: Verify_def signed_by_def split: option.splits)

section \<open>The payload\<close>

record Reclassification =
  rc_EventID :: string
  rc_Address :: string
  rc_Chain :: string
  rc_Exposure :: string
  rc_TxID :: string

definition zero_Reclassification :: Reclassification where
  "zero_Reclassification =
     \<lparr>rc_EventID = '''', rc_Address = '''', rc_Chain = '''', rc_Exposure = '''', rc_TxID = ''''\<rparr>"

text \<open>The struct tags of \<open>Reclassification\<close>.\<close>

definition rec_fields :: "string list" where
  "rec_fields = [''event_id'', ''address'', ''chain'', ''exposure'', ''tx_id'']"

definition rec_setter :: "string \<Rightarrow> json \<Rightarrow> Reclassification \<Rightarrow> Reclassification option" where
  "rec_setter f =
     (if f = ''event_id'' then set_str (\<lambda>s. rc_EventID_update (\<lambda>_. s))
      else if f = ''address'' then set_str (\<lambda>s. rc_Address_update (\<lambda>_. s))
      else if f = ''chain'' then set_str (\<lambda>s. rc_Chain_update (\<lambda>_. s))
      else if f = ''exposure'' then set_str (\<lambda>s. rc_Exposure_update (\<lambda>_. s))
      else set_str (\<lambda>s. rc_TxID_update (\<lambda>_. s)))"

definition unmarshal_rec :: "string \<Rightarrow> go_error + Reclassification" where
  "unmarshal_rec body = unmarshal rec_fields rec_setter zero_Reclassification body"

section \<open>The processor\<close>

record Result =
  rs_Accepted :: bool
  rs_Duplicate :: bool
  rs_Reason :: string
  rs_EventID :: string

text \<open>
  The interfaces: \<open>CacheInvalidator\<close> is the cache's \<open>Delete\<close>; \<open>ReviewTrigger\<close> reads
  the screens of type \<open>'s\<close> and opens alerts.  A nil interface or service is \<open>None\<close>.
\<close>

type_synonym 'c CacheInvalidator = "world \<Rightarrow> 'c \<Rightarrow> string \<Rightarrow> string \<Rightarrow> go_error option \<times> world \<times> 'c"
type_synonym ('s, 'a) ReviewTrigger =
  "world \<Rightarrow> 's \<Rightarrow> 'a \<Rightarrow> string \<Rightarrow> string \<Rightarrow> string \<Rightarrow> string \<Rightarrow> go_error option \<times> world \<times> 'a"

record ('c, 's, 'a) Processor =
  wp_verifier :: secrets
  wp_cache :: "'c CacheInvalidator option"
  wp_alerts :: "'a AlertStore option"
  wp_reviewer :: "('s, 'a) ReviewTrigger option"

definition NewProcessor ::
    "secrets \<Rightarrow> 'c CacheInvalidator option \<Rightarrow> 'a AlertStore option \<Rightarrow> ('c, 's, 'a) Processor" where
  "NewProcessor verifier cache alerts =
     \<lparr>wp_verifier = verifier, wp_cache = cache, wp_alerts = alerts, wp_reviewer = None\<rparr>"

definition WithReviewer ::
    "('c, 's, 'a) Processor \<Rightarrow> ('s, 'a) ReviewTrigger option \<Rightarrow> ('c, 's, 'a) Processor" where
  "WithReviewer p r = p\<lparr>wp_reviewer := r\<rparr>"

text \<open>What deliveries change: the shared world, cache and alerts, the seen event ids (\<open>p.seen\<close>)
  and the goroutines that have been started and not yet run.\<close>

record ('c, 'a) hook_state =
  hk_world :: world
  hk_cache :: 'c
  hk_alerts :: 'a
  hk_seen :: "string set"
  hk_pending :: "Reclassification list"

definition alertSeverity :: "string \<Rightarrow> string" where
  "alertSeverity exposure =
     (if exposure = ''SANCTIONED'' then ''critical''
      else if exposure = ''HIGH_RISK'' then ''high''
      else if exposure = ''UNKNOWN'' then ''medium''
      else ''low'')"

definition rejected :: "string \<Rightarrow> Result" where
  "rejected reason = \<lparr>rs_Accepted = False, rs_Duplicate = False, rs_Reason = reason, rs_EventID = ''''\<rparr>"

text \<open>The first half of \<open>Ingest\<close>: signature, payload, required fields, default event id.\<close>

definition default_event_id :: "string \<Rightarrow> Reclassification \<Rightarrow> string" where
  "default_event_id vendor rec =
     vendor @ '':'' @ rc_Chain rec @ '':'' @ rc_Address rec @ '':'' @ rc_Exposure rec"

definition ingest_parse :: "secrets \<Rightarrow> string \<Rightarrow> string \<Rightarrow> string \<Rightarrow> string + Reclassification" where
  "ingest_parse verifier vendor body sig =
     (case Verify verifier vendor body sig of
        Some err \<Rightarrow> Inl (error_text err)
      | None \<Rightarrow>
          (case unmarshal_rec body of
             Inl err \<Rightarrow> Inl (''invalid json: '' @ error_text err)
           | Inr rec \<Rightarrow>
               if rc_Address rec = '''' \<or> rc_Chain rec = '''' \<or> rc_Exposure rec = ''''
               then Inl ''missing required fields''
               else if rc_EventID rec = '''' then Inr (rec\<lparr>rc_EventID := default_event_id vendor rec\<rparr>)
               else Inr rec))"

text \<open>The second half: the event id is looked up and marked under the lock, then the effects follow.\<close>

definition ingest_cache ::
    "('c, 's, 'a) Processor \<Rightarrow> Reclassification \<Rightarrow> ('c, 'a) hook_state \<Rightarrow> go_error option \<times> ('c, 'a) hook_state" where
  "ingest_cache p rec st =
     (case wp_cache p of
        None \<Rightarrow> (None, st)
      | Some del \<Rightarrow>
          (case del (hk_world st) (hk_cache st) (rc_Address rec) (rc_Chain rec) of
             (e, w, c) \<Rightarrow> (e, st\<lparr>hk_world := w, hk_cache := c\<rparr>)))"

definition ingest_alert ::
    "('c, 's, 'a) Processor \<Rightarrow> Reclassification \<Rightarrow> ('c, 'a) hook_state \<Rightarrow> go_error option \<times> ('c, 'a) hook_state" where
  "ingest_alert p rec st =
     (case wp_alerts p of
        None \<Rightarrow> (None, st)
      | Some alerts \<Rightarrow>
          (case AlertService_Create alerts (hk_world st) (hk_alerts st) '''' (rc_TxID rec) (rc_Address rec)
                  (rc_Chain rec) (rc_Exposure rec) (alertSeverity (rc_Exposure rec)) of
             (r, w, a) \<Rightarrow> (case r of Inl err \<Rightarrow> Some err | Inr _ \<Rightarrow> None, st\<lparr>hk_world := w, hk_alerts := a\<rparr>)))"

definition ingest_apply ::
    "('c, 's, 'a) Processor \<Rightarrow> Reclassification \<Rightarrow> ('c, 'a) hook_state \<Rightarrow> Result \<times> ('c, 'a) hook_state" where
  "ingest_apply p rec st =
     (if rc_EventID rec \<in> hk_seen st
      then (\<lparr>rs_Accepted = False, rs_Duplicate = True, rs_Reason = '''', rs_EventID = rc_EventID rec\<rparr>, st)
      else
        (let st1 = st\<lparr>hk_seen := insert (rc_EventID rec) (hk_seen st)\<rparr> in
         case ingest_cache p rec st1 of
           (Some err, st2) \<Rightarrow> (rejected (''cache invalidate: '' @ error_text err), st2)
         | (None, st2) \<Rightarrow>
             (case ingest_alert p rec st2 of
                (Some err, st3) \<Rightarrow> (rejected (''alert create: '' @ error_text err), st3)
              | (None, st3) \<Rightarrow>
                  (\<lparr>rs_Accepted = True, rs_Duplicate = False, rs_Reason = '''', rs_EventID = rc_EventID rec\<rparr>,
                   if wp_reviewer p = None then st3
                   else st3\<lparr>hk_pending := hk_pending st3 @ [rec]\<rparr>))))"

definition Ingest ::
    "('c, 's, 'a) Processor \<Rightarrow> string \<Rightarrow> string \<Rightarrow> string \<Rightarrow> ('c, 'a) hook_state \<Rightarrow> Result \<times> ('c, 'a) hook_state" where
  "Ingest p vendor body sig st =
     (case ingest_parse (wp_verifier p) vendor body sig of
        Inl reason \<Rightarrow> (rejected reason, st)
      | Inr rec \<Rightarrow> ingest_apply p rec st)"

text \<open>The goroutine \<open>triggerReview\<close>; its error is dropped.\<close>

definition triggerReview ::
    "('c, 's, 'a) Processor \<Rightarrow> Reclassification \<Rightarrow> 's \<Rightarrow> world \<times> 'a \<Rightarrow> world \<times> 'a" where
  "triggerReview p rec screens wa =
     (case wp_reviewer p of
        None \<Rightarrow> wa
      | Some review \<Rightarrow>
          snd (review (fst wa) screens (snd wa) (rc_Address rec) (rc_Chain rec) (rc_Exposure rec) (rc_TxID rec)))"

section \<open>Reading the body\<close>

text \<open>
  A reader is the bytes it delivers and the error that ends them (\<open>None\<close> for the end of file).
  \<open>io.LimitReader\<close> cuts it after \<open>maxBytes + 1\<close> bytes, so an error behind that point is not seen.
\<close>

definition ReadBody :: "string \<times> go_error option \<Rightarrow> int \<Rightarrow> go_error + string" where
  "ReadBody r maxBytes =
     (let limit = wrap64 (maxBytes + 1);
          body = take (nat limit) (fst r)
      in case (if int (length (fst r)) < limit then snd r else None) of
           Some err \<Rightarrow> Inl err
         | None \<Rightarrow> if int (length body) > maxBytes then Inl ErrBodyTooLarge else Inr body)"

section \<open>Outcomes of a delivery\<close>

lemma ingest_parse_Inr:
  assumes "ingest_parse v vendor body sig = Inr rec"
  shows "signed_by v vendor body sig" and "rc_Address rec \<noteq> ''''" and "rc_Chain rec \<noteq> ''''"
    and "rc_Exposure rec \<noteq> ''''" and "rc_EventID rec \<noteq> ''''"
  using assms Verify_iff [of v vendor body sig]
  by (auto simp: ingest_parse_def default_event_id_def split: option.splits sum.splits if_splits)

lemma ingest_parse_signed:
  assumes "signed_by v vendor body sig" and "unmarshal_rec body = Inr rec"
    and "rc_Address rec \<noteq> ''''" "rc_Chain rec \<noteq> ''''" "rc_Exposure rec \<noteq> ''''"
  shows "ingest_parse v vendor body sig =
    Inr (if rc_EventID rec = '''' then rec\<lparr>rc_EventID := default_event_id vendor rec\<rparr> else rec)"
  using assms Verify_iff [of v vendor body sig] by (simp add: ingest_parse_def)

lemma ingest_unsigned:
  "\<not> signed_by (wp_verifier p) vendor body sig \<Longrightarrow>
     Ingest p vendor body sig st = (rejected ''webhook signature mismatch'', st)"
  by (simp add: Ingest_def ingest_parse_def Verify_error)

lemma ingest_seen:
  assumes "ingest_parse (wp_verifier p) vendor body sig = Inr rec" and "rc_EventID rec \<in> hk_seen st"
  shows "Ingest p vendor body sig st =
    (\<lparr>rs_Accepted = False, rs_Duplicate = True, rs_Reason = '''', rs_EventID = rc_EventID rec\<rparr>, st)"
  using assms by (simp add: Ingest_def ingest_apply_def)

lemma ingest_effects_seen [frame_simps]:
  "hk_seen (snd (ingest_cache p rec st)) = hk_seen st"
  "hk_seen (snd (ingest_alert p rec st)) = hk_seen st"
  by (simp_all add: ingest_cache_def ingest_alert_def split: option.split prod.split)

lemma ingest_apply_new:
  assumes "rc_EventID rec \<notin> hk_seen st"
    and "ingest_cache p rec (st\<lparr>hk_seen := insert (rc_EventID rec) (hk_seen st)\<rparr>) = (e1, st2)"
    and "ingest_alert p rec st2 = (e2, st3)"
  shows "ingest_apply p rec st = (case e1 of
      Some err \<Rightarrow> (rejected (''cache invalidate: '' @ error_text err), st2)
    | None \<Rightarrow> (case e2 of
        Some err \<Rightarrow> (rejected (''alert create: '' @ error_text err), st3)
      | None \<Rightarrow> (\<lparr>rs_Accepted = True, rs_Duplicate = False, rs_Reason = '''', rs_EventID = rc_EventID rec\<rparr>,
                 if wp_reviewer p = None then st3 else st3\<lparr>hk_pending := hk_pending st3 @ [rec]\<rparr>)))"
  using assms unfolding ingest_apply_def Let_def by (cases e1; cases e2) simp_all

lemma ingest_apply_seen:
  assumes "ingest_apply p rec st = (r, st')"
  shows "hk_seen st' = insert (rc_EventID rec) (hk_seen st)
    \<and> (rs_Accepted r \<longrightarrow> rc_EventID rec \<notin> hk_seen st \<and> rs_EventID r = rc_EventID rec)"
proof (cases "rc_EventID rec \<in> hk_seen st")
  case True
  then show ?thesis using assms by (auto simp: ingest_apply_def)
next
  case False
  define st1 where "st1 = st\<lparr>hk_seen := insert (rc_EventID rec) (hk_seen st)\<rparr>"
  obtain e1 st2 where c: "ingest_cache p rec st1 = (e1, st2)" by fastforce
  obtain e2 st3 where a: "ingest_alert p rec st2 = (e2, st3)" by fastforce
  have "hk_seen st2 = insert (rc_EventID rec) (hk_seen st)" "hk_seen st3 = hk_seen st2"
    using c ingest_effects_seen(1) [of p rec st1]
      ingest_effects_seen(2) [of p rec st2] a by (simp_all add: st1_def)
  moreover have "(r, st') = (case e1 of
      Some err \<Rightarrow> (rejected (''cache invalidate: '' @ error_text err), st2)
    | None \<Rightarrow> (case e2 of
        Some err \<Rightarrow> (rejected (''alert create: '' @ error_text err), st3)
      | None \<Rightarrow> (\<lparr>rs_Accepted = True, rs_Duplicate = False, rs_Reason = '''', rs_EventID = rc_EventID rec\<rparr>,
                 if wp_reviewer p = None then st3 else st3\<lparr>hk_pending := hk_pending st3 @ [rec]\<rparr>)))"
    using ingest_apply_new [OF False c [unfolded st1_def] a] assms by simp
  ultimately show ?thesis
    using False by (simp add: rejected_def split: option.split_asm if_split_asm)
qed

lemma ingest_seen_mono:
  assumes "Ingest p vendor body sig st = (r, st')"
  shows "hk_seen st \<subseteq> hk_seen st' \<and> (rs_Accepted r \<longrightarrow> rs_EventID r \<in> hk_seen st' - hk_seen st)"
  using assms ingest_apply_seen [of p _ st r st']
  by (auto simp: Ingest_def rejected_def split: sum.splits)

text \<open>
  C34: A delivery passes the verifier exactly when the vendor has a secret and the signature is the
  hexadecimal form of the body's HMAC under it; every other delivery is refused and changes nothing.
\<close>

theorem webhook_signature:
  "(Verify secrets vendor body sig = None \<longleftrightarrow>
      (\<exists>secret. secrets vendor = Some secret \<and> DecodeString sig = Some (hmac_sha256 secret body)))
   \<and> (Verify (wp_verifier p) vendor body sig = None
      \<or> Ingest p vendor body sig st = (rejected ''webhook signature mismatch'', st))"
  using Verify_iff [of secrets vendor body sig] Verify_iff [of "wp_verifier p" vendor body sig]
    ingest_unsigned [of p vendor body sig st]
  by (auto simp: signed_by_def)

section \<open>Deliveries, reviews and everything else in any order\<close>

text \<open>
  A step is a delivery, with its result, the run of a pending review on the screens of that
  moment, or a change of the cache and the alerts by the other handlers of the service.
\<close>

inductive hook_step ::
    "('c, 's, 'a) Processor \<Rightarrow> ('c, 'a) hook_state \<Rightarrow> Result list \<Rightarrow> ('c, 'a) hook_state \<Rightarrow> bool" for p where
  deliver: "Ingest p vendor body sig st = (r, st') \<Longrightarrow> hook_step p st [r] st'"
| review: "hk_pending st = xs @ rec # ys \<Longrightarrow>
    triggerReview p rec screens (hk_world st, hk_alerts st) = (w, a) \<Longrightarrow>
    hook_step p st [] (st\<lparr>hk_world := w, hk_alerts := a, hk_pending := xs @ ys\<rparr>)"
| other: "hook_step p st [] (st\<lparr>hk_world := w, hk_cache := c, hk_alerts := a\<rparr>)"

inductive_cases hook_stepE: "hook_step p st rs st'"

inductive hook_run ::
    "('c, 's, 'a) Processor \<Rightarrow> ('c, 'a) hook_state \<Rightarrow> Result list \<Rightarrow> ('c, 'a) hook_state \<Rightarrow> bool" for p st where
  start: "hook_run p st [] st"
| step: "hook_run p st rs st1 \<Longrightarrow> hook_step p st1 rs' st2 \<Longrightarrow> hook_run p st (rs @ rs') st2"

definition accepted_ids :: "Result list \<Rightarrow> string list" where
  "accepted_ids rs = map rs_EventID (filter rs_Accepted rs)"

lemma hook_step_seen:
  assumes "hook_step p st rs st'"
  shows "hk_seen st \<subseteq> hk_seen st' \<and> distinct (accepted_ids rs)
    \<and> set (accepted_ids rs) \<subseteq> hk_seen st' - hk_seen st"
  using assms
proof cases
  case (deliver vendor body sig r)
  then show ?thesis using ingest_seen_mono [OF deliver(2)] by (auto simp: accepted_ids_def)
qed (auto simp: accepted_ids_def)

lemma hook_run_seen:
  "hook_run p st rs st' \<Longrightarrow> hk_seen st \<subseteq> hk_seen st' \<and> distinct (accepted_ids rs)
    \<and> set (accepted_ids rs) \<subseteq> hk_seen st' - hk_seen st"
proof (induction rule: hook_run.induct)
  case start
  then show ?case by (simp add: accepted_ids_def)
next
  case (step rs st1 rs' st2)
  have split: "accepted_ids (rs @ rs') = accepted_ids rs @ accepted_ids rs'" by (simp add: accepted_ids_def)
  show ?case using hook_step_seen [OF step.hyps(2)] step.IH unfolding split by auto
qed

text \<open>
  C35: No event is accepted twice: along any run the ids of the accepted deliveries are distinct, and
  none of them had been seen before.
\<close>

theorem webhook_accepts_once:
  assumes "hook_run p st rs st'"
  shows "distinct (accepted_ids rs) \<and> set (accepted_ids rs) \<inter> hk_seen st = {}"
  using hook_run_seen [OF assms] by blast

text \<open>
  A redelivery is a duplicate and changes nothing, whatever happened in between and whichever
  vendor signs it: the event ids of all vendors are one name space.
\<close>

theorem webhook_redelivery:
  assumes "Ingest p vendor body sig st = (r, st1)" and "rs_Accepted r" and "hook_run p st1 rs st2"
    and "ingest_parse (wp_verifier p) vendor2 body2 sig2 = Inr rec" and "rc_EventID rec = rs_EventID r"
  shows "Ingest p vendor2 body2 sig2 st2 =
    (\<lparr>rs_Accepted = False, rs_Duplicate = True, rs_Reason = '''', rs_EventID = rs_EventID r\<rparr>, st2)"
  using ingest_seen_mono [OF assms(1)] assms(2,5) hook_run_seen [OF assms(3)] ingest_seen [OF assms(4), of st2] by auto


section \<open>What an accepted delivery does\<close>

definition accepted_result :: "Reclassification \<Rightarrow> Result" where
  "accepted_result rec =
     \<lparr>rs_Accepted = True, rs_Duplicate = False, rs_Reason = '''', rs_EventID = rc_EventID rec\<rparr>"

text \<open>The alert for a re-classification, which names no screen.\<close>

definition hook_alert :: "string \<Rightarrow> Reclassification \<Rightarrow> gotime \<Rightarrow> Alert" where
  "hook_alert i rec now = new_alert i '''' (rc_TxID rec) (rc_Address rec) (rc_Chain rec) (rc_Exposure rec)
     (alertSeverity (rc_Exposure rec)) now"

locale hook_path = keyed_cache cops held key entry ttl + alert_store aops ok table
  for cops :: "'c CacheOps" and held :: "'c \<Rightarrow> Verdict set" and key :: "string \<Rightarrow> string \<Rightarrow> 'k"
    and entry :: "'c \<Rightarrow> 'k \<rightharpoonup> Verdict \<times> gotime" and ttl :: "'c \<Rightarrow> Verdict \<Rightarrow> duration"
    and aops :: "'a AlertStore" and ok :: "'a \<Rightarrow> bool" and table :: "'a \<Rightarrow> string \<rightharpoonup> Alert" +
  assumes delete_total: "fst (c_Delete cops w s a c) = None"
begin

definition hook_ok :: "('c, 'a) hook_state \<Rightarrow> bool" where
  "hook_ok st \<longleftrightarrow> ok (hk_alerts st) \<and> fresh_ids (hk_world st) \<and> dom (table (hk_alerts st)) \<subseteq> used_ids (hk_world st)"

lemma accept:
  assumes "hook_ok st" and "ingest_parse (wp_verifier p) vendor body sig = Inr rec"
    and "rc_EventID rec \<notin> hk_seen st" and "wp_cache p = Some (c_Delete cops)" and "wp_alerts p = Some aops"
  shows "\<exists>st' i now. Ingest p vendor body sig st = (accepted_result rec, st') \<and> hook_ok st'
    \<and> entry (hk_cache st') = (entry (hk_cache st))(key (rc_Address rec) (rc_Chain rec) := None)
    \<and> table (hk_alerts st) i = None \<and> table (hk_alerts st') = (table (hk_alerts st))(i \<mapsto> hook_alert i rec now)
    \<and> hk_seen st' = insert (rc_EventID rec) (hk_seen st)
    \<and> hk_pending st' = hk_pending st @ (if wp_reviewer p = None then [] else [rec])
    \<and> held (hk_cache st') \<subseteq> held (hk_cache st) \<and> world_le (hk_world st) (hk_world st')"
proof -
  define st1 where "st1 = st\<lparr>hk_seen := insert (rc_EventID rec) (hk_seen st)\<rparr>"
  obtain w1 c1 where d: "c_Delete cops (hk_world st) (hk_cache st) (rc_Address rec) (rc_Chain rec) = (None, w1, c1)"
    using delete_total [of "hk_world st" "hk_cache st" "rc_Address rec" "rc_Chain rec"] by (metis prod.collapse)
  then have c: "ingest_cache p rec st1 = (None, st1\<lparr>hk_world := w1, hk_cache := c1\<rparr>)"
    using assms(4) by (simp add: ingest_cache_def st1_def)
  have le: "world_le (hk_world st) w1" using delete_world [OF d] .
  define i where "i = uuids w1 (drawn w1)"
  define w2 where "w2 = w1\<lparr>drawn := Suc (drawn w1), ticks := Suc (ticks w1)\<rparr>"
  have fresh: "fresh_ids w1" "dom (table (hk_alerts st)) \<subseteq> used_ids w1"
    using assms(1) world_le_fresh [OF le] used_ids_mono [OF le] by (auto simp: hook_ok_def)
  have new: "table (hk_alerts st) i = None" "i \<noteq> ''''"
    using fresh fresh_not_used [OF fresh(1), of 0] fresh_nonempty [OF fresh(1)] by (auto simp: i_def)
  obtain a1 where a1: "AlertService_Create aops w1 (hk_alerts st) '''' (rc_TxID rec) (rc_Address rec) (rc_Chain rec)
      (rc_Exposure rec) (alertSeverity (rc_Exposure rec)) = (Inr (hook_alert i rec (clk w1 (ticks w1))), w2, a1)"
    "ok a1" "table a1 = (table (hk_alerts st))(i \<mapsto> hook_alert i rec (clk w1 (ticks w1)))"
    using service_create [of "hk_alerts st" w1 "''''" "rc_TxID rec" "rc_Address rec" "rc_Chain rec" "rc_Exposure rec"
        "alertSeverity (rc_Exposure rec)"] assms(1) new by (auto simp: hook_ok_def hook_alert_def i_def w2_def)
  define st3 where "st3 = st1\<lparr>hk_world := w2, hk_cache := c1, hk_alerts := a1\<rparr>"
  have "ingest_alert p rec (st1\<lparr>hk_world := w1, hk_cache := c1\<rparr>) = (None, st3)"
    using assms(5) a1(1) by (simp add: ingest_alert_def st1_def st3_def)
  from ingest_apply_new [OF assms(3) c [unfolded st1_def] this [unfolded st1_def]]
  have r: "Ingest p vendor body sig st = (accepted_result rec,
      if wp_reviewer p = None then st3 else st3\<lparr>hk_pending := hk_pending st3 @ [rec]\<rparr>)"
    using assms(2) by (simp add: Ingest_def accepted_result_def)
  have "hook_ok st3" "entry (hk_cache st3) = (entry (hk_cache st))(key (rc_Address rec) (rc_Chain rec) := None)"
    using a1(2,3) fresh used_ids_mono [of w1 w2] delete_entry [OF d]
    by (auto simp: hook_ok_def st3_def w2_def i_def used_ids_def fresh_ids_def)
  moreover have "held (hk_cache st3) \<subseteq> held (hk_cache st)" "world_le (hk_world st) (hk_world st3)"
    using delete_held [OF d] world_le_trans [OF le world_le_drawn] by (simp_all add: st3_def w2_def)
  ultimately show ?thesis
    using r new(1) a1(3)
    by (intro exI [of _ "if wp_reviewer p = None then st3 else st3\<lparr>hk_pending := hk_pending st3 @ [rec]\<rparr>"]
        exI [of _ i] exI [of _ "clk w1 (ticks w1)"]) (simp add: st3_def st1_def hook_ok_def)
qed

end

interpretation mhp: hook_path memory_cache mc_held cacheKey mc_entry mc_ttl memory_alert_store mem_ok ms_mem
  by unfold_locales (simp add: MemoryCache_Delete_def)

section \<open>The processor over the in-memory stores\<close>

definition memory_processor ::
    "(MemoryScreenStore \<Rightarrow> MemoryScreenStore) \<Rightarrow> secrets \<Rightarrow> (MemoryCache, MemoryScreenStore, MemoryStore) Processor" where
  "memory_processor ord secrets =
     WithReviewer (NewProcessor secrets (Some MemoryCache_Delete) (Some memory_alert_store))
       (Some (TriggerReview (memory_trigger ord)))"

lemma memory_processor_simps [simp]:
  "wp_verifier (memory_processor ord secrets) = secrets"
  "wp_cache (memory_processor ord secrets) = Some MemoryCache_Delete"
  "wp_alerts (memory_processor ord secrets) = Some memory_alert_store"
  "wp_reviewer (memory_processor ord secrets) = Some (TriggerReview (memory_trigger ord))"
  by (simp_all add: memory_processor_def WithReviewer_def NewProcessor_def)

lemma memory_accept:
  assumes "mhp.hook_ok st" and "ingest_parse secrets vendor body sig = Inr rec" and "rc_EventID rec \<notin> hk_seen st"
  shows "\<exists>st' i now. Ingest (memory_processor ord secrets) vendor body sig st = (accepted_result rec, st') \<and> mhp.hook_ok st'
    \<and> mc_entry (hk_cache st') = (mc_entry (hk_cache st))(cacheKey (rc_Address rec) (rc_Chain rec) := None)
    \<and> ms_mem (hk_alerts st) i = None \<and> ms_mem (hk_alerts st') = (ms_mem (hk_alerts st))(i \<mapsto> hook_alert i rec now)
    \<and> hk_seen st' = insert (rc_EventID rec) (hk_seen st) \<and> hk_pending st' = hk_pending st @ [rec]
    \<and> mc_held (hk_cache st') \<subseteq> mc_held (hk_cache st) \<and> world_le (hk_world st) (hk_world st')"
  using mhp.accept [OF assms(1), of "memory_processor ord secrets"] assms(2,3) by simp


definition memory_hook_ok :: "(MemoryCache, MemoryStore) hook_state \<Rightarrow> bool" where
  "memory_hook_ok st \<longleftrightarrow> mem_ok (hk_alerts st) \<and> fresh_ids (hk_world st)
     \<and> dom (ms_mem (hk_alerts st)) \<subseteq> used_ids (hk_world st)"

lemma memory_hook_ok_eq: "mhp.hook_ok = memory_hook_ok"
  by (intro ext) (simp add: mhp.hook_ok_def memory_hook_ok_def)

text \<open>
  A signed, complete and new delivery is accepted.  It clears the cache entry of its address, so
  the next screen asks the vendor again, adds exactly one open alert of the severity of the new
  exposure under an unused id, marks its event id and leaves its review pending.
\<close>

theorem webhook_accepted_effect:
  assumes "memory_hook_ok st" and "ingest_parse secrets vendor body sig = Inr rec" and "rc_EventID rec \<notin> hk_seen st"
  shows "\<exists>st' i now. Ingest (memory_processor ord secrets) vendor body sig st = (accepted_result rec, st')
    \<and> memory_hook_ok st'
    \<and> (\<forall>w. MemoryCache_Get w (hk_cache st') (rc_Address rec) (rc_Chain rec) = (Inr None, w, hk_cache st'))
    \<and> ms_mem (hk_alerts st) i = None \<and> ms_mem (hk_alerts st') = (ms_mem (hk_alerts st))(i \<mapsto> hook_alert i rec now)
    \<and> hk_seen st' = insert (rc_EventID rec) (hk_seen st) \<and> hk_pending st' = hk_pending st @ [rec]"
proof -
  obtain st' i now where r: "Ingest (memory_processor ord secrets) vendor body sig st = (accepted_result rec, st')"
    "memory_hook_ok st'" "mc_entry (hk_cache st') = (mc_entry (hk_cache st))(cacheKey (rc_Address rec) (rc_Chain rec) := None)"
    "ms_mem (hk_alerts st) i = None" "ms_mem (hk_alerts st') = (ms_mem (hk_alerts st))(i \<mapsto> hook_alert i rec now)"
    "hk_seen st' = insert (rc_EventID rec) (hk_seen st)" "hk_pending st' = hk_pending st @ [rec]"
    using memory_accept [OF assms(1) [folded memory_hook_ok_eq] assms(2,3), of ord] by (auto simp: memory_hook_ok_eq)
  have "map_of (mc_mem (hk_cache st')) (cacheKey (rc_Address rec) (rc_Chain rec)) = None"
    using fun_cong [OF r(3), of "cacheKey (rc_Address rec) (rc_Chain rec)"] by (simp add: mc_entry_def)
  then show ?thesis using r by (auto simp: MemoryCache_Get_def)
qed

text \<open>A review over the in-memory stores: every allowed screen gets an alert, the others stay as they are.\<close>

lemma memory_triggerReview:
  assumes "mss_ok ord s" and "mem_ok a" and "fresh_ids w" and "dom (ms_mem a) \<subseteq> used_ids w"
  shows "\<exists>w' a'. triggerReview (memory_processor ord secrets) rec s (w, a) = (w', a')
    \<and> mem_ok a' \<and> dom (ms_mem a') \<subseteq> used_ids w' \<and> ms_mem a \<subseteq>\<^sub>m ms_mem a' \<and> world_le w w'
    \<and> (\<forall>i b. ms_mem a' i = Some b \<longrightarrow> ms_mem a i = Some b \<or>
        (\<exists>sid tx ad ch now. b = new_alert i sid tx ad ch (rc_Exposure rec) (SeverityFor (rc_Exposure rec)) now))
    \<and> (\<forall>r. map_of s (sr_ScreenID r) = Some r \<and> sr_Address r = rc_Address rec \<and> sr_Chain r = rc_Chain rec
        \<and> sr_Decision r = DecisionAllow \<longrightarrow>
        (\<exists>i b. ms_mem a' i = Some b \<and> ms_mem a i = None \<and> al_ScreenID b = sr_ScreenID r
           \<and> al_Exposure b = rc_Exposure rec \<and> al_Status b = StatusOpen))"
proof -
  obtain rs w' a' where r: "TriggerReview (memory_trigger ord) w s a (rc_Address rec) (rc_Chain rec) (rc_Exposure rec)
      (rc_TxID rec) = (None, w', a')"
    "set rs = {r. map_of s (sr_ScreenID r) = Some r \<and> sr_Address r = rc_Address rec \<and> sr_Chain r = rc_Chain rec}"
    "mem_ok a'" "ms_mem a' = ms_mem a ++ map_of (review_alerts w (rc_Exposure rec) (allowed rs))"
    "dom (ms_mem a') \<subseteq> used_ids w'" "world_le w w'"
    using memory_review [OF assms, of "rc_Address rec" "rc_Chain rec" "rc_Exposure rec" "rc_TxID rec"] by blast
  define news where "news = review_alerts w (rc_Exposure rec) (allowed rs)"
  have dist: "distinct (map fst news)" using review_alerts_distinct [OF assms(3)] by (simp add: news_def)
  have apart: "fst ` set news \<inter> dom (ms_mem a) = {}"
    using review_alerts_unused [OF assms(3), of "rc_Exposure rec" "allowed rs"] assms(4) by (auto simp: news_def)
  have keep: "ms_mem a \<subseteq>\<^sub>m ms_mem a'"
  proof -
    have "ms_mem a' i = Some b" if i: "ms_mem a i = Some b" for i b
    proof -
      have "i \<notin> fst ` set news" using apart i by blast
      then have "map_of news i = None" by (simp add: map_of_eq_None_iff)
      then show ?thesis using i r(4) by (simp add: news_def map_add_Some_iff)
    qed
    then show ?thesis by (auto simp: map_le_def)
  qed
  have new: "\<exists>i b. ms_mem a' i = Some b \<and> ms_mem a i = None \<and> al_ScreenID b = sr_ScreenID x
      \<and> al_Exposure b = rc_Exposure rec \<and> al_Status b = StatusOpen"
    if x: "x \<in> set rs" "sr_Decision x = DecisionAllow" for x
  proof -
    have "x \<in> set (allowed rs)" using x by (simp add: allowed_def)
    then obtain i b where ib: "(i, b) \<in> set news" "al_ScreenID b = sr_ScreenID x"
      using review_alerts_cover [of x "allowed rs" w "rc_Exposure rec"] by (auto simp: news_def)
    then have "al_Exposure b = rc_Exposure rec" "al_Status b = StatusOpen"
      using review_alerts_for [of i b w "rc_Exposure rec" "allowed rs"] by (auto simp: news_def new_alert_def)
    moreover have "ms_mem a' i = Some b" using ib(1) dist r(4) by (simp add: news_def map_add_Some_iff)
    moreover have "ms_mem a i = None" using apart ib(1) by force
    ultimately show ?thesis using ib(2) by blast
  qed
  have made: "ms_mem a i = Some b \<or>
      (\<exists>sid tx ad ch now. b = new_alert i sid tx ad ch (rc_Exposure rec) (SeverityFor (rc_Exposure rec)) now)"
    if "ms_mem a' i = Some b" for i b
  proof -
    have "map_of news i = Some b \<or> ms_mem a i = Some b"
      using that r(4) by (auto simp: news_def map_add_Some_iff)
    then show ?thesis using review_alerts_for [of i b w "rc_Exposure rec" "allowed rs"]
      by (auto simp: news_def dest: map_of_SomeD)
  qed
  have "triggerReview (memory_processor ord secrets) rec s (w, a) = (w', a')" using r(1) by (simp add: triggerReview_def)
  moreover have "\<forall>r. map_of s (sr_ScreenID r) = Some r \<and> sr_Address r = rc_Address rec \<and> sr_Chain r = rc_Chain rec
        \<and> sr_Decision r = DecisionAllow \<longrightarrow>
        (\<exists>i b. ms_mem a' i = Some b \<and> ms_mem a i = None \<and> al_ScreenID b = sr_ScreenID r
           \<and> al_Exposure b = rc_Exposure rec \<and> al_Status b = StatusOpen)"
    using new unfolding r(2) by simp
  ultimately show ?thesis using r(3,5,6) keep made by blast
qed

text \<open>
  C36: From webhook to alerts: when the review of an accepted delivery runs, every settled screen of the
  address that had been allowed gets an open alert of its own with the new exposure, and no alert
  that was there before the delivery is lost or changed.
\<close>

theorem webhook_review_covers_allowed:
  assumes "memory_hook_ok st" and "ingest_parse secrets vendor body sig = Inr rec"
    and "rc_EventID rec \<notin> hk_seen st" and "mss_ok ord s"
  shows "\<exists>st1 w2 a2. Ingest (memory_processor ord secrets) vendor body sig st = (accepted_result rec, st1)
    \<and> triggerReview (memory_processor ord secrets) rec s (hk_world st1, hk_alerts st1) = (w2, a2)
    \<and> ms_mem (hk_alerts st) \<subseteq>\<^sub>m ms_mem a2
    \<and> (\<forall>r. map_of s (sr_ScreenID r) = Some r \<and> sr_Address r = rc_Address rec \<and> sr_Chain r = rc_Chain rec
        \<and> sr_Decision r = DecisionAllow \<longrightarrow>
        (\<exists>i b. ms_mem a2 i = Some b \<and> ms_mem (hk_alerts st) i = None \<and> al_ScreenID b = sr_ScreenID r
           \<and> al_Exposure b = rc_Exposure rec \<and> al_Status b = StatusOpen))"
proof -
  obtain st1 i now where r: "Ingest (memory_processor ord secrets) vendor body sig st = (accepted_result rec, st1)"
    "memory_hook_ok st1" "ms_mem (hk_alerts st) i = None"
    "ms_mem (hk_alerts st1) = (ms_mem (hk_alerts st))(i \<mapsto> hook_alert i rec now)"
    using memory_accept [OF assms(1) [folded memory_hook_ok_eq] assms(2,3), of ord] by (auto simp: memory_hook_ok_eq)
  obtain w2 a2 where t: "triggerReview (memory_processor ord secrets) rec s (hk_world st1, hk_alerts st1) = (w2, a2)"
    "ms_mem (hk_alerts st1) \<subseteq>\<^sub>m ms_mem a2"
    "\<forall>r. map_of s (sr_ScreenID r) = Some r \<and> sr_Address r = rc_Address rec \<and> sr_Chain r = rc_Chain rec
        \<and> sr_Decision r = DecisionAllow \<longrightarrow>
        (\<exists>i b. ms_mem a2 i = Some b \<and> ms_mem (hk_alerts st1) i = None \<and> al_ScreenID b = sr_ScreenID r
           \<and> al_Exposure b = rc_Exposure rec \<and> al_Status b = StatusOpen)"
    using memory_triggerReview [OF assms(4), of "hk_alerts st1" "hk_world st1" secrets rec] r(2)
    by (auto simp: memory_hook_ok_def)
  have "ms_mem (hk_alerts st) \<subseteq>\<^sub>m ms_mem (hk_alerts st1)" using r(3,4) by (simp add: map_le_def) blast
  then have "ms_mem (hk_alerts st) \<subseteq>\<^sub>m ms_mem a2" using t(2) map_le_trans by blast
  moreover have "ms_mem (hk_alerts st) j = None" if "ms_mem (hk_alerts st1) j = None" for j
    using that r(4) by (auto split: if_splits)
  ultimately show ?thesis using r(1) t(1,3) by blast
qed

section \<open>When a delivery fails half-way\<close>

text \<open>
  C37: The event id is marked before the effects.  A delivery whose cache invalidation fails opens no
  alert and starts no review, and since its id is marked, every retry is a duplicate: the vendor's
  re-classification is lost.
\<close>

theorem webhook_failed_delivery_lost:
  assumes "ingest_parse (wp_verifier p) vendor body sig = Inr rec" and "rc_EventID rec \<notin> hk_seen st"
    and "wp_cache p = Some del"
    and "del (hk_world st) (hk_cache st) (rc_Address rec) (rc_Chain rec) = (Some err, w, c)"
  shows "\<exists>st1. Ingest p vendor body sig st = (rejected (''cache invalidate: '' @ error_text err), st1)
    \<and> hk_alerts st1 = hk_alerts st \<and> hk_pending st1 = hk_pending st
    \<and> (\<forall>rs st2. hook_run p st1 rs st2 \<longrightarrow> Ingest p vendor body sig st2 =
        (\<lparr>rs_Accepted = False, rs_Duplicate = True, rs_Reason = '''', rs_EventID = rc_EventID rec\<rparr>, st2))"
proof -
  define st1 where "st1 = st\<lparr>hk_seen := insert (rc_EventID rec) (hk_seen st), hk_world := w, hk_cache := c\<rparr>"
  have "ingest_cache p rec (st\<lparr>hk_seen := insert (rc_EventID rec) (hk_seen st)\<rparr>) = (Some err, st1)"
    using assms(3,4) by (simp add: ingest_cache_def st1_def)
  from ingest_apply_new [OF assms(2) this, of "fst (ingest_alert p rec st1)" "snd (ingest_alert p rec st1)"]
  have r: "Ingest p vendor body sig st = (rejected (''cache invalidate: '' @ error_text err), st1)"
    using assms(1) by (simp add: Ingest_def)
  have "rc_EventID rec \<in> hk_seen st2" if "hook_run p st1 rs st2" for rs st2
    using hook_run_seen [OF that] by (auto simp: st1_def)
  then show ?thesis using r ingest_seen [OF assms(1)]
    by (intro exI [of _ st1] conjI allI impI) (auto simp: st1_def)
qed

section \<open>Bodies\<close>

text \<open>
  A body of at most \<open>maxBytes\<close> bytes is returned whole unless reading it fails, a longer one is
  refused even if the rest of it could not be read, and never more than the limit and one byte are held.
\<close>

theorem webhook_body_bounds:
  assumes "0 \<le> maxBytes" and "maxBytes < maxInt64"
  shows "ReadBody (content, err) maxBytes =
    (if int (length content) > maxBytes then Inl ErrBodyTooLarge
     else case err of None \<Rightarrow> Inr content | Some e \<Rightarrow> Inl e)"
proof -
  have "wrap64 (maxBytes + 1) = maxBytes + 1" using assms by (intro wrap64_id) simp_all
  then show ?thesis using assms(1) by (cases err) (auto simp: ReadBody_def Let_def)
qed


section \<open>A concrete delivery\<close>

definition demo_secrets :: secrets where
  "demo_secrets = [''chainalysis'' \<mapsto> ''k1'', ''trm'' \<mapsto> ''k2'']"

definition demo_hook_body :: string where
  "demo_hook_body = marshal_obj [(''event_id'', VStr ''ev1''), (''address'', VStr ''0xbad''),
     (''chain'', VStr ''ethereum''), (''exposure'', VStr ''SANCTIONED'')]"

definition demo_rec :: Reclassification where
  "demo_rec = \<lparr>rc_EventID = ''ev1'', rc_Address = ''0xbad'', rc_Chain = ''ethereum'',
     rc_Exposure = ''SANCTIONED'', rc_TxID = ''''\<rparr>"

definition demo_sig :: "string \<Rightarrow> string" where
  "demo_sig key = EncodeToString (hmac_sha256 key demo_hook_body)"

definition demo_hook :: "(MemoryCache, MemoryStore) hook_state" where
  "demo_hook = \<lparr>hk_world = demo_screen_world, hk_cache = NewMemoryCache 1000 5000, hk_alerts = NewMemoryStore,
     hk_seen = {}, hk_pending = []\<rparr>"

abbreviation demo_processor :: "(MemoryCache, MemoryScreenStore, MemoryStore) Processor" where
  "demo_processor \<equiv> memory_processor (\<lambda>m. m) demo_secrets"

lemma demo_hook_decoded: "unmarshal_rec demo_hook_body = Inr demo_rec"
proof -
  have "list_all ascii_field [(''event_id'', VStr ''ev1''), (''address'', VStr ''0xbad''),
     (''chain'', VStr ''ethereum''), (''exposure'', VStr ''SANCTIONED'')]" by (simp add: is_ascii_def)
  then show ?thesis
    by (simp add: unmarshal_rec_def unmarshal_def demo_hook_body_def parse_marshal_obj find_field_def rec_fields_def
        rec_setter_def set_str_def zero_Reclassification_def demo_rec_def)
qed

lemma demo_hook_parsed:
  "ingest_parse demo_secrets ''chainalysis'' demo_hook_body (demo_sig ''k1'') = Inr demo_rec"
  "ingest_parse demo_secrets ''trm'' demo_hook_body (demo_sig ''k2'') = Inr demo_rec"
proof -
  have "signed_by demo_secrets ''chainalysis'' demo_hook_body (demo_sig ''k1'')"
    "signed_by demo_secrets ''trm'' demo_hook_body (demo_sig ''k2'')"
    by (simp_all add: signed_by_def demo_secrets_def demo_sig_def)
  then show "ingest_parse demo_secrets ''chainalysis'' demo_hook_body (demo_sig ''k1'') = Inr demo_rec"
    "ingest_parse demo_secrets ''trm'' demo_hook_body (demo_sig ''k2'') = Inr demo_rec"
    using demo_hook_decoded by (simp_all add: ingest_parse_signed demo_rec_def)
qed

lemma demo_hook_ok: "memory_hook_ok demo_hook"
  by (simp add: memory_hook_ok_def demo_hook_def demo_screen_world_fresh mem_ok_def NewMemoryStore_def)

lemma demo_hook_new: "rc_EventID demo_rec \<notin> hk_seen demo_hook"
  by (simp add: demo_hook_def)

theorem webhook_accepted_effect_witness:
  "\<exists>st' i now. Ingest demo_processor ''chainalysis'' demo_hook_body (demo_sig ''k1'') demo_hook = (accepted_result demo_rec, st')
    \<and> ms_mem (hk_alerts st') = [i \<mapsto> hook_alert i demo_rec now] \<and> hk_pending st' = [demo_rec]"
  using webhook_accepted_effect [OF demo_hook_ok demo_hook_parsed(1) demo_hook_new, of "\<lambda>m. m"]
  by (auto simp: demo_hook_def NewMemoryStore_def)

theorem webhook_review_covers_allowed_witness:
  "\<exists>st1 w2 a2 i b. Ingest demo_processor ''chainalysis'' demo_hook_body (demo_sig ''k1'') demo_hook
      = (accepted_result demo_rec, st1)
    \<and> triggerReview demo_processor demo_rec [(''s1'', demo_row)] (hk_world st1, hk_alerts st1) = (w2, a2)
    \<and> ms_mem a2 i = Some b \<and> al_ScreenID b = ''s1'' \<and> al_Exposure b = ''SANCTIONED''"
proof -
  obtain st1 w2 a2 where r: "Ingest demo_processor ''chainalysis'' demo_hook_body (demo_sig ''k1'') demo_hook
      = (accepted_result demo_rec, st1)"
    "triggerReview demo_processor demo_rec [(''s1'', demo_row)] (hk_world st1, hk_alerts st1) = (w2, a2)"
    "\<forall>r. map_of [(''s1'', demo_row)] (sr_ScreenID r) = Some r \<and> sr_Address r = rc_Address demo_rec
        \<and> sr_Chain r = rc_Chain demo_rec \<and> sr_Decision r = DecisionAllow \<longrightarrow>
        (\<exists>i b. ms_mem a2 i = Some b \<and> ms_mem (hk_alerts demo_hook) i = None \<and> al_ScreenID b = sr_ScreenID r
           \<and> al_Exposure b = rc_Exposure demo_rec \<and> al_Status b = StatusOpen)"
    using webhook_review_covers_allowed [OF demo_hook_ok demo_hook_parsed(1) demo_hook_new demo_row_ok] by blast
  have "\<exists>i b. ms_mem a2 i = Some b \<and> al_ScreenID b = ''s1'' \<and> al_Exposure b = ''SANCTIONED''"
    using r(3) [rule_format, of demo_row] by (auto simp: demo_row_def demo_rec_def)
  then show ?thesis using r(1,2) by blast
qed

lemma demo_accepted:
  obtains st1 where "Ingest demo_processor ''chainalysis'' demo_hook_body (demo_sig ''k1'') demo_hook
      = (accepted_result demo_rec, st1)"
  using memory_accept [OF demo_hook_ok [folded memory_hook_ok_eq] demo_hook_parsed(1) demo_hook_new, of "\<lambda>m. m"] by auto

theorem webhook_redelivery_witness:
  "\<exists>st1. Ingest demo_processor ''trm'' demo_hook_body (demo_sig ''k2'') st1
    = (\<lparr>rs_Accepted = False, rs_Duplicate = True, rs_Reason = '''', rs_EventID = ''ev1''\<rparr>, st1)"
proof -
  obtain st1 where s: "Ingest demo_processor ''chainalysis'' demo_hook_body (demo_sig ''k1'') demo_hook
      = (accepted_result demo_rec, st1)" by (rule demo_accepted)
  have "rs_Accepted (accepted_result demo_rec)" "rs_EventID (accepted_result demo_rec) = ''ev1''"
    "rc_EventID demo_rec = rs_EventID (accepted_result demo_rec)"
    by (simp_all add: accepted_result_def demo_rec_def)
  then show ?thesis
    using webhook_redelivery [OF s _ hook_run.start, of "''trm''" demo_hook_body "demo_sig ''k2''" demo_rec] demo_hook_parsed(2)
    by auto
qed

theorem webhook_accepts_once_witness:
  "\<exists>rs st2. hook_run demo_processor demo_hook (accepted_result demo_rec # rs) st2
    \<and> distinct (accepted_ids (accepted_result demo_rec # rs)) \<and> length rs = 1"
proof -
  let ?in = "Ingest demo_processor ''chainalysis'' demo_hook_body (demo_sig ''k1'')"
  obtain st1 where s: "?in demo_hook = (accepted_result demo_rec, st1)" by (rule demo_accepted)
  obtain r st2 where s2: "?in st1 = (r, st2)" by fastforce
  have "hook_run demo_processor demo_hook [accepted_result demo_rec, r] st2"
    using hook_run.step [OF hook_run.step [OF hook_run.start hook_step.deliver [OF s]] hook_step.deliver [OF s2]] by simp
  then show ?thesis using webhook_accepts_once [of demo_processor demo_hook "[accepted_result demo_rec, r]" st2]
    by (intro exI [of _ "[r]"] exI [of _ st2]) simp
qed

text \<open>A cache that cannot be reached.\<close>

definition down_cache :: "unit CacheInvalidator" where
  "down_cache w c address chain = (Some (ErrText ''connection refused''), w, c)"

theorem webhook_failed_delivery_lost_witness:
  "let p = NewProcessor demo_secrets (Some down_cache) (Some memory_alert_store) :: (unit, unit, MemoryStore) Processor;
       st = \<lparr>hk_world = demo_screen_world, hk_cache = (), hk_alerts = NewMemoryStore, hk_seen = {}, hk_pending = []\<rparr>
   in \<exists>st1. Ingest p ''chainalysis'' demo_hook_body (demo_sig ''k1'') st
        = (rejected ''cache invalidate: connection refused'', st1)
      \<and> Ingest p ''chainalysis'' demo_hook_body (demo_sig ''k1'') st1
        = (\<lparr>rs_Accepted = False, rs_Duplicate = True, rs_Reason = '''', rs_EventID = ''ev1''\<rparr>, st1)"
proof -
  define p :: "(unit, unit, MemoryStore) Processor" where
    "p = NewProcessor demo_secrets (Some down_cache) (Some memory_alert_store)"
  define st where
    "st = \<lparr>hk_world = demo_screen_world, hk_cache = (), hk_alerts = NewMemoryStore, hk_seen = {}, hk_pending = []\<rparr>"
  have parsed: "ingest_parse (wp_verifier p) ''chainalysis'' demo_hook_body (demo_sig ''k1'') = Inr demo_rec"
    using demo_hook_parsed(1) by (simp add: p_def NewProcessor_def)
  have seen: "rc_EventID demo_rec \<notin> hk_seen st" by (simp add: st_def)
  have cache: "wp_cache p = Some down_cache" by (simp add: p_def NewProcessor_def)
  have down: "down_cache (hk_world st) (hk_cache st) (rc_Address demo_rec) (rc_Chain demo_rec)
      = (Some (ErrText ''connection refused''), hk_world st, hk_cache st)" by (simp add: down_cache_def)
  obtain st1 where s1: "Ingest p ''chainalysis'' demo_hook_body (demo_sig ''k1'') st
      = (rejected (''cache invalidate: '' @ error_text (ErrText ''connection refused'')), st1)"
    "\<And>rs st2. hook_run p st1 rs st2 \<Longrightarrow> Ingest p ''chainalysis'' demo_hook_body (demo_sig ''k1'') st2 =
        (\<lparr>rs_Accepted = False, rs_Duplicate = True, rs_Reason = '''', rs_EventID = rc_EventID demo_rec\<rparr>, st2)"
    using webhook_failed_delivery_lost [OF parsed seen cache down] by blast
  show ?thesis
    using s1(1) s1(2) [OF hook_run.start] unfolding Let_def p_def [symmetric] st_def [symmetric]
    by (simp add: demo_rec_def)
qed

theorem webhook_body_bounds_witness:
  "ReadBody (''abc'', Some (ErrText ''reset'')) 2 = Inl ErrBodyTooLarge \<and> ReadBody (''abc'', None) 3 = Inr ''abc''"
  using webhook_body_bounds [of 2 "''abc''" "Some (ErrText ''reset'')"] webhook_body_bounds [of 3 "''abc''" None] by simp

end
