(* ===== verification/Api.thy ===== *)
theory Api
  imports Webhook
begin

text \<open>
  \<open>internal/api/api.go\<close>: the REST surface.  A request is its method, path, query, headers and body;
  a response is its status, its \<open>X-Request-Id\<close> and the value that is written as JSON.  The routes are
  those of \<open>NewMux\<close>, and every handler runs the component it fronts on the state of the service.
  Spans and the five second timeout of a screen are left out, and so is the rendering of a response
  value by \<open>encoding/json\<close>; request bodies are parsed.
\<close>

section \<open>Errors\<close>

abbreviation StatusOK :: int where "StatusOK \<equiv> 200"
abbreviation StatusBadRequest :: int where "StatusBadRequest \<equiv> 400"
abbreviation StatusUnauthorized :: int where "StatusUnauthorized \<equiv> 401"
abbreviation StatusNotFound :: int where "StatusNotFound \<equiv> 404"
abbreviation StatusMethodNotAllowed :: int where "StatusMethodNotAllowed \<equiv> 405"
abbreviation StatusConflict :: int where "StatusConflict \<equiv> 409"
abbreviation StatusRequestEntityTooLarge :: int where "StatusRequestEntityTooLarge \<equiv> 413"
abbreviation StatusInternalServerError :: int where "StatusInternalServerError \<equiv> 500"

record AppError =
  ae_Code :: string
  ae_Message :: string
  ae_StatusCode :: int

definition newAppError :: "string \<Rightarrow> string \<Rightarrow> int \<Rightarrow> AppError" where
  "newAppError code msg status = \<lparr>ae_Code = code, ae_Message = msg, ae_StatusCode = status\<rparr>"

text \<open>An \<open>AppError\<close> as an error value, and \<open>errors.As\<close> for it.\<close>

definition app_error :: "AppError \<Rightarrow> go_error" where
  "app_error ae = AppErr (ae_Code ae) (ae_Message ae) (ae_StatusCode ae)"

fun as_AppError :: "go_error \<Rightarrow> AppError option" where
  "as_AppError (AppErr c m s) = Some (newAppError c m s)"
| "as_AppError (Wrap p e) = as_AppError e"
| "as_AppError e = None"

definition errBadJSON :: AppError where
  "errBadJSON = newAppError ''bad_json'' ''invalid JSON body'' StatusBadRequest"

definition errAlertMissing :: AppError where
  "errAlertMissing = newAppError ''alert_not_found'' ''alert not found'' StatusNotFound"

definition errAlertClosed :: AppError where
  "errAlertClosed = newAppError ''alert_closed'' ''alert already closed'' StatusConflict"

definition errSigMismatch :: AppError where
  "errSigMismatch = newAppError ''signature_mismatch'' ''webhook signature mismatch'' StatusUnauthorized"

definition toAppError :: "go_error \<Rightarrow> AppError" where
  "toAppError err =
     (case as_AppError err of
        Some ae \<Rightarrow> ae
      | None \<Rightarrow>
          if errors_Is err ErrNotFound then errAlertMissing
          else if errors_Is err ErrAlreadyClosed then errAlertClosed
          else if errors_Is err ErrSignatureMismatch then errSigMismatch
          else if errors_Is err ErrBodyTooLarge
            then newAppError ''body_too_large'' (error_text err) StatusRequestEntityTooLarge
          else newAppError ''internal_error'' ''internal server error'' StatusInternalServerError)"

section \<open>Requests and responses\<close>

record HttpReq =
  hr_Method :: string
  hr_Path :: "string list"
  hr_Query :: "string \<Rightarrow> string"
  hr_Header :: "string \<Rightarrow> string"
  hr_Body :: "string \<times> go_error option"

text \<open>The values the handlers pass to the JSON encoder, and the text of \<open>/metrics\<close>.\<close>

datatype Body =
    BHealth
  | BMetrics string
  | BScreen Response
  | BAlert Alert
  | BAlerts "Alert slice"
  | BWebhook bool string
  | BError string string string
  | BPlain

record HttpResp =
  hp_Status :: int
  hp_RequestID :: string
  hp_Body :: Body

definition writeJSON :: "string \<Rightarrow> int \<Rightarrow> Body \<Rightarrow> HttpResp" where
  "writeJSON rid status v = \<lparr>hp_Status = status, hp_RequestID = rid, hp_Body = v\<rparr>"

definition writeError :: "string \<Rightarrow> go_error \<Rightarrow> HttpResp" where
  "writeError rid err =
     (let ae = toAppError err in
      \<lparr>hp_Status = ae_StatusCode ae, hp_RequestID = rid, hp_Body = BError (ae_Code ae) (ae_Message ae) rid\<rparr>)"

definition decodeJSON :: "(string \<Rightarrow> go_error + 'a) \<Rightarrow> HttpReq \<Rightarrow> go_error + 'a" where
  "decodeJSON into r =
     (case snd (hr_Body r) of
        Some e \<Rightarrow> Inl (app_error errBadJSON)
      | None \<Rightarrow>
          if length (fst (hr_Body r)) = 0 then Inl (app_error errBadJSON)
          else (case into (fst (hr_Body r)) of
                  Inl e \<Rightarrow> Inl (app_error errBadJSON)
                | Inr x \<Rightarrow> Inr x))"

text \<open>The JSON forms of \<open>screen.Request\<close> and \<open>assignRequest\<close>.\<close>

definition zero_Request :: Request where
  "zero_Request = \<lparr>rq_TxID = '''', rq_Address = '''', rq_SourceAddress = '''', rq_Chain = '''', rq_Amount = ''''\<rparr>"

definition request_fields :: "string list" where
  "request_fields = [''tx_id'', ''address'', ''source_address'', ''chain'', ''amount'']"

definition request_setter :: "string \<Rightarrow> json \<Rightarrow> Request \<Rightarrow> Request option" where
  "request_setter f =
     (if f = ''tx_id'' then set_str (\<lambda>s. rq_TxID_update (\<lambda>_. s))
      else if f = ''address'' then set_str (\<lambda>s. rq_Address_update (\<lambda>_. s))
      else if f = ''source_address'' then set_str (\<lambda>s. rq_SourceAddress_update (\<lambda>_. s))
      else if f = ''chain'' then set_str (\<lambda>s. rq_Chain_update (\<lambda>_. s))
      else set_str (\<lambda>s. rq_Amount_update (\<lambda>_. s)))"

definition unmarshal_request :: "string \<Rightarrow> go_error + Request" where
  "unmarshal_request = unmarshal request_fields request_setter zero_Request"

text \<open>\<open>assignRequest\<close> has the one field \<open>Assignee\<close>.\<close>

type_synonym assignRequest = string

definition unmarshal_assign :: "string \<Rightarrow> go_error + assignRequest" where
  "unmarshal_assign = unmarshal [''assignee''] (\<lambda>f. set_str (\<lambda>s _. s)) ''''"

section \<open>The service\<close>

text \<open>The dependencies of the handlers; the fourth of them, the audit emitter, is part of the state.\<close>

record ('c, 'p, 's, 'a) Services =
  sv_Screen :: "('c, 'p, 's, 'a) Service"
  sv_Alerts :: "'a AlertStore"
  sv_Webhook :: "('c, 's, 'a) Processor"

text \<open>The state behind the handlers: that of the screen path, the webhook event ids and the reviews
  that have been started.  A webhook sees the part \<open>hook_of\<close> of it.\<close>

record ('c, 'p, 's, 'a) kyt_state =
  ks_core :: "('c, 'p, 's, 'a) screen_state"
  ks_seen :: "string set"
  ks_pending :: "Reclassification list"

definition hook_of :: "('c, 'p, 's, 'a) kyt_state \<Rightarrow> ('c, 'a) hook_state" where
  "hook_of st = \<lparr>hk_world = st_world (ks_core st), hk_cache = st_cache (ks_core st),
     hk_alerts = st_alerts (ks_core st), hk_seen = ks_seen st, hk_pending = ks_pending st\<rparr>"

definition with_hook :: "('c, 'p, 's, 'a) kyt_state \<Rightarrow> ('c, 'a) hook_state \<Rightarrow> ('c, 'p, 's, 'a) kyt_state" where
  "with_hook st h = st\<lparr>ks_core := (ks_core st)\<lparr>st_world := hk_world h, st_cache := hk_cache h, st_alerts := hk_alerts h\<rparr>,
     ks_seen := hk_seen h, ks_pending := hk_pending h\<rparr>"

definition with_alerts :: "('c, 'p, 's, 'a) kyt_state \<Rightarrow> world \<Rightarrow> 'a \<Rightarrow> ('c, 'p, 's, 'a) kyt_state" where
  "with_alerts st w a = st\<lparr>ks_core := (ks_core st)\<lparr>st_world := w, st_alerts := a\<rparr>\<rparr>"

section \<open>Handlers\<close>

definition healthz :: "string \<Rightarrow> HttpResp" where
  "healthz rid = writeJSON rid StatusOK BHealth"

definition screenHandler ::
    "('c, 'p, 's, 'a) Services \<Rightarrow> string \<Rightarrow> HttpReq \<Rightarrow> ('c, 'p, 's, 'a) kyt_state \<Rightarrow> HttpResp \<times> ('c, 'p, 's, 'a) kyt_state" where
  "screenHandler s rid r st =
     (case decodeJSON unmarshal_request r of
        Inl err \<Rightarrow> (writeError rid err, st)
      | Inr req \<Rightarrow>
          (case Service_Screen (sv_Screen s) (ks_core st) req of
             (Inl err, core) \<Rightarrow> (writeError rid err, st\<lparr>ks_core := core\<rparr>)
           | (Inr resp, core) \<Rightarrow> (writeJSON rid StatusOK (BScreen resp), st\<lparr>ks_core := core\<rparr>)))"

definition getAlertHandler ::
    "('c, 'p, 's, 'a) Services \<Rightarrow> string \<Rightarrow> string \<Rightarrow> ('c, 'p, 's, 'a) kyt_state \<Rightarrow> HttpResp \<times> ('c, 'p, 's, 'a) kyt_state" where
  "getAlertHandler s rid i st =
     (case AlertService_Get (sv_Alerts s) (st_alerts (ks_core st)) i of
        Inl err \<Rightarrow> (writeError rid err, st)
      | Inr a \<Rightarrow> (writeJSON rid StatusOK (BAlert a), st))"

definition listAlertsHandler ::
    "('c, 'p, 's, 'a) Services \<Rightarrow> string \<Rightarrow> HttpReq \<Rightarrow> ('c, 'p, 's, 'a) kyt_state \<Rightarrow> HttpResp \<times> ('c, 'p, 's, 'a) kyt_state" where
  "listAlertsHandler s rid r st =
     (case AlertService_List (sv_Alerts s) (st_alerts (ks_core st)) (hr_Query r ''status'') of
        Inl err \<Rightarrow> (writeError rid err, st)
      | Inr alerts \<Rightarrow> (writeJSON rid StatusOK (BAlerts alerts), st))"

definition assignAlertHandler ::
    "('c, 'p, 's, 'a) Services \<Rightarrow> string \<Rightarrow> string \<Rightarrow> HttpReq \<Rightarrow> ('c, 'p, 's, 'a) kyt_state \<Rightarrow> HttpResp \<times> ('c, 'p, 's, 'a) kyt_state" where
  "assignAlertHandler s rid i r st =
     (case decodeJSON unmarshal_assign r of
        Inl err \<Rightarrow> (writeError rid err, st)
      | Inr assignee \<Rightarrow>
          (case AlertService_Assign (sv_Alerts s) (st_alerts (ks_core st)) i assignee of
             (Inl err, a) \<Rightarrow> (writeError rid err, with_alerts st (st_world (ks_core st)) a)
           | (Inr b, a) \<Rightarrow> (writeJSON rid StatusOK (BAlert b), with_alerts st (st_world (ks_core st)) a)))"

definition closeAlertHandler ::
    "('c, 'p, 's, 'a) Services \<Rightarrow> string \<Rightarrow> string \<Rightarrow> HttpReq \<Rightarrow> ('c, 'p, 's, 'a) kyt_state \<Rightarrow> HttpResp \<times> ('c, 'p, 's, 'a) kyt_state" where
  "closeAlertHandler s rid i r st =
     (case decodeJSON unmarshal_assign r of
        Inl err \<Rightarrow> (writeError rid err, st)
      | Inr assignee \<Rightarrow>
          (case AlertService_Close (sv_Alerts s) (st_world (ks_core st)) (st_alerts (ks_core st)) i assignee of
             (Inl err, w, a) \<Rightarrow> (writeError rid err, with_alerts st w a)
           | (Inr b, w, a) \<Rightarrow> (writeJSON rid StatusOK (BAlert b), with_alerts st w a)))"

text \<open>The webhook handler counts each delivery it could read as accepted, duplicate or rejected.\<close>

definition count_webhook :: "Result \<Rightarrow> Metrics \<Rightarrow> Metrics" where
  "count_webhook res m =
     (if rs_Accepted res then m\<lparr>WebhookAcceptTotal := ctr_add (WebhookAcceptTotal m) 1\<rparr>
      else if rs_Duplicate res then m\<lparr>WebhookDuplicateTotal := ctr_add (WebhookDuplicateTotal m) 1\<rparr>
      else m\<lparr>WebhookRejectTotal := ctr_add (WebhookRejectTotal m) 1\<rparr>)"

definition webhook_response :: "string \<Rightarrow> Result \<Rightarrow> HttpResp" where
  "webhook_response rid res =
     (if rs_Accepted res then writeJSON rid StatusOK (BWebhook False (rs_EventID res))
      else if rs_Duplicate res then writeJSON rid StatusOK (BWebhook True (rs_EventID res))
      else if Contains (rs_Reason res) ''signature'' then writeError rid (app_error errSigMismatch)
      else writeError rid (app_error (newAppError ''bad_webhook'' (rs_Reason res) StatusBadRequest)))"

definition webhook_sig :: "HttpReq \<Rightarrow> string" where
  "webhook_sig r =
     (if hr_Header r ''X-Webhook-Signature'' = '''' then hr_Header r ''X-Signature'' else hr_Header r ''X-Webhook-Signature'')"

definition webhookHandler ::
    "('c, 'p, 's, 'a) Services \<Rightarrow> string \<Rightarrow> string \<Rightarrow> HttpReq \<Rightarrow> ('c, 'p, 's, 'a) kyt_state \<Rightarrow> HttpResp \<times> ('c, 'p, 's, 'a) kyt_state" where
  "webhookHandler s rid vendor r st =
     (case ReadBody (hr_Body r) 1048576 of
        Inl err \<Rightarrow> (writeError rid err, st)
      | Inr body \<Rightarrow>
          (case Ingest (sv_Webhook s) vendor body (webhook_sig r) (hook_of st) of
             (res, h) \<Rightarrow>
               (let st1 = with_hook st h in
                (webhook_response rid res,
                 st1\<lparr>ks_core := (ks_core st1)\<lparr>st_metrics := count_webhook res (st_metrics (ks_core st1))\<rparr>\<rparr>))))"


section \<open>Routes\<close>

text \<open>
  The patterns of \<open>NewMux\<close>.  A path is the list of its segments, cleaned and unescaped by
  \<open>net/http\<close>; a wildcard stands for one non-empty segment, \<open>GET\<close> patterns also serve \<open>HEAD\<close>, a path
  known under other methods only is answered \<open>405\<close> and an unknown one \<open>404\<close>.
\<close>

datatype Seg = Lit string | Wild

datatype Endpoint = EHealthz | EMetrics | EScreen | EGetAlert | EListAlerts | EAssign | EClose | EWebhook

type_synonym route = "string option \<times> Seg list \<times> Endpoint"

definition routes :: "route list" where
  "routes =
     [(None, [Lit ''healthz''], EHealthz),
      (None, [Lit ''metrics''], EMetrics),
      (Some ''POST'', [Lit ''v1'', Lit ''kyt'', Lit ''screen''], EScreen),
      (Some ''GET'', [Lit ''v1'', Lit ''kyt'', Lit ''alerts'', Wild], EGetAlert),
      (Some ''GET'', [Lit ''v1'', Lit ''kyt'', Lit ''alerts''], EListAlerts),
      (Some ''POST'', [Lit ''v1'', Lit ''kyt'', Lit ''alerts'', Wild, Lit ''assign''], EAssign),
      (Some ''POST'', [Lit ''v1'', Lit ''kyt'', Lit ''alerts'', Wild, Lit ''close''], EClose),
      (Some ''POST'', [Lit ''v1'', Lit ''webhooks'', Wild], EWebhook)]"

fun match_path :: "Seg list \<Rightarrow> string list \<Rightarrow> string list option" where
  "match_path [] [] = Some []"
| "match_path (Lit l # ps) (s # ss) = (if s = l then match_path ps ss else None)"
| "match_path (Wild # ps) (s # ss) = (if s = '''' then None else map_option (Cons s) (match_path ps ss))"
| "match_path _ _ = None"

definition match_method :: "string option \<Rightarrow> string \<Rightarrow> bool" where
  "match_method p m = (case p of None \<Rightarrow> True | Some q \<Rightarrow> m = q \<or> q = ''GET'' \<and> m = ''HEAD'')"

definition match_route :: "string \<Rightarrow> string list \<Rightarrow> route \<Rightarrow> (Endpoint \<times> string list) option" where
  "match_route m path r =
     (if match_method (fst r) m then map_option (Pair (snd (snd r))) (match_path (fst (snd r)) path) else None)"

definition find_route :: "string \<Rightarrow> string list \<Rightarrow> (Endpoint \<times> string list) option" where
  "find_route m path = (case List.map_filter (match_route m path) routes of [] \<Rightarrow> None | e # _ \<Rightarrow> Some e)"

definition path_known :: "string list \<Rightarrow> bool" where
  "path_known path \<longleftrightarrow> (\<exists>r \<in> set routes. match_path (fst (snd r)) path \<noteq> None)"

definition path_value :: "string list \<Rightarrow> string" where
  "path_value vals = (case vals of [] \<Rightarrow> '''' | v # _ \<Rightarrow> v)"

definition run_endpoint ::
    "('c, 'p, 's, 'a) Services \<Rightarrow> Endpoint \<Rightarrow> string list \<Rightarrow> string \<Rightarrow> HttpReq \<Rightarrow> ('c, 'p, 's, 'a) kyt_state
     \<Rightarrow> HttpResp \<times> ('c, 'p, 's, 'a) kyt_state" where
  "run_endpoint s e vals rid r st =
     (case e of
        EHealthz \<Rightarrow> (healthz rid, st)
      | EMetrics \<Rightarrow> (\<lparr>hp_Status = StatusOK, hp_RequestID = rid, hp_Body = BMetrics (render (st_metrics (ks_core st)))\<rparr>, st)
      | EScreen \<Rightarrow> screenHandler s rid r st
      | EGetAlert \<Rightarrow> getAlertHandler s rid (path_value vals) st
      | EListAlerts \<Rightarrow> listAlertsHandler s rid r st
      | EAssign \<Rightarrow> assignAlertHandler s rid (path_value vals) r st
      | EClose \<Rightarrow> closeAlertHandler s rid (path_value vals) r st
      | EWebhook \<Rightarrow> webhookHandler s rid (path_value vals) r st)"

definition NewMux ::
    "('c, 'p, 's, 'a) Services \<Rightarrow> string \<Rightarrow> HttpReq \<Rightarrow> ('c, 'p, 's, 'a) kyt_state \<Rightarrow> HttpResp \<times> ('c, 'p, 's, 'a) kyt_state" where
  "NewMux s rid r st =
     (case find_route (hr_Method r) (hr_Path r) of
        Some (e, vals) \<Rightarrow> run_endpoint s e vals rid r st
      | None \<Rightarrow>
          (\<lparr>hp_Status = (if path_known (hr_Path r) then StatusMethodNotAllowed else StatusNotFound),
            hp_RequestID = rid, hp_Body = BPlain\<rparr>, st))"

text \<open>\<open>requestIDMiddleware\<close>: the id of the request, or a new one, is in the response.\<close>

definition request_id :: "HttpReq \<Rightarrow> ('c, 'p, 's, 'a) kyt_state \<Rightarrow> string \<times> ('c, 'p, 's, 'a) kyt_state" where
  "request_id r st =
     (if hr_Header r ''X-Request-Id'' \<noteq> '''' then (hr_Header r ''X-Request-Id'', st)
      else (case newID (st_world (ks_core st)) of
              (i, w) \<Rightarrow> (i, st\<lparr>ks_core := (ks_core st)\<lparr>st_world := w\<rparr>\<rparr>)))"

definition serve_http ::
    "('c, 'p, 's, 'a) Services \<Rightarrow> HttpReq \<Rightarrow> ('c, 'p, 's, 'a) kyt_state \<Rightarrow> HttpResp \<times> ('c, 'p, 's, 'a) kyt_state" where
  "serve_http s r st = (case request_id r st of (rid, st1) \<Rightarrow> NewMux s rid r st1)"

section \<open>Routing\<close>

text \<open>Two patterns that match the same path have equal literals wherever both have one.\<close>

fun overlap :: "Seg list \<Rightarrow> Seg list \<Rightarrow> bool" where
  "overlap [] [] \<longleftrightarrow> True"
| "overlap (Lit a # ps) (Lit b # qs) \<longleftrightarrow> a = b \<and> overlap ps qs"
| "overlap (p # ps) (q # qs) \<longleftrightarrow> overlap ps qs"
| "overlap _ _ \<longleftrightarrow> False"

lemma match_overlap: "match_path ps path = Some x \<Longrightarrow> match_path qs path = Some y \<Longrightarrow> overlap ps qs"
proof (induction path arbitrary: ps qs x y)
  case Nil
  then show ?case by (cases ps; cases qs) (auto elim: match_path.elims)
next
  case (Cons s path)
  obtain p ps' q qs' where pq: "ps = p # ps'" "qs = q # qs'"
    using Cons.prems by (cases ps; cases qs) auto
  then have "overlap ps' qs'"
    using Cons.prems by (cases p; cases q) (auto split: if_splits intro: Cons.IH)
  then show ?case using Cons.prems pq by (cases p; cases q) (auto split: if_splits)
qed

lemma routes_apart_list:
  "list_all (\<lambda>r. list_all (\<lambda>q. overlap (fst (snd r)) (fst (snd q)) \<longrightarrow> r = q) routes) routes"
  by code_simp

lemma routes_apart:
  assumes "r \<in> set routes" and "q \<in> set routes" and "overlap (fst (snd r)) (fst (snd q))"
  shows "r = q"
proof -
  have "list_all (\<lambda>q. overlap (fst (snd r)) (fst (snd q)) \<longrightarrow> r = q) routes"
    using routes_apart_list assms(1) unfolding list_all_iff [of _ routes] by (rule bspec)
  then have "overlap (fst (snd r)) (fst (snd q)) \<longrightarrow> r = q"
    using assms(2) unfolding list_all_iff by (rule bspec)
  then show ?thesis using assms(3) by (rule mp)
qed

text \<open>No request matches two patterns, so the order of registration does not matter.\<close>

lemma routes_disjoint:
  assumes "r \<in> set routes" and "q \<in> set routes" and "match_route m path r = Some x" and "match_route m path q = Some y"
  shows "r = q"
proof -
  obtain u v where "match_path (fst (snd r)) path = Some u" "match_path (fst (snd q)) path = Some v"
    using assms(3,4) by (auto simp: match_route_def split: if_splits)
  then show ?thesis using match_overlap routes_apart assms(1,2) by blast
qed

lemma map_filter_first:
  "List.map_filter f xs = y # ys \<Longrightarrow> \<exists>x \<in> set xs. f x = Some y"
  by (induction xs) (auto simp: List.map_filter_simps split: option.splits)

lemma map_filter_none: "List.map_filter f xs = [] \<Longrightarrow> x \<in> set xs \<Longrightarrow> f x = None"
  by (induction xs) (auto simp: List.map_filter_simps split: option.splits)

lemma find_route_Some:
  "find_route m path = Some ev \<longleftrightarrow> (\<exists>r \<in> set routes. match_route m path r = Some ev)"
proof (cases "List.map_filter (match_route m path) routes")
  case Nil
  then have "find_route m path = None" by (simp add: find_route_def)
  moreover have "\<not> (\<exists>r \<in> set routes. match_route m path r = Some ev)"
  proof
    assume "\<exists>r \<in> set routes. match_route m path r = Some ev"
    then obtain r where "r \<in> set routes" "match_route m path r = Some ev" by (rule bexE)
    then show False using map_filter_none [OF Nil, of r] by simp
  qed
  ultimately show ?thesis by simp
next
  case (Cons x xs)
  obtain q where q: "q \<in> set routes" "match_route m path q = Some x"
    using map_filter_first [OF Cons] by (rule bexE)
  have found: "find_route m path = Some x" using Cons by (simp add: find_route_def)
  have only: "x = ev" if ex: "\<exists>r \<in> set routes. match_route m path r = Some ev"
  proof -
    obtain r where r: "r \<in> set routes" "match_route m path r = Some ev" using ex by (rule bexE)
    have "q = r" using routes_disjoint [OF q(1) r(1) q(2) r(2)] .
    then show ?thesis using q(2) r(2) by simp
  qed
  have ex: "\<exists>r \<in> set routes. match_route m path r = Some x" using q(2,1) by (rule bexI)
  show ?thesis unfolding found option.inject
  proof
    assume "x = ev"
    then show "\<exists>r \<in> set routes. match_route m path r = Some ev" using ex by (rule subst)
  qed (rule only)
qed

end
