(* ===== verification/Grpc.thy ===== *)
theory Grpc
  imports Api
begin

text \<open>
  \<open>internal/grpcserver/server.go\<close>: the gRPC surface, \<open>Screen\<close> and \<open>GetAlert\<close>, on the same services
  as the REST one.  The messages are those of \<open>proto/kyt.proto\<close>; the transport, the spans and
  \<open>Time.Format(time.RFC3339Nano)\<close>, a parameter \<open>fmt\<close> of the conversion of alerts, are left out.
\<close>

section \<open>Messages\<close>

record pb_ScreenRequest =
  pq_TxId :: string
  pq_Address :: string
  pq_SourceAddress :: string
  pq_Chain :: string
  pq_Amount :: string

record pb_ScreenResponse =
  ps_ScreenId :: string
  ps_RiskScore :: int
  ps_Exposure :: string
  ps_Decision :: string
  ps_Vendor :: string
  ps_CacheHit :: bool

record pb_Alert =
  pa_Id :: string
  pa_ScreenId :: string
  pa_TxId :: string
  pa_Address :: string
  pa_Chain :: string
  pa_Exposure :: string
  pa_Severity :: string
  pa_Status :: string
  pa_Assignee :: string
  pa_CreatedAt :: string
  pa_ClosedAt :: string

definition toScreenRequest :: "pb_ScreenRequest \<Rightarrow> Request" where
  "toScreenRequest p =
     \<lparr>rq_TxID = pq_TxId p, rq_Address = pq_Address p, rq_SourceAddress = pq_SourceAddress p,
      rq_Chain = pq_Chain p, rq_Amount = pq_Amount p\<rparr>"

text \<open>The score is converted to \<open>int32\<close>.\<close>

definition toProtoResponse :: "Response \<Rightarrow> pb_ScreenResponse" where
  "toProtoResponse r =
     \<lparr>ps_ScreenId = rp_ScreenID r, ps_RiskScore = wrap32 (rp_RiskScore r), ps_Exposure = rp_Exposure r,
      ps_Decision = rp_Decision r, ps_Vendor = rp_Vendor r, ps_CacheHit = rp_CacheHit r\<rparr>"

definition toProtoAlert :: "(gotime \<Rightarrow> string) \<Rightarrow> Alert \<Rightarrow> pb_Alert" where
  "toProtoAlert fmt a =
     \<lparr>pa_Id = al_ID a, pa_ScreenId = al_ScreenID a, pa_TxId = al_TxID a, pa_Address = al_Address a,
      pa_Chain = al_Chain a, pa_Exposure = al_Exposure a, pa_Severity = al_Severity a,
      pa_Status = al_Status a, pa_Assignee = al_Assignee a, pa_CreatedAt = fmt (al_CreatedAt a),
      pa_ClosedAt = (case al_ClosedAt a of None \<Rightarrow> '''' | Some t \<Rightarrow> fmt t)\<rparr>"

section \<open>Errors\<close>

datatype Code = InvalidArgument | Unauthenticated | NotFound | FailedPrecondition | ResourceExhausted | Internal

type_synonym grpc_status = "Code \<times> string"

definition toGRPCError :: "go_error \<Rightarrow> grpc_status" where
  "toGRPCError err =
     (case as_AppError err of
        Some ae \<Rightarrow>
          (if ae_StatusCode ae = 400 then InvalidArgument
           else if ae_StatusCode ae = 401 then Unauthenticated
           else if ae_StatusCode ae = 404 then NotFound
           else if ae_StatusCode ae = 409 then FailedPrecondition
           else if ae_StatusCode ae = 413 then ResourceExhausted
           else Internal, ae_Message ae)
      | None \<Rightarrow>
          if errors_Is err ErrNotFound then (NotFound, error_text err)
          else if errors_Is err ErrAlreadyClosed then (FailedPrecondition, error_text err)
          else (Internal, error_text err))"

section \<open>The methods\<close>

definition grpc_Screen ::
    "('c, 'p, 's, 'a) Services \<Rightarrow> pb_ScreenRequest \<Rightarrow> ('c, 'p, 's, 'a) kyt_state
     \<Rightarrow> (grpc_status + pb_ScreenResponse) \<times> ('c, 'p, 's, 'a) kyt_state" where
  "grpc_Screen s p st =
     (case Service_Screen (sv_Screen s) (ks_core st) (toScreenRequest p) of
        (Inl err, core) \<Rightarrow> (Inl (toGRPCError err), st\<lparr>ks_core := core\<rparr>)
      | (Inr resp, core) \<Rightarrow> (Inr (toProtoResponse resp), st\<lparr>ks_core := core\<rparr>))"

definition grpc_GetAlert ::
    "(gotime \<Rightarrow> string) \<Rightarrow> ('c, 'p, 's, 'a) Services \<Rightarrow> string \<Rightarrow> ('c, 'p, 's, 'a) kyt_state
     \<Rightarrow> (grpc_status + pb_Alert) \<times> ('c, 'p, 's, 'a) kyt_state" where
  "grpc_GetAlert fmt s i st =
     (case AlertService_Get (sv_Alerts s) (st_alerts (ks_core st)) i of
        Inl err \<Rightarrow> (Inl (toGRPCError err), st)
      | Inr a \<Rightarrow> (Inr (toProtoAlert fmt a), st))"

section \<open>The two surfaces agree\<close>

text \<open>The gRPC code that belongs to an HTTP status.\<close>

definition code_of_status :: "int \<Rightarrow> Code" where
  "code_of_status n =
     (if n = 400 then InvalidArgument else if n = 401 then Unauthenticated else if n = 404 then NotFound
      else if n = 409 then FailedPrecondition else if n = 413 then ResourceExhausted else Internal)"

text \<open>
  The errors of the screen path and of the alert service: anything that is not a webhook error.  For
  these the two surfaces classify alike; the gRPC message of an internal error carries the text the
  REST surface withholds.
\<close>

lemma toGRPCError_agrees:
  assumes "\<not> errors_Is err ErrSignatureMismatch" and "\<not> errors_Is err ErrBodyTooLarge"
  shows "fst (toGRPCError err) = code_of_status (ae_StatusCode (toAppError err))"
  using assms
  by (auto simp: toGRPCError_def toAppError_def code_of_status_def newAppError_def errAlertMissing_def
      errAlertClosed_def split: option.splits)

end
