(* ===== verification/Service_Run.thy ===== *)
theory Service_Run
  imports Grpc
begin

text \<open>
  The service as a whole: any sequence of REST requests, gRPC calls and runs of pending reviews on one
  state.  What each component keeps is put together here into the invariant of the running service
  over the in-memory stores, for any provider, and into what holds of every answer it gives.
\<close>

section \<open>Calls\<close>

datatype call =
    CallHttp HttpReq
  | CallScreen pb_ScreenRequest
  | CallGetAlert string
  | RunReview nat

datatype outcome =
    OHttp HttpResp
  | OScreen "grpc_status + pb_ScreenResponse"
  | OAlert "grpc_status + pb_Alert"
  | ODone

text \<open>A review that has been started runs once.\<close>

definition run_review ::
    "('c, 'p, 's, 'a) Services \<Rightarrow> nat \<Rightarrow> ('c, 'p, 's, 'a) kyt_state \<Rightarrow> ('c, 'p, 's, 'a) kyt_state" where
  "run_review s n st =
     (if n < length (ks_pending st) then
        (case triggerReview (sv_Webhook s) (ks_pending st ! n) (st_screens (ks_core st))
                (st_world (ks_core st), st_alerts (ks_core st)) of
           (w, a) \<Rightarrow> (with_alerts st w a)\<lparr>ks_pending := take n (ks_pending st) @ drop (Suc n) (ks_pending st)\<rparr>)
      else st)"

fun service_step ::
    "(gotime \<Rightarrow> string) \<Rightarrow> ('c, 'p, 's, 'a) Services \<Rightarrow> call \<Rightarrow> ('c, 'p, 's, 'a) kyt_state
     \<Rightarrow> outcome \<times> ('c, 'p, 's, 'a) kyt_state" where
  "service_step fmt s (CallHttp r) st = (case serve_http s r st of (resp, st') \<Rightarrow> (OHttp resp, st'))"
| "service_step fmt s (CallScreen p) st = (case grpc_Screen s p st of (r, st') \<Rightarrow> (OScreen r, st'))"
| "service_step fmt s (CallGetAlert i) st = (case grpc_GetAlert fmt s i st of (r, st') \<Rightarrow> (OAlert r, st'))"
| "service_step fmt s (RunReview n) st = (ODone, run_review s n st)"

fun service_run ::
    "(gotime \<Rightarrow> string) \<Rightarrow> ('c, 'p, 's, 'a) Services \<Rightarrow> call list \<Rightarrow> ('c, 'p, 's, 'a) kyt_state
     \<Rightarrow> outcome list \<times> ('c, 'p, 's, 'a) kyt_state" where
  "service_run fmt s [] st = ([], st)"
| "service_run fmt s (c # cs) st =
     (let (o1, st1) = service_step fmt s c st; (os, st2) = service_run fmt s cs st1 in (o1 # os, st2))"

text \<open>The decision and exposure an outcome tells the caller of a screen.\<close>

fun answered :: "outcome \<Rightarrow> (string \<times> string) option" where
  "answered (OHttp resp) = (case hp_Body resp of BScreen r \<Rightarrow> Some (rp_Decision r, rp_Exposure r) | _ \<Rightarrow> None)"
| "answered (OScreen (Inr r)) = Some (ps_Decision r, ps_Exposure r)"
| "answered _ = None"

section \<open>The invariant of the service\<close>

text \<open>Alerts only move forward.\<close>

definition alerts_evolve :: "(string \<rightharpoonup> Alert) \<Rightarrow> (string \<rightharpoonup> Alert) \<Rightarrow> bool" where
  "alerts_evolve t t' \<longleftrightarrow> (\<forall>i a. t i = Some a \<longrightarrow> (\<exists>b. t' i = Some b \<and> same_flow a b
     \<and> (al_Status a = StatusClosed \<longrightarrow> b = a) \<and> (al_Status b = StatusOpen \<longrightarrow> b = a)))"

lemma alerts_evolve_refl [simp]: "alerts_evolve t t"
  by (simp add: alerts_evolve_def)

lemma alerts_evolve_trans:
  assumes "alerts_evolve t u" and "alerts_evolve u v"
  shows "alerts_evolve t v"
  unfolding alerts_evolve_def
proof (intro allI impI)
  fix i a assume "t i = Some a"
  then obtain b where b: "u i = Some b" "same_flow a b" "al_Status a = StatusClosed \<longrightarrow> b = a" "al_Status b = StatusOpen \<longrightarrow> b = a"
    using assms(1) unfolding alerts_evolve_def by blast
  then obtain c where c: "v i = Some c" "same_flow b c" "al_Status b = StatusClosed \<longrightarrow> c = b" "al_Status c = StatusOpen \<longrightarrow> c = b"
    using assms(2) unfolding alerts_evolve_def by blast
  show "\<exists>c. v i = Some c \<and> same_flow a c \<and> (al_Status a = StatusClosed \<longrightarrow> c = a) \<and> (al_Status c = StatusOpen \<longrightarrow> c = a)"
    using b c same_flow_trans [OF b(2) c(2)] by (metis (no_types))
qed

lemma map_le_evolve: "t \<subseteq>\<^sub>m t' \<Longrightarrow> alerts_evolve t t'"
  by (fastforce simp: alerts_evolve_def map_le_def dom_def)

lemma alert_op_alerts:
  "alert_good s \<Longrightarrow> alert_good (alert_run_op op s) \<and> alerts_evolve (ms_mem s) (ms_mem (alert_run_op op s))"
  using alert_op_evolves [of s op] by (simp add: alerts_evolve_def)

text \<open>Every screen that was not allowed has an alert of its flow.\<close>

definition covered :: "(string \<rightharpoonup> ScreenRecord) \<Rightarrow> (string \<rightharpoonup> Alert) \<Rightarrow> bool" where
  "covered rows table \<longleftrightarrow> (\<forall>i r. rows i = Some r \<longrightarrow> sr_Decision r \<noteq> DecisionAllow \<longrightarrow>
     (\<exists>j a. table j = Some a \<and> al_ScreenID a = i \<and> al_TxID a = sr_TxID r \<and> al_Address a = sr_Address r
        \<and> al_Chain a = sr_Chain r \<and> al_Exposure a = sr_Exposure r))"

lemma covered_evolve: "covered rows t \<Longrightarrow> alerts_evolve t t' \<Longrightarrow> covered rows t'"
  unfolding covered_def alerts_evolve_def same_flow_def by metis

type_synonym ('p) memory_kyt = "(MemoryCache, 'p, MemoryScreenStore, MemoryStore) kyt_state"

definition service_ok :: "(MemoryScreenStore \<Rightarrow> MemoryScreenStore) \<Rightarrow> 'p memory_kyt \<Rightarrow> bool" where
  "service_ok ord st \<longleftrightarrow> memory_state_ok ord (ks_core st) \<and> wf_table (ms_mem (st_alerts (ks_core st)))
     \<and> (\<forall>v \<in> mc_held (st_cache (ks_core st)). verdict_clean v)
     \<and> covered (map_of (st_screens (ks_core st))) (ms_mem (st_alerts (ks_core st)))"

definition service_grows :: "'p memory_kyt \<Rightarrow> 'p memory_kyt \<Rightarrow> bool" where
  "service_grows st st' \<longleftrightarrow>
     alerts_evolve (ms_mem (st_alerts (ks_core st))) (ms_mem (st_alerts (ks_core st')))
   \<and> map_of (st_screens (ks_core st)) \<subseteq>\<^sub>m map_of (st_screens (ks_core st')) \<and> ks_seen st \<subseteq> ks_seen st'"

lemma service_grows_refl [simp]: "service_grows st st"
  by (simp add: service_grows_def)

lemma service_grows_trans: "service_grows st st1 \<Longrightarrow> service_grows st1 st2 \<Longrightarrow> service_grows st st2"
  unfolding service_grows_def using alerts_evolve_trans map_le_trans by blast

definition memory_services ::
    "(MemoryScreenStore \<Rightarrow> MemoryScreenStore) \<Rightarrow> 'p ScreenProvider \<Rightarrow> Thresholds \<Rightarrow> (string \<Rightarrow> string) \<Rightarrow> secrets
     \<Rightarrow> (MemoryCache, 'p, MemoryScreenStore, MemoryStore) Services" where
  "memory_services ord prov th ul secrets =
     \<lparr>sv_Screen = memory_service ord prov th ul, sv_Alerts = memory_alert_store, sv_Webhook = memory_processor ord secrets\<rparr>"

lemma memory_services_simps [simp]:
  "sv_Screen (memory_services ord prov th ul secrets) = memory_service ord prov th ul"
  "sv_Alerts (memory_services ord prov th ul secrets) = memory_alert_store"
  "sv_Webhook (memory_services ord prov th ul secrets) = memory_processor ord secrets"
  by (simp_all add: memory_services_def)

section \<open>What each call keeps\<close>

text \<open>A step that only touches the alerts and moves the world forward.\<close>

lemma service_ok_alerts:
  assumes "service_ok ord st" and "alert_good a" and "alerts_evolve (ms_mem (st_alerts (ks_core st))) (ms_mem a)"
    and "world_le (st_world (ks_core st)) w" and "dom (ms_mem a) \<subseteq> used_ids w"
  shows "service_ok ord (with_alerts st w a)" and "service_grows st (with_alerts st w a)"
  using assms world_le_fresh [OF assms(4)] used_ids_mono [OF assms(4)]
    covered_evolve [of "map_of (st_screens (ks_core st))" "ms_mem (st_alerts (ks_core st))" "ms_mem a"]
  by (auto simp: service_ok_def service_grows_def with_alerts_def memory_state_ok_def alert_good_def)

lemma assign_dom:
  assumes "mem_ok s" and "AlertService_Assign memory_alert_store s i who = (r, s')"
  shows "dom (ms_mem s') = dom (ms_mem s)"
  using assms mas.service_assign [OF assms(1), of i who]
  by (auto simp: MemoryStore_Update_def split: option.splits if_splits)

lemma close_dom:
  assumes "mem_ok s" and "AlertService_Close memory_alert_store w s i who = (r, w', s')"
  shows "dom (ms_mem s') = dom (ms_mem s) \<and> world_le w w'"
  using assms mas.service_close [OF assms(1), of w i who]
  by (auto simp: MemoryStore_Update_def split: option.splits if_splits)


text \<open>A screen.\<close>

lemma alert_of_wf: "i \<noteq> '''' \<Longrightarrow> wf_alert (alert_of i req resp now)"
  by (simp add: wf_alert_def alert_of_def new_alert_def)

lemma screen_effect_keeps:
  assumes "screen_effect req resp rows rows' t t' em em'" and "wf_table t" and "covered rows t"
    and "\<And>i. t' i \<noteq> None \<Longrightarrow> i \<noteq> ''''"
  shows "wf_table t' \<and> covered rows' t' \<and> alerts_evolve t t' \<and> rows \<subseteq>\<^sub>m rows'"
proof -
  obtain now where rows: "rows (rp_ScreenID resp) = None" "rows' = rows(rp_ScreenID resp \<mapsto> row_of req resp now)"
    using assms(1) by (auto simp: screen_effect_def)
  have le: "rows \<subseteq>\<^sub>m rows'" using rows by (auto simp: map_le_def)
  show ?thesis
  proof (cases "rp_Decision resp = DecisionAllow")
    case True
    then have "t' = t" using assms(1) by (simp add: screen_effect_def)
    then show ?thesis using assms(2,3) True rows le by (auto simp: covered_def row_of_def)
  next
    case False
    then obtain i now' where t: "t i = None" "t' = t(i \<mapsto> alert_of i req resp now')"
      using assms(1) by (auto simp: screen_effect_def)
    have i: "i \<noteq> ''''" using assms(4) [of i] t(2) by simp
    have "al_ID (alert_of i req resp now') = i" by (simp add: alert_of_def new_alert_def)
    then have wf: "wf_table t'" using assms(2) alert_of_wf [OF i] t(2) by (auto simp: wf_table_def)
    have ev: "alerts_evolve t t'" using t by (intro map_le_evolve) (auto simp: map_le_def)
    have "covered rows t'" using covered_evolve [OF assms(3) ev] .
    moreover have "t' i = Some (alert_of i req resp now')" using t(2) by simp
    moreover have "al_ScreenID (alert_of i req resp now') = rp_ScreenID resp
      \<and> al_TxID (alert_of i req resp now') = rq_TxID req \<and> al_Address (alert_of i req resp now') = rq_Address req
      \<and> al_Chain (alert_of i req resp now') = rq_Chain req \<and> al_Exposure (alert_of i req resp now') = rp_Exposure resp"
      by (simp add: alert_of_def new_alert_def)
    ultimately have "covered rows' t'" unfolding covered_def rows(2)
      by (auto simp: row_of_def split: if_splits)
    then show ?thesis using wf ev le by simp
  qed
qed

lemma screen_keeps:
  assumes "screen_provider prov" and "service_ok ord st"
    and "Service_Screen (memory_service ord prov th ul) (ks_core st) req = (r, core)"
  shows "service_ok ord (st\<lparr>ks_core := core\<rparr>) \<and> service_grows st (st\<lparr>ks_core := core\<rparr>) \<and> response_clean r"
proof (cases "validate req")
  case (Some e)
  then have "r = Inl e" "core = ks_core st" using assms(3) by (simp_all add: Service_Screen_def)
  then show ?thesis using assms(2) by (simp add: response_clean_def)
next
  case None
  have ok: "memory_state_ok ord (ks_core st)" using assms(2) by (simp add: service_ok_def)
  obtain resp where e: "r = Inr resp"
    "screen_effect req resp (map_of (st_screens (ks_core st))) (map_of (st_screens core))
        (ms_mem (st_alerts (ks_core st))) (ms_mem (st_alerts core)) (st_audit (ks_core st)) (st_audit core)"
    "memory_state_ok ord core"
    using memory_screen_effect [OF assms(1) ok None, of th ul] assms(3) by auto
  have ids: "i \<noteq> ''''" if "ms_mem (st_alerts core) i \<noteq> None" for i
  proof -
    have "i \<in> used_ids (st_world core)" using that e(3) by (auto simp: memory_state_ok_def)
    then show ?thesis using e(3) fresh_nonempty [of "st_world core"] by (auto simp: memory_state_ok_def used_ids_def)
  qed
  have "response_clean r \<and> (\<forall>v \<in> mc_held (st_cache core). verdict_clean v)"
    using mcv.screen_clean [of "memory_service ord prov th ul" "ks_core st" req r core] assms(2,3)
    by (simp add: NewService_def service_ok_def)
  moreover have "wf_table (ms_mem (st_alerts core)) \<and> covered (map_of (st_screens core)) (ms_mem (st_alerts core))
      \<and> alerts_evolve (ms_mem (st_alerts (ks_core st))) (ms_mem (st_alerts core))
      \<and> map_of (st_screens (ks_core st)) \<subseteq>\<^sub>m map_of (st_screens core)"
    using screen_effect_keeps [OF e(2) _ _ ids] assms(2) by (simp add: service_ok_def)
  ultimately show ?thesis using e(3) by (simp add: service_ok_def service_grows_def)
qed

text \<open>A delivery.\<close>

lemma with_hook_hook_of [simp]: "with_hook st (hook_of st) = st"
  by (simp add: with_hook_def hook_of_def)

lemma hook_alert_wf: "i \<noteq> '''' \<Longrightarrow> wf_alert (hook_alert i rec now) \<and> al_ID (hook_alert i rec now) = i"
  by (simp add: wf_alert_def hook_alert_def new_alert_def alertSeverity_def)

text \<open>Over the in-memory stores a delivery is refused, a duplicate, or accepted; only the last has an effect.\<close>

lemma memory_ingest_cases:
  assumes "memory_hook_ok st"
  obtains (refused) reason where "Ingest (memory_processor ord secrets) vendor body sig st = (rejected reason, st)"
      "ingest_parse secrets vendor body sig = Inl reason"
    | (duplicate) rec where "ingest_parse secrets vendor body sig = Inr rec" "rc_EventID rec \<in> hk_seen st"
      "Ingest (memory_processor ord secrets) vendor body sig st =
        (\<lparr>rs_Accepted = False, rs_Duplicate = True, rs_Reason = '''', rs_EventID = rc_EventID rec\<rparr>, st)"
    | (accepted) rec st' i now where "ingest_parse secrets vendor body sig = Inr rec" "rc_EventID rec \<notin> hk_seen st"
      "Ingest (memory_processor ord secrets) vendor body sig st = (accepted_result rec, st')" "memory_hook_ok st'"
      "mc_entry (hk_cache st') = (mc_entry (hk_cache st))(cacheKey (rc_Address rec) (rc_Chain rec) := None)"
      "ms_mem (hk_alerts st) i = None" "ms_mem (hk_alerts st') = (ms_mem (hk_alerts st))(i \<mapsto> hook_alert i rec now)"
      "hk_seen st' = insert (rc_EventID rec) (hk_seen st)" "hk_pending st' = hk_pending st @ [rec]"
      "mc_held (hk_cache st') \<subseteq> mc_held (hk_cache st)" "world_le (hk_world st) (hk_world st')"
proof (cases "ingest_parse secrets vendor body sig")
  case (Inl reason)
  then show ?thesis using refused by (simp add: Ingest_def)
next
  case (Inr rec)
  show ?thesis
  proof (cases "rc_EventID rec \<in> hk_seen st")
    case True
    then show ?thesis using duplicate Inr ingest_seen [of "memory_processor ord secrets" vendor body sig rec st] by simp
  next
    case False
    then show ?thesis
      using memory_accept [OF assms [folded memory_hook_ok_eq] Inr False, of ord] accepted Inr
      unfolding memory_hook_ok_eq by blast
  qed
qed


lemma hook_of_ok: "service_ok ord st \<Longrightarrow> memory_hook_ok (hook_of st)"
  by (simp add: service_ok_def memory_state_ok_def memory_hook_ok_def hook_of_def)

lemma webhook_keeps:
  assumes "service_ok ord st"
    and "Ingest (memory_processor ord secrets) vendor body sig (hook_of st) = (res, h)"
  shows "service_ok ord (with_hook st h) \<and> service_grows st (with_hook st h)"
  using hook_of_ok [OF assms(1)]
proof (cases rule: memory_ingest_cases [of "hook_of st" ord secrets vendor body sig])
  case (refused reason)
  then show ?thesis using assms by simp
next
  case (duplicate rec)
  then show ?thesis using assms by simp
next
  case (accepted rec st' i now)
  then have h: "h = st'" using assms(2) by simp
  let ?core = "ks_core st"
  have fresh: "fresh_ids (hk_world h)" and dom: "dom (ms_mem (hk_alerts h)) \<subseteq> used_ids (hk_world h)"
    and mem: "mem_ok (hk_alerts h)" using accepted(4) h by (simp_all add: memory_hook_ok_def)
  have table: "ms_mem (hk_alerts h) = (ms_mem (st_alerts ?core))(i \<mapsto> hook_alert i rec now)"
    "ms_mem (st_alerts ?core) i = None"
    using accepted(6,7) h by (simp_all add: hook_of_def)
  have "i \<in> used_ids (hk_world h)" using dom table(1) by auto
  then have i: "i \<noteq> ''''" using fresh_nonempty [OF fresh] by (auto simp: used_ids_def)
  have le: "world_le (st_world ?core) (hk_world h)" and held: "mc_held (hk_cache h) \<subseteq> mc_held (st_cache ?core)"
    and seen: "ks_seen st \<subseteq> hk_seen h"
    using accepted(8,10,11) h by (auto simp: hook_of_def)
  have wf: "wf_table (ms_mem (hk_alerts h))"
    using assms(1) hook_alert_wf [OF i] by (auto simp: table(1) service_ok_def wf_table_def)
  have ev: "alerts_evolve (ms_mem (st_alerts ?core)) (ms_mem (hk_alerts h))"
    using table by (intro map_le_evolve) (auto simp: map_le_def)
  have "covered (map_of (st_screens ?core)) (ms_mem (hk_alerts h))"
    using covered_evolve [OF _ ev] assms(1) by (simp add: service_ok_def)
  then show ?thesis
    using assms(1) fresh mem dom wf ev held seen used_ids_mono [OF le]
    by (auto simp: service_ok_def memory_state_ok_def service_grows_def with_hook_def)
qed

lemma service_ok_metrics:
  "service_ok ord (st\<lparr>ks_core := (ks_core st)\<lparr>st_metrics := m\<rparr>\<rparr>) = service_ok ord st"
  "service_grows st0 (st\<lparr>ks_core := (ks_core st)\<lparr>st_metrics := m\<rparr>\<rparr>) = service_grows st0 st"
  by (simp_all add: service_ok_def memory_state_ok_def service_grows_def)

text \<open>A request id and a review.\<close>

lemma service_ok_world:
  assumes "service_ok ord st" and "world_le (st_world (ks_core st)) w"
  shows "service_ok ord (st\<lparr>ks_core := (ks_core st)\<lparr>st_world := w\<rparr>\<rparr>) \<and> service_grows st (st\<lparr>ks_core := (ks_core st)\<lparr>st_world := w\<rparr>\<rparr>)"
  using assms(1) subset_trans [OF _ used_ids_mono [OF assms(2)]] world_le_fresh [OF assms(2)]
  by (simp add: service_ok_def memory_state_ok_def service_grows_def)

lemma request_id_keeps:
  assumes "service_ok ord st" and "request_id r st = (rid, st1)"
  shows "service_ok ord st1 \<and> service_grows st st1"
proof (cases "hr_Header r ''X-Request-Id'' = ''''")
  case True
  have "world_le (st_world (ks_core st)) ((st_world (ks_core st))\<lparr>drawn := Suc (drawn (st_world (ks_core st)))\<rparr>)"
    by (simp add: world_le_def)
  from service_ok_world [OF assms(1) this] True assms(2) show ?thesis by (auto simp: request_id_def newID_def)
qed (use assms in \<open>simp add: request_id_def\<close>)

lemma review_keeps:
  assumes "service_ok ord st"
  shows "service_ok ord (run_review (memory_services ord prov th ul secrets) n st)
    \<and> service_grows st (run_review (memory_services ord prov th ul secrets) n st)"
proof (cases "n < length (ks_pending st)")
  case False
  then show ?thesis using assms by (simp add: run_review_def)
next
  case True
  let ?core = "ks_core st" and ?rec = "ks_pending st ! n"
  have ok: "mss_ok ord (st_screens ?core)" "mem_ok (st_alerts ?core)" "fresh_ids (st_world ?core)"
    "dom (ms_mem (st_alerts ?core)) \<subseteq> used_ids (st_world ?core)" "wf_table (ms_mem (st_alerts ?core))"
    using assms by (simp_all add: service_ok_def memory_state_ok_def)
  obtain w a where t: "triggerReview (memory_processor ord secrets) ?rec (st_screens ?core) (st_world ?core, st_alerts ?core) = (w, a)"
    "mem_ok a" "dom (ms_mem a) \<subseteq> used_ids w" "ms_mem (st_alerts ?core) \<subseteq>\<^sub>m ms_mem a" "world_le (st_world ?core) w"
    "\<forall>i b. ms_mem a i = Some b \<longrightarrow> ms_mem (st_alerts ?core) i = Some b \<or>
        (\<exists>sid tx ad ch now. b = new_alert i sid tx ad ch (rc_Exposure ?rec) (SeverityFor (rc_Exposure ?rec)) now)"
    using memory_triggerReview [OF ok(1-4), of secrets ?rec] by blast
  have fresh: "fresh_ids w" using world_le_fresh [OF t(5)] ok(3) by simp
  have "wf_alert b \<and> al_ID b = i" if b: "ms_mem a i = Some b" for i b
  proof -
    have "i \<in> used_ids w" using b t(3) by auto
    then have "i \<noteq> ''''" using fresh_nonempty [OF fresh] by (auto simp: used_ids_def)
    then show ?thesis using t(6) b ok(5) by (fastforce simp: wf_table_def wf_alert_def new_alert_def)
  qed
  then have "alert_good a" using t(2) by (simp add: alert_good_def wf_table_def)
  note keep = service_ok_alerts [OF assms this map_le_evolve [OF t(4)] t(5,3)]
  have "run_review (memory_services ord prov th ul secrets) n st =
      (with_alerts st w a)\<lparr>ks_pending := take n (ks_pending st) @ drop (Suc n) (ks_pending st)\<rparr>"
    using True t(1) by (simp add: run_review_def)
  then show ?thesis using keep by (simp add: service_ok_def service_grows_def)
qed

text \<open>Every endpoint.\<close>

lemma assign_op: "alert_run_op (OpAssign i who) s = snd (AlertService_Assign memory_alert_store s i who)"
  and close_op: "alert_run_op (OpClose w i who) s = snd (snd (AlertService_Close memory_alert_store w s i who))"
  by simp_all

lemma assign_keeps:
  assumes "service_ok ord st" and "AlertService_Assign memory_alert_store (st_alerts (ks_core st)) i who = (r, a)"
  shows "service_ok ord (with_alerts st (st_world (ks_core st)) a) \<and> service_grows st (with_alerts st (st_world (ks_core st)) a)"
proof -
  have good: "alert_good (st_alerts (ks_core st))" "dom (ms_mem (st_alerts (ks_core st))) \<subseteq> used_ids (st_world (ks_core st))"
    "mem_ok (st_alerts (ks_core st))"
    using assms(1) by (simp_all add: service_ok_def memory_state_ok_def alert_good_def)
  have "alert_good a" "alerts_evolve (ms_mem (st_alerts (ks_core st))) (ms_mem a)"
    using alert_op_alerts [OF good(1), of "OpAssign i who"] assms(2) by simp_all
  then show ?thesis using service_ok_alerts [OF assms(1)] assign_dom [OF good(3) assms(2)] good(2) by simp
qed

lemma close_keeps:
  assumes "service_ok ord st" and "AlertService_Close memory_alert_store (st_world (ks_core st)) (st_alerts (ks_core st)) i who = (r, w, a)"
  shows "service_ok ord (with_alerts st w a) \<and> service_grows st (with_alerts st w a)"
proof -
  have good: "alert_good (st_alerts (ks_core st))" "dom (ms_mem (st_alerts (ks_core st))) \<subseteq> used_ids (st_world (ks_core st))"
    "mem_ok (st_alerts (ks_core st))"
    using assms(1) by (simp_all add: service_ok_def memory_state_ok_def alert_good_def)
  have ev: "alert_good a" "alerts_evolve (ms_mem (st_alerts (ks_core st))) (ms_mem a)"
    using alert_op_alerts [OF good(1), of "OpClose (st_world (ks_core st)) i who"] assms(2) by simp_all
  have d: "dom (ms_mem a) = dom (ms_mem (st_alerts (ks_core st)))" "world_le (st_world (ks_core st)) w"
    using close_dom [OF good(3) assms(2)] by simp_all
  then show ?thesis using service_ok_alerts [OF assms(1) ev d(2)] good(2) used_ids_mono [OF d(2)] by auto
qed


definition outcome_clean :: "outcome \<Rightarrow> bool" where
  "outcome_clean oc \<longleftrightarrow> (\<forall>d e. answered oc = Some (d, e) \<longrightarrow> d = DecisionAllow \<longrightarrow> e = ExposureClean)"

lemma outcome_clean_simps [simp]:
  "outcome_clean (OHttp (writeError rid err))"
  "outcome_clean (OHttp (writeJSON rid n (BScreen r))) \<longleftrightarrow> response_clean (Inr r)"
  "outcome_clean (OHttp (writeJSON rid n (BAlert a)))"
  "outcome_clean (OHttp (writeJSON rid n (BAlerts xs)))"
  "outcome_clean (OHttp (webhook_response rid res))"
  "outcome_clean (OHttp (healthz rid))"
  by (simp_all add: outcome_clean_def writeError_def writeJSON_def response_clean_def webhook_response_def healthz_def Let_def)

definition call_ok ::
    "(MemoryScreenStore \<Rightarrow> MemoryScreenStore) \<Rightarrow> 'p memory_kyt \<Rightarrow> outcome \<Rightarrow> 'p memory_kyt \<Rightarrow> bool" where
  "call_ok ord st oc st' \<longleftrightarrow> service_ok ord st' \<and> service_grows st st' \<and> outcome_clean oc"

lemma screenHandler_keeps:
  assumes "screen_provider prov" and "service_ok ord st"
    and "screenHandler (memory_services ord prov th ul secrets) rid r st = (resp, st')"
  shows "call_ok ord st (OHttp resp) st'"
proof (cases "decodeJSON unmarshal_request r")
  case (Inl e)
  then show ?thesis using assms(2,3) by (auto simp: screenHandler_def call_ok_def)
next
  case (Inr req)
  obtain a core where s: "Service_Screen (memory_service ord prov th ul) (ks_core st) req = (a, core)" by fastforce
  from screen_keeps [OF assms(1,2) s] show ?thesis
    using assms(3) Inr s by (cases a) (auto simp: screenHandler_def call_ok_def)
qed

lemma assignHandler_keeps:
  assumes "service_ok ord st" and "assignAlertHandler (memory_services ord prov th ul secrets) rid i r st = (resp, st')"
  shows "call_ok ord st (OHttp resp) st'"
proof (cases "decodeJSON unmarshal_assign r")
  case (Inl e)
  then show ?thesis using assms by (auto simp: assignAlertHandler_def call_ok_def)
next
  case (Inr who)
  obtain x a where s: "AlertService_Assign memory_alert_store (st_alerts (ks_core st)) i who = (x, a)" by fastforce
  from assign_keeps [OF assms(1) s] show ?thesis
    using assms(2) Inr s by (cases x) (auto simp: assignAlertHandler_def call_ok_def)
qed

lemma closeHandler_keeps:
  assumes "service_ok ord st" and "closeAlertHandler (memory_services ord prov th ul secrets) rid i r st = (resp, st')"
  shows "call_ok ord st (OHttp resp) st'"
proof (cases "decodeJSON unmarshal_assign r")
  case (Inl e)
  then show ?thesis using assms by (auto simp: closeAlertHandler_def call_ok_def)
next
  case (Inr who)
  obtain x w a where s: "AlertService_Close memory_alert_store (st_world (ks_core st)) (st_alerts (ks_core st)) i who = (x, w, a)"
    by (metis prod_cases3)
  from close_keeps [OF assms(1) s] show ?thesis
    using assms(2) Inr s by (cases x) (auto simp: closeAlertHandler_def call_ok_def)
qed

lemma webhookHandler_keeps:
  assumes "service_ok ord st" and "webhookHandler (memory_services ord prov th ul secrets) rid vendor r st = (resp, st')"
  shows "call_ok ord st (OHttp resp) st'"
proof (cases "ReadBody (hr_Body r) 1048576")
  case (Inl e)
  then show ?thesis using assms by (auto simp: webhookHandler_def call_ok_def)
next
  case (Inr body)
  obtain res h where s: "Ingest (memory_processor ord secrets) vendor body (webhook_sig r) (hook_of st) = (res, h)" by fastforce
  from webhook_keeps [OF assms(1) s] show ?thesis
    using assms(2) Inr s by (auto simp: webhookHandler_def call_ok_def Let_def service_ok_metrics)
qed

lemma endpoint_keeps:
  assumes "screen_provider prov" and "service_ok ord st"
    and "run_endpoint (memory_services ord prov th ul secrets) e vals rid r st = (resp, st')"
  shows "call_ok ord st (OHttp resp) st'"
proof (cases e)
  case EHealthz
  then show ?thesis using assms by (auto simp: run_endpoint_def call_ok_def)
next
  case EMetrics
  then show ?thesis using assms by (auto simp: run_endpoint_def call_ok_def outcome_clean_def)
next
  case EScreen
  then show ?thesis using assms screenHandler_keeps [OF assms(1,2)] by (simp add: run_endpoint_def)
next
  case EGetAlert
  then show ?thesis using assms by (auto simp: run_endpoint_def call_ok_def getAlertHandler_def split: sum.splits)
next
  case EListAlerts
  then show ?thesis using assms by (auto simp: run_endpoint_def call_ok_def listAlertsHandler_def split: sum.splits)
next
  case EAssign
  then show ?thesis using assms assignHandler_keeps [OF assms(2)] by (simp add: run_endpoint_def)
next
  case EClose
  then show ?thesis using assms closeHandler_keeps [OF assms(2)] by (simp add: run_endpoint_def)
next
  case EWebhook
  then show ?thesis using assms webhookHandler_keeps [OF assms(2)] by (simp add: run_endpoint_def)
qed

lemma http_keeps:
  assumes "screen_provider prov" and "service_ok ord st"
    and "serve_http (memory_services ord prov th ul secrets) r st = (resp, st')"
  shows "call_ok ord st (OHttp resp) st'"
proof -
  obtain rid st1 where i: "request_id r st = (rid, st1)" by fastforce
  note k = request_id_keeps [OF assms(2) i]
  have m: "NewMux (memory_services ord prov th ul secrets) rid r st1 = (resp, st')" using assms(3) i by (simp add: serve_http_def)
  have "call_ok ord st1 (OHttp resp) st'"
  proof (cases "find_route (hr_Method r) (hr_Path r)")
    case None
    then show ?thesis using m k by (auto simp: NewMux_def call_ok_def outcome_clean_def)
  next
    case (Some ev)
    obtain e vals where "ev = (e, vals)" by fastforce
    then have "run_endpoint (memory_services ord prov th ul secrets) e vals rid r st1 = (resp, st')"
      using m Some by (simp add: NewMux_def)
    from endpoint_keeps [OF assms(1) conjunct1 [OF k] this] show ?thesis .
  qed
  then show ?thesis using k service_grows_trans by (auto simp: call_ok_def)
qed

lemma step_keeps:
  assumes "screen_provider prov" and "service_ok ord st"
    and "service_step fmt (memory_services ord prov th ul secrets) c st = (oc, st')"
  shows "call_ok ord st oc st'"
proof (cases c)
  case (CallHttp r)
  then show ?thesis using assms(3) http_keeps [OF assms(1,2)] by (auto split: prod.splits)
next
  case (CallScreen p)
  obtain a core where s: "Service_Screen (memory_service ord prov th ul) (ks_core st) (toScreenRequest p) = (a, core)" by fastforce
  from screen_keeps [OF assms(1,2) s] show ?thesis
    using assms(3) CallScreen s
    by (cases a) (auto simp: grpc_Screen_def call_ok_def outcome_clean_def toProtoResponse_def response_clean_def)
next
  case (CallGetAlert i)
  then show ?thesis using assms(2,3) by (auto simp: grpc_GetAlert_def call_ok_def outcome_clean_def split: sum.splits)
next
  case (RunReview n)
  then show ?thesis using assms(3) review_keeps [OF assms(2)] by (auto simp: call_ok_def outcome_clean_def)
qed

lemma run_keeps:
  assumes "screen_provider prov" and "service_ok ord st"
    and "service_run fmt (memory_services ord prov th ul secrets) cs st = (os, st')"
  shows "service_ok ord st' \<and> service_grows st st' \<and> (\<forall>oc \<in> set os. outcome_clean oc)"
  using assms(2,3)
proof (induction cs arbitrary: st os)
  case Nil
  then show ?case by simp
next
  case (Cons c cs)
  obtain o1 st1 where s: "service_step fmt (memory_services ord prov th ul secrets) c st = (o1, st1)" by fastforce
  obtain os2 st2 where t: "service_run fmt (memory_services ord prov th ul secrets) cs st1 = (os2, st2)" by fastforce
  have st2: "os = o1 # os2" "st' = st2" using Cons.prems(2) s t by simp_all
  have c1: "call_ok ord st o1 st1" by (rule step_keeps [OF assms(1) Cons.prems(1) s])
  then have "service_ok ord st1" by (simp add: call_ok_def)
  from Cons.IH [OF this t [folded st2(2)]] c1 show ?case
    unfolding st2(1) using service_grows_trans [of st st1 st'] by (simp add: call_ok_def)
qed


section \<open>What holds of the whole service\<close>

text \<open>
  C1: No flow that was not allowed goes unnoticed.  Whatever REST requests, gRPC calls, webhooks and
  reviews the service handles, in whatever order and with whatever provider: every stored screen
  with another decision than \<open>ALLOW\<close> has an alert of its flow and exposure, and every alert is well
  formed.
\<close>

theorem service_covers_decisions:
  assumes "screen_provider prov" and "service_ok ord st"
    and "service_run fmt (memory_services ord prov th ul secrets) cs st = (os, st')"
  shows "covered (map_of (st_screens (ks_core st'))) (ms_mem (st_alerts (ks_core st')))
    \<and> wf_table (ms_mem (st_alerts (ks_core st')))"
  using run_keeps [OF assms] by (simp add: service_ok_def)

text \<open>
  C2: Every caller that is told \<open>ALLOW\<close>, over REST or gRPC, from the vendor or from the cache, is told
  \<open>CLEAN\<close>, whatever webhooks and reviews came before.
\<close>

theorem service_allows_only_clean:
  assumes "screen_provider prov" and "service_ok ord st"
    and "service_run fmt (memory_services ord prov th ul secrets) cs st = (os, st')"
    and "oc \<in> set os" and "answered oc = Some (DecisionAllow, e)"
  shows "e = ExposureClean"
  using run_keeps [OF assms(1-3)] assms(4,5) by (auto simp: outcome_clean_def)

text \<open>
  C5: Over any run of the service in which every call is completed before the next one starts, screens and
  alerts are never lost, a stored screen never changes, the flow, exposure and severity of an alert never
  change, a closed alert stays as it is and no alert returns to \<open>OPEN\<close>.  (An assignment that overlaps a close
  can reopen the alert: \<open>Alert_Race\<close>.)
\<close>

theorem service_keeps_records:
  assumes "screen_provider prov" and "service_ok ord st"
    and "service_run fmt (memory_services ord prov th ul secrets) cs st = (os, st')"
  shows "map_of (st_screens (ks_core st)) \<subseteq>\<^sub>m map_of (st_screens (ks_core st'))
    \<and> alerts_evolve (ms_mem (st_alerts (ks_core st))) (ms_mem (st_alerts (ks_core st')))
    \<and> ks_seen st \<subseteq> ks_seen st'"
  using run_keeps [OF assms] by (simp add: service_grows_def)

section \<open>A concrete service\<close>

abbreviation demo_services :: "(MemoryCache, MockProvider, MemoryScreenStore, MemoryStore) Services" where
  "demo_services \<equiv> memory_services (\<lambda>m. m) mock_provider demo_thresholds id demo_secrets"

definition demo_kyt :: "(MemoryCache, MockProvider, MemoryScreenStore, MemoryStore) screen_state \<Rightarrow> MockProvider memory_kyt" where
  "demo_kyt core = \<lparr>ks_core = core, ks_seen = {}, ks_pending = []\<rparr>"

definition demo_pb :: pb_ScreenRequest where
  "demo_pb = \<lparr>pq_TxId = ''tx1'', pq_Address = ''0xbad'', pq_SourceAddress = '''', pq_Chain = ''ethereum'', pq_Amount = ''1.5''\<rparr>"

lemma demo_pb_request: "toScreenRequest demo_pb = demo_request1"
  by (simp add: toScreenRequest_def demo_pb_def demo_request1_def)

text \<open>A delivery of the demo webhook, and a review of it.\<close>

definition demo_post :: HttpReq where
  "demo_post = \<lparr>hr_Method = ''POST'', hr_Path = [''v1'', ''webhooks'', ''chainalysis''], hr_Query = (\<lambda>_. ''''),
     hr_Header = (\<lambda>h. if h = ''X-Webhook-Signature'' then demo_sig ''k1'' else ''''), hr_Body = (demo_hook_body, None)\<rparr>"

lemma demo_kyt_ok: "service_ok (\<lambda>m. m) (demo_kyt demo_state)" "service_ok (\<lambda>m. m) (demo_kyt demo_clean)"
  using demo_state_ok
  by (simp_all add: service_ok_def demo_kyt_def demo_clean_def memory_state_ok_def)
    (simp_all add: demo_state_def wf_table_def NewMemoryStore_def mc_held_def NewMemoryCache_def covered_def NewMemoryScreenStore_def)

theorem service_covers_decisions_witness:
  "let (os, st') = service_run (\<lambda>_. '''') demo_services [CallScreen demo_pb, CallHttp demo_post, RunReview 0] (demo_kyt demo_state)
   in covered (map_of (st_screens (ks_core st'))) (ms_mem (st_alerts (ks_core st')))"
  using service_covers_decisions [OF mock_adv.screen_provider_axioms demo_kyt_ok(1) surjective_pairing,
      of "\<lambda>_. ''''" demo_thresholds id demo_secrets "[CallScreen demo_pb, CallHttp demo_post, RunReview 0]"]
  by (simp add: split_beta Let_def)

theorem service_keeps_records_witness:
  "let (os, st') = service_run (\<lambda>_. '''') demo_services [CallScreen demo_pb, CallHttp demo_post, RunReview 0]
       ((demo_kyt demo_state)\<lparr>ks_seen := {''ev0''}\<rparr>)
   in ''ev0'' \<in> ks_seen st'"
proof -
  have "service_ok (\<lambda>m. m) ((demo_kyt demo_state)\<lparr>ks_seen := {''ev0''}\<rparr>)"
    using demo_kyt_ok(1) by (simp add: service_ok_def)
  from service_keeps_records [OF mock_adv.screen_provider_axioms this surjective_pairing,
      of "\<lambda>_. ''''" demo_thresholds id demo_secrets "[CallScreen demo_pb, CallHttp demo_post, RunReview 0]"]
  show ?thesis by (simp add: split_beta Let_def)
qed

theorem service_allows_only_clean_witness:
  "let (os, st') = service_run (\<lambda>_. '''') demo_services [CallScreen demo_pb] (demo_kyt demo_clean)
   in OScreen (Inr (toProtoResponse demo_clean_answer)) \<in> set os \<and> ps_Exposure (toProtoResponse demo_clean_answer) = ''CLEAN''"
proof -
  let ?run = "service_run (\<lambda>_. '''') demo_services [CallScreen demo_pb] (demo_kyt demo_clean)"
  obtain r core where s: "Service_Screen (memory_service (\<lambda>m. m) mock_provider demo_thresholds id) demo_clean demo_request1 = (r, core)"
    by fastforce
  then have "r = Inr demo_clean_answer" using demo_clean_screen by simp
  then have "grpc_Screen demo_services demo_pb (demo_kyt demo_clean) =
      (Inr (toProtoResponse demo_clean_answer), demo_kyt core)"
    using s by (simp add: grpc_Screen_def demo_pb_request demo_kyt_def)
  then have run: "?run = ([OScreen (Inr (toProtoResponse demo_clean_answer))], demo_kyt core)" by simp
  have "answered (OScreen (Inr (toProtoResponse demo_clean_answer))) = Some (DecisionAllow, ps_Exposure (toProtoResponse demo_clean_answer))"
    by (simp add: toProtoResponse_def demo_clean_answer_def)
  from service_allows_only_clean [OF mock_adv.screen_provider_axioms demo_kyt_ok(2) run _ this]
  show ?thesis unfolding run by simp
qed

end
