(* ===== verification/Endpoints.thy ===== *)
theory Endpoints
  imports Service_Run
begin

text \<open>
  What the endpoints of the REST surface answer over the in-memory stores: the status and body of
  every outcome of a screen, of the alert operations and of a webhook delivery, the request id of
  every response, and how the gRPC surface relates to the REST one.
\<close>

section \<open>Finding the handler\<close>

lemma find_routes:
  "find_route ''POST'' [''v1'', ''kyt'', ''screen''] = Some (EScreen, [])"
  "i \<noteq> '''' \<Longrightarrow> find_route ''GET'' [''v1'', ''kyt'', ''alerts'', i] = Some (EGetAlert, [i])"
  "i \<noteq> '''' \<Longrightarrow> find_route ''POST'' [''v1'', ''kyt'', ''alerts'', i, ''assign''] = Some (EAssign, [i])"
  "i \<noteq> '''' \<Longrightarrow> find_route ''POST'' [''v1'', ''kyt'', ''alerts'', i, ''close''] = Some (EClose, [i])"
  "vendor \<noteq> '''' \<Longrightarrow> find_route ''POST'' [''v1'', ''webhooks'', vendor] = Some (EWebhook, [vendor])"
  unfolding find_route_Some
  by (simp_all add: routes_def match_route_def match_method_def)

lemma request_id_world:
  "request_id r st = (rid, st1) \<Longrightarrow>
     \<exists>w. world_le (st_world (ks_core st)) w \<and> st1 = st\<lparr>ks_core := (ks_core st)\<lparr>st_world := w\<rparr>\<rparr>"
  by (auto simp: request_id_def newID_def world_le_def split: if_splits
      intro: exI [of _ "st_world (ks_core st)"] exI [of _ "(st_world (ks_core st))\<lparr>drawn := Suc (drawn (st_world (ks_core st)))\<rparr>"])

lemma serve_found:
  assumes "find_route (hr_Method r) (hr_Path r) = Some (e, vals)" and "request_id r st = (rid, st1)"
  shows "serve_http s r st = run_endpoint s e vals rid r st1"
  using assms by (simp add: serve_http_def NewMux_def)

section \<open>Statuses\<close>

lemma write_simps [simp]:
  "hp_Status (writeJSON rid n v) = n" "hp_Body (writeJSON rid n v) = v" "hp_RequestID (writeJSON rid n v) = rid"
  "hp_Status (writeError rid err) = ae_StatusCode (toAppError err)" "hp_RequestID (writeError rid err) = rid"
  "hp_Body (writeError rid err) = BError (ae_Code (toAppError err)) (ae_Message (toAppError err)) rid"
  by (simp_all add: writeJSON_def writeError_def Let_def)

lemma toAppError_simps [simp]:
  "toAppError (app_error ae) = ae"
  "toAppError ErrNotFound = errAlertMissing"
  "toAppError ErrAlreadyClosed = errAlertClosed"
  "toAppError (ErrText t) = newAppError ''internal_error'' ''internal server error'' 500"
  "toAppError ErrBodyTooLarge = newAppError ''body_too_large'' ''webhook body too large'' 413"
  by (simp_all add: toAppError_def app_error_def newAppError_def)

lemma AppError_simps [simp]:
  "ae_StatusCode (newAppError c m n) = n" "ae_Code (newAppError c m n) = c" "ae_Message (newAppError c m n) = m"
  "ae_StatusCode errBadJSON = 400" "ae_StatusCode errAlertMissing = 404" "ae_StatusCode errAlertClosed = 409"
  "ae_StatusCode errSigMismatch = 401"
  by (simp_all add: newAppError_def errBadJSON_def errAlertMissing_def errAlertClosed_def errSigMismatch_def)

lemma decodeJSON_error: "decodeJSON into r = Inl err \<Longrightarrow> err = app_error errBadJSON"
  by (auto simp: decodeJSON_def split: option.splits sum.splits if_splits)

lemma validate_text: "validate req = Some e \<Longrightarrow> \<exists>t. e = ErrText t"
  by (auto simp: validate_def split: if_splits)

text \<open>Nothing has happened but that a request id may have been drawn: audit, cache, vendor, counters and stores are as before.\<close>

definition untouched :: "('c, 'p, 's, 'a) kyt_state \<Rightarrow> ('c, 'p, 's, 'a) kyt_state \<Rightarrow> bool" where
  "untouched st st' \<longleftrightarrow> (\<exists>w. world_le (st_world (ks_core st)) w \<and> st' = st\<lparr>ks_core := (ks_core st)\<lparr>st_world := w\<rparr>\<rparr>)"

text \<open>
  C6: A screen request to the service over the in-memory stores is answered \<open>400\<close> with the envelope of
  \<open>errBadJSON\<close> when its body is no JSON object of the request's shape, \<open>500\<close> with a fixed message when a
  required field is blank, and otherwise \<open>200\<close> with the screen's answer, which has left its row, alert and
  event.  The first two change nothing: no audit event, no cache or vendor access, no counter, no row.
\<close>

theorem screen_endpoint:
  assumes "screen_provider prov" and "service_ok ord st"
    and "hr_Method r = ''POST''" and "hr_Path r = [''v1'', ''kyt'', ''screen'']"
    and "serve_http (memory_services ord prov th ul secrets) r st = (resp, st')"
  shows "case decodeJSON unmarshal_request r of
      Inl e \<Rightarrow> hp_Status resp = 400 \<and> hp_Body resp = BError ''bad_json'' ''invalid JSON body'' (hp_RequestID resp) \<and> untouched st st'
    | Inr req \<Rightarrow>
        (if validate req = None then
           (\<exists>a. hp_Status resp = 200 \<and> hp_Body resp = BScreen a
              \<and> screen_effect req a (map_of (st_screens (ks_core st))) (map_of (st_screens (ks_core st')))
                  (ms_mem (st_alerts (ks_core st))) (ms_mem (st_alerts (ks_core st')))
                  (st_audit (ks_core st)) (st_audit (ks_core st')))
         else hp_Status resp = 500 \<and> hp_Body resp = BError ''internal_error'' ''internal server error'' (hp_RequestID resp)
           \<and> untouched st st')"
proof -
  obtain rid st1 where i: "request_id r st = (rid, st1)" by fastforce
  obtain w where le: "world_le (st_world (ks_core st)) w" and w: "st1 = st\<lparr>ks_core := (ks_core st)\<lparr>st_world := w\<rparr>\<rparr>"
    using request_id_world [OF i] by blast
  have un: "untouched st st1" using le w by (auto simp: untouched_def)
  have ok: "service_ok ord st1" using request_id_keeps [OF assms(2) i] by simp
  have "find_route (hr_Method r) (hr_Path r) = Some (EScreen, [])"
    unfolding assms(3,4) by (rule find_routes(1))
  from serve_found [OF this i] assms(5)
  have h: "screenHandler (memory_services ord prov th ul secrets) rid r st1 = (resp, st')" by (simp add: run_endpoint_def)
  show ?thesis
  proof (cases "decodeJSON unmarshal_request r")
    case (Inl e)
    then show ?thesis using h un decodeJSON_error [OF Inl] by (auto simp: screenHandler_def errBadJSON_def)
  next
    case (Inr req)
    show ?thesis
    proof (cases "validate req")
      case (Some e)
      then obtain t where "e = ErrText t" using validate_text by blast
      then show ?thesis using h un Inr Some by (auto simp: screenHandler_def Service_Screen_def)
    next
      case None
      have m: "memory_state_ok ord (ks_core st1)" using ok by (simp add: service_ok_def)
      obtain a core where s: "Service_Screen (memory_service ord prov th ul) (ks_core st1) req = (Inr a, core)"
        "screen_effect req a (map_of (st_screens (ks_core st1))) (map_of (st_screens core))
          (ms_mem (st_alerts (ks_core st1))) (ms_mem (st_alerts core)) (st_audit (ks_core st1)) (st_audit core)"
        using memory_screen_effect [OF assms(1) m None, of th ul] by blast
      have "resp = writeJSON rid 200 (BScreen a)" "st' = st1\<lparr>ks_core := core\<rparr>"
        using h s(1) Inr by (simp_all add: screenHandler_def)
      then show ?thesis using s(2) Inr None w by simp
    qed
  qed
qed


lemma service_alerts_ok: "service_ok ord st \<Longrightarrow> alert_good (st_alerts (ks_core st))"
  by (simp add: service_ok_def memory_state_ok_def alert_good_def)

text \<open>
  Closing an alert over REST: \<open>400\<close> for a body that is no JSON, \<open>404\<close> for an unknown alert, \<open>409\<close> for
  a closed one, else \<open>200\<close> with the closed alert, which is what the store then holds.
\<close>

theorem close_endpoint:
  assumes "service_ok ord st" and "i \<noteq> ''''"
    and "hr_Method r = ''POST''" and "hr_Path r = [''v1'', ''kyt'', ''alerts'', i, ''close'']"
    and "serve_http (memory_services ord prov th ul secrets) r st = (resp, st')"
  shows "case decodeJSON unmarshal_assign r of
      Inl e \<Rightarrow> hp_Status resp = 400 \<and> st_alerts (ks_core st') = st_alerts (ks_core st)
    | Inr who \<Rightarrow>
        (case ms_mem (st_alerts (ks_core st)) i of
           None \<Rightarrow> hp_Status resp = 404 \<and> st_alerts (ks_core st') = st_alerts (ks_core st)
         | Some a \<Rightarrow>
             if al_Status a = StatusClosed then hp_Status resp = 409 \<and> st_alerts (ks_core st') = st_alerts (ks_core st)
             else \<exists>now. hp_Status resp = 200 \<and> hp_Body resp = BAlert (closed_copy now who a)
               \<and> ms_mem (st_alerts (ks_core st')) = (ms_mem (st_alerts (ks_core st)))(i \<mapsto> closed_copy now who a))"
proof -
  obtain rid st1 where q: "request_id r st = (rid, st1)" by fastforce
  obtain w where w: "st1 = st\<lparr>ks_core := (ks_core st)\<lparr>st_world := w\<rparr>\<rparr>" using request_id_world [OF q] by blast
  have good: "alert_good (st_alerts (ks_core st1))" using service_alerts_ok [OF assms(1)] w by simp
  then have mem: "mem_ok (st_alerts (ks_core st1))" by (simp add: alert_good_def)
  have "find_route (hr_Method r) (hr_Path r) = Some (EClose, [i])"
    unfolding assms(3,4) by (rule find_routes(4) [OF assms(2)])
  from serve_found [OF this q] assms(5)
  have h: "closeAlertHandler (memory_services ord prov th ul secrets) rid i r st1 = (resp, st')"
    by (simp add: run_endpoint_def path_value_def)
  show ?thesis
  proof (cases "decodeJSON unmarshal_assign r")
    case (Inl e)
    then show ?thesis using h w decodeJSON_error [OF Inl] by (auto simp: closeAlertHandler_def)
  next
    case (Inr who)
    note c = mas.service_close [OF mem, of w i who]
    show ?thesis
    proof (cases "ms_mem (st_alerts (ks_core st1)) i")
      case None
      then show ?thesis using h w Inr c by (auto simp: closeAlertHandler_def with_alerts_def)
    next
      case (Some a)
      then have "al_ID a = i" using good by (auto simp: alert_good_def wf_table_def)
      then show ?thesis
        using Some h w Inr c mem_update_present [OF mem, of "closed_copy (clk w (ticks w)) who a"]
        by (auto simp: closeAlertHandler_def with_alerts_def split: if_splits)
    qed
  qed
qed

text \<open>
  Assigning an alert over REST, likewise: the alert goes into review under its new assignee.
\<close>

theorem assign_endpoint:
  assumes "service_ok ord st" and "i \<noteq> ''''"
    and "hr_Method r = ''POST''" and "hr_Path r = [''v1'', ''kyt'', ''alerts'', i, ''assign'']"
    and "serve_http (memory_services ord prov th ul secrets) r st = (resp, st')"
  shows "case decodeJSON unmarshal_assign r of
      Inl e \<Rightarrow> hp_Status resp = 400 \<and> st_alerts (ks_core st') = st_alerts (ks_core st)
    | Inr who \<Rightarrow>
        (case ms_mem (st_alerts (ks_core st)) i of
           None \<Rightarrow> hp_Status resp = 404 \<and> st_alerts (ks_core st') = st_alerts (ks_core st)
         | Some a \<Rightarrow>
             if al_Status a = StatusClosed then hp_Status resp = 409 \<and> st_alerts (ks_core st') = st_alerts (ks_core st)
             else hp_Status resp = 200 \<and> hp_Body resp = BAlert (assigned_copy who a)
               \<and> ms_mem (st_alerts (ks_core st')) = (ms_mem (st_alerts (ks_core st)))(i \<mapsto> assigned_copy who a))"
proof -
  obtain rid st1 where q: "request_id r st = (rid, st1)" by fastforce
  obtain w where w: "st1 = st\<lparr>ks_core := (ks_core st)\<lparr>st_world := w\<rparr>\<rparr>" using request_id_world [OF q] by blast
  have good: "alert_good (st_alerts (ks_core st1))" using service_alerts_ok [OF assms(1)] w by simp
  then have mem: "mem_ok (st_alerts (ks_core st1))" by (simp add: alert_good_def)
  have "find_route (hr_Method r) (hr_Path r) = Some (EAssign, [i])"
    unfolding assms(3,4) by (rule find_routes(3) [OF assms(2)])
  from serve_found [OF this q] assms(5)
  have h: "assignAlertHandler (memory_services ord prov th ul secrets) rid i r st1 = (resp, st')"
    by (simp add: run_endpoint_def path_value_def)
  show ?thesis
  proof (cases "decodeJSON unmarshal_assign r")
    case (Inl e)
    then show ?thesis using h w decodeJSON_error [OF Inl] by (auto simp: assignAlertHandler_def)
  next
    case (Inr who)
    note c = mas.service_assign [OF mem, of i who]
    show ?thesis
    proof (cases "ms_mem (st_alerts (ks_core st1)) i")
      case None
      then show ?thesis using h w Inr c by (auto simp: assignAlertHandler_def with_alerts_def)
    next
      case (Some a)
      then have "al_ID a = i" using good by (auto simp: alert_good_def wf_table_def)
      then show ?thesis
        using Some h w Inr c mem_update_present [OF mem, of "assigned_copy who a"]
        by (auto simp: assignAlertHandler_def with_alerts_def split: if_splits)
    qed
  qed
qed

lemma ingest_parse_reason:
  assumes "signed_by secrets vendor body sig" and "ingest_parse secrets vendor body sig = Inl reason"
  shows "\<not> Contains reason ''signature''"
proof -
  have "Verify secrets vendor body sig = None" using assms(1) by (simp add: Verify_iff)
  then have "reason = ''missing required fields'' \<or> reason = ''invalid json: json''"
    using assms(2)
    by (auto simp: ingest_parse_def unmarshal_rec_def unmarshal_def json_error_def
        split: sum.splits option.splits json.splits prod.splits if_splits)
  then show ?thesis by (elim disjE) (simp_all)
qed

text \<open>
  C7: A webhook delivery to the service over the in-memory stores is answered \<open>413\<close> over a megabyte, with the
  error of the connection when its body cannot be read (\<open>500\<close> and a fixed message for an error that is none of
  the service's own), \<open>401\<close> without the vendor's signature, \<open>400\<close> with the reason for a signed body that
  is no complete re-classification, and otherwise \<open>200\<close>, accepted or duplicate.  A delivery that was not
  read changes nothing; one that was read counts in exactly one of the three webhook counters.
\<close>

theorem webhook_endpoint:
  assumes "service_ok ord st" and "vendor \<noteq> ''''"
    and "hr_Method r = ''POST''" and "hr_Path r = [''v1'', ''webhooks'', vendor]" and "hr_Body r = (body, readErr)"
    and "serve_http (memory_services ord prov th ul secrets) r st = (resp, st')"
  shows "if length body > 1048576
    then hp_Status resp = 413 \<and> hp_Body resp = BError ''body_too_large'' ''webhook body too large'' (hp_RequestID resp) \<and> untouched st st'
    else case readErr of
      Some err \<Rightarrow> resp = writeError (hp_RequestID resp) err \<and> untouched st st'
        \<and> (\<forall>t. err = ErrText t \<longrightarrow>
            hp_Status resp = 500 \<and> hp_Body resp = BError ''internal_error'' ''internal server error'' (hp_RequestID resp))
    | None \<Rightarrow>
      (let m = st_metrics (ks_core st); m' = st_metrics (ks_core st') in
       if \<not> signed_by secrets vendor body (webhook_sig r)
       then hp_Status resp = 401 \<and> hp_Body resp = BError ''signature_mismatch'' ''webhook signature mismatch'' (hp_RequestID resp)
         \<and> m' = m\<lparr>WebhookRejectTotal := ctr_add (WebhookRejectTotal m) 1\<rparr>
       else case ingest_parse secrets vendor body (webhook_sig r) of
          Inl reason \<Rightarrow> hp_Status resp = 400 \<and> hp_Body resp = BError ''bad_webhook'' reason (hp_RequestID resp)
            \<and> m' = m\<lparr>WebhookRejectTotal := ctr_add (WebhookRejectTotal m) 1\<rparr>
        | Inr rec \<Rightarrow> hp_Status resp = 200 \<and> hp_Body resp = BWebhook (rc_EventID rec \<in> ks_seen st) (rc_EventID rec)
            \<and> m' = (if rc_EventID rec \<in> ks_seen st then m\<lparr>WebhookDuplicateTotal := ctr_add (WebhookDuplicateTotal m) 1\<rparr>
                    else m\<lparr>WebhookAcceptTotal := ctr_add (WebhookAcceptTotal m) 1\<rparr>))"
proof -
  obtain rid st1 where q: "request_id r st = (rid, st1)" by fastforce
  obtain w where le: "world_le (st_world (ks_core st)) w" and w: "st1 = st\<lparr>ks_core := (ks_core st)\<lparr>st_world := w\<rparr>\<rparr>"
    using request_id_world [OF q] by blast
  have un: "untouched st st1" using le w by (auto simp: untouched_def)
  have ok: "memory_hook_ok (hook_of st1)" using hook_of_ok request_id_keeps [OF assms(1) q] by blast
  have "find_route (hr_Method r) (hr_Path r) = Some (EWebhook, [vendor])"
    unfolding assms(3,4) by (rule find_routes(5) [OF assms(2)])
  from serve_found [OF this q] assms(6)
  have h: "webhookHandler (memory_services ord prov th ul secrets) rid vendor r st1 = (resp, st')"
    by (simp add: run_endpoint_def path_value_def)
  have body_read: "ReadBody (hr_Body r) 1048576 =
      (if length body > 1048576 then Inl ErrBodyTooLarge else case readErr of None \<Rightarrow> Inr body | Some e \<Rightarrow> Inl e)"
    using webhook_body_bounds [of 1048576 body readErr] assms(5) by auto
  consider (large) "length body > 1048576" | (broken) e where "length body \<le> 1048576" "readErr = Some e"
    | (read) "\<not> length body > 1048576" "readErr = None"
    by (cases readErr) (simp, blast, metis linorder_not_le)
  then show ?thesis
  proof cases
    case large
    then show ?thesis using h un body_read by (auto simp: webhookHandler_def)
  next
    case broken
    then show ?thesis using h un body_read by (auto simp: webhookHandler_def)
  next
    case read
    note False = read(1) and none = read(2)
    have "ReadBody (hr_Body r) 1048576 = Inr body" using body_read False none by simp
    moreover obtain res hk where ing: "Ingest (memory_processor ord secrets) vendor body (webhook_sig r) (hook_of st1) = (res, hk)"
      by fastforce
    ultimately have r: "resp = webhook_response rid res"
      "st_metrics (ks_core st') = count_webhook res (st_metrics (ks_core st1))"
      using h by (auto simp: webhookHandler_def Let_def with_hook_def)
    have count: "st_metrics (ks_core st') = count_webhook res (st_metrics (ks_core st))" using r(2) w by simp
    show ?thesis using ok
    proof (cases rule: memory_ingest_cases [of "hook_of st1" ord secrets vendor body "webhook_sig r"])
      case (refused reason)
      then have res: "res = rejected reason" using ing by simp
      show ?thesis
      proof (cases "signed_by secrets vendor body (webhook_sig r)")
        case True
        then show ?thesis using False none r(1) res count refused(2) ingest_parse_reason [OF True refused(2)]
          by (simp add: webhook_response_def rejected_def count_webhook_def)
      next
        case unsigned: False
        then have "reason = ''webhook signature mismatch''"
          using refused(2) by (simp add: ingest_parse_def Verify_error)
        then show ?thesis using False none unsigned r(1) res count
          by (simp add: errSigMismatch_def webhook_response_def rejected_def count_webhook_def)
      qed
    next
      case (duplicate rec)
      then show ?thesis using False none r(1) ing count ingest_parse_Inr(1) [OF duplicate(1)] w
        by (auto simp: webhook_response_def hook_of_def count_webhook_def)
    next
      case (accepted rec st2 i now)
      then show ?thesis using False none r(1) ing count ingest_parse_Inr(1) [OF accepted(1)] w
        by (auto simp: webhook_response_def accepted_result_def hook_of_def count_webhook_def)
    qed
  qed
qed


text \<open>
  Every response carries the id of its request, or the next fresh id when the request has none, and
  an error envelope repeats it.
\<close>

lemma endpoint_request_id:
  "run_endpoint s e vals rid r st = (resp, st') \<Longrightarrow>
     hp_RequestID resp = rid \<and> (\<forall>c m q. hp_Body resp = BError c m q \<longrightarrow> q = rid)"
  by (cases e)
    (auto simp: run_endpoint_def healthz_def screenHandler_def getAlertHandler_def listAlertsHandler_def
      assignAlertHandler_def closeAlertHandler_def webhookHandler_def webhook_response_def Let_def
      split: sum.splits prod.splits if_splits)

theorem response_request_id:
  assumes "serve_http s r st = (resp, st')"
  shows "hp_RequestID resp = (if hr_Header r ''X-Request-Id'' \<noteq> '''' then hr_Header r ''X-Request-Id''
      else uuids (st_world (ks_core st)) (drawn (st_world (ks_core st))))
    \<and> hp_Body resp \<in> {b. \<exists>c m. b = BError c m (hp_RequestID resp)} \<union> {b. \<nexists>c m q. b = BError c m q}"
proof -
  obtain rid st1 where q: "request_id r st = (rid, st1)" by fastforce
  have rid: "rid = (if hr_Header r ''X-Request-Id'' \<noteq> '''' then hr_Header r ''X-Request-Id''
      else uuids (st_world (ks_core st)) (drawn (st_world (ks_core st))))"
    using q by (auto simp: request_id_def newID_def split: if_splits)
  have m: "NewMux s rid r st1 = (resp, st')" using assms q by (simp add: serve_http_def)
  have "hp_RequestID resp = rid \<and> (\<forall>c m q. hp_Body resp = BError c m q \<longrightarrow> q = rid)"
  proof (cases "find_route (hr_Method r) (hr_Path r)")
    case None
    then show ?thesis using m by (auto simp: NewMux_def)
  next
    case (Some ev)
    then show ?thesis using m endpoint_request_id [of s "fst ev" "snd ev" rid r st1 resp st']
      by (auto simp: NewMux_def split: prod.splits)
  qed
  then show ?thesis using rid by blast
qed

section \<open>REST and gRPC\<close>

text \<open>
  C8: The gRPC \<open>Screen\<close> runs the same screen as the REST endpoint for the same request: the state after
  it is the same, an answer carries the same fields, with the score as it is exactly when it fits
  into 32 bits, and an error has the code that belongs to the HTTP status.
\<close>

theorem grpc_mirrors_rest:
  assumes "decodeJSON unmarshal_request r = Inr (toScreenRequest p)"
    and "\<And>err. fst (Service_Screen (sv_Screen s) (ks_core st) (toScreenRequest p)) = Inl err \<Longrightarrow>
      \<not> errors_Is err ErrSignatureMismatch \<and> \<not> errors_Is err ErrBodyTooLarge"
  shows "snd (grpc_Screen s p st) = snd (screenHandler s rid r st)
    \<and> (case fst (grpc_Screen s p st) of
         Inl (code, msg) \<Rightarrow> code = code_of_status (hp_Status (fst (screenHandler s rid r st)))
       | Inr q \<Rightarrow> \<exists>a. hp_Status (fst (screenHandler s rid r st)) = 200 \<and> hp_Body (fst (screenHandler s rid r st)) = BScreen a
           \<and> ps_ScreenId q = rp_ScreenID a \<and> ps_Decision q = rp_Decision a \<and> ps_Exposure q = rp_Exposure a
           \<and> ps_Vendor q = rp_Vendor a \<and> ps_CacheHit q = rp_CacheHit a
           \<and> (ps_RiskScore q = rp_RiskScore a \<longleftrightarrow> - 2147483648 \<le> rp_RiskScore a \<and> rp_RiskScore a < 2147483648))"
proof -
  obtain x core where s: "Service_Screen (sv_Screen s) (ks_core st) (toScreenRequest p) = (x, core)" by fastforce
  show ?thesis
  proof (cases x)
    case (Inl err)
    have "fst (toGRPCError err) = code_of_status (ae_StatusCode (toAppError err))"
      using toGRPCError_agrees [of err] assms(2) [of err] s Inl by simp
    then show ?thesis using s Inl assms(1) by (simp add: grpc_Screen_def screenHandler_def split_beta)
  next
    case (Inr a)
    then show ?thesis using s assms(1)
      by (simp add: grpc_Screen_def screenHandler_def toProtoResponse_def wrap32_eq_iff)
  qed
qed

section \<open>Concrete requests\<close>

lemma demo_alerted_ok:
  "service_ok (\<lambda>m. m) (demo_kyt (demo_state\<lparr>st_world := demo_screen_world\<lparr>drawn := 1\<rparr>, st_alerts := demo_alerts\<rparr>))"
proof -
  have "dom (ms_mem demo_alerts) \<subseteq> {''a''}"
  proof
    fix i assume "i \<in> dom (ms_mem demo_alerts)"
    then show "i \<in> {''a''}" using demo_alerts_none [of i] by (cases "i = ''a''") auto
  qed
  moreover have "''a'' \<in> used_ids (demo_screen_world\<lparr>drawn := 1\<rparr>)" by (simp add: used_ids_def demo_screen_world_def)
  ultimately have "dom (ms_mem demo_alerts) \<subseteq> used_ids (demo_screen_world\<lparr>drawn := 1\<rparr>)" by blast
  moreover have "covered (map_of NewMemoryScreenStore) (ms_mem demo_alerts)" by (simp add: covered_def NewMemoryScreenStore_def)
  ultimately show ?thesis
    using demo_alerts_good demo_screen_world_fresh
    by (simp add: service_ok_def demo_kyt_def memory_state_ok_def alert_good_def)
      (simp add: demo_state_def mss_ok_def NewMemoryScreenStore_def mc_held_def NewMemoryCache_def)
qed

definition demo_request :: "string list \<Rightarrow> string \<Rightarrow> HttpReq" where
  "demo_request path body = \<lparr>hr_Method = ''POST'', hr_Path = path, hr_Query = (\<lambda>_. ''''),
     hr_Header = (\<lambda>h. if h = ''X-Request-Id'' then ''r1'' else ''''), hr_Body = (body, None)\<rparr>"

lemma demo_assign_body: "unmarshal_assign (marshal_obj [(''assignee'', VStr ''ann'')]) = Inr ''ann''"
proof -
  have "list_all ascii_field [(''assignee'', VStr ''ann'')]" by (simp add: is_ascii_def)
  then show ?thesis by (simp add: unmarshal_assign_def unmarshal_def parse_marshal_obj find_field_def set_str_def)
qed

lemma marshal_obj_length [simp]: "marshal_obj ms \<noteq> []"
  by (simp add: marshal_obj_def)

lemma demo_assign_decoded:
  "decodeJSON unmarshal_assign (demo_request path (marshal_obj [(''assignee'', VStr ''ann'')])) = Inr ''ann''"
  by (simp add: decodeJSON_def demo_request_def demo_assign_body)

lemma demo_request_simps [simp]:
  "hr_Method (demo_request path body) = ''POST''" "hr_Path (demo_request path body) = path"
  "hr_Body (demo_request path body) = (body, None)"
  by (simp_all add: demo_request_def)

abbreviation demo_alerted :: "MockProvider memory_kyt" where
  "demo_alerted \<equiv> demo_kyt (demo_state\<lparr>st_world := demo_screen_world\<lparr>drawn := 1\<rparr>, st_alerts := demo_alerts\<rparr>)"

lemma demo_alerted_alerts: "st_alerts (ks_core demo_alerted) = demo_alerts"
  by (simp add: demo_kyt_def)

definition demo_alert_a :: Alert where
  "demo_alert_a = \<lparr>al_ID = ''a'', al_ScreenID = ''s1'', al_TxID = ''tx1'', al_Address = ''0xbad'', al_Chain = ''ethereum'',
     al_Exposure = ''SANCTIONED'', al_Severity = ''critical'', al_Status = ''OPEN'', al_Assignee = '''',
     al_CreatedAt = 100, al_ClosedAt = None\<rparr>"

lemma demo_alert_a: "ms_mem demo_alerts ''a'' = Some demo_alert_a" "al_Status demo_alert_a \<noteq> ''CLOSED''"
  using demo_alerts_mem by (simp_all add: demo_alert_a_def)

abbreviation demo_dashboard :: "string \<Rightarrow> HttpReq" where
  "demo_dashboard op \<equiv> demo_request [''v1'', ''kyt'', ''alerts'', ''a'', op] (marshal_obj [(''assignee'', VStr ''ann'')])"

theorem close_endpoint_witness:
  "\<exists>now. hp_Body (fst (serve_http demo_services (demo_dashboard ''close'') demo_alerted))
      = BAlert (closed_copy now ''ann'' demo_alert_a)"
proof -
  have "''a'' \<noteq> ''''" by simp
  from close_endpoint [OF demo_alerted_ok this
      demo_request_simps(1) [of _ "marshal_obj [(''assignee'', VStr ''ann'')]"] demo_request_simps(2) surjective_pairing,
      of mock_provider demo_thresholds id demo_secrets, unfolded demo_assign_decoded demo_alerted_alerts demo_alert_a(1)]
  show ?thesis using demo_alert_a(2) by auto
qed

theorem assign_endpoint_witness:
  "hp_Body (fst (serve_http demo_services (demo_dashboard ''assign'') demo_alerted))
      = BAlert (assigned_copy ''ann'' demo_alert_a)"
proof -
  have "''a'' \<noteq> ''''" by simp
  from assign_endpoint [OF demo_alerted_ok this
      demo_request_simps(1) [of _ "marshal_obj [(''assignee'', VStr ''ann'')]"] demo_request_simps(2) surjective_pairing,
      of mock_provider demo_thresholds id demo_secrets, unfolded demo_assign_decoded demo_alerted_alerts demo_alert_a(1)]
  show ?thesis using demo_alert_a(2) by simp
qed


definition demo_screen_body :: string where
  "demo_screen_body = marshal_obj [(''tx_id'', VStr ''tx1''), (''address'', VStr ''0xbad''),
     (''chain'', VStr ''ethereum''), (''amount'', VStr ''1.5'')]"

lemma demo_screen_decoded:
  "decodeJSON unmarshal_request (demo_request path demo_screen_body) = Inr demo_request1"
proof -
  have "list_all ascii_field [(''tx_id'', VStr ''tx1''), (''address'', VStr ''0xbad''),
     (''chain'', VStr ''ethereum''), (''amount'', VStr ''1.5'')]" by (simp add: is_ascii_def)
  then have "unmarshal_request demo_screen_body = Inr demo_request1"
    by (simp add: unmarshal_request_def unmarshal_def demo_screen_body_def parse_marshal_obj find_field_def request_fields_def
        request_setter_def set_str_def zero_Request_def demo_request1_def)
  then show ?thesis by (simp add: decodeJSON_def) (simp add: demo_screen_body_def)
qed

theorem screen_endpoint_witness:
  "hp_Status (fst (serve_http demo_services (demo_request [''v1'', ''kyt'', ''screen''] demo_screen_body) (demo_kyt demo_state))) = 200"
proof -
  from screen_endpoint [OF mock_adv.screen_provider_axioms demo_kyt_ok(1)
      demo_request_simps(1) [of _ demo_screen_body] demo_request_simps(2) surjective_pairing,
      of demo_thresholds id demo_secrets, unfolded demo_screen_decoded]
  show ?thesis using demo_request_valid by auto
qed

lemma demo_kyt_seen [simp]: "ks_seen (demo_kyt core) = {}"
  by (simp add: demo_kyt_def)

lemma demo_signed: "signed_by demo_secrets ''chainalysis'' demo_hook_body (demo_sig ''k1'')"
  using ingest_parse_Inr(1) [OF demo_hook_parsed(1)] .

lemma demo_hook_body_short: "\<not> length demo_hook_body > 1048576"
  by (simp add: demo_hook_body_def marshal_obj_def json_quote_def escape_ascii_def)

theorem webhook_endpoint_witness:
  "hp_Body (fst (serve_http demo_services demo_post (demo_kyt demo_state))) = BWebhook False ''ev1''"
proof -
  have p: "hr_Method demo_post = ''POST''" "hr_Path demo_post = [''v1'', ''webhooks'', ''chainalysis'']"
    "hr_Body demo_post = (demo_hook_body, None)" "''chainalysis'' \<noteq> ''''"
    by (simp_all add: demo_post_def)
  have sig: "webhook_sig demo_post = demo_sig ''k1''" by (simp add: webhook_sig_def demo_post_def demo_sig_def)
  from webhook_endpoint [OF demo_kyt_ok(1) p(4,1,2,3) surjective_pairing,
      of mock_provider demo_thresholds id demo_secrets, unfolded sig demo_hook_parsed(1) if_not_P [OF demo_hook_body_short]]
  show ?thesis using demo_signed by (simp add: demo_rec_def Let_def)
qed

theorem response_request_id_witness:
  "hp_RequestID (fst (serve_http demo_services (demo_request [''nowhere''] '''') (demo_kyt demo_state))) = ''r1''"
  using response_request_id [OF surjective_pairing, of demo_services "demo_request [''nowhere''] ''''" "demo_kyt demo_state"]
  by (simp add: demo_request_def)

theorem grpc_mirrors_rest_witness:
  "case fst (grpc_Screen demo_services demo_pb (demo_kyt demo_state)) of
     Inl _ \<Rightarrow> False | Inr q \<Rightarrow> ps_RiskScore q = 95 \<and> ps_Decision q = ''BLOCK''"
proof -
  let ?r = "demo_request [''v1'', ''kyt'', ''screen''] demo_screen_body"
  obtain core where s: "Service_Screen (memory_service (\<lambda>m. m) mock_provider demo_thresholds id) demo_state demo_request1
      = (Inr \<lparr>rp_ScreenID = ''a'', rp_RiskScore = 95, rp_Exposure = ''SANCTIONED'', rp_Decision = ''BLOCK'',
          rp_Vendor = ''mock'', rp_CacheHit = False\<rparr>, core)"
    using demo_screen_first by (metis prod.collapse)
  then have "decodeJSON unmarshal_request ?r = Inr (toScreenRequest demo_pb)"
    "\<And>err. fst (Service_Screen (sv_Screen demo_services) (ks_core (demo_kyt demo_state)) (toScreenRequest demo_pb)) \<noteq> Inl err"
    by (simp_all add: demo_screen_decoded demo_pb_request demo_kyt_def)
  from grpc_mirrors_rest [OF this(1), of demo_services "demo_kyt demo_state" "''r1''"] this(2) s
  show ?thesis
    by (simp add: demo_kyt_def demo_pb_request grpc_Screen_def screenHandler_def demo_screen_decoded toProtoResponse_def)
qed

end
