(* ===== verification/Tracing.thy ===== *)
theory Tracing
  imports Endpoints
begin

text \<open>
  \<open>internal/tracing/tracing.go\<close>, the trace middleware and the listening server of \<open>internal/api/api.go\<close>, and the
  interceptor of \<open>internal/grpcserver/server.go\<close>: the life cycle of the tracer provider, the spans that the
  middleware, the interceptor and the gRPC methods start (those of the screen and of the vendor call are left
  out), and that they change no answer.  The OpenTelemetry library is left abstract: a
  provider is known by the number it was made as, the exporter and the shutdown of a provider are
  parameters, and a span is what has been recorded on it.  Contexts are explicit arguments.
\<close>

section \<open>The tracer provider\<close>

record TracerProvider =
  tp_number :: nat
  tp_exporter :: "(string \<times> bool) option"

text \<open>
  \<open>tracerShutdown\<close> is the shutdown of the installed provider.  \<open>tg_global\<close> is the provider the library
  hands to \<open>otel.Tracer\<close>; \<open>tg_stopped\<close> records whose shutdown has been called.
\<close>

record TracerState =
  tg_shutdown :: "TracerProvider option"
  tg_global :: "TracerProvider option"
  tg_propagators :: "string list"
  tg_made :: nat
  tg_stopped :: "nat list"

definition no_tracer :: TracerState where
  "no_tracer = \<lparr>tg_shutdown = None, tg_global = None, tg_propagators = [], tg_made = 0, tg_stopped = []\<rparr>"

definition Install ::
    "(string \<Rightarrow> bool \<Rightarrow> go_error option) \<Rightarrow> environ \<Rightarrow> TracerState \<Rightarrow> (go_error + TracerProvider) \<times> TracerState" where
  "Install otlp env t =
     (case tg_shutdown t of
        Some tp \<Rightarrow> (Inr tp, t)
      | None \<Rightarrow>
          (let endpoint = Getenv env ''OTEL_EXPORTER_OTLP_ENDPOINT'';
               insecure = (Getenv env ''OTEL_EXPORTER_OTLP_INSECURE'' \<noteq> '''');
               made = (if endpoint = '''' then Inr None
                       else (case otlp endpoint insecure of
                               Some expErr \<Rightarrow> Inl (Wrap ''otlp exporter'' expErr)
                             | None \<Rightarrow> Inr (Some (endpoint, insecure))))
           in case made of
                Inl err \<Rightarrow> (Inl err, t)
              | Inr exp \<Rightarrow>
                  (let tp = \<lparr>tp_number = tg_made t, tp_exporter = exp\<rparr>
                   in (Inr tp, t\<lparr>tg_made := Suc (tg_made t), tg_global := Some tp,
                         tg_propagators := [''tracecontext'', ''baggage''], tg_shutdown := Some tp\<rparr>))))"

definition tracing_Shutdown ::
    "(TracerProvider \<Rightarrow> go_error option) \<Rightarrow> TracerState \<Rightarrow> go_error option \<times> TracerState" where
  "tracing_Shutdown stop t =
     (let sd = tg_shutdown t; t1 = t\<lparr>tg_shutdown := None\<rparr> in
      case sd of
        None \<Rightarrow> (None, t1)
      | Some tp \<Rightarrow> (stop tp, t1\<lparr>tg_stopped := tg_stopped t1 @ [tp_number tp]\<rparr>))"

text \<open>Installations and shutdowns in any order; the environment may change in between.\<close>

datatype tracer_op = OpInstall environ | OpShutdown

fun tracer_step ::
    "(string \<Rightarrow> bool \<Rightarrow> go_error option) \<Rightarrow> (TracerProvider \<Rightarrow> go_error option) \<Rightarrow> tracer_op \<Rightarrow> TracerState \<Rightarrow> TracerState" where
  "tracer_step otlp stop (OpInstall env) t = snd (Install otlp env t)"
| "tracer_step otlp stop OpShutdown t = snd (tracing_Shutdown stop t)"

text \<open>The providers that have been made are the stopped ones and the installed one, each once.\<close>

definition tracer_ok :: "TracerState \<Rightarrow> bool" where
  "tracer_ok t \<longleftrightarrow>
     tg_stopped t @ (case tg_shutdown t of None \<Rightarrow> [] | Some tp \<Rightarrow> [tp_number tp]) = [0..<tg_made t]
   \<and> (\<forall>tp. tg_shutdown t = Some tp \<longrightarrow> tg_global t = Some tp)"

lemma tracer_ok_step: "tracer_ok t \<Longrightarrow> tracer_ok (tracer_step otlp stop p t)"
  by (cases p) (auto simp: tracer_ok_def Install_def tracing_Shutdown_def Let_def split: option.splits sum.splits if_splits)

lemma tracer_ok_run: "tracer_ok t \<Longrightarrow> tracer_ok (fold (tracer_step otlp stop) ps t)"
  by (induction ps arbitrary: t) (simp_all add: tracer_ok_step)

lemma tracer_ok_new: "tracer_ok no_tracer"
  by (simp add: tracer_ok_def no_tracer_def)

section \<open>Spans\<close>

datatype SpanKind = SpanKindInternal | SpanKindServer | SpanKindClient

record Span =
  sp_Name :: string
  sp_Kind :: SpanKind
  sp_Errors :: "string list"
  sp_Status :: "string option"
  sp_HTTPStatus :: "int option"

definition StartSpan :: "string \<Rightarrow> SpanKind \<Rightarrow> Span" where
  "StartSpan name kind = \<lparr>sp_Name = name, sp_Kind = kind, sp_Errors = [], sp_Status = None, sp_HTTPStatus = None\<rparr>"

text \<open>
  What is done to a span only has an effect while it is recording, which is decided when it is started (by
  the sampling flag of an incoming trace): \<open>rec\<close>.
\<close>

definition tracing_RecordError :: "bool \<Rightarrow> go_error option \<Rightarrow> Span \<Rightarrow> Span" where
  "tracing_RecordError rec err sp =
     (case err of
        None \<Rightarrow> sp
      | Some e \<Rightarrow>
          if rec then sp\<lparr>sp_Errors := sp_Errors sp @ [error_text e], sp_Status := Some (error_text e)\<rparr> else sp)"

section \<open>The trace middleware\<close>

text \<open>
  What a handler does to its writer.  \<open>net/http\<close> sends the first status that is written, or \<open>200\<close> with the
  first byte of the body.
\<close>

datatype write_op = SetHeader string string | WriteHeader int | WriteBody string

record http_writer =
  hw_Header :: "(string \<times> string) list"
  hw_Status :: "int option"
  hw_Body :: string

fun http_op :: "write_op \<Rightarrow> http_writer \<Rightarrow> http_writer" where
  "http_op (SetHeader k v) w = w\<lparr>hw_Header := AList.update k v (hw_Header w)\<rparr>"
| "http_op (WriteHeader c) w = (if hw_Status w = None then w\<lparr>hw_Status := Some c\<rparr> else w)"
| "http_op (WriteBody b) w =
     w\<lparr>hw_Status := (if hw_Status w = None then Some StatusOK else hw_Status w), hw_Body := hw_Body w @ b\<rparr>"

text \<open>The recorder embeds a writer, whose other methods it inherits, and keeps the last status it has forwarded.\<close>

record statusRecorder =
  rw_ResponseWriter :: http_writer
  rw_status :: int

definition statusRecorder_WriteHeader :: "int \<Rightarrow> statusRecorder \<Rightarrow> statusRecorder" where
  "statusRecorder_WriteHeader code s =
     (let s1 = s\<lparr>rw_status := code\<rparr> in s1\<lparr>rw_ResponseWriter := http_op (WriteHeader code) (rw_ResponseWriter s1)\<rparr>)"

fun recorder_op :: "write_op \<Rightarrow> statusRecorder \<Rightarrow> statusRecorder" where
  "recorder_op (WriteHeader c) s = statusRecorder_WriteHeader c s"
| "recorder_op p s = s\<lparr>rw_ResponseWriter := http_op p (rw_ResponseWriter s)\<rparr>"

text \<open>\<open>http.StatusText\<close> of the codes at and above 500 that the service answers with.\<close>

definition StatusText :: "int \<Rightarrow> string" where
  "StatusText c = (if c = StatusInternalServerError then ''Internal Server Error'' else '''')"

definition url_path :: "HttpReq \<Rightarrow> string" where
  "url_path r = concat (map (\<lambda>s. ''/'' @ s) (hr_Path r))"

text \<open>
  The middleware around a handler: from the request and the state it has what it does to the writer, the
  new state, and the spans it leaves itself.
\<close>

definition traceMiddleware ::
    "bool \<Rightarrow> (HttpReq \<Rightarrow> 's \<Rightarrow> write_op list \<times> 's \<times> Span list) \<Rightarrow> http_writer \<Rightarrow> HttpReq \<Rightarrow> 's
     \<Rightarrow> http_writer \<times> 's \<times> Span list" where
  "traceMiddleware rec handler w r st =
     (let spanName = hr_Method r @ '' '' @ url_path r;
          span = StartSpan spanName SpanKindServer;
          (ops, st1, spans) = handler r st;
          rw = fold recorder_op ops \<lparr>rw_ResponseWriter = w, rw_status = StatusOK\<rparr>;
          span1 = (if rec then span\<lparr>sp_HTTPStatus := Some (rw_status rw)\<rparr> else span);
          span2 = (if rw_status rw \<ge> 500 \<and> rec then span1\<lparr>sp_Status := Some (StatusText (rw_status rw))\<rparr> else span1)
      in (rw_ResponseWriter rw, st1, spans @ [span2]))"

text \<open>\<open>NewServer\<close>.\<close>

record HTTPServer =
  srv_Addr :: string
  srv_ReadHeaderTimeout :: duration

definition api_NewServer :: "string \<Rightarrow> HTTPServer" where
  "api_NewServer addr = \<lparr>srv_Addr = addr, srv_ReadHeaderTimeout = 5 * second\<rparr>"


section \<open>The gRPC server\<close>

text \<open>The text of a gRPC status as an error value.\<close>

definition Code_String :: "Code \<Rightarrow> string" where
  "Code_String c =
     (case c of InvalidArgument \<Rightarrow> ''InvalidArgument'' | Unauthenticated \<Rightarrow> ''Unauthenticated'' | NotFound \<Rightarrow> ''NotFound''
      | FailedPrecondition \<Rightarrow> ''FailedPrecondition'' | ResourceExhausted \<Rightarrow> ''ResourceExhausted'' | Internal \<Rightarrow> ''Internal'')"

definition status_error :: "grpc_status \<Rightarrow> go_error" where
  "status_error st = ErrText (''rpc error: code = '' @ Code_String (fst st) @ '' desc = '' @ snd st)"

definition unaryTraceInterceptor ::
    "bool \<Rightarrow> string \<Rightarrow> ('s \<Rightarrow> (grpc_status + 'b) \<times> 's \<times> Span list) \<Rightarrow> 's
     \<Rightarrow> (grpc_status + 'b) \<times> 's \<times> Span list" where
  "unaryTraceInterceptor rec fullMethod handler st =
     (let span = StartSpan fullMethod SpanKindServer;
          (resp, st1, spans) = handler st;
          span1 = (case resp of Inl err \<Rightarrow> tracing_RecordError rec (Some (status_error err)) span | Inr _ \<Rightarrow> span)
      in (resp, st1, spans @ [span1]))"

text \<open>The two methods with the span each of them starts; on it the error is recorded before it is converted.\<close>

definition traced_grpc_Screen ::
    "bool \<Rightarrow> ('c, 'p, 's, 'a) Services \<Rightarrow> pb_ScreenRequest \<Rightarrow> ('c, 'p, 's, 'a) kyt_state
     \<Rightarrow> (grpc_status + pb_ScreenResponse) \<times> ('c, 'p, 's, 'a) kyt_state \<times> Span list" where
  "traced_grpc_Screen rec s p st =
     (let span = StartSpan ''KYTService.Screen'' SpanKindServer in
      case Service_Screen (sv_Screen s) (ks_core st) (toScreenRequest p) of
        (Inl err, core) \<Rightarrow> (Inl (toGRPCError err), st\<lparr>ks_core := core\<rparr>, [tracing_RecordError rec (Some err) span])
      | (Inr resp, core) \<Rightarrow> (Inr (toProtoResponse resp), st\<lparr>ks_core := core\<rparr>, [span]))"

definition traced_grpc_GetAlert ::
    "bool \<Rightarrow> (gotime \<Rightarrow> string) \<Rightarrow> ('c, 'p, 's, 'a) Services \<Rightarrow> string \<Rightarrow> ('c, 'p, 's, 'a) kyt_state
     \<Rightarrow> (grpc_status + pb_Alert) \<times> ('c, 'p, 's, 'a) kyt_state \<times> Span list" where
  "traced_grpc_GetAlert rec fmt s i st =
     (let span = StartSpan ''KYTService.GetAlert'' SpanKindServer in
      case AlertService_Get (sv_Alerts s) (st_alerts (ks_core st)) i of
        Inl err \<Rightarrow> (Inl (toGRPCError err), st, [tracing_RecordError rec (Some err) span])
      | Inr a \<Rightarrow> (Inr (toProtoAlert fmt a), st, [span]))"

text \<open>
  \<open>Server\<close>: \<open>Start\<close> binds the address and serves on the listener, \<open>Stop\<close> stops gracefully.  The network
  and the library's \<open>Serve\<close> are parameters.
\<close>

record 'l Server =
  gs_running :: bool
  gs_listener :: "'l option"

definition grpc_NewServer :: "'l Server" where
  "grpc_NewServer = \<lparr>gs_running = True, gs_listener = None\<rparr>"

definition Server_Start ::
    "(string \<Rightarrow> go_error + 'l) \<Rightarrow> ('l \<Rightarrow> bool \<Rightarrow> go_error option) \<Rightarrow> string \<Rightarrow> 'l Server \<Rightarrow> go_error option \<times> 'l Server" where
  "Server_Start listen serve addr s =
     (case listen addr of
        Inl err \<Rightarrow> (Some err, s)
      | Inr ln \<Rightarrow> (let s1 = s\<lparr>gs_listener := Some ln\<rparr> in (serve ln (gs_running s1), s1)))"

definition Server_Stop :: "'l Server \<Rightarrow> 'l Server" where
  "Server_Stop s = s\<lparr>gs_running := False\<rparr>"

section \<open>Tracing changes nothing\<close>

lemma recorder_forwards: "rw_ResponseWriter (fold recorder_op ops s) = fold http_op ops (rw_ResponseWriter s)"
proof (induction ops arbitrary: s)
  case (Cons p ops)
  then show ?case by (cases p) (simp_all add: statusRecorder_WriteHeader_def Let_def)
qed simp

text \<open>A handler that writes its status at most once, before the body, is recorded with the status it sent.\<close>

fun one_header :: "write_op list \<Rightarrow> bool" where
  "one_header [] \<longleftrightarrow> True"
| "one_header (SetHeader k v # ws) \<longleftrightarrow> one_header ws"
| "one_header (w # ws) \<longleftrightarrow> list_all (\<lambda>w. \<not> (\<exists>c. w = WriteHeader c)) ws"

lemma recorder_keeps:
  "list_all (\<lambda>w. \<not> (\<exists>c. w = WriteHeader c)) ws \<Longrightarrow> rw_status (fold recorder_op ws s) = rw_status s"
proof (induction ws arbitrary: s)
  case (Cons p ws)
  then show ?case by (cases p) simp_all
qed simp

lemma sent_keeps: "hw_Status w = Some c \<Longrightarrow> hw_Status (fold http_op ops w) = Some c"
proof (induction ops arbitrary: w)
  case (Cons p ops)
  then show ?case by (cases p) simp_all
qed simp

lemma recorded_is_sent:
  "one_header ops \<Longrightarrow> hw_Status (rw_ResponseWriter s) = None \<Longrightarrow> rw_status s = StatusOK \<Longrightarrow>
     rw_status (fold recorder_op ops s) = (case hw_Status (fold http_op ops (rw_ResponseWriter s)) of None \<Rightarrow> StatusOK | Some c \<Rightarrow> c)"
  by (induction ops arbitrary: s rule: one_header.induct)
    (simp_all add: statusRecorder_WriteHeader_def recorder_keeps sent_keeps)

lemma StartSpan_simps [simp]:
  "sp_Name (StartSpan n k) = n" "sp_Kind (StartSpan n k) = k" "sp_Errors (StartSpan n k) = []"
  "sp_Status (StartSpan n k) = None" "sp_HTTPStatus (StartSpan n k) = None"
  by (simp_all add: StartSpan_def)

lemma RecordError_simps [simp]:
  "sp_Name (tracing_RecordError rec e sp) = sp_Name sp" "sp_Kind (tracing_RecordError rec e sp) = sp_Kind sp"
  "sp_Status (tracing_RecordError True (Some x) sp) = Some (error_text x)"
  by (simp_all add: tracing_RecordError_def split: option.split)

text \<open>
  Whatever a handler does, its writer and its state end as without the middleware.  One that writes its status
  at most once, before the body, leaves after its own spans a server span with its method and path,
  the status that was sent, and an error exactly from 500 on.
\<close>

theorem traced_writer:
  assumes "handler r st = (ops, st1, inner)" and "traceMiddleware rec handler w r st = (w', st', spans)"
  shows "w' = fold http_op ops w \<and> st' = st1
    \<and> (rec \<and> one_header ops \<and> hw_Status w = None \<longrightarrow>
        (\<exists>sp. spans = inner @ [sp] \<and> sp_Kind sp = SpanKindServer \<and> sp_Name sp = hr_Method r @ '' '' @ url_path r
          \<and> sp_HTTPStatus sp = Some (case hw_Status w' of None \<Rightarrow> StatusOK | Some c \<Rightarrow> c)
          \<and> (sp_Status sp \<noteq> None \<longleftrightarrow> (case hw_Status w' of None \<Rightarrow> False | Some c \<Rightarrow> c \<ge> 500))))"
proof -
  let ?s = "\<lparr>rw_ResponseWriter = w, rw_status = StatusOK\<rparr>"
  have w': "w' = fold http_op ops w" "st' = st1" using assms by (auto simp: traceMiddleware_def recorder_forwards Let_def)
  have "rw_status (fold recorder_op ops ?s) = (case hw_Status w' of None \<Rightarrow> StatusOK | Some c \<Rightarrow> c)"
    if "one_header ops" "hw_Status w = None"
    using recorded_is_sent [of ops ?s] that by (simp add: w')
  then show ?thesis using assms w' by (auto simp: traceMiddleware_def Let_def split: option.splits)
qed

text \<open>Without a recording provider, or with one, a gRPC call is answered alike and its two spans agree.\<close>

lemma traced_grpc_screen:
  "unaryTraceInterceptor rec name (traced_grpc_Screen rec s p) st =
     (fst (grpc_Screen s p st), snd (grpc_Screen s p st), snd (snd (unaryTraceInterceptor rec name (traced_grpc_Screen rec s p) st)))"
  by (simp add: unaryTraceInterceptor_def traced_grpc_Screen_def grpc_Screen_def Let_def split: prod.split sum.split)

lemma traced_grpc_alert:
  "unaryTraceInterceptor rec name (traced_grpc_GetAlert rec fmt s i) st =
     (fst (grpc_GetAlert fmt s i st), snd (grpc_GetAlert fmt s i st),
      snd (snd (unaryTraceInterceptor rec name (traced_grpc_GetAlert rec fmt s i) st)))"
  by (simp add: unaryTraceInterceptor_def traced_grpc_GetAlert_def grpc_GetAlert_def Let_def split: prod.split sum.split)

lemma grpc_spans:
  assumes "unaryTraceInterceptor True name (traced_grpc_Screen True s p) st = (x, st', spans)"
  shows "\<exists>inner sp. spans = [inner, sp] \<and> sp_Name inner = ''KYTService.Screen'' \<and> sp_Name sp = name
    \<and> (sp_Status inner = None \<longleftrightarrow> \<not> isl x) \<and> (sp_Status sp = None \<longleftrightarrow> \<not> isl x)"
  using assms
  by (auto simp: unaryTraceInterceptor_def traced_grpc_Screen_def Let_def split: prod.splits sum.splits)

text \<open>
  No tracer provider is leaked or stopped twice.  However installations and shutdowns follow one
  another, with whatever endpoints, every provider that was made has been shut down exactly once, in
  order, but for the installed one; that one is the global one, and another installation returns it.
\<close>

theorem tracer_providers_released:
  "let t = fold (tracer_step otlp stop) ps no_tracer in
     (case tg_shutdown t of
        None \<Rightarrow> tg_stopped t = [0..<tg_made t]
      | Some tp \<Rightarrow> tg_stopped t @ [tp_number tp] = [0..<tg_made t] \<and> tg_global t = Some tp
          \<and> Install otlp env t = (Inr tp, t))
     \<and> tg_stopped (tracer_step otlp stop OpShutdown t) = [0..<tg_made t]"
proof -
  let ?t = "fold (tracer_step otlp stop) ps no_tracer"
  have "tracer_ok ?t" by (rule tracer_ok_run [OF tracer_ok_new])
  then show ?thesis
    by (auto simp: tracer_ok_def Install_def tracing_Shutdown_def Let_def split: option.splits)
qed

end
