(* ===== verification/Alert_Race.thy ===== *)
theory Alert_Race
  imports Alert
begin

text \<open>
  \<open>Assign\<close> and \<open>Close\<close> of \<open>internal/alert/alert.go\<close> read an alert, change the copy and write it back;
  the store's mutex covers each call of the store, not the two together.  Here the two halves are
  steps of their own, the operations are shown to be one half after the other, and two requests on
  one alert are interleaved.
\<close>

section \<open>The two halves\<close>

definition assign_read :: "'s AlertStore \<Rightarrow> 's \<Rightarrow> string \<Rightarrow> string \<Rightarrow> go_error + Alert" where
  "assign_read store s i assignee =
     (case AlertService_Get store s i of
        Inl e \<Rightarrow> Inl e
      | Inr a \<Rightarrow> if al_Status a = StatusClosed then Inl ErrAlreadyClosed
                 else Inr (a\<lparr>al_Status := StatusInReview, al_Assignee := assignee\<rparr>))"

definition close_read :: "'s AlertStore \<Rightarrow> gotime \<Rightarrow> 's \<Rightarrow> string \<Rightarrow> string \<Rightarrow> go_error + Alert" where
  "close_read store now s i assignee =
     (case AlertService_Get store s i of
        Inl e \<Rightarrow> Inl e
      | Inr a \<Rightarrow> if al_Status a = StatusClosed then Inl ErrAlreadyClosed
                 else Inr (a\<lparr>al_Status := StatusClosed, al_Assignee := (if assignee \<noteq> '''' then assignee else al_Assignee a),
                             al_ClosedAt := Some now\<rparr>))"

definition write_back :: "'s AlertStore \<Rightarrow> 's \<Rightarrow> go_error + Alert \<Rightarrow> (go_error + Alert) \<times> 's" where
  "write_back store s r =
     (case r of
        Inl e \<Rightarrow> (Inl e, s)
      | Inr a \<Rightarrow> (case as_Update store s a of (Some e, s1) \<Rightarrow> (Inl e, s1) | (None, s1) \<Rightarrow> (Inr a, s1)))"

lemma assign_halves: "AlertService_Assign store s i who = write_back store s (assign_read store s i who)"
  by (simp add: AlertService_Assign_def assign_read_def write_back_def Let_def split: sum.split)

lemma close_halves:
  "AlertService_Close store w s i who =
     (case write_back store s (close_read store (clk w (ticks w)) s i who) of
        (r, s1) \<Rightarrow> (r, w\<lparr>ticks := Suc (ticks w)\<rparr>, s1))"
  by (simp add: AlertService_Close_def close_read_def write_back_def time_Now_def Let_def
      split: sum.split prod.split option.split)

section \<open>Requests in flight\<close>

text \<open>
  A request is idle or holds the copy it is about to write.  A state is the store and the copies of
  the requests in flight, by request number.
\<close>

datatype dash_op = DAssign string string | DClose gotime string string

fun dash_read :: "'s AlertStore \<Rightarrow> 's \<Rightarrow> dash_op \<Rightarrow> go_error + Alert" where
  "dash_read store s (DAssign i who) = assign_read store s i who"
| "dash_read store s (DClose now i who) = close_read store now s i who"

inductive dash_step ::
    "'s AlertStore \<Rightarrow> 's \<times> (nat \<rightharpoonup> Alert) \<Rightarrow> 's \<times> (nat \<rightharpoonup> Alert) \<Rightarrow> bool" for store where
  take: "fl t = None \<Longrightarrow> dash_read store s op = Inr a \<Longrightarrow> dash_step store (s, fl) (s, fl(t \<mapsto> a))"
| put: "fl t = Some a \<Longrightarrow> write_back store s (Inr a) = (r, s1) \<Longrightarrow> dash_step store (s, fl) (s1, fl(t := None))"

inductive_cases dash_stepE: "dash_step store x y"

abbreviation closed_in :: "MemoryStore \<Rightarrow> string \<Rightarrow> bool" where
  "closed_in s i \<equiv> \<exists>a. ms_mem s i = Some a \<and> al_Status a = StatusClosed"

text \<open>
  C11: A closed alert is opened again.  From any state in which an alert is not closed, an assignment that
  reads it before a close and writes after it leaves the alert in review without its closing time,
  although the close has been acknowledged.
\<close>

theorem assign_reopens_closed_alert:
  assumes "alert_good s" and "ms_mem s i = Some a" and "al_Status a \<noteq> StatusClosed"
  shows "\<exists>s1 fl1 s2. (dash_step memory_alert_store)\<^sup>*\<^sup>* (s, Map.empty) (s1, fl1) \<and> closed_in s1 i
    \<and> dash_step memory_alert_store (s1, fl1) (s2, Map.empty) \<and> ms_mem s2 i = Some (assigned_copy who a)"
proof -
  have ok: "mem_ok s" and i: "al_ID a = i" using assms(1,2) by (auto simp: alert_good_def wf_table_def)
  let ?b = "assigned_copy who a" and ?c = "closed_copy now who2 a"
  have get: "AlertService_Get memory_alert_store s i = Inr a"
    using mas.service_get [OF ok, of i] assms(2) by simp
  have read1: "dash_read memory_alert_store s (DAssign i who) = Inr ?b"
    using get assms(3) by (simp add: assign_read_def assigned_copy_def)
  have read2: "dash_read memory_alert_store s (DClose now i who2) = Inr ?c"
    using get assms(3) by (simp add: close_read_def closed_copy_def)
  define s1 where "s1 = s\<lparr>ms_mem := (ms_mem s)(i \<mapsto> ?c)\<rparr>"
  define s2 where "s2 = s1\<lparr>ms_mem := (ms_mem s1)(i \<mapsto> ?b)\<rparr>"
  have write1: "write_back memory_alert_store s (Inr ?c) = (Inr ?c, s1)"
    using assms(2) i by (simp add: write_back_def MemoryStore_Update_def s1_def)
  have write2: "write_back memory_alert_store s1 (Inr ?b) = (Inr ?b, s2)"
    using i by (simp add: write_back_def MemoryStore_Update_def s1_def s2_def)
  have step1: "dash_step memory_alert_store (s, Map.empty) (s, [0 \<mapsto> ?b])"
    using dash_step.take [OF _ read1, of Map.empty 0] by simp
  have step2: "dash_step memory_alert_store (s, [0 \<mapsto> ?b]) (s, [0 \<mapsto> ?b, 1 \<mapsto> ?c])"
    using dash_step.take [OF _ read2, of "[0 \<mapsto> ?b]" 1] by simp
  have step3: "dash_step memory_alert_store (s, [0 \<mapsto> ?b, 1 \<mapsto> ?c]) (s1, [0 \<mapsto> ?b])"
    using dash_step.put [OF _ write1, of "[0 \<mapsto> ?b, 1 \<mapsto> ?c]" 1] by (simp add: fun_upd_twist)
  have step4: "dash_step memory_alert_store (s1, [0 \<mapsto> ?b]) (s2, Map.empty)"
    using dash_step.put [OF _ write2, of "[0 \<mapsto> ?b]" 0] by simp
  note r_into_rtranclp [of "dash_step memory_alert_store", OF step1]
  also note rtranclp.rtrancl_into_rtrancl [of "dash_step memory_alert_store", OF rtranclp.rtrancl_refl step2]
  also note r_into_rtranclp [of "dash_step memory_alert_store", OF step3]
  finally have "(dash_step memory_alert_store)\<^sup>*\<^sup>* (s, Map.empty) (s1, [0 \<mapsto> ?b])" .
  moreover have "closed_in s1 i" by (simp add: s1_def closed_copy_def)
  moreover have "ms_mem s2 i = Some ?b" by (simp add: s2_def)
  ultimately show ?thesis using step4 by blast
qed

theorem assign_reopens_closed_alert_witness:
  "\<exists>s1 fl1 s2 b. dash_step memory_alert_store (s1, fl1) (s2, Map.empty) \<and> closed_in s1 ''a''
    \<and> ms_mem s2 ''a'' = Some b \<and> al_Status b = ''IN_REVIEW'' \<and> al_ClosedAt b = None"
proof -
  obtain a where a: "ms_mem demo_alerts ''a'' = Some a" "al_Status a \<noteq> StatusClosed" "al_ClosedAt a = None"
    using demo_alerts_mem by simp
  then have "al_Status (assigned_copy ''ann'' a) = ''IN_REVIEW''" "al_ClosedAt (assigned_copy ''ann'' a) = None"
    by (simp_all add: assigned_copy_def)
  then show ?thesis using assign_reopens_closed_alert [OF demo_alerts_good a(1,2), of "''ann''"] by blast
qed

end
