(* ===== verification/Screen_Race.thy ===== *)
theory Screen_Race
  imports Service_Run
begin

text \<open>
  \<open>Screen\<close> of \<open>internal/screen/screen.go\<close> holds no lock while it waits for the vendor.  Here a screen that
  misses the cache is two steps, up to the vendor's answer and from it on; they are shown to be the whole
  screen when nothing comes between, and a webhook delivery for the same address is put between them.
\<close>

section \<open>The two halves\<close>

text \<open>A screen is finished, or waits with the time it was started and what the vendor has answered.\<close>

datatype screen_flight = Finished "go_error + Response" | Waiting gotime "go_error + ScreenResponse"

text \<open>The deferred observation of the duration, and the count of the screen.\<close>

definition screen_done :: "gotime \<Rightarrow> ('c, 'p, 's, 'a) screen_state \<Rightarrow> ('c, 'p, 's, 'a) screen_state" where
  "screen_done start st =
     (let (fin, w1) = time_Now (st_world st);
          m = ObserveScreenDuration (time_Sub fin start) (st_metrics st)
      in st\<lparr>st_world := w1, st_metrics := m\<lparr>ScreenTotal := ctr_add (ScreenTotal m) 1\<rparr>\<rparr>)"

definition screen_start ::
    "('c, 'p, 's, 'a) Service \<Rightarrow> ('c, 'p, 's, 'a) screen_state \<Rightarrow> Request \<Rightarrow> screen_flight \<times> ('c, 'p, 's, 'a) screen_state" where
  "screen_start svc st req =
     (case validate req of
        Some e \<Rightarrow> (Finished (Inl e), st)
      | None \<Rightarrow>
          (let (start, w0) = time_Now (st_world st) in
           case screen_lookup svc (st\<lparr>st_world := w0\<rparr>) req of
             (Some v, st1) \<Rightarrow>
               (case finalize svc
                    (st1\<lparr>st_metrics := (st_metrics st1)\<lparr>CacheHitsTotal := ctr_add (CacheHitsTotal (st_metrics st1)) 1\<rparr>\<rparr>)
                    req (vd_RiskScore v) (vd_Exposure v) (vd_Decision v) (vd_Vendor v) True of
                  (r, st2) \<Rightarrow> (Finished r, screen_done start st2))
           | (None, st1) \<Rightarrow>
               (let st2 = st1\<lparr>st_metrics := (st_metrics st1)\<lparr>CacheMissesTotal := ctr_add (CacheMissesTotal (st_metrics st1)) 1\<rparr>\<rparr> in
                case prov_Screen (svc_provider svc) (st_world st2) (st_provider st2) (vendor_request_of req) of
                  (x, w, p) \<Rightarrow> (Waiting start x, st2\<lparr>st_world := w, st_provider := p\<rparr>))))"

definition vendor_answered ::
    "('c, 'p, 's, 'a) Service \<Rightarrow> ('c, 'p, 's, 'a) screen_state \<Rightarrow> Request \<Rightarrow> go_error + ScreenResponse
     \<Rightarrow> (go_error + Response) \<times> ('c, 'p, 's, 'a) screen_state" where
  "vendor_answered svc st req x =
     (case x of
        Inl verr \<Rightarrow>
          finalize svc (st\<lparr>st_metrics := (st_metrics st)\<lparr>VendorErrorsTotal := ctr_add (VendorErrorsTotal (st_metrics st)) 1\<rparr>\<rparr>)
            req 0 ExposureUnknown DecideVendorUnreachable '''' False
      | Inr vresp \<Rightarrow>
          (let exposure = (if vr_Exposure vresp = ''''
                 then ExposureFromScore (svc_lower svc) (svc_threshold svc) (vr_RiskScore vresp) (rq_Chain req)
                 else vr_Exposure vresp);
               decisionVal = Decide (svc_threshold svc) exposure;
               st2 = (case svc_cache svc of
                   None \<Rightarrow> st
                 | Some cache \<Rightarrow>
                     (case c_Set cache (st_world st) (st_cache st)
                        \<lparr>vd_Address = rq_Address req, vd_Chain = rq_Chain req, vd_RiskScore = vr_RiskScore vresp,
                         vd_Exposure = exposure, vd_Decision = decisionVal, vd_Vendor = vr_Vendor vresp\<rparr> of
                        (_, w1, c) \<Rightarrow> st\<lparr>st_world := w1, st_cache := c\<rparr>))
           in finalize svc st2 req (vr_RiskScore vresp) exposure decisionVal (vr_Vendor vresp) False))"

definition screen_finish ::
    "('c, 'p, 's, 'a) Service \<Rightarrow> ('c, 'p, 's, 'a) screen_state \<Rightarrow> Request \<Rightarrow> gotime \<Rightarrow> go_error + ScreenResponse
     \<Rightarrow> (go_error + Response) \<times> ('c, 'p, 's, 'a) screen_state" where
  "screen_finish svc st req start x =
     (case vendor_answered svc st req x of (r, st1) \<Rightarrow> (r, screen_done start st1))"

lemma vendor_halves:
  "prov_Screen (svc_provider svc) (st_world st) (st_provider st) (vendor_request_of req) = (x, w, p) \<Longrightarrow>
     screen_vendor svc st req = vendor_answered svc (st\<lparr>st_world := w, st_provider := p\<rparr>) req x"
  by (cases x) (simp_all add: screen_vendor_def vendor_answered_def Let_def)

text \<open>With nothing in between, the halves are the screen.\<close>

lemma screen_halves:
  "Service_Screen svc st req =
     (case screen_start svc st req of
        (Finished r, st1) \<Rightarrow> (r, st1)
      | (Waiting start x, st1) \<Rightarrow> screen_finish svc st1 req start x)"
proof (cases "validate req")
  case (Some e)
  then show ?thesis by (simp add: Service_Screen_def screen_start_def)
next
  case None
  obtain start w0 where n: "time_Now (st_world st) = (start, w0)" by fastforce
  obtain a st1 where l: "screen_lookup svc (st\<lparr>st_world := w0\<rparr>) req = (a, st1)" by fastforce
  show ?thesis
  proof (cases a)
    case (Some v)
    then show ?thesis using None n l
      by (simp add: Service_Screen_def screen_start_def screen_body_def screen_done_def Let_def split: prod.split)
  next
    case None': None
    define st2 where "st2 = st1\<lparr>st_metrics := (st_metrics st1)\<lparr>CacheMissesTotal := ctr_add (CacheMissesTotal (st_metrics st1)) 1\<rparr>\<rparr>"
    obtain x w p where v: "prov_Screen (svc_provider svc) (st_world st2) (st_provider st2) (vendor_request_of req) = (x, w, p)"
      by (metis prod_cases3)
    have "screen_body svc (st\<lparr>st_world := w0\<rparr>) req = vendor_answered svc (st2\<lparr>st_world := w, st_provider := p\<rparr>) req x"
      using screen_body_miss [OF l [unfolded None']] vendor_halves [OF v] by (simp add: st2_def)
    moreover have "screen_start svc st req = (Waiting start x, st2\<lparr>st_world := w, st_provider := p\<rparr>)"
      using None n l None' v by (simp add: screen_start_def st2_def)
    ultimately show ?thesis using None n
      by (simp add: Service_Screen_def screen_finish_def screen_done_def Let_def split: prod.split)
  qed
qed


section \<open>A delivery in between\<close>

text \<open>A screen that waits has changed nothing but the clock, the provider and the counters.\<close>

lemma waiting_state:
  assumes "screen_provider prov" and "screen_start (memory_service ord prov th ul) core req = (Waiting start x, core1)"
  shows "st_screens core1 = st_screens core \<and> st_alerts core1 = st_alerts core \<and> st_cache core1 = st_cache core
    \<and> world_le (st_world core) (st_world core1)"
proof -
  let ?svc = "memory_service ord prov th ul"
  have valid: "validate req = None" using assms(2) by (simp add: screen_start_def split: option.splits)
  obtain a w where g: "MemoryCache_Get (tick (st_world core)) (st_cache core) (rq_Address req) (rq_Chain req) = (Inr a, w, st_cache core)"
    and lew: "world_le (tick (st_world core)) w"
    using get_memory_total by metis
  have "screen_lookup ?svc (core\<lparr>st_world := tick (st_world core)\<rparr>) req = (a, core\<lparr>st_world := w, st_cache := st_cache core\<rparr>)"
    using lookup_memory [of ?svc "core\<lparr>st_world := tick (st_world core)\<rparr>" req a w] g by (simp add: NewService_def)
  note look = this
  obtain y w2 p where v: "prov_Screen prov w (st_provider core) (vendor_request_of req) = (y, w2, p)"
    by (metis prod_cases3)
  have prov: "svc_provider ?svc = prov" by (simp add: NewService_def)
  have "world_le (st_world core) w2"
    using world_le_trans [OF world_le_trans [OF world_le_ticks lew] screen_provider.advances [OF assms(1) v]] .
  moreover have "st_screens core1 = st_screens core \<and> st_alerts core1 = st_alerts core \<and> st_cache core1 = st_cache core
      \<and> st_world core1 = w2"
  proof (cases a)
    case (Some u)
    then show ?thesis using assms(2) valid look by (simp add: screen_start_def time_Now_def split: prod.splits)
  next
    case None
    then show ?thesis using assms(2) valid look v prov by (auto simp: screen_start_def time_Now_def Let_def)
  qed
  ultimately show ?thesis by simp
qed

lemma screen_done_frame [simp]:
  "st_screens (screen_done start st) = st_screens st" "st_alerts (screen_done start st) = st_alerts st"
  "st_cache (screen_done start st) = st_cache st" "st_audit (screen_done start st) = st_audit st"
  by (simp_all add: screen_done_def time_Now_def Let_def)

text \<open>The second half over the in-memory stores: the verdict is cached, and the effect is that of a screen.\<close>

lemma finish_effect:
  assumes "screen_provider prov" and "memory_state_ok ord core"
  shows "\<exists>i core'.
     let v = verdict_of (memory_service ord prov th ul) req vr;
         resp = answer_of i (vr_RiskScore vr) (vd_Exposure v) (vd_Decision v) (vr_Vendor vr) False
     in screen_finish (memory_service ord prov th ul) core req start (Inr vr) = (Inr resp, core')
       \<and> screen_effect req resp (map_of (st_screens core)) (map_of (st_screens core'))
          (ms_mem (st_alerts core)) (ms_mem (st_alerts core')) (st_audit core) (st_audit core')
       \<and> mc_entry (st_cache core') (cacheKey (rq_Address req) (rq_Chain req)) =
           Some (v, clk (st_world core) (ticks (st_world core)) + mc_ttl (st_cache core) v)"
proof -
  let ?svc = "memory_service ord prov th ul"
  define v where "v = verdict_of ?svc req vr"
  obtain e w c where s: "MemoryCache_Set (st_world core) (st_cache core) v = (e, w, c)" by (metis prod_cases3)
  define st2 where "st2 = core\<lparr>st_world := w, st_cache := c\<rparr>"
  have a: "vendor_answered ?svc core req (Inr vr) = finalize ?svc st2 req (vr_RiskScore vr) (vd_Exposure v) (vd_Decision v) (vr_Vendor vr) False"
    using s unfolding v_def st2_def
    by (simp add: vendor_answered_def verdict_of_def NewService_def Let_def split del: if_split)
  have path: "screen_path.path_ok (mss_ok ord) map_of mem_ok ms_mem core"
    using assms(2) by (auto simp: memory_state_ok_def screen_path.path_ok_def [OF memory_path [OF assms(1)]])
  have le: "world_le (st_world core) w" using mcv.set_world [of "st_world core" "st_cache core" v] s by simp
  have path2: "screen_path.path_ok (mss_ok ord) map_of mem_ok ms_mem st2"
    using screen_path.path_ok_world [OF memory_path [OF assms(1)] path le]
    by (simp add: st2_def screen_path.path_ok_def [OF memory_path [OF assms(1)]])
  obtain i st3 where f: "finalize ?svc st2 req (vr_RiskScore vr) (vd_Exposure v) (vd_Decision v) (vr_Vendor vr) False
        = (Inr (answer_of i (vr_RiskScore vr) (vd_Exposure v) (vd_Decision v) (vr_Vendor vr) False), st3)"
    "screen_effect req (answer_of i (vr_RiskScore vr) (vd_Exposure v) (vd_Decision v) (vr_Vendor vr) False)
        (map_of (st_screens st2)) (map_of (st_screens st3)) (ms_mem (st_alerts st2)) (ms_mem (st_alerts st3))
        (st_audit st2) (st_audit st3)"
    using screen_path.finalize_effect [OF memory_path [OF assms(1)] path2, of th ul req "vr_RiskScore vr" "vd_Exposure v"
        "vd_Decision v" "vr_Vendor vr" False] by blast
  have "st_cache st3 = c"
    using finalize_frame(1) [of ?svc st2 req "vr_RiskScore vr" "vd_Exposure v" "vd_Decision v" "vr_Vendor vr" False] f(1)
    by (simp add: st2_def)
  moreover have "mc_entry c (cacheKey (rq_Address req) (rq_Chain req)) =
      Some (v, clk (st_world core) (ticks (st_world core)) + mc_ttl (st_cache core) v)"
    using memory_set [OF s] by (simp add: v_def)
  moreover have "screen_finish ?svc core req start (Inr vr)
      = (Inr (answer_of i (vr_RiskScore vr) (vd_Exposure v) (vd_Decision v) (vr_Vendor vr) False), screen_done start st3)"
    using a f(1) by (simp add: screen_finish_def)
  ultimately show ?thesis using f(2)
    unfolding Let_def v_def [symmetric]
    by (intro exI [of _ i] exI [of _ "screen_done start st3"]) (simp add: st2_def)
qed


lemma with_hook_core [simp]:
  "st_screens (ks_core (with_hook st h)) = st_screens (ks_core st)" "ks_pending (with_hook st h) = hk_pending h"
  by (simp_all add: with_hook_def)

lemma run_review_only:
  assumes "ks_pending st = [rec]"
  shows "ks_pending (run_review s 0 st) = []" "st_screens (ks_core (run_review s 0 st)) = st_screens (ks_core st)"
    "st_cache (ks_core (run_review s 0 st)) = st_cache (ks_core st)"
  using assms by (simp_all add: run_review_def with_alerts_def split: prod.split)

text \<open>
  C12: A re-classification misses the screen that is in flight.  Whenever a screen has its vendor answer and
  would be allowed, a delivery for the same address and chain may be accepted, and its review may run to
  the end, before the screen goes on.  The screen then still allows the flow, stores it without an
  alert and puts the old verdict back into the cache the delivery had cleared, where it is served for
  its full time to live.
\<close>

theorem reclassification_misses_screen_in_flight:
  assumes "screen_provider prov" and "service_ok ord st" and "ks_pending st = []"
    and "screen_start (memory_service ord prov th ul) (ks_core st) req = (Waiting start (Inr vr), core1)"
    and "vd_Decision (verdict_of (memory_service ord prov th ul) req vr) = DecisionAllow"
    and "ingest_parse secrets vendor body sig = Inr rec" and "rc_EventID rec \<notin> ks_seen st"
    and "rc_Address rec = rq_Address req" and "rc_Chain rec = rq_Chain req"
  shows "\<exists>h st2 resp core3 t.
      Ingest (memory_processor ord secrets) vendor body sig (hook_of (st\<lparr>ks_core := core1\<rparr>)) = (accepted_result rec, h)
    \<and> fst (MemoryCache_Get (hk_world h) (hk_cache h) (rq_Address req) (rq_Chain req)) = Inr None
    \<and> run_review (memory_services ord prov th ul secrets) 0 (with_hook (st\<lparr>ks_core := core1\<rparr>) h) = st2 \<and> ks_pending st2 = []
    \<and> screen_finish (memory_service ord prov th ul) (ks_core st2) req start (Inr vr) = (Inr resp, core3)
    \<and> rp_Decision resp = DecisionAllow \<and> map_of (st_screens (ks_core st2)) (rp_ScreenID resp) = None
    \<and> map_of (st_screens core3) (rp_ScreenID resp) \<noteq> None \<and> ms_mem (st_alerts core3) = ms_mem (st_alerts (ks_core st2))
    \<and> t = clk (st_world (ks_core st2)) (ticks (st_world (ks_core st2)))
        + TTLFor (rp_Exposure resp) (mc_defaultTTL (st_cache (ks_core st2))) (mc_sanctionedTTL (st_cache (ks_core st2)))
    \<and> (\<forall>w. clk w (ticks w) \<le> t \<longrightarrow> fst (MemoryCache_Get w (st_cache core3) (rq_Address req) (rq_Chain req))
        = Inr (Some (verdict_of (memory_service ord prov th ul) req vr)))"
proof -
  let ?svc = "memory_service ord prov th ul" and ?st1 = "st\<lparr>ks_core := core1\<rparr>"
  let ?v = "verdict_of ?svc req vr"
  note same = waiting_state [OF assms(1,4)]
  have ok1: "service_ok ord ?st1"
    using assms(2) same world_le_fresh [of "st_world (ks_core st)" "st_world core1"]
      used_ids_mono [of "st_world (ks_core st)" "st_world core1"]
    by (auto simp: service_ok_def memory_state_ok_def)
  have hook: "hk_seen (hook_of ?st1) = ks_seen st" "hk_pending (hook_of ?st1) = []"
    using assms(3) by (simp_all add: hook_of_def)
  obtain h where h: "Ingest (memory_processor ord secrets) vendor body sig (hook_of ?st1) = (accepted_result rec, h)"
    "mc_entry (hk_cache h) (cacheKey (rq_Address req) (rq_Chain req)) = None" "hk_pending h = [rec]"
    using memory_accept [OF hook_of_ok [OF ok1, folded memory_hook_ok_eq] assms(6), of ord] assms(7-9) hook by auto
  define st2 where "st2 = run_review (memory_services ord prov th ul secrets) 0 (with_hook ?st1 h)"
  have "service_ok ord (with_hook ?st1 h)" using webhook_keeps [OF ok1 h(1)] by simp
  then have ok2: "memory_state_ok ord (ks_core st2)"
    using review_keeps [of ord "with_hook ?st1 h" prov th ul secrets 0] by (simp add: st2_def service_ok_def)
  have pend: "ks_pending st2 = []" using run_review_only(1) [of "with_hook ?st1 h" rec] h(3) by (simp add: st2_def)
  obtain i core3 where f: "screen_finish ?svc (ks_core st2) req start (Inr vr) =
        (Inr (answer_of i (vr_RiskScore vr) (vd_Exposure ?v) (vd_Decision ?v) (vr_Vendor vr) False), core3)"
    "screen_effect req (answer_of i (vr_RiskScore vr) (vd_Exposure ?v) (vd_Decision ?v) (vr_Vendor vr) False)
        (map_of (st_screens (ks_core st2))) (map_of (st_screens core3)) (ms_mem (st_alerts (ks_core st2)))
        (ms_mem (st_alerts core3)) (st_audit (ks_core st2)) (st_audit core3)"
    "mc_entry (st_cache core3) (cacheKey (rq_Address req) (rq_Chain req)) =
        Some (?v, clk (st_world (ks_core st2)) (ticks (st_world (ks_core st2))) + mc_ttl (st_cache (ks_core st2)) ?v)"
    using finish_effect [OF assms(1) ok2, of th ul req vr start] by (auto simp: Let_def)
  define resp where "resp = answer_of i (vr_RiskScore vr) (vd_Exposure ?v) (vd_Decision ?v) (vr_Vendor vr) False"
  have resp: "rp_Decision resp = DecisionAllow" "rp_Exposure resp = vd_Exposure ?v"
    using assms(5) by (simp_all add: resp_def)
  have serve: "fst (MemoryCache_Get w (st_cache core3) (rq_Address req) (rq_Chain req)) = Inr (Some ?v)"
    if "clk w (ticks w) \<le> clk (st_world (ks_core st2)) (ticks (st_world (ks_core st2))) + mc_ttl (st_cache (ks_core st2)) ?v" for w
    using memory_get [of w "st_cache core3" "rq_Address req" "rq_Chain req"] f(3) that
    by (cases "MemoryCache_Get w (st_cache core3) (rq_Address req) (rq_Chain req)") simp
  have gone: "fst (MemoryCache_Get (hk_world h) (hk_cache h) (rq_Address req) (rq_Chain req)) = Inr None"
    using memory_get [of "hk_world h" "hk_cache h" "rq_Address req" "rq_Chain req"] h(2)
    by (cases "MemoryCache_Get (hk_world h) (hk_cache h) (rq_Address req) (rq_Chain req)") simp
  have eff: "map_of (st_screens (ks_core st2)) (rp_ScreenID resp) = None \<and> map_of (st_screens core3) (rp_ScreenID resp) \<noteq> None
      \<and> ms_mem (st_alerts core3) = ms_mem (st_alerts (ks_core st2))"
    using f(2) resp(1) unfolding resp_def [symmetric] screen_effect_def by auto
  have fin: "screen_finish ?svc (ks_core st2) req start (Inr vr) = (Inr resp, core3)" using f(1) by (simp only: resp_def)
  have ttl: "mc_ttl (st_cache (ks_core st2)) ?v =
      TTLFor (rp_Exposure resp) (mc_defaultTTL (st_cache (ks_core st2))) (mc_sanctionedTTL (st_cache (ks_core st2)))"
    by (simp only: mc_ttl_def resp(2))
  show ?thesis using h(1) gone st2_def pend fin resp(1) eff serve [unfolded ttl] by blast
qed


definition demo_vendor_clean :: ScreenResponse where
  "demo_vendor_clean = \<lparr>vr_Vendor = ''mock'', vr_RiskScore = 0, vr_Exposure = ''CLEAN'', vr_RawRequest = '''', vr_RawResponse = ''''\<rparr>"

lemma demo_waiting:
  "fst (screen_start (memory_service (\<lambda>m. m) mock_provider demo_thresholds id) demo_clean demo_request1)
     = Waiting 100 (Inr demo_vendor_clean)"
  using demo_request_valid
  by (simp add: screen_start_def demo_screen_defs demo_clean_def demo_vendor_clean_def)


theorem reclassification_misses_screen_in_flight_witness:
  "\<exists>core1 h (st2 :: MockProvider memory_kyt) resp core3.
      screen_start (memory_service (\<lambda>m. m) mock_provider demo_thresholds id) demo_clean demo_request1
        = (Waiting 100 (Inr demo_vendor_clean), core1)
    \<and> Ingest demo_processor ''chainalysis'' demo_hook_body (demo_sig ''k1'') (hook_of ((demo_kyt demo_clean)\<lparr>ks_core := core1\<rparr>))
        = (accepted_result demo_rec, h)
    \<and> screen_finish (memory_service (\<lambda>m. m) mock_provider demo_thresholds id) (ks_core st2) demo_request1 100
        (Inr demo_vendor_clean) = (Inr resp, core3)
    \<and> rp_Decision resp = ''ALLOW'' \<and> ms_mem (st_alerts core3) = ms_mem (st_alerts (ks_core st2))"
proof -
  let ?svc = "memory_service (\<lambda>m. m) mock_provider demo_thresholds id"
  obtain core1 where s: "screen_start ?svc demo_clean demo_request1 = (Waiting 100 (Inr demo_vendor_clean), core1)"
    using demo_waiting by (cases "screen_start ?svc demo_clean demo_request1") simp
  have k: "ks_core (demo_kyt demo_clean) = demo_clean" "ks_pending (demo_kyt demo_clean) = []"
    "rc_EventID demo_rec \<notin> ks_seen (demo_kyt demo_clean)" by (simp_all add: demo_kyt_def)
  have a: "vd_Decision (verdict_of ?svc demo_request1 demo_vendor_clean) = DecisionAllow"
    by (simp add: verdict_of_def demo_vendor_clean_def Let_def Decide_def)
  have r: "rc_Address demo_rec = rq_Address demo_request1" "rc_Chain demo_rec = rq_Chain demo_request1"
    by (simp_all add: demo_rec_def demo_request1_def)
  have w: "screen_start ?svc (ks_core (demo_kyt demo_clean)) demo_request1 = (Waiting 100 (Inr demo_vendor_clean), core1)"
    unfolding k(1) by (rule s)
  from reclassification_misses_screen_in_flight [OF mock_adv.screen_provider_axioms demo_kyt_ok(2) k(2) w a
      demo_hook_parsed(1) k(3) r]
  obtain h resp core3 and st2 :: "MockProvider memory_kyt" where
    "Ingest demo_processor ''chainalysis'' demo_hook_body (demo_sig ''k1'') (hook_of ((demo_kyt demo_clean)\<lparr>ks_core := core1\<rparr>))
      = (accepted_result demo_rec, h)"
    "screen_finish ?svc (ks_core st2) demo_request1 100 (Inr demo_vendor_clean) = (Inr resp, core3)"
    "rp_Decision resp = DecisionAllow" "ms_mem (st_alerts core3) = ms_mem (st_alerts (ks_core st2))"
    by (elim exE conjE) (rule that, assumption+)
  with s show ?thesis by (intro exI conjI)
qed

end
