(* ===== verification/Sql.thy ===== *)
theory Sql
  imports Go_Json "HOL-Library.Multiset"
begin

text \<open>
  The database behind \<open>internal/store\<close> and \<open>internal/audit/db_sink.go\<close>.  The SQL texts of the code
  are given as syntax trees, with the columns in the order of the texts and the parameters in the
  order they are passed; \<open>updated_at\<close>, which the code sets and never reads, is left out.  The
  database itself is a parameter: a record of its two entry points, \<open>Exec\<close> and \<open>Query\<close>, with the
  documented behaviour of PostgreSQL for such statements in the locale \<open>sql_db\<close>.
\<close>

section \<open>Statements\<close>

datatype sql_val = SText string | SInt int | SBool bool | STime gotime | SNull

type_synonym row = "string \<Rightarrow> sql_val"

datatype conflict = NoClause | DoNothing "string list" | DoUpdate "string list" "string list"

text \<open>
  \<open>Insert table columns clause\<close> takes its values from the parameters; \<open>UpdateBy table key columns\<close>
  and \<open>DeleteBy table key\<close> take the key first.  \<open>Select table key after order\<close> selects the rows whose
  key columns equal the first parameters and whose column \<open>after\<close>, if any, is a later time than the
  last one, ordered by the column \<open>order\<close>, if any.
\<close>

datatype stmt =
    Insert string "string list" conflict
  | UpdateBy string "string list" "string list"
  | DeleteBy string "string list"

datatype query = Select string "string list" "string option" "string option"

fun stmt_table :: "stmt \<Rightarrow> string" where
  "stmt_table (Insert t cs cl) = t"
| "stmt_table (UpdateBy t ks cs) = t"
| "stmt_table (DeleteBy t ks) = t"

text \<open>The columns the parameters stand for.\<close>

fun stmt_columns :: "stmt \<Rightarrow> string list" where
  "stmt_columns (Insert t cs cl) = cs"
| "stmt_columns (UpdateBy t ks cs) = ks @ cs"
| "stmt_columns (DeleteBy t ks) = ks"

record 'd DB =
  db_Exec :: "'d \<Rightarrow> stmt \<Rightarrow> sql_val list \<Rightarrow> (go_error + (go_error + int)) \<times> 'd"
  db_Query :: "'d \<Rightarrow> query \<Rightarrow> sql_val list \<Rightarrow> go_error + row list \<times> go_error option"

text \<open>\<open>QueryRow\<close> followed by \<open>Scan\<close>: the first row, or \<open>sql.ErrNoRows\<close>.\<close>

definition QueryRow :: "'d DB \<Rightarrow> 'd \<Rightarrow> query \<Rightarrow> sql_val list \<Rightarrow> (row \<Rightarrow> go_error + 'a) \<Rightarrow> go_error + 'a" where
  "QueryRow db d q args scan =
     (case db_Query db d q args of
        Inl err \<Rightarrow> Inl err
      | Inr ([], Some err) \<Rightarrow> Inl err
      | Inr ([], None) \<Rightarrow> Inl ErrNoRows
      | Inr (r # rs, e) \<Rightarrow> scan r)"

text \<open>Scanning stops at the first row that does not fit.\<close>

fun scan_rows :: "(row \<Rightarrow> go_error + 'a) \<Rightarrow> row list \<Rightarrow> go_error + 'a list" where
  "scan_rows scan [] = Inr []"
| "scan_rows scan (r # rs) =
     (case scan r of
        Inl err \<Rightarrow> Inl err
      | Inr x \<Rightarrow> (case scan_rows scan rs of Inl err \<Rightarrow> Inl err | Inr xs \<Rightarrow> Inr (x # xs)))"

definition scan_error :: go_error where
  "scan_error = ErrText ''sql: Scan error''"

text \<open>Reading a column into a Go value, with and without \<open>COALESCE(column, '')\<close>.\<close>

fun scan_text :: "sql_val \<Rightarrow> string option" where
  "scan_text (SText s) = Some s"
| "scan_text _ = None"

fun scan_text0 :: "sql_val \<Rightarrow> string option" where
  "scan_text0 (SText s) = Some s"
| "scan_text0 SNull = Some ''''"
| "scan_text0 _ = None"

fun scan_int_col :: "sql_val \<Rightarrow> int option" where
  "scan_int_col (SInt n) = Some n"
| "scan_int_col _ = None"

fun scan_bool :: "sql_val \<Rightarrow> bool option" where
  "scan_bool (SBool b) = Some b"
| "scan_bool _ = None"

fun scan_time :: "sql_val \<Rightarrow> gotime option" where
  "scan_time (STime t) = Some t"
| "scan_time _ = None"

fun scan_null_time :: "sql_val \<Rightarrow> gotime option option" where
  "scan_null_time (STime t) = Some (Some t)"
| "scan_null_time SNull = Some None"
| "scan_null_time _ = None"

text \<open>A Go string that is stored as \<open>NULL\<close> when it is empty.\<close>

definition null_text :: "string \<Rightarrow> sql_val" where
  "null_text s = (if s = '''' then SNull else SText s)"

lemma scan_null_text [simp]: "scan_text0 (null_text s) = Some s"
  by (simp add: null_text_def)

text \<open>Rows that hold the Go values \<open>xs\<close>, in any order, are read back as these values.\<close>

lemma scan_permuted:
  assumes inv: "\<And>x. scan (to_row x) = Inr x" and rs: "mset rs = mset (map to_row xs)"
  shows "\<exists>ys. rs = map to_row ys \<and> scan_rows scan rs = Inr ys \<and> mset ys = mset xs"
proof -
  define get where "get r = projr (scan r)" for r
  have get: "get (to_row x) = x" for x by (simp add: get_def inv)
  have "set rs = to_row ` set xs" using arg_cong [OF rs, of set_mset] by simp
  then have "map (to_row \<circ> get) rs = rs" by (intro map_idI) (auto simp: get)
  then have rows: "rs = map to_row (map get rs)" by simp
  have "mset (map get rs) = image_mset get (mset (map to_row xs))" by (simp add: rs)
  also have "\<dots> = mset xs" by (simp add: multiset.map_comp o_def get)
  finally have m: "mset (map get rs) = mset xs" .
  have "scan_rows scan (map to_row ys) = Inr ys" for ys by (induction ys) (simp_all add: inv)
  then show ?thesis using rows m by metis
qed

section \<open>Schemas\<close>

text \<open>
  A column is its name, its type, whether it is \<open>NOT NULL\<close> (or part of the primary key) and whether it
  has a default.  A table is its columns, the unique key its statements speak of, and whether another
  table has a foreign key to it.
\<close>

datatype col_type = UUID | TEXT | INTEGER | NUMERIC | BOOLEAN | TIMESTAMPTZ | JSONB

record column =
  col_name :: string
  col_type :: col_type
  col_not_null :: bool
  col_default :: bool

record table =
  tb_name :: string
  tb_columns :: "column list"
  tb_key :: "string list"
  tb_referenced :: bool

definition columns_of :: "(column \<Rightarrow> bool) \<Rightarrow> table \<Rightarrow> string list" where
  "columns_of P t = map col_name (filter P (tb_columns t))"

definition tb_uuids :: "table \<Rightarrow> string list" where
  "tb_uuids = columns_of (\<lambda>c. col_type c = UUID)"

text \<open>The columns whose values always come back as they were stored (a time is kept to the microsecond).\<close>

definition tb_exact :: "table \<Rightarrow> string list" where
  "tb_exact = columns_of (\<lambda>c. col_type c \<in> {TEXT, INTEGER, BOOLEAN})"

text \<open>The parameters \<open>vs\<close> stand for the different columns \<open>cs\<close> of the table.\<close>

definition columns_match :: "table \<Rightarrow> string list \<Rightarrow> sql_val list \<Rightarrow> bool" where
  "columns_match t cs vs \<longleftrightarrow> distinct cs \<and> set cs \<subseteq> set (columns_of (\<lambda>_. True) t) \<and> length cs = length vs"

definition required :: "table \<Rightarrow> string list" where
  "required = columns_of (\<lambda>c. col_not_null c \<and> \<not> col_default c)"

section \<open>What PostgreSQL does with them\<close>

text \<open>
  A text parameter must be UTF-8 without NUL, else the server raises \<open>22021\<close>; a time must lie between the
  start of the year 1 and the last second of the year 9999, in which the driver and the server agree on its text.
\<close>

definition sql_text :: "string \<Rightarrow> bool" where
  "sql_text s \<longleftrightarrow> CHR 0x00 \<notin> set s \<and> valid_utf8 s"

definition pg_time :: "gotime \<Rightarrow> bool" where
  "pg_time t \<longleftrightarrow> 0 \<le> t \<and> t \<le> 315537897599000000000"

fun bad_text :: "sql_val \<Rightarrow> bool" where
  "bad_text (SText s) \<longleftrightarrow> \<not> sql_text s"
| "bad_text _ \<longleftrightarrow> False"

fun sendable :: "sql_val \<Rightarrow> bool" where
  "sendable (SText s) \<longleftrightarrow> sql_text s"
| "sendable (STime t) \<longleftrightarrow> pg_time t"
| "sendable _ \<longleftrightarrow> True"

lemma sendable_texts: "list_all sendable vs \<Longrightarrow> \<not> list_ex bad_text vs"
  by (induction vs) (auto elim: bad_text.elims)

text \<open>An error of the server, which says that the statement was not carried out.\<close>

fun server_error :: "go_error \<Rightarrow> bool" where
  "server_error (PqErr c m) \<longleftrightarrow> True"
| "server_error _ \<longleftrightarrow> False"

text \<open>A row from columns and values, and the key of a row.\<close>

fun bind_cols :: "string list \<Rightarrow> sql_val list \<Rightarrow> row" where
  "bind_cols (c # cs) (v # vs) = (bind_cols cs vs)(c := v)"
| "bind_cols _ _ = (\<lambda>_. SNull)"

definition key_of :: "string list \<Rightarrow> row \<Rightarrow> sql_val list" where
  "key_of ks r = map r ks"

definition override_cols :: "string list \<Rightarrow> row \<Rightarrow> row \<Rightarrow> row" where
  "override_cols cs new old = (\<lambda>c. if c \<in> set cs then new c else old c)"

text \<open>
  A \<open>UUID\<close> column takes a text whose canonical form (\<open>canon\<close>) exists; other well-encoded texts raise \<open>22P02\<close>.
  The laws speak of parameters that are canonical already.
\<close>

definition bad_uuid :: "(string \<Rightarrow> string option) \<Rightarrow> table \<Rightarrow> string list \<Rightarrow> sql_val list \<Rightarrow> bool" where
  "bad_uuid canon t cs vs \<longleftrightarrow> (\<exists>c s. (c, SText s) \<in> set (zip cs vs) \<and> sql_text s \<and> c \<in> set (tb_uuids t) \<and> canon s = None)"

definition good_uuids :: "(string \<Rightarrow> string option) \<Rightarrow> table \<Rightarrow> string list \<Rightarrow> sql_val list \<Rightarrow> bool" where
  "good_uuids canon t cs vs \<longleftrightarrow> (\<forall>c s. (c, SText s) \<in> set (zip cs vs) \<longrightarrow> c \<in> set (tb_uuids t) \<longrightarrow> canon s = Some s)"

fun time_after_val :: "sql_val \<Rightarrow> sql_val \<Rightarrow> bool" where
  "time_after_val (STime t) (STime u) \<longleftrightarrow> u < t"
| "time_after_val _ _ \<longleftrightarrow> False"

text \<open>Keys that are columns of texts or identifiers, compared with texts.\<close>

definition text_keys :: "table \<Rightarrow> string list \<Rightarrow> sql_val list \<Rightarrow> bool" where
  "text_keys t ks vs \<longleftrightarrow> set ks \<subseteq> set (columns_of (\<lambda>c. col_type c \<in> {TEXT, UUID}) t)
     \<and> list_all (\<lambda>v. case v of SText s \<Rightarrow> True | _ \<Rightarrow> False) (take (length ks) vs)"

text \<open>A \<open>Select\<close> with the parameters it takes.\<close>

definition select_shape :: "table \<Rightarrow> string list \<Rightarrow> string option \<Rightarrow> string option \<Rightarrow> sql_val list \<Rightarrow> bool" where
  "select_shape t ks after order vs \<longleftrightarrow> distinct ks \<and> text_keys t ks vs
     \<and> set_option after \<union> set_option order \<subseteq> set (columns_of (\<lambda>c. col_type c = TIMESTAMPTZ) t)
     \<and> length vs = length ks + (if after = None then 0 else 1)
     \<and> (after \<noteq> None \<longrightarrow> (case last vs of STime u \<Rightarrow> True | _ \<Rightarrow> False))"

text \<open>The rows a \<open>Select\<close> is about, before they are ordered.\<close>

definition selected :: "string list \<Rightarrow> string option \<Rightarrow> sql_val list \<Rightarrow> row list \<Rightarrow> row list" where
  "selected ks after args rs =
     filter (\<lambda>r. key_of ks r = take (length ks) args
        \<and> (case after of None \<Rightarrow> True | Some c \<Rightarrow> time_after_val (r c) (last args))) rs"

fun time_key :: "sql_val \<Rightarrow> int" where
  "time_key (STime t) = t"
| "time_key _ = 0"

definition changes_only :: "('d \<Rightarrow> string \<Rightarrow> row list) \<Rightarrow> string \<Rightarrow> row list \<Rightarrow> 'd \<Rightarrow> 'd \<Rightarrow> bool" where
  "changes_only contents t rs d d' \<longleftrightarrow> contents d' t = rs \<and> (\<forall>u. u \<noteq> t \<longrightarrow> contents d' u = contents d u)"

text \<open>
  \<open>contents d table\<close> are the rows of a table in the order they were inserted, \<open>up d\<close> says that the
  database answers, \<open>fits d t r\<close> that a row meets the types, foreign keys and other unique constraints of its
  table (an amount within the column's precision, a screen that exists) and comes back from it as it was
  stored (times in whole microseconds, the amount with eight decimals).  A comparison with \<open>NULL\<close> is
  never true, so the laws are for keys without it.

  A statement that the server refuses changes nothing.  Any other error (the caller's deadline, a lost
  connection) leaves it open whether an \<open>INSERT\<close> was carried out.  A statement with a text the server cannot
  take is refused.  A listing never holds other rows than the selected ones; it may miss some of those whose
  time is within the rounding of the time it is asked for.
\<close>

locale sql_db =
  fixes db :: "'d DB" and contents :: "'d \<Rightarrow> string \<Rightarrow> row list" and up :: "'d \<Rightarrow> bool"
    and fits :: "'d \<Rightarrow> table \<Rightarrow> row \<Rightarrow> bool" and canon :: "string \<Rightarrow> string option" and tables :: "table list"
  assumes exec_bad_text: "t \<in> set tables \<Longrightarrow> up d \<Longrightarrow> stmt_table s = tb_name t \<Longrightarrow> columns_match t (stmt_columns s) vs \<Longrightarrow>
      \<not> bad_uuid canon t (stmt_columns s) vs \<Longrightarrow> list_ex bad_text vs \<Longrightarrow>
      \<exists>c m. db_Exec db d s vs = (Inl (PqErr c m), d)"
    and insert_missing: "t \<in> set tables \<Longrightarrow> up d \<Longrightarrow> columns_match t cs vs \<Longrightarrow> \<not> set (required t) \<subseteq> set cs \<Longrightarrow>
      \<exists>c m. db_Exec db d (Insert (tb_name t) cs cl) vs = (Inl (PqErr c m), d)"
    and insert_refused: "t \<in> set tables \<Longrightarrow> columns_match t cs vs \<Longrightarrow>
      db_Exec db d (Insert (tb_name t) cs NoClause) vs = (Inl e, d') \<Longrightarrow> server_error e \<Longrightarrow> contents d' = contents d"
    and insert_lost: "t \<in> set tables \<Longrightarrow> columns_match t cs vs \<Longrightarrow>
      db_Exec db d (Insert (tb_name t) cs NoClause) vs = (Inl e, d') \<Longrightarrow> contents d' = contents d \<or>
      (\<exists>r. changes_only contents (tb_name t) (contents d (tb_name t) @ [r]) d d'
        \<and> (\<forall>c \<in> set (tb_exact t). c \<in> set cs \<longrightarrow> r c = bind_cols cs vs c))"
    and insert_plain: "t \<in> set tables \<Longrightarrow> columns_match t cs vs \<Longrightarrow>
      db_Exec db d (Insert (tb_name t) cs NoClause) vs = (Inr n, d') \<Longrightarrow>
      \<exists>r. changes_only contents (tb_name t) (contents d (tb_name t) @ [r]) d d'
        \<and> (\<forall>c \<in> set (tb_exact t). c \<in> set cs \<longrightarrow> r c = bind_cols cs vs c)"
    and insert_new: "t \<in> set tables \<Longrightarrow> up d \<Longrightarrow> columns_match t cs vs \<Longrightarrow> set (required t) \<subseteq> set cs \<Longrightarrow>
      good_uuids canon t cs vs \<Longrightarrow> list_all sendable vs \<Longrightarrow> fits d t (bind_cols cs vs) \<Longrightarrow>
      key_of (tb_key t) (bind_cols cs vs) \<notin> key_of (tb_key t) ` set (contents d (tb_name t)) \<Longrightarrow>
      \<exists>d'. db_Exec db d (Insert (tb_name t) cs cl) vs = (Inr (Inr 1), d') \<and> up d'
        \<and> changes_only contents (tb_name t) (contents d (tb_name t) @ [bind_cols cs vs]) d d'"
    and insert_nothing: "t \<in> set tables \<Longrightarrow> up d \<Longrightarrow> columns_match t cs vs \<Longrightarrow> set (required t) \<subseteq> set cs \<Longrightarrow>
      good_uuids canon t cs vs \<Longrightarrow> list_all sendable vs \<Longrightarrow> fits d t (bind_cols cs vs) \<Longrightarrow>
      key_of (tb_key t) (bind_cols cs vs) \<in> key_of (tb_key t) ` set (contents d (tb_name t)) \<Longrightarrow>
      db_Exec db d (Insert (tb_name t) cs (DoNothing (tb_key t))) vs = (Inr (Inr 0), d)"
    and insert_update: "t \<in> set tables \<Longrightarrow> up d \<Longrightarrow> columns_match t cs vs \<Longrightarrow> set (required t) \<subseteq> set cs \<Longrightarrow>
      good_uuids canon t cs vs \<Longrightarrow> list_all sendable vs \<Longrightarrow> fits d t (bind_cols cs vs) \<Longrightarrow>
      key_of (tb_key t) (bind_cols cs vs) \<in> key_of (tb_key t) ` set (contents d (tb_name t)) \<Longrightarrow> set us \<subseteq> set cs \<Longrightarrow>
      \<exists>d'. db_Exec db d (Insert (tb_name t) cs (DoUpdate (tb_key t) us)) vs = (Inr (Inr 1), d') \<and> up d'
        \<and> changes_only contents (tb_name t)
            (map (\<lambda>r. if key_of (tb_key t) r = key_of (tb_key t) (bind_cols cs vs)
                      then override_cols us (bind_cols cs vs) r else r) (contents d (tb_name t))) d d'"
    and update_invalid: "t \<in> set tables \<Longrightarrow> up d \<Longrightarrow> columns_match t (ks @ cs) vs \<Longrightarrow> bad_uuid canon t (ks @ cs) vs \<Longrightarrow>
      list_all sendable vs \<Longrightarrow>
      \<exists>m. db_Exec db d (UpdateBy (tb_name t) ks cs) vs = (Inl (PqErr ''22P02'' m), d)"
    and update_rows: "t \<in> set tables \<Longrightarrow> up d \<Longrightarrow> columns_match t (ks @ cs) vs \<Longrightarrow> good_uuids canon t (ks @ cs) vs \<Longrightarrow>
      list_all sendable vs \<Longrightarrow> text_keys t ks vs \<Longrightarrow> set cs \<inter> set (tb_key t) = {} \<Longrightarrow>
      take (length ks) vs \<in> key_of ks ` set (contents d (tb_name t)) \<Longrightarrow>
      (\<And>r. r \<in> set (contents d (tb_name t)) \<Longrightarrow> key_of ks r = take (length ks) vs \<Longrightarrow>
        fits d t (override_cols cs (bind_cols (ks @ cs) vs) r)) \<Longrightarrow>
      \<exists>d'. db_Exec db d (UpdateBy (tb_name t) ks cs) vs =
          (Inr (Inr (int (length (filter (\<lambda>r. key_of ks r = take (length ks) vs) (contents d (tb_name t)))))), d') \<and> up d'
        \<and> changes_only contents (tb_name t)
            (map (\<lambda>r. if key_of ks r = take (length ks) vs then override_cols cs (bind_cols (ks @ cs) vs) r else r)
              (contents d (tb_name t))) d d'"
    and delete_rows: "t \<in> set tables \<Longrightarrow> \<not> tb_referenced t \<Longrightarrow> up d \<Longrightarrow> columns_match t ks vs \<Longrightarrow> text_keys t ks vs \<Longrightarrow>
      good_uuids canon t ks vs \<Longrightarrow> list_all sendable vs \<Longrightarrow>
      \<exists>d' n. db_Exec db d (DeleteBy (tb_name t) ks) vs = (Inr (Inr n), d') \<and> up d'
        \<and> changes_only contents (tb_name t) (filter (\<lambda>r. key_of ks r \<noteq> vs) (contents d (tb_name t))) d d'"
    and select_bad_text: "t \<in> set tables \<Longrightarrow> up d \<Longrightarrow> select_shape t ks after order vs \<Longrightarrow> \<not> bad_uuid canon t ks vs \<Longrightarrow>
      list_ex bad_text vs \<Longrightarrow> \<exists>m. db_Query db d (Select (tb_name t) ks after order) vs = Inl (PqErr ''22021'' m)"
    and select_invalid: "t \<in> set tables \<Longrightarrow> up d \<Longrightarrow> select_shape t ks after order vs \<Longrightarrow> bad_uuid canon t ks vs \<Longrightarrow>
      list_all sendable vs \<Longrightarrow> \<exists>m. db_Query db d (Select (tb_name t) ks after order) vs = Inl (PqErr ''22P02'' m)"
    and select_sound: "t \<in> set tables \<Longrightarrow> select_shape t ks after order vs \<Longrightarrow> good_uuids canon t ks vs \<Longrightarrow>
      db_Query db d (Select (tb_name t) ks after order) vs = Inr (rs, rowsErr) \<Longrightarrow>
      mset rs \<subseteq># mset (selected ks after vs (contents d (tb_name t)))"
    and select_rows: "t \<in> set tables \<Longrightarrow> up d \<Longrightarrow> select_shape t ks after order vs \<Longrightarrow>
      good_uuids canon t ks vs \<Longrightarrow> list_all sendable vs \<Longrightarrow>
      \<exists>rs. db_Query db d (Select (tb_name t) ks after order) vs = Inr (rs, None)
        \<and> (after = None \<longrightarrow> mset rs = mset (selected ks after vs (contents d (tb_name t))))
        \<and> (\<forall>c. order = Some c \<longrightarrow> sorted (map (\<lambda>r. time_key (r c)) rs))"

section \<open>An engine\<close>

text \<open>
  A relational engine for these statements, over tables as lists of rows: it satisfies the laws, so
  they can hold.
\<close>

type_synonym engine = "string \<Rightarrow> row list"

definition is_uuid :: "string \<Rightarrow> bool" where
  "is_uuid s \<longleftrightarrow> length s = 36 \<and> (\<forall>i < 36. if i \<in> {8, 13, 18, 23} then s ! i = CHR ''-''
     else s ! i \<in> set ''0123456789abcdef'')"

definition uuid_canon :: "string \<Rightarrow> string option" where
  "uuid_canon s = (if is_uuid s then Some s else None)"

definition bad_params :: "(string \<Rightarrow> string option) \<Rightarrow> table \<Rightarrow> string list \<Rightarrow> sql_val list \<Rightarrow> bool" where
  "bad_params canon t cs vs \<longleftrightarrow>
     list_ex (\<lambda>(c, v). case v of SText s \<Rightarrow> sql_text s \<and> c \<in> set (tb_uuids t) \<and> canon s = None | _ \<Rightarrow> False) (zip cs vs)"

definition bad_encoding :: go_error where
  "bad_encoding = PqErr ''22021'' ''invalid byte sequence for encoding UTF8''"

definition engine_insert :: "(string \<Rightarrow> string option) \<Rightarrow> table \<Rightarrow> engine \<Rightarrow> string list \<Rightarrow> conflict \<Rightarrow> sql_val list \<Rightarrow> (go_error + (go_error + int)) \<times> engine" where
  "engine_insert canon t d cs cl vs =
     (let new = bind_cols cs vs; rs = d (tb_name t); k = key_of (tb_key t) in
      if bad_params canon t cs vs then (Inl (PqErr ''22P02'' ''invalid input syntax for type uuid''), d)
      else if list_ex bad_text vs then (Inl bad_encoding, d)
      else if \<not> list_all (\<lambda>c. c \<in> set cs) (required t)
        then (Inl (PqErr ''23502'' ''null value violates not-null constraint''), d)
      else if k new \<notin> k ` set rs then (Inr (Inr 1), d(tb_name t := rs @ [new]))
      else (case cl of
              NoClause \<Rightarrow> (Inl (PqErr ''23505'' ''duplicate key value violates unique constraint''), d)
            | DoNothing ks \<Rightarrow> (Inr (Inr 0), d)
            | DoUpdate ks us \<Rightarrow>
                (Inr (Inr 1), d(tb_name t := map (\<lambda>r. if k r = k new then override_cols us new r else r) rs))))"

definition engine_update :: "(string \<Rightarrow> string option) \<Rightarrow> table \<Rightarrow> engine \<Rightarrow> string list \<Rightarrow> string list \<Rightarrow> sql_val list \<Rightarrow> (go_error + (go_error + int)) \<times> engine" where
  "engine_update canon t d ks cs vs =
     (let new = bind_cols (ks @ cs) vs; rs = d (tb_name t); hit = (\<lambda>r. key_of ks r = take (length ks) vs) in
      if bad_params canon t (ks @ cs) vs then (Inl (PqErr ''22P02'' ''invalid input syntax for type uuid''), d)
      else if list_ex bad_text vs then (Inl bad_encoding, d)
      else (Inr (Inr (int (length (filter hit rs)))),
            d(tb_name t := map (\<lambda>r. if hit r then override_cols cs new r else r) rs)))"

definition engine_delete :: "(string \<Rightarrow> string option) \<Rightarrow> table \<Rightarrow> engine \<Rightarrow> string list \<Rightarrow> sql_val list \<Rightarrow> (go_error + (go_error + int)) \<times> engine" where
  "engine_delete canon t d ks vs =
     (if bad_params canon t ks vs then (Inl (PqErr ''22P02'' ''invalid input syntax for type uuid''), d)
      else if list_ex bad_text vs then (Inl bad_encoding, d)
      else (Inr (Inr (int (length (filter (\<lambda>r. key_of ks r = vs) (d (tb_name t)))))),
            d(tb_name t := filter (\<lambda>r. key_of ks r \<noteq> vs) (d (tb_name t)))))"

definition no_table :: go_error where
  "no_table = PqErr ''42P01'' ''relation does not exist''"

definition engine_Exec :: "(string \<Rightarrow> string option) \<Rightarrow> table list \<Rightarrow> engine \<Rightarrow> stmt \<Rightarrow> sql_val list \<Rightarrow> (go_error + (go_error + int)) \<times> engine" where
  "engine_Exec canon ts d s vs =
     (case s of
        Insert n cs cl \<Rightarrow> (case find (\<lambda>t. tb_name t = n) ts of None \<Rightarrow> (Inl no_table, d) | Some t \<Rightarrow> engine_insert canon t d cs cl vs)
      | UpdateBy n ks cs \<Rightarrow> (case find (\<lambda>t. tb_name t = n) ts of None \<Rightarrow> (Inl no_table, d) | Some t \<Rightarrow> engine_update canon t d ks cs vs)
      | DeleteBy n ks \<Rightarrow> (case find (\<lambda>t. tb_name t = n) ts of None \<Rightarrow> (Inl no_table, d) | Some t \<Rightarrow> engine_delete canon t d ks vs))"

definition engine_Query :: "(string \<Rightarrow> string option) \<Rightarrow> table list \<Rightarrow> engine \<Rightarrow> query \<Rightarrow> sql_val list \<Rightarrow> go_error + row list \<times> go_error option" where
  "engine_Query canon ts d q vs =
     (case q of Select n ks after order \<Rightarrow>
        (case find (\<lambda>t. tb_name t = n) ts of
           None \<Rightarrow> Inl no_table
         | Some t \<Rightarrow>
             if bad_params canon t ks vs then Inl (PqErr ''22P02'' ''invalid input syntax for type uuid'')
             else if list_ex bad_text vs then Inl bad_encoding
             else (let rs = selected ks after vs (d n) in
                   Inr (case order of None \<Rightarrow> rs | Some c \<Rightarrow> sort_key (\<lambda>r. time_key (r c)) rs, None))))"

definition engine_db :: "(string \<Rightarrow> string option) \<Rightarrow> table list \<Rightarrow> engine DB" where
  "engine_db canon ts = \<lparr>db_Exec = engine_Exec canon ts, db_Query = engine_Query canon ts\<rparr>"

lemma bad_params_iff: "bad_params canon t cs vs \<longleftrightarrow> bad_uuid canon t cs vs"
  by (fastforce simp: bad_params_def bad_uuid_def list_ex_iff split: sql_val.splits)

lemma good_not_bad: "good_uuids canon t cs vs \<Longrightarrow> \<not> bad_params canon t cs vs"
  by (fastforce simp: bad_params_iff bad_uuid_def good_uuids_def)

lemma find_table: "distinct (map tb_name ts) \<Longrightarrow> t \<in> set ts \<Longrightarrow> find (\<lambda>u. tb_name u = tb_name t) ts = Some t"
  by (induction ts) (auto simp: rev_image_eqI)

lemmas engine_defs = engine_db_def engine_Exec_def engine_Query_def engine_insert_def engine_update_def engine_delete_def

lemma engine_bad_text:
  assumes "find (\<lambda>u. tb_name u = tb_name t) ts = Some t" and "stmt_table s = tb_name t" and "list_ex bad_text vs"
  shows "\<exists>c m. db_Exec (engine_db canon ts) d s vs = (Inl (PqErr c m), d)"
  using assms by (cases s) (auto simp: engine_defs bad_encoding_def Let_def)

lemma engine_laws:
  assumes "distinct (map tb_name ts)"
  shows "sql_db (engine_db canon ts) (\<lambda>d. d) (\<lambda>_. True) (\<lambda>_ _ _. True) canon ts"
proof (unfold_locales, goal_cases)
  note find = find_table [OF assms]
  {
    case (1 t d s vs)
    then show ?case using engine_bad_text [OF find] by blast
  next
    case (2 t d cs vs cl)
    then show ?case using find [OF 2(1)]
      by (auto simp: engine_defs bad_encoding_def Let_def list_all_iff)
  next
    case (3 t cs vs d e d')
    then show ?case using find [OF 3(1)] by (auto simp: engine_defs Let_def split: if_splits)
  next
    case (4 t cs vs d e d')
    then show ?case using find [OF 4(1)] by (auto simp: engine_defs Let_def split: if_splits)
  next
    case (5 t cs vs d n d')
    then show ?case using find [OF 5(1)] by (auto simp: engine_defs Let_def changes_only_def split: if_splits)
  next
    case (6 t d cs vs cl)
    then show ?case using find [OF 6(1)] good_not_bad [OF 6(5)] sendable_texts [OF 6(6)]
      by (auto simp: engine_defs Let_def changes_only_def list_all_iff)
  next
    case (7 t d cs vs)
    then show ?case using find [OF 7(1)] good_not_bad [OF 7(5)] sendable_texts [OF 7(6)]
      by (auto simp: engine_defs Let_def list_all_iff)
  next
    case (8 t d cs vs us)
    then show ?case using find [OF 8(1)] good_not_bad [OF 8(5)] sendable_texts [OF 8(6)]
      by (auto simp: engine_defs Let_def changes_only_def list_all_iff)
  next
    case (9 t d ks cs vs)
    then show ?case using find [OF 9(1)] by (simp add: engine_defs bad_params_iff)
  next
    case (10 t d ks cs vs)
    then show ?case using find [OF 10(1)] good_not_bad [OF 10(4)] sendable_texts [OF 10(5)]
      by (simp add: engine_defs changes_only_def Let_def)
  next
    case (11 t d ks vs)
    then show ?case using find [OF 11(1)] good_not_bad [OF 11(6)] sendable_texts [OF 11(7)]
      by (simp add: engine_defs changes_only_def)
  next
    case (12 t d ks after order vs)
    then show ?case using find [OF 12(1)] by (simp add: engine_defs bad_encoding_def bad_params_iff)
  next
    case (13 t d ks after order vs)
    then show ?case using find [OF 13(1)] by (simp add: engine_defs bad_params_iff)
  next
    case (14 t ks after order vs d rs rowsErr)
    then show ?case using find [OF 14(1)] by (auto simp: engine_defs Let_def split: if_splits option.splits)
  next
    case (15 t d ks after order vs)
    then show ?case using find [OF 15(1)] good_not_bad [OF 15(4)] sendable_texts [OF 15(5)]
      by (auto simp: engine_defs Let_def split: option.split)
  }
qed

end
