(* ===== verification/Schema.thy ===== *)
theory Schema
  imports Sql
begin

text \<open>
  The tables that the migrations under \<open>internal/store/migrations\<close> create, and the engine of \<open>Sql\<close>
  over them as an instance of the laws.
\<close>

abbreviation column_of :: "string \<Rightarrow> col_type \<Rightarrow> bool \<Rightarrow> bool \<Rightarrow> column" where
  "column_of n ty nn df \<equiv> \<lparr>col_name = n, col_type = ty, col_not_null = nn, col_default = df\<rparr>"

text \<open>A \<open>NOT NULL\<close> column, one that may be null, and one with a default.\<close>

abbreviation needed :: "string \<Rightarrow> col_type \<Rightarrow> column" where
  "needed n ty \<equiv> column_of n ty True False"

abbreviation nullable :: "string \<Rightarrow> col_type \<Rightarrow> column" where
  "nullable n ty \<equiv> column_of n ty False False"

abbreviation defaulted :: "string \<Rightarrow> col_type \<Rightarrow> column" where
  "defaulted n ty \<equiv> column_of n ty True True"

definition address_risk_cache :: table where
  "address_risk_cache = \<lparr>tb_name = ''address_risk_cache'',
     tb_columns = [needed ''id'' UUID, needed ''address'' TEXT, needed ''chain'' TEXT,
       needed ''risk_score'' INTEGER, needed ''exposure'' TEXT, needed ''decision'' TEXT,
       needed ''vendor'' TEXT, defaulted ''cached_at'' TIMESTAMPTZ, needed ''ttl_seconds'' INTEGER,
       needed ''expires_at'' TIMESTAMPTZ, defaulted ''created_at'' TIMESTAMPTZ,
       defaulted ''updated_at'' TIMESTAMPTZ],
     tb_key = [''address'', ''chain''], tb_referenced = False\<rparr>"

definition kyt_screens :: table where
  "kyt_screens = \<lparr>tb_name = ''kyt_screens'',
     tb_columns = [needed ''screen_id'' UUID, needed ''tx_id'' TEXT, needed ''address'' TEXT,
       nullable ''source_address'' TEXT, needed ''chain'' TEXT, needed ''amount'' NUMERIC,
       needed ''risk_score'' INTEGER, needed ''exposure'' TEXT, needed ''decision'' TEXT,
       needed ''vendor'' TEXT, nullable ''vendor_response_id'' UUID, defaulted ''cache_hit'' BOOLEAN,
       defaulted ''created_at'' TIMESTAMPTZ, defaulted ''updated_at'' TIMESTAMPTZ],
     tb_key = [''screen_id''], tb_referenced = True\<rparr>"

definition kyt_alerts :: table where
  "kyt_alerts = \<lparr>tb_name = ''kyt_alerts'',
     tb_columns = [needed ''id'' UUID, nullable ''screen_id'' UUID, needed ''tx_id'' TEXT,
       needed ''address'' TEXT, needed ''chain'' TEXT, needed ''exposure'' TEXT, needed ''severity'' TEXT,
       defaulted ''status'' TEXT, nullable ''assignee'' TEXT, defaulted ''created_at'' TIMESTAMPTZ,
       defaulted ''updated_at'' TIMESTAMPTZ, nullable ''closed_at'' TIMESTAMPTZ],
     tb_key = [''id''], tb_referenced = False\<rparr>"

definition vendor_responses :: table where
  "vendor_responses = \<lparr>tb_name = ''vendor_responses'',
     tb_columns = [needed ''id'' UUID, needed ''vendor'' TEXT, needed ''request_payload'' JSONB,
       needed ''response_payload'' JSONB, needed ''idempotency_key'' TEXT, needed ''address'' TEXT,
       needed ''chain'' TEXT, needed ''tx_id'' TEXT, defaulted ''created_at'' TIMESTAMPTZ,
       defaulted ''updated_at'' TIMESTAMPTZ],
     tb_key = [''idempotency_key''], tb_referenced = False\<rparr>"

definition audit_events :: table where
  "audit_events = \<lparr>tb_name = ''audit_events'',
     tb_columns = [needed ''id'' UUID, nullable ''screen_id'' TEXT, nullable ''tx_id'' TEXT,
       nullable ''address'' TEXT, nullable ''chain'' TEXT, nullable ''amount'' TEXT,
       needed ''decision'' TEXT, nullable ''exposure'' TEXT, nullable ''risk_score'' INTEGER,
       nullable ''vendor'' TEXT, defaulted ''cache_hit'' BOOLEAN, needed ''source'' TEXT,
       nullable ''operator'' TEXT, defaulted ''created_at'' TIMESTAMPTZ,
       defaulted ''updated_at'' TIMESTAMPTZ],
     tb_key = [''id''], tb_referenced = False\<rparr>"

definition kyt_tables :: "table list" where
  "kyt_tables = [address_risk_cache, kyt_screens, kyt_alerts, vendor_responses, audit_events]"

lemmas schema_defs = address_risk_cache_def kyt_screens_def kyt_alerts_def vendor_responses_def
  audit_events_def

lemma tables_in [simp]:
  "address_risk_cache \<in> set kyt_tables" "kyt_screens \<in> set kyt_tables" "kyt_alerts \<in> set kyt_tables"
  "audit_events \<in> set kyt_tables"
  by (simp_all add: kyt_tables_def)

lemma table_names [simp]:
  "tb_name address_risk_cache = ''address_risk_cache''" "tb_name kyt_screens = ''kyt_screens''"
  "tb_name kyt_alerts = ''kyt_alerts''" "tb_name audit_events = ''audit_events''"
  by (simp_all add: schema_defs)

lemma table_keys [simp]:
  "tb_key address_risk_cache = [''address'', ''chain'']" "tb_key kyt_screens = [''screen_id'']"
  "tb_key kyt_alerts = [''id'']" "tb_key audit_events = [''id'']"
  by (simp_all add: schema_defs)

lemma table_columns:
  "columns_of (\<lambda>_. True) kyt_screens = [''screen_id'', ''tx_id'', ''address'', ''source_address'', ''chain'', ''amount'',
     ''risk_score'', ''exposure'', ''decision'', ''vendor'', ''vendor_response_id'', ''cache_hit'', ''created_at'', ''updated_at'']"
  "columns_of (\<lambda>_. True) kyt_alerts = [''id'', ''screen_id'', ''tx_id'', ''address'', ''chain'', ''exposure'', ''severity'',
     ''status'', ''assignee'', ''created_at'', ''updated_at'', ''closed_at'']"
  "columns_of (\<lambda>_. True) audit_events = [''id'', ''screen_id'', ''tx_id'', ''address'', ''chain'', ''amount'', ''decision'',
     ''exposure'', ''risk_score'', ''vendor'', ''cache_hit'', ''source'', ''operator'', ''created_at'', ''updated_at'']"
  "columns_of (\<lambda>_. True) address_risk_cache = [''id'', ''address'', ''chain'', ''risk_score'', ''exposure'', ''decision'',
     ''vendor'', ''cached_at'', ''ttl_seconds'', ''expires_at'', ''created_at'', ''updated_at'']"
  by (simp_all add: schema_defs columns_of_def)

text \<open>The columns a lookup compares, and those it orders by.\<close>

lemma table_lookups:
  "columns_of (\<lambda>c. col_type c \<in> {TEXT, UUID}) kyt_screens = [''screen_id'', ''tx_id'', ''address'', ''source_address'', ''chain'',
     ''exposure'', ''decision'', ''vendor'', ''vendor_response_id'']"
  "columns_of (\<lambda>c. col_type c \<in> {TEXT, UUID}) kyt_alerts = [''id'', ''screen_id'', ''tx_id'', ''address'', ''chain'',
     ''exposure'', ''severity'', ''status'', ''assignee'']"
  "columns_of (\<lambda>c. col_type c \<in> {TEXT, UUID}) address_risk_cache = [''id'', ''address'', ''chain'', ''exposure'',
     ''decision'', ''vendor'']"
  "columns_of (\<lambda>c. col_type c = TIMESTAMPTZ) kyt_screens = [''created_at'', ''updated_at'']"
  "columns_of (\<lambda>c. col_type c = TIMESTAMPTZ) kyt_alerts = [''created_at'', ''updated_at'', ''closed_at'']"
  "columns_of (\<lambda>c. col_type c = TIMESTAMPTZ) address_risk_cache = [''cached_at'', ''expires_at'', ''created_at'', ''updated_at'']"
  by (simp_all add: schema_defs columns_of_def)

lemma cache_not_referenced [simp]: "\<not> tb_referenced address_risk_cache"
  by (simp add: address_risk_cache_def)

lemma table_uuids [simp]:
  "tb_uuids address_risk_cache = [''id'']" "tb_uuids kyt_screens = [''screen_id'', ''vendor_response_id'']"
  "tb_uuids kyt_alerts = [''id'', ''screen_id'']" "tb_uuids audit_events = [''id'']"
  by (simp_all add: schema_defs tb_uuids_def columns_of_def)

lemma table_required:
  "required address_risk_cache =
     [''id'', ''address'', ''chain'', ''risk_score'', ''exposure'', ''decision'', ''vendor'', ''ttl_seconds'', ''expires_at'']"
  "required kyt_screens =
     [''screen_id'', ''tx_id'', ''address'', ''chain'', ''amount'', ''risk_score'', ''exposure'', ''decision'', ''vendor'']"
  "required kyt_alerts = [''id'', ''tx_id'', ''address'', ''chain'', ''exposure'', ''severity'']"
  "required audit_events = [''id'', ''decision'', ''source'']"
  by (simp_all add: schema_defs required_def columns_of_def)

lemma audit_exact: "tb_exact audit_events =
    [''screen_id'', ''tx_id'', ''address'', ''chain'', ''amount'', ''decision'', ''exposure'', ''risk_score'',
     ''vendor'', ''cache_hit'', ''source'', ''operator'']"
  by (simp add: schema_defs tb_exact_def columns_of_def)

text \<open>A fresh database, in which the engine keeps one list of rows per table.\<close>

abbreviation pg_engine :: "engine DB" where
  "pg_engine \<equiv> engine_db uuid_canon kyt_tables"

definition empty_db :: engine where
  "empty_db = (\<lambda>_. [])"

text \<open>The service's database: the laws for its tables.\<close>

locale kyt_db = sql_db db contents up fits canon kyt_tables
  for db :: "'d DB" and contents up fits canon

interpretation pg: kyt_db pg_engine "\<lambda>d. d" "\<lambda>_. True" "\<lambda>_ _ _. True" uuid_canon
  by (intro kyt_db.intro engine_laws) (simp add: kyt_tables_def schema_defs)

text \<open>A supply of identifiers for examples: ten UUIDs, then other texts, since UUIDs run out.\<close>

definition demo_uuids :: "nat \<Rightarrow> string" where
  "demo_uuids n = (if n < 10 then ''0190c1de-7a3b-7def-8123-456789abcde'' @ [char_of (48 + n)] else replicate (37 + n) CHR ''a'')"

lemma demo_uuids_inj: "inj demo_uuids"
proof (rule injI)
  fix m n assume eq: "demo_uuids m = demo_uuids n"
  have len: "length (demo_uuids k) = (if k < 10 then 36 else 37 + k)" for k by (simp add: demo_uuids_def)
  show "m = n"
  proof (cases "m < 10")
    case True
    then have n: "n < 10" using arg_cong [OF eq, of length] unfolding len by (auto split: if_splits)
    then have "char_of (48 + m) = (char_of (48 + n) :: char)" using eq True by (simp add: demo_uuids_def)
    then have "(48 + m) mod 256 = (48 + n) mod 256" by (metis of_char_of)
    then show ?thesis using True n by simp
  next
    case False
    then show ?thesis using arg_cong [OF eq, of length] unfolding len by (auto split: if_splits)
  qed
qed

end
