(* ===== verification/Db_Sink.thy ===== *)
theory Db_Sink
  imports Schema Audit_Events
begin

text \<open>
  \<open>internal/audit/db_sink.go\<close>: audit events appended to the table \<open>audit_events\<close>, behind the emitter of
  \<open>Audit_Events\<close>.
\<close>

definition audit_columns :: "string list" where
  "audit_columns = [''id'', ''screen_id'', ''tx_id'', ''address'', ''chain'', ''amount'', ''decision'', ''exposure'',
     ''risk_score'', ''vendor'', ''cache_hit'', ''source'', ''operator'', ''created_at'']"

definition audit_args :: "string \<Rightarrow> Event \<Rightarrow> sql_val list" where
  "audit_args i e = [SText i, SText (ev_ScreenID e), SText (ev_TxID e), SText (ev_Address e), SText (ev_Chain e),
     SText (ev_Amount e), SText (ev_Decision e), SText (ev_Exposure e), SInt (ev_RiskScore e), SText (ev_Vendor e),
     SBool (ev_CacheHit e), SText (ev_Source e), SText (ev_Operator e), STime (ev_CreatedAt e)]"

definition DBSink_Emit :: "'d DB \<Rightarrow> world \<Rightarrow> 'd \<Rightarrow> Event \<Rightarrow> go_error option \<times> world \<times> 'd" where
  "DBSink_Emit db w d e =
     (let (i, w1) = newID w in
      case db_Exec db d (Insert ''audit_events'' audit_columns NoClause) (audit_args i e) of
        (Inl err, d1) \<Rightarrow> (Some (Wrap ''db audit emit'' err), w1, d1)
      | (Inr _, d1) \<Rightarrow> (None, w1, d1))"

definition db_sink :: "'d DB \<Rightarrow> 'd Sink" where
  "db_sink db = \<lparr>sk_Emit = DBSink_Emit db\<rparr>"

section \<open>Sinks that may lose an acknowledgement\<close>

text \<open>
  A sink that appends what it accepts, and that may or may not have appended an event whose delivery it
  reports as failed.  Its log lies between the delivered events and those it was given, in order.
\<close>

locale append_log =
  fixes sink :: "'s Sink" and log :: "'s \<Rightarrow> 'e list" and view :: "Event \<Rightarrow> 'e"
  assumes appended: "sk_Emit sink w s ev = (None, w', s') \<Longrightarrow> log s' = log s @ [view ev]"
    and doubtful: "sk_Emit sink w s ev = (Some err, w', s') \<Longrightarrow> log s' = log s \<or> log s' = log s @ [view ev]"
begin

definition between :: "'e list \<Rightarrow> 's audit_sys \<Rightarrow> bool" where
  "between l0 y \<longleftrightarrow> (\<exists>kept. log (sys_sink y) = l0 @ map view kept
     \<and> subseq (delivered (sys_handled y)) kept \<and> subseq kept (map fst (sys_handled y)))"

lemma between_more:
  assumes "between l0 y" and "sys_handled z = sys_handled y @ [(ev, ok)]"
    and "log (sys_sink z) = log (sys_sink y) @ (if k then [view ev] else [])" and "ok \<longrightarrow> k"
  shows "between l0 z"
proof -
  obtain kept where kept: "log (sys_sink y) = l0 @ map view kept" "subseq (delivered (sys_handled y)) kept"
    "subseq kept (map fst (sys_handled y))" using assms(1) by (auto simp: between_def)
  have "subseq (delivered (sys_handled y) @ (if ok then [ev] else [])) (kept @ (if k then [ev] else []))"
    "subseq (kept @ (if k then [ev] else [])) (map fst (sys_handled y) @ [ev])"
    using kept(2,3) assms(4) by (auto intro!: list_emb_append_mono)
  then show ?thesis using kept(1) assms(2,3)
    by (intro between_def [THEN iffD2] exI [of _ "kept @ (if k then [ev] else [])"]) (auto split: if_splits)
qed

lemma step_between: "audit_step sink y z \<Longrightarrow> between l0 y \<Longrightarrow> between l0 z"
proof (induction rule: audit_step.induct)
  case (step_deliver y ok w s e ev)
  let ?z = "y\<lparr>sys_emitter := e, sys_world := w, sys_sink := s, sys_handled := sys_handled y @ [(ev, ok)]\<rparr>"
  obtain k where "log s = log (sys_sink y) @ (if k then [view ev] else [])" "ok \<longrightarrow> k"
  proof (cases ok)
    case True
    then show ?thesis using that [of True] deliver_some [OF step_deliver(1)] step_deliver(2) by (auto dest: appended)
  next
    case False
    then obtain err where "sk_Emit sink (sys_world y) (sys_sink y) ev = (Some err, w, s)"
      using deliver_some [OF step_deliver(1)] step_deliver(2) by auto
    from doubtful [OF this] show ?thesis using that [of True] that [of False] False by auto
  qed
  then show ?case using between_more [OF step_deliver(3), of ?z ev ok k] by simp
qed (simp_all add: between_def)

lemma init_between: "between (log s) (audit_init n s w)"
  by (simp add: audit_init_def between_def)

lemma reach_between: "audit_steps sink (audit_init n s w) y \<Longrightarrow> between (log s) y"
  by (induction rule: rtranclp_induct) (auto intro: init_between step_between)

end

sublocale audit_log \<subseteq> append_log
  by unfold_locales (auto dest: emit_ok emit_failed)

section \<open>The table as an audit log\<close>

text \<open>
  What the table keeps of an event: everything but the time, which the database rounds.
\<close>

definition untimed :: "Event \<Rightarrow> Event" where
  "untimed e = e\<lparr>ev_CreatedAt := 0\<rparr>"

definition text_of :: "sql_val \<Rightarrow> string" where
  "text_of v = (case v of SText s \<Rightarrow> s | _ \<Rightarrow> '''')"

definition row_event :: "row \<Rightarrow> Event" where
  "row_event r = \<lparr>ev_ScreenID = text_of (r ''screen_id''), ev_TxID = text_of (r ''tx_id''),
     ev_Address = text_of (r ''address''), ev_Chain = text_of (r ''chain''), ev_Amount = text_of (r ''amount''),
     ev_Decision = text_of (r ''decision''), ev_Exposure = text_of (r ''exposure''),
     ev_RiskScore = (case r ''risk_score'' of SInt n \<Rightarrow> n | _ \<Rightarrow> 0), ev_Vendor = text_of (r ''vendor''),
     ev_CacheHit = (r ''cache_hit'' = SBool True), ev_Source = text_of (r ''source''),
     ev_Operator = text_of (r ''operator''), ev_CreatedAt = 0\<rparr>"

definition recorded :: "('d \<Rightarrow> string \<Rightarrow> row list) \<Rightarrow> 'd \<Rightarrow> Event list" where
  "recorded contents d = map row_event (contents d ''audit_events'')"

lemma audit_shape: "columns_match audit_events audit_columns (audit_args i e)"
  by (simp add: columns_match_def table_columns audit_columns_def audit_args_def)

lemma row_event_args:
  assumes "\<forall>c \<in> set (tb_exact audit_events). c \<in> set audit_columns \<longrightarrow> r c = bind_cols audit_columns (audit_args i e) c"
  shows "row_event r = untimed e"
  using assms
  by (simp add: audit_exact audit_columns_def audit_args_def row_event_def untimed_def text_of_def)

text \<open>A database all of whose errors come from the server.\<close>

definition only_server_errors :: "'d DB \<Rightarrow> bool" where
  "only_server_errors db \<longleftrightarrow> (\<forall>d s vs e d'. db_Exec db d s vs = (Inl e, d') \<longrightarrow> server_error e)"

lemma emit_outcome:
  assumes "DBSink_Emit db w d ev = (r, w', d')"
  shows "(\<exists>e. db_Exec db d (Insert ''audit_events'' audit_columns NoClause) (audit_args (fst (newID w)) ev) = (Inl e, d')
      \<and> r = Some (Wrap ''db audit emit'' e))
    \<or> (\<exists>n. db_Exec db d (Insert ''audit_events'' audit_columns NoClause) (audit_args (fst (newID w)) ev) = (Inr n, d') \<and> r = None)"
proof -
  obtain x d1 where x: "db_Exec db d (Insert ''audit_events'' audit_columns NoClause) (audit_args (fst (newID w)) ev) = (x, d1)"
    by fastforce
  then show ?thesis using assms by (cases x) (auto simp: DBSink_Emit_def newID_def)
qed

context kyt_db
begin

lemma emit_delivered:
  assumes "DBSink_Emit db w d ev = (None, w', d')"
  shows "recorded contents d' = recorded contents d @ [untimed ev]"
proof -
  obtain n where "db_Exec db d (Insert ''audit_events'' audit_columns NoClause) (audit_args (fst (newID w)) ev) = (Inr n, d')"
    using emit_outcome [OF assms] by auto
  then obtain q where "contents d' ''audit_events'' = contents d ''audit_events'' @ [q]" "row_event q = untimed ev"
    using insert_plain [OF tables_in(4) audit_shape [of "fst (newID w)" ev], of d n d'] row_event_args [of _ "fst (newID w)" ev]
    by (auto simp: changes_only_def)
  then show ?thesis by (simp add: recorded_def)
qed

lemma emit_error:
  assumes "DBSink_Emit db w d ev = (Some err, w', d')"
  shows "\<exists>e. err = Wrap ''db audit emit'' e
    \<and> (recorded contents d' = recorded contents d \<or> \<not> server_error e \<and> recorded contents d' = recorded contents d @ [untimed ev])"
proof -
  obtain e where e: "db_Exec db d (Insert ''audit_events'' audit_columns NoClause) (audit_args (fst (newID w)) ev) = (Inl e, d')"
    "err = Wrap ''db audit emit'' e"
    using emit_outcome [OF assms] by auto
  have "contents d' = contents d \<or> (\<exists>q. contents d' ''audit_events'' = contents d ''audit_events'' @ [q] \<and> row_event q = untimed ev)"
    using insert_lost [OF tables_in(4) audit_shape [of "fst (newID w)" ev], of d e d'] e(1) row_event_args [of _ "fst (newID w)" ev]
    by (auto simp: changes_only_def)
  moreover have "server_error e \<Longrightarrow> contents d' = contents d"
    using insert_refused [OF tables_in(4) audit_shape [of "fst (newID w)" ev], of d e d'] e(1) by simp
  ultimately show ?thesis using e(2) by (auto simp: recorded_def)
qed

lemma db_append_log: "append_log (db_sink db) (recorded contents) untimed"
  by unfold_locales (auto simp: db_sink_def dest: emit_delivered emit_error)

lemma db_audit_log: "only_server_errors db \<Longrightarrow> audit_log (db_sink db) (recorded contents) untimed"
proof unfold_locales
  fix w d ev err w' d'
  assume db: "only_server_errors db" and run: "sk_Emit (db_sink db) w d ev = (Some err, w', d')"
  then obtain e where e: "db_Exec db d (Insert ''audit_events'' audit_columns NoClause) (audit_args (fst (newID w)) ev) = (Inl e, d')"
    using emit_outcome [of db w d ev "Some err" w' d'] by (auto simp: db_sink_def)
  have "server_error e" using db e unfolding only_server_errors_def by blast
  then show "recorded contents d' = recorded contents d"
    using insert_refused [OF tables_in(4) audit_shape [of "fst (newID w)" ev], of d e d'] e by (simp add: recorded_def)
qed (auto simp: db_sink_def dest: emit_delivered)

end

interpretation pg_log: append_log "db_sink pg_engine" "recorded (\<lambda>d. d)" untimed
  by (rule pg.db_append_log)

text \<open>
  C15: The audit table, behind the emitter.  Over a database that obeys the laws, whatever the interleaving of
  screens, worker and shutdown, the table holds events in the order they were accepted, complete but for the
  rounded time, none invented or duplicated: every event whose delivery succeeded, and of the others at most
  some whose delivery ended in doubt (the worker's deadline of five seconds, a lost connection).  When every
  failure is an error of the server, it holds exactly the delivered ones.
\<close>

theorem db_audit_in_order:
  assumes "kyt_db db contents up fits canon" and "contents d ''audit_events'' = []"
    and "audit_steps (db_sink db) (audit_init n d w) y"
  shows "(\<exists>kept. recorded contents (sys_sink y) = map untimed kept
      \<and> subseq (delivered (sys_handled y)) kept \<and> subseq kept (map fst (sys_handled y)) \<and> subseq kept (sys_accepted y))
    \<and> (only_server_errors db \<longrightarrow> recorded contents (sys_sink y) = map untimed (delivered (sys_handled y)))"
proof
  note log = kyt_db.db_append_log [OF assms(1)]
  have none: "recorded contents d = []" using assms(2) by (simp add: recorded_def)
  obtain kept where kept: "recorded contents (sys_sink y) = map untimed kept" "subseq (delivered (sys_handled y)) kept"
    "subseq kept (map fst (sys_handled y))"
    using append_log.reach_between [OF log assms(3)] none by (auto simp: append_log.between_def [OF log])
  have "sys_accepted y = map fst (sys_handled y) @ pending (sys_emitter y)"
    using audit_reach_inv [OF assms(3)] by (simp add: audit_inv_def)
  then have "subseq kept (sys_accepted y)"
    using kept(3) list_emb_append_mono [of "(=)" kept "map fst (sys_handled y)" "[]" "pending (sys_emitter y)"] by simp
  then show "\<exists>kept. recorded contents (sys_sink y) = map untimed kept
      \<and> subseq (delivered (sys_handled y)) kept \<and> subseq kept (map fst (sys_handled y)) \<and> subseq kept (sys_accepted y)"
    using kept by blast
  show "only_server_errors db \<longrightarrow> recorded contents (sys_sink y) = map untimed (delivered (sys_handled y))"
    using audit_log.reach_log [OF kyt_db.db_audit_log [OF assms(1)] assms(3)] none by simp
qed

text \<open>A run that delivers an event.\<close>

definition demo_db_world :: world where
  "demo_db_world = \<lparr>clk = (\<lambda>n. int n), ticks = 0, uuids = demo_uuids, drawn = 0\<rparr>"

definition demo_db_start :: "engine audit_sys" where
  "demo_db_start = audit_init 2 empty_db demo_db_world"

definition demo_db_sent :: engine where
  "demo_db_sent = snd (snd (DBSink_Emit pg_engine demo_db_world empty_db demo_event))"

definition demo_db_delivered :: "engine audit_sys" where
  "demo_db_delivered = demo_db_start\<lparr>sys_emitter := (NewEmitter 2)\<lparr>em_emitted := 1\<rparr>, sys_world := fst (snd (DBSink_Emit pg_engine demo_db_world empty_db demo_event)),
     sys_sink := demo_db_sent, sys_accepted := [demo_event], sys_handled := [(demo_event, True)]\<rparr>"

lemma demo_db_emit: "fst (DBSink_Emit pg_engine demo_db_world empty_db demo_event) = None"
  by code_simp

lemma demo_db_run: "audit_steps (db_sink pg_engine) demo_db_start demo_db_delivered"
proof -
  let ?y1 = "demo_db_start\<lparr>sys_emitter := (NewEmitter 2)\<lparr>em_queue := [demo_event]\<rparr>, sys_accepted := [demo_event]\<rparr>"
  let ?y2 = "?y1\<lparr>sys_emitter := (NewEmitter 2)\<lparr>em_inflight := Some demo_event\<rparr>\<rparr>"
  have "Emitter_Emit (sys_world demo_db_start) (sys_emitter demo_db_start) demo_event
      = (None, demo_db_world, (NewEmitter 2)\<lparr>em_queue := [demo_event]\<rparr>)"
    by (simp add: demo_db_start_def audit_init_def Emitter_Emit_def NewEmitter_def)
  from step_accept [OF this, of "db_sink pg_engine"] have s1: "audit_step (db_sink pg_engine) demo_db_start ?y1"
    by (simp add: demo_db_start_def audit_init_def)
  have "worker_receive (sys_emitter ?y1) = Some (sys_emitter ?y2)" by (simp add: receive_some NewEmitter_def)
  from step_receive [OF this, of "db_sink pg_engine"] have s2: "audit_step (db_sink pg_engine) ?y1 ?y2" by simp
  obtain w1 where e: "DBSink_Emit pg_engine demo_db_world empty_db demo_event = (None, w1, demo_db_sent)"
    using demo_db_emit by (metis demo_db_sent_def prod.collapse)
  have "worker_deliver (db_sink pg_engine) (sys_world ?y2) (sys_sink ?y2) (sys_emitter ?y2)
      = Some (True, w1, demo_db_sent, (NewEmitter 2)\<lparr>em_emitted := 1\<rparr>)"
    using e by (simp add: worker_deliver_def db_sink_def demo_db_start_def audit_init_def NewEmitter_def ctr_add_def wrap64_def)
  from step_deliver [OF this, of demo_event] have "audit_step (db_sink pg_engine) ?y2 demo_db_delivered"
    using e by (simp add: demo_db_delivered_def demo_db_start_def audit_init_def)
  with s1 s2 show ?thesis by (meson converse_rtranclp_into_rtranclp rtranclp.rtrancl_refl)
qed

lemma engine_server_errors: "only_server_errors pg_engine"
  unfolding only_server_errors_def
proof (intro allI impI)
  fix d s vs e d'
  assume "db_Exec pg_engine d s vs = (Inl e, d')"
  then show "server_error e"
    by (cases s) (auto simp: engine_defs no_table_def bad_encoding_def Let_def split: if_splits option.splits conflict.splits)
qed

theorem db_audit_in_order_witness:
  "recorded (\<lambda>d. d) (sys_sink demo_db_delivered) = [untimed demo_event]"
  using db_audit_in_order [OF pg.kyt_db_axioms _ demo_db_run [unfolded demo_db_start_def]] engine_server_errors
  by (simp add: empty_db_def demo_db_delivered_def delivered_def)

end
