(* ===== verification/Audit_Trail.thy ===== *)
theory Audit_Trail
  imports Screen Db_Sink
begin

text \<open>
  Screens and the audit worker together (\<open>internal/screen/screen.go\<close> with \<open>internal/audit/audit.go\<close>): requests,
  receptions and deliveries interleave on one emitter, with any provider and any sink.  Every answered
  screen has its row, and its event in the order of the answers, unless the counter of drops says otherwise.
\<close>

section \<open>The system\<close>

text \<open>
  The last four fields are observations of the run: the requests that were answered, the events that
  were queued for them, those handed to the sink with the outcome, and how many found the queue full.
\<close>

record ('p, 'k) trail =
  tr_core :: "(MemoryCache, 'p, MemoryScreenStore, MemoryStore) screen_state"
  tr_sink :: 'k
  tr_answers :: "(Request \<times> Response) list"
  tr_queued :: "Event list"
  tr_handled :: "(Event \<times> bool) list"
  tr_refused :: nat

definition trail_init ::
    "(MemoryCache, 'p, MemoryScreenStore, MemoryStore) screen_state \<Rightarrow> 'k \<Rightarrow> ('p, 'k) trail" where
  "trail_init core s =
     \<lparr>tr_core = core, tr_sink = s, tr_answers = [], tr_queued = [], tr_handled = [], tr_refused = 0\<rparr>"

abbreviation emitter_of :: "('p, 'k) trail \<Rightarrow> Emitter" where
  "emitter_of t \<equiv> st_audit (tr_core t)"

abbreviation queue_of :: "(MemoryCache, 'p, MemoryScreenStore, MemoryStore) screen_state \<Rightarrow> Event list" where
  "queue_of core \<equiv> em_queue (st_audit core)"

inductive trail_step ::
    "(MemoryCache, 'p, MemoryScreenStore, MemoryStore) Service \<Rightarrow> 'k Sink \<Rightarrow> ('p, 'k) trail \<Rightarrow> ('p, 'k) trail \<Rightarrow> bool"
  for svc sink where
  answer: "Service_Screen svc (tr_core t) req = (Inr resp, core) \<Longrightarrow>
     trail_step svc sink t (t\<lparr>tr_core := core, tr_answers := tr_answers t @ [(req, resp)],
       tr_queued := tr_queued t @ drop (length (queue_of (tr_core t))) (queue_of core),
       tr_refused := tr_refused t + (if length (queue_of core) = length (queue_of (tr_core t)) then 1 else 0)\<rparr>)"
| refuse: "Service_Screen svc (tr_core t) req = (Inl err, core) \<Longrightarrow> trail_step svc sink t (t\<lparr>tr_core := core\<rparr>)"
| receive: "worker_receive (emitter_of t) = Some e \<Longrightarrow>
     trail_step svc sink t (t\<lparr>tr_core := (tr_core t)\<lparr>st_audit := e\<rparr>\<rparr>)"
| deliver: "worker_deliver sink (st_world (tr_core t)) (tr_sink t) (emitter_of t) = Some (ok, w, s, e) \<Longrightarrow>
     em_inflight (emitter_of t) = Some ev \<Longrightarrow>
     trail_step svc sink t (t\<lparr>tr_core := (tr_core t)\<lparr>st_audit := e, st_world := w\<rparr>, tr_sink := s,
       tr_handled := tr_handled t @ [(ev, ok)]\<rparr>)"

inductive_cases trail_stepE: "trail_step svc sink t u"

section \<open>The invariant\<close>

definition event_for :: "Request \<times> Response \<Rightarrow> Event \<Rightarrow> bool" where
  "event_for a ev \<longleftrightarrow> (\<exists>now. ev = event_of (fst a) (snd a) now)"

definition row_for :: "MemoryScreenStore \<Rightarrow> Request \<times> Response \<Rightarrow> bool" where
  "row_for s a \<longleftrightarrow> (\<exists>now. map_of s (rp_ScreenID (snd a)) = Some (row_of (fst a) (snd a) now))"

definition trail_ok :: "(MemoryScreenStore \<Rightarrow> MemoryScreenStore) \<Rightarrow> ('p, 'k) trail \<Rightarrow> bool" where
  "trail_ok ord t \<longleftrightarrow> memory_state_ok ord (tr_core t)
   \<and> list_all (row_for (st_screens (tr_core t))) (tr_answers t)
   \<and> tr_queued t = map fst (tr_handled t) @ pending (emitter_of t)
   \<and> (\<exists>kept. subseq kept (tr_answers t) \<and> list_all2 event_for kept (tr_queued t)
        \<and> length (tr_answers t) = length kept + tr_refused t)
   \<and> em_drops (emitter_of t) = wrap64 (int (tr_refused t + failures (tr_handled t)))"

lemma trail_ok_init:
  "memory_state_ok ord core \<Longrightarrow> pending (st_audit core) = [] \<Longrightarrow> em_drops (st_audit core) = 0 \<Longrightarrow> trail_ok ord (trail_init core s)"
  by (simp add: trail_ok_def trail_init_def)

text \<open>What a screen does to the emitter: its event is queued, or counted.\<close>

lemma screen_emits:
  assumes "screen_effect req resp rows rows' table table' em em'"
  obtains (queued) ev where "event_for (req, resp) ev" "em' = em\<lparr>em_queue := em_queue em @ [ev]\<rparr>"
    | (dropped) "em' = em\<lparr>em_drops := ctr_add (em_drops em) 1\<rparr>"
  using assms by (auto simp: screen_effect_def event_for_def split: if_splits)

lemma screen_keeps_rows:
  assumes "screen_effect req resp (map_of s) (map_of s') table table' em em'" and "list_all (row_for s) as"
  shows "list_all (row_for s') (as @ [(req, resp)])"
proof -
  obtain now where rows: "map_of s (rp_ScreenID resp) = None" "map_of s' = (map_of s)(rp_ScreenID resp \<mapsto> row_of req resp now)"
    using assms(1) by (auto simp: screen_effect_def)
  have "row_for s' a" if "row_for s a" for a
    using that rows by (auto simp: row_for_def split: if_splits)
  moreover have "row_for s' (req, resp)" using rows(2) by (auto simp: row_for_def)
  ultimately show ?thesis using assms(2) by (simp add: list_all_iff)
qed

lemma pending_queue [simp]: "pending (e\<lparr>em_queue := em_queue e @ q\<rparr>) = pending e @ q"
  "pending (e\<lparr>em_drops := n\<rparr>) = pending e"
  by (simp_all add: pending_def split: option.split)

text \<open>One more answer, whose event is kept or not.\<close>

lemma kept_answer:
  assumes "subseq kept as" and "list_all2 event_for kept evs" and "length as = length kept + n"
  shows "event_for a ev \<Longrightarrow> \<exists>kept'. subseq kept' (as @ [a]) \<and> list_all2 event_for kept' (evs @ [ev])
      \<and> length (as @ [a]) = length kept' + n"
    and "\<exists>kept'. subseq kept' (as @ [a]) \<and> list_all2 event_for kept' evs \<and> length (as @ [a]) = length kept' + Suc n"
proof -
  show "\<exists>kept'. subseq kept' (as @ [a]) \<and> list_all2 event_for kept' (evs @ [ev]) \<and> length (as @ [a]) = length kept' + n"
    if "event_for a ev"
    using assms that by (intro exI [of _ "kept @ [a]"]) (simp add: list_all2_appendI list_emb_append_mono)
  show "\<exists>kept'. subseq kept' (as @ [a]) \<and> list_all2 event_for kept' evs \<and> length (as @ [a]) = length kept' + Suc n"
    using assms list_emb_append_mono [of "(=)" kept as "[]" "[a]"] by (intro exI [of _ kept]) simp
qed


text \<open>A sink draws identifiers and reads the clock of the world, and nothing else.\<close>

definition sink_advances :: "'k Sink \<Rightarrow> bool" where
  "sink_advances sink \<longleftrightarrow> (\<forall>w s ev r w' s'. sk_Emit sink w s ev = (r, w', s') \<longrightarrow> world_le w w')"

lemma deliver_advances:
  assumes "sink_advances sink" and "worker_deliver sink w s e = Some (ok, w', s', e')"
  shows "world_le w w'"
proof -
  obtain ev r where "sk_Emit sink w s ev = (r, w', s')"
    using deliver_some [OF assms(2)] by (cases ok) auto
  then show ?thesis using assms(1) unfolding sink_advances_def by blast
qed

lemma memory_state_emitter:
  assumes "memory_state_ok ord core" and "world_le (st_world core) w"
  shows "memory_state_ok ord (core\<lparr>st_audit := e, st_world := w\<rparr>)" "memory_state_ok ord (core\<lparr>st_audit := e\<rparr>)"
  using assms world_le_fresh [OF assms(2)] used_ids_mono [OF assms(2)] by (auto simp: memory_state_ok_def)

lemma trail_answer:
  assumes "screen_provider prov" and "trail_ok ord t"
    and "Service_Screen (memory_service ord prov th ul) (tr_core t) req = (Inr resp, core)"
  shows "trail_ok ord (t\<lparr>tr_core := core, tr_answers := tr_answers t @ [(req, resp)],
       tr_queued := tr_queued t @ drop (length (queue_of (tr_core t))) (queue_of core),
       tr_refused := tr_refused t + (if length (queue_of core) = length (queue_of (tr_core t)) then 1 else 0)\<rparr>)"
proof -
  have ok: "memory_state_ok ord (tr_core t)" using assms(2) by (simp add: trail_ok_def)
  have valid: "validate req = None" using assms(3) by (auto simp: Service_Screen_def split: option.splits)
  have eff: "screen_effect req resp (map_of (st_screens (tr_core t))) (map_of (st_screens core))
      (ms_mem (st_alerts (tr_core t))) (ms_mem (st_alerts core)) (emitter_of t) (st_audit core)"
    and ok': "memory_state_ok ord core"
    using memory_screen_effect [OF assms(1) ok valid, of th ul] assms(3) by auto
  have rows: "list_all (row_for (st_screens core)) (tr_answers t @ [(req, resp)])"
    using assms(2) by (intro screen_keeps_rows [OF eff]) (simp add: trail_ok_def)
  obtain kept where kept: "subseq kept (tr_answers t)" "list_all2 event_for kept (tr_queued t)"
    "length (tr_answers t) = length kept + tr_refused t"
    using assms(2) by (auto simp: trail_ok_def)
  have queue: "tr_queued t = map fst (tr_handled t) @ pending (emitter_of t)"
    and drops: "em_drops (emitter_of t) = wrap64 (int (tr_refused t + failures (tr_handled t)))"
    using assms(2) by (simp_all add: trail_ok_def)
  show ?thesis using eff
  proof (cases rule: screen_emits)
    case (queued ev)
    then show ?thesis using kept_answer(1) [OF kept queued(1)] ok' rows queue drops by (simp add: trail_ok_def)
  next
    case dropped
    then have "em_drops (st_audit core) = wrap64 (int (Suc (tr_refused t) + failures (tr_handled t)))"
      using drops by (simp add: add_ac)
    then show ?thesis using kept_answer(2) [OF kept, of "(req, resp)"] dropped ok' rows queue
      by (simp add: trail_ok_def)
  qed
qed

lemma trail_ok_step:
  assumes "trail_step (memory_service ord prov th ul) sink t u" and "screen_provider prov" and "sink_advances sink"
    and "trail_ok ord t"
  shows "trail_ok ord u"
  using assms(1)
proof cases
  case (answer req resp core)
  then show ?thesis using trail_answer [OF assms(2,4)] by simp
next
  case (refuse req err core)
  then have "core = tr_core t"
    using memory_screen_effect [OF assms(2), of ord "tr_core t" req th ul] assms(4)
    by (auto simp: trail_ok_def Service_Screen_def split: option.splits)
  then show ?thesis using refuse(1) assms(4) by simp
next
  case (receive e)
  then have "pending e = pending (emitter_of t)" "em_drops e = em_drops (emitter_of t)"
    by (auto simp: receive_some pending_def)
  then show ?thesis using receive(1) assms(4) memory_state_emitter(2) [of ord "tr_core t" "st_world (tr_core t)" e]
    by (auto simp: trail_ok_def)
next
  case (deliver ok w s e ev)
  have le: "world_le (st_world (tr_core t)) w" by (rule deliver_advances [OF assms(3) deliver(2)])
  have "pending (emitter_of t) = ev # pending e"
    "em_drops e = (if ok then em_drops (emitter_of t) else ctr_add (em_drops (emitter_of t)) 1)"
    using deliver_some [OF deliver(2)] deliver(3) by (auto simp: pending_def split: if_splits)
  then show ?thesis using deliver(1) assms(4) memory_state_emitter(1) [OF _ le, of ord e]
    by (auto simp: trail_ok_def add_ac)
qed


abbreviation trail_steps ::
    "(MemoryCache, 'p, MemoryScreenStore, MemoryStore) Service \<Rightarrow> 'k Sink \<Rightarrow> ('p, 'k) trail \<Rightarrow> ('p, 'k) trail \<Rightarrow> bool" where
  "trail_steps svc sink \<equiv> (trail_step svc sink)\<^sup>*\<^sup>*"

lemma trail_ok_reach:
  assumes "trail_steps (memory_service ord prov th ul) sink (trail_init core s) t" and "screen_provider prov"
    and "sink_advances sink" and "trail_ok ord (trail_init core s)"
  shows "trail_ok ord t"
  using assms(1) by (induction rule: rtranclp_induct) (use assms(2-4) trail_ok_step in blast)+

context audit_log
begin

lemma trail_log_step:
  "trail_step svc sink t u \<Longrightarrow> log (tr_sink t) = l0 @ map view (delivered (tr_handled t)) \<Longrightarrow>
     log (tr_sink u) = l0 @ map view (delivered (tr_handled u))"
proof (induction rule: trail_step.induct)
  case (deliver t ok w s e ev)
  then show ?case using deliver_some [OF deliver(1)] by (auto dest: emit_ok emit_failed split: if_splits)
qed simp_all

lemma trail_log:
  assumes "trail_steps svc sink (trail_init core s) t"
  shows "log (tr_sink t) = log s @ map view (delivered (tr_handled t))"
  using assms by (induction rule: rtranclp_induct) (auto simp: trail_init_def intro: trail_log_step)

end

lemma failures_le: "failures hs \<le> length hs"
  by (simp add: failures_def)

lemma no_failures: "failures hs = 0 \<Longrightarrow> delivered hs = map fst hs"
  by (auto simp: failures_def delivered_def filter_empty_conv intro: arg_cong [where f = "map fst"] filter_True)

text \<open>When the counter of drops reads zero, there were none.\<close>

lemma wrap64_zero: "0 \<le> n \<Longrightarrow> n < 2 ^ 63 \<Longrightarrow> wrap64 n = 0 \<Longrightarrow> n = 0"
  by (simp add: wrap64_def signed_take_bit_int_eq_self)

text \<open>
  C10: The audit trail.  In any interleaving of requests, receptions and deliveries, every answered screen
  has its row; the events handed to the sink, in flight and queued are those of the answers, in order, but
  for as many as the counter says were refused, and the log holds the delivered ones.  So when nothing is
  pending and the counter of drops reads zero, the log holds exactly one event per answer, in order.
\<close>

theorem audit_trail_complete:
  assumes "screen_provider prov" and "sink_advances sink" and "audit_log sink log view"
    and "memory_state_ok ord core" and "pending (st_audit core) = []" and "em_drops (st_audit core) = 0"
    and "trail_steps (memory_service ord prov th ul) sink (trail_init core s) t"
  shows "list_all (row_for (st_screens (tr_core t))) (tr_answers t)
    \<and> (\<exists>kept. subseq kept (tr_answers t)
        \<and> list_all2 event_for kept (map fst (tr_handled t) @ pending (emitter_of t))
        \<and> length (tr_answers t) = length kept + tr_refused t)
    \<and> log (tr_sink t) = log s @ map view (delivered (tr_handled t))
    \<and> em_drops (emitter_of t) = wrap64 (int (tr_refused t + failures (tr_handled t)))
    \<and> (em_drops (emitter_of t) = 0 \<and> pending (emitter_of t) = [] \<and> int (length (tr_answers t)) < 2 ^ 63 \<longrightarrow>
        (\<exists>evs. list_all2 event_for (tr_answers t) evs \<and> log (tr_sink t) = log s @ map view evs))"
proof -
  have ok: "trail_ok ord t" by (rule trail_ok_reach [OF assms(7,1,2) trail_ok_init [OF assms(4-6)]])
  have logged: "log (tr_sink t) = log s @ map view (delivered (tr_handled t))"
    by (rule audit_log.trail_log [OF assms(3,7)])
  obtain kept where kept: "subseq kept (tr_answers t)"
    "list_all2 event_for kept (map fst (tr_handled t) @ pending (emitter_of t))"
    "length (tr_answers t) = length kept + tr_refused t"
    using ok by (auto simp: trail_ok_def)
  have drops: "em_drops (emitter_of t) = wrap64 (int (tr_refused t + failures (tr_handled t)))"
    and rows: "list_all (row_for (st_screens (tr_core t))) (tr_answers t)" using ok by (simp_all only: trail_ok_def)
  have "\<exists>evs. list_all2 event_for (tr_answers t) evs \<and> log (tr_sink t) = log s @ map view evs"
    if over: "em_drops (emitter_of t) = 0" "pending (emitter_of t) = []" "int (length (tr_answers t)) < 2 ^ 63"
  proof -
    let ?n = "tr_refused t + failures (tr_handled t)"
    have "?n \<le> length (tr_answers t)"
      using list_all2_lengthD [OF kept(2)] kept(3) failures_le [of "tr_handled t"] by simp
    then have small: "int ?n < 2 ^ 63" using over(3) by linarith
    have "wrap64 (int ?n) = 0" using drops over(1) by (rule trans [OF sym])
    from wrap64_zero [OF _ small this] have none: "tr_refused t = 0" "failures (tr_handled t) = 0" by simp_all
    then have "kept = tr_answers t" using subseq_same_length [OF kept(1)] kept(3) by simp
    moreover have "delivered (tr_handled t) = map fst (tr_handled t)" using none(2) by (rule no_failures)
    ultimately show ?thesis using kept(2) over(2) logged by (intro exI [of _ "map fst (tr_handled t)"]) simp
  qed
  then show ?thesis using rows kept logged drops by blast
qed


lemma memory_sink_advances: "sink_advances memory_sink"
  by (simp add: sink_advances_def memory_sink_def MemorySink_Emit_def)

lemma db_sink_advances: "sink_advances (db_sink db)"
  by (auto simp: sink_advances_def db_sink_def DBSink_Emit_def newID_def world_le_def Let_def
      split: prod.splits sum.splits)

text \<open>
  The same over the audit table, whose rows keep all of an event but its time, when only the server refuses
  rows.
\<close>

lemma db_audit_trail:
  assumes "kyt_db db contents up fits canon" and "screen_provider prov" and "memory_state_ok ord core"
    and "only_server_errors db" and "pending (st_audit core) = []" and "em_drops (st_audit core) = 0"
    and "trail_steps (memory_service ord prov th ul) (db_sink db) (trail_init core d) t"
    and "em_drops (emitter_of t) = 0" and "pending (emitter_of t) = []" and "int (length (tr_answers t)) < 2 ^ 63"
  shows "\<exists>evs. list_all2 event_for (tr_answers t) evs
    \<and> recorded contents (tr_sink t) = recorded contents d @ map untimed evs"
  using audit_trail_complete [OF assms(2) db_sink_advances kyt_db.db_audit_log [OF assms(1,4)] assms(3,5-7)] assms(8-10)
  by blast

theorem audit_trail_complete_witness:
  "\<exists>t resp ev. trail_steps (memory_service (\<lambda>m. m) mock_provider demo_thresholds id) memory_sink
      (trail_init demo_state NewMemorySink) t
    \<and> tr_answers t = [(demo_request1, resp)] \<and> MemorySink_Events (tr_sink t) = [ev] \<and> event_for (demo_request1, resp) ev"
proof -
  let ?svc = "memory_service (\<lambda>m. m) mock_provider demo_thresholds id"
  let ?t0 = "trail_init demo_state NewMemorySink"
  obtain resp core where run: "Service_Screen ?svc demo_state demo_request1 = (Inr resp, core)"
    and eff: "screen_effect demo_request1 resp (map_of (st_screens demo_state)) (map_of (st_screens core))
        (ms_mem (st_alerts demo_state)) (ms_mem (st_alerts core)) (st_audit demo_state) (st_audit core)"
    using memory_screen_effect [OF mock_adv.screen_provider_axioms demo_state_ok demo_request_valid] by blast
  have start: "st_audit demo_state = NewEmitter 2" by (simp add: demo_state_def)
  obtain ev where em: "st_audit core = (NewEmitter 2)\<lparr>em_queue := [ev]\<rparr>"
    using eff by (auto simp: screen_effect_def start NewEmitter_def)
  have "Service_Screen ?svc (tr_core ?t0) demo_request1 = (Inr resp, core)" using run by (simp add: trail_init_def)
  note s1 = trail_step.answer [OF this, of memory_sink]
  define t1 where "t1 = \<lparr>tr_core = core, tr_sink = NewMemorySink, tr_answers = [(demo_request1, resp)], tr_queued = [ev],
    tr_handled = [], tr_refused = 0\<rparr>"
  have "trail_step ?svc memory_sink ?t0 t1"
    using s1 em start by (simp add: t1_def trail_init_def NewEmitter_def)
  moreover define e2 where "e2 = (NewEmitter 2)\<lparr>em_inflight := Some ev\<rparr>"
  define t2 where "t2 = t1\<lparr>tr_core := core\<lparr>st_audit := e2\<rparr>\<rparr>"
  have "worker_receive (emitter_of t1) = Some e2" using em by (simp add: receive_some t1_def e2_def NewEmitter_def)
  from trail_step.receive [OF this, of ?svc memory_sink] have "trail_step ?svc memory_sink t1 t2"
    by (simp add: t2_def t1_def)
  moreover define t3 where "t3 = t2\<lparr>tr_core := core\<lparr>st_audit := (NewEmitter 2)\<lparr>em_emitted := 1\<rparr>\<rparr>,
    tr_sink := NewMemorySink\<lparr>snk_mem := [ev]\<rparr>, tr_handled := [(ev, True)]\<rparr>"
  have "worker_deliver memory_sink (st_world (tr_core t2)) (tr_sink t2) (emitter_of t2)
      = Some (True, st_world core, NewMemorySink\<lparr>snk_mem := [ev]\<rparr>, (NewEmitter 2)\<lparr>em_emitted := 1\<rparr>)"
    by (simp add: worker_deliver_def memory_sink_def MemorySink_Emit_def NewMemorySink_def t2_def t1_def e2_def
        NewEmitter_def ctr_add_def wrap64_def)
  from trail_step.deliver [OF this, of ev ?svc] have "trail_step ?svc memory_sink t2 t3"
    by (simp add: t3_def t2_def t1_def e2_def)
  ultimately have steps: "trail_steps ?svc memory_sink ?t0 t3" by (meson converse_rtranclp_into_rtranclp rtranclp.rtrancl_refl)
  have "em_drops (emitter_of t3) = 0 \<and> pending (emitter_of t3) = [] \<and> int (length (tr_answers t3)) < 2 ^ 63"
    by (simp add: t3_def t2_def t1_def NewEmitter_def pending_def)
  then obtain evs where "list_all2 event_for (tr_answers t3) evs" "MemorySink_Events (tr_sink t3) = MemorySink_Events NewMemorySink @ map (\<lambda>e. e) evs"
    using audit_trail_complete [OF mock_adv.screen_provider_axioms memory_sink_advances mem_sink.audit_log_axioms
        demo_state_ok _ _ steps] start by (auto simp: pending_def NewEmitter_def)
  then show ?thesis using steps
    by (intro exI [of _ t3] exI [of _ resp] exI [of _ ev])
      (auto simp: t3_def t2_def t1_def MemorySink_Events_def NewMemorySink_def list_all2_Cons1)
qed

end
