(* ===== verification/Store_Config.thy ===== *)
theory Store_Config
  imports Cache
begin

text \<open>
  \<open>internal/store/store.go\<close>: the configuration of the stores read from the environment.  Numbers are
  read with \<open>fmt.Sscanf(v, "%d", &n)\<close>, which skips leading white space, reads a sign and decimal
  digits, and ignores whatever follows them; a duration is that number times a second or a
  millisecond, in 64 bits.
\<close>

section \<open>Sscanf\<close>

text \<open>
  \<open>SkipSpace\<close> of package \<open>fmt\<close>: white space other than a newline, which is an error.  A carriage
  return before a newline is skipped and runs into that error.
\<close>

fun skip_space :: "string \<Rightarrow> string option" where
  "skip_space [] = Some []"
| "skip_space [a] = (if a = CHR 0x0A then None else if space1 a then Some [] else Some [a])"
| "skip_space [a, b] =
     (if a = CHR 0x0A then None else if space1 a then skip_space [b] else if space2 a b then Some [] else Some [a, b])"
| "skip_space (a # b # c # s) =
     (if a = CHR 0x0A then None
      else if space1 a then skip_space (b # c # s)
      else if space2 a b then skip_space (c # s)
      else if space3 a b c then skip_space s
      else Some (a # b # c # s))"

definition scan_digits :: "string \<Rightarrow> string" where
  "scan_digits s = takeWhile (\<lambda>c. digit_val c \<noteq> None) s"

text \<open>The optional sign, at least one digit, and \<open>strconv.ParseInt\<close> of what was read.\<close>

definition scan_int :: "string \<Rightarrow> int option" where
  "scan_int s =
     (case s of
        [] \<Rightarrow> None
      | c # r \<Rightarrow>
          (let (sign, ds) = (if c = CHR ''-'' \<or> c = CHR ''+'' then ([c], scan_digits r) else ([], scan_digits (c # r))) in
           if ds = [] then None else Atoi (sign @ ds)))"

definition Sscanf_d :: "string \<Rightarrow> int option" where
  "Sscanf_d v = Option.bind (skip_space v) scan_int"

section \<open>Reading the environment\<close>

definition parseSeconds :: "string \<Rightarrow> duration option" where
  "parseSeconds s = (case Sscanf_d s of None \<Rightarrow> None | Some n \<Rightarrow> Some (wrap64 (n * second)))"

definition store_envDuration :: "environ \<Rightarrow> string \<Rightarrow> duration \<Rightarrow> duration" where
  "store_envDuration env key def =
     (let v = Getenv env key in
      if v \<noteq> '''' then (case parseSeconds v of Some secs \<Rightarrow> secs | None \<Rightarrow> def) else def)"

definition store_envInt :: "environ \<Rightarrow> string \<Rightarrow> int \<Rightarrow> int" where
  "store_envInt env key def =
     (let v = Getenv env key in
      if v \<noteq> '''' then (case Sscanf_d v of Some n \<Rightarrow> n | None \<Rightarrow> def) else def)"

definition envMillis :: "environ \<Rightarrow> string \<Rightarrow> duration \<Rightarrow> duration" where
  "envMillis env key def =
     (let v = Getenv env key in
      if v \<noteq> '''' then (case Sscanf_d v of Some n \<Rightarrow> wrap64 (n * millisecond) | None \<Rightarrow> def) else def)"

record Config =
  cf_DBURL :: string
  cf_RedisURL :: string
  cf_CacheTTL :: duration
  cf_SanctionedCacheTTL :: duration
  cf_MaxOpenConns :: int
  cf_MaxIdleConns :: int
  cf_ConnMaxLifetime :: duration
  cf_VendorTimeout :: duration
  cf_CircuitBreakerThreshold :: int

definition LoadConfig :: "environ \<Rightarrow> Config" where
  "LoadConfig env =
     \<lparr>cf_DBURL = Getenv env ''DB_URL'',
      cf_RedisURL = Getenv env ''REDIS_URL'',
      cf_CacheTTL = store_envDuration env ''CACHE_TTL_SECONDS'' (3600 * second),
      cf_SanctionedCacheTTL = store_envDuration env ''SANCTIONED_CACHE_TTL_SECONDS'' (604800 * second),
      cf_MaxOpenConns = store_envInt env ''DB_MAX_OPEN_CONNS'' 25,
      cf_MaxIdleConns = store_envInt env ''DB_MAX_IDLE_CONNS'' 5,
      cf_ConnMaxLifetime = store_envDuration env ''DB_CONN_MAX_LIFETIME_SECONDS'' (300 * second),
      cf_VendorTimeout = envMillis env ''VENDOR_TIMEOUT_MS'' (800 * millisecond),
      cf_CircuitBreakerThreshold = store_envInt env ''VENDOR_CIRCUIT_BREAKER_THRESHOLD'' 5\<rparr>"

section \<open>What a number in the environment means\<close>

lemma digit_not_space:
  assumes "digit_val c \<noteq> None"
  shows "\<not> space1 c" and "\<not> space2 c d" and "\<not> space3 c d e" and "c \<noteq> CHR 0x0A" and "c \<noteq> CHR ''-''" and "c \<noteq> CHR ''+''"
proof -
  have n: "48 \<le> (of_char c :: nat)" "(of_char c :: nat) \<le> 57"
    using assms by (auto simp: digit_val_def Let_def split: if_splits)
  then show "\<not> space1 c" "c \<noteq> CHR 0x0A" "c \<noteq> CHR ''-''" "c \<noteq> CHR ''+''" by (auto simp: space1_def)
  show "\<not> space2 c d" "\<not> space3 c d e" using n by (auto simp: space2_def space3_def)
qed

lemma digit_val_nat_digits: "c \<in> set (nat_digits n) \<Longrightarrow> digit_val c \<noteq> None"
  using nat_digits_digits [of c n] by (auto simp: digit_val_def Let_def)

lemma skip_space_visible:
  assumes "\<not> space1 a" and "\<And>b. \<not> space2 a b" and "\<And>b c. \<not> space3 a b c" and "a \<noteq> CHR 0x0A"
  shows "skip_space (a # s) = Some (a # s)"
  using assms by (cases s; cases "tl s") auto

lemma Itoa_Cons_ne: "Itoa n \<noteq> []"
  using nat_digits_head [of "nat n"] by (auto simp: Itoa_def)

lemma scan_digits_append:
  "\<forall>c \<in> set ds. digit_val c \<noteq> None \<Longrightarrow> rest = [] \<or> digit_val (hd rest) = None \<Longrightarrow> scan_digits (ds @ rest) = ds"
  by (cases rest) (simp_all add: scan_digits_def)

text \<open>Any text that starts with a decimal number in range is read as that number.\<close>

lemma Sscanf_Itoa:
  assumes "minInt64 \<le> n" and "n \<le> maxInt64" and "rest = [] \<or> digit_val (hd rest) = None"
  shows "Sscanf_d (Itoa n @ rest) = Some n"
proof (cases "n < 0")
  case True
  let ?ds = "nat_digits (nat (- n))"
  have "scan_digits (?ds @ rest) = ?ds" using assms(3) digit_val_nat_digits by (intro scan_digits_append) auto
  moreover have "?ds \<noteq> []" using nat_digits_head [of "nat (- n)"] by auto
  moreover have "Itoa n = CHR ''-'' # ?ds" using True by (simp add: Itoa_def)
  moreover have "skip_space (CHR ''-'' # ?ds @ rest) = Some (CHR ''-'' # ?ds @ rest)"
    by (rule skip_space_visible) (simp_all add: space1_def space2_def space3_def)
  ultimately show ?thesis using Atoi_Itoa [OF assms(1,2)] by (simp add: Sscanf_d_def scan_int_def)
next
  case False
  let ?ds = "nat_digits (nat n)"
  obtain c cs where c: "?ds = c # cs" using nat_digits_head [of "nat n"] by auto
  have d: "digit_val c \<noteq> None" using digit_val_nat_digits [of c "nat n"] c by simp
  have "scan_digits (?ds @ rest) = ?ds" using assms(3) digit_val_nat_digits by (intro scan_digits_append) auto
  moreover have "Itoa n = ?ds" using False by (simp add: Itoa_def)
  moreover have "skip_space (c # cs @ rest) = Some (c # cs @ rest)"
    using digit_not_space [OF d] by (intro skip_space_visible)
  ultimately show ?thesis
    using Atoi_Itoa [OF assms(1,2)] digit_not_space(5,6) [OF d] by (simp add: Sscanf_d_def scan_int_def c)
qed


lemma wrap64_eq_iff: "wrap64 x = x \<longleftrightarrow> minInt64 \<le> x \<and> x \<le> maxInt64"
  using wrap64_range [of x] wrap64_id [of x] by auto

text \<open>
  C21: The cache's time to live is the number of seconds that \<open>CACHE_TTL_SECONDS\<close> starts with, whatever
  text follows it, as long as the nanoseconds fit into 64 bits (292 years); beyond that it wraps.
\<close>

theorem config_cache_ttl:
  assumes "Getenv env ''CACHE_TTL_SECONDS'' = Itoa n @ rest" and "rest = [] \<or> digit_val (hd rest) = None"
    and "minInt64 \<le> n" and "n \<le> maxInt64"
  shows "cf_CacheTTL (LoadConfig env) = wrap64 (n * second)
    \<and> (cf_CacheTTL (LoadConfig env) = n * second \<longleftrightarrow> - 9223372036 \<le> n \<and> n \<le> 9223372036)"
proof -
  have "Itoa n @ rest \<noteq> ''''" using Itoa_Cons_ne [of n] by simp
  then have t: "cf_CacheTTL (LoadConfig env) = wrap64 (n * second)"
    using assms(1) Sscanf_Itoa [OF assms(3,4,2)] by (simp add: LoadConfig_def store_envDuration_def parseSeconds_def)
  moreover have "(wrap64 (n * second) = n * second) = (- 9223372036 \<le> n \<and> n \<le> 9223372036)"
    unfolding wrap64_eq_iff by auto
  ultimately show ?thesis by simp
qed

theorem config_cache_ttl_witness:
  "cf_CacheTTL (LoadConfig [''CACHE_TTL_SECONDS=60 # one minute'']) = 60000000000
   \<and> cf_CacheTTL (LoadConfig [''CACHE_TTL_SECONDS=9223372037'']) \<noteq> 9223372037000000000"
proof -
  have v: "Itoa 60 = ''60''" "Itoa 9223372037 = ''9223372037''"
    by (simp_all add: Itoa_def nat_digits.simps char_of_def bit_0)
  have "Getenv [''CACHE_TTL_SECONDS=60 # one minute''] ''CACHE_TTL_SECONDS'' = Itoa 60 @ '' # one minute''"
    "Getenv [''CACHE_TTL_SECONDS=9223372037''] ''CACHE_TTL_SECONDS'' = Itoa 9223372037 @ ''''"
    by (simp_all add: v Getenv_def)
  from config_cache_ttl [OF this(1)] config_cache_ttl [OF this(2)]
  show ?thesis by (simp add: digit_val_def)
qed

end
