(* ===== verification/Circuit.thy ===== *)
theory Circuit
  imports Kyt_Prelude
begin

text \<open>
  \<open>internal/vendor/circuit.go\<close>: the circuit breaker.  Each method holds the mutex, so it is one
  atomic function of the breaker; \<open>Execute\<close> is not atomic, and the step relation at the end
  interleaves any number of calls.  The threshold and the failure counter are a Go \<open>int\<close>, which wraps.
\<close>

section \<open>The breaker\<close>

datatype CircuitState = CircuitClosed | CircuitOpen | CircuitHalfOpen

record CircuitBreaker =
  cb_Threshold :: int
  cb_OpenFor :: duration
  cb_state :: CircuitState
  cb_failures :: int
  cb_openedAt :: gotime
  cb_allowedOnce :: bool

definition NewCircuitBreaker :: "int \<Rightarrow> duration \<Rightarrow> CircuitBreaker" where
  "NewCircuitBreaker threshold openFor =
     \<lparr>cb_Threshold = (if threshold \<le> 0 then 5 else threshold),
      cb_OpenFor = (if openFor \<le> 0 then 60 * second else openFor),
      cb_state = CircuitClosed, cb_failures = 0, cb_openedAt = 0, cb_allowedOnce = False\<rparr>"

definition half_open_probe :: "CircuitBreaker \<Rightarrow> bool \<times> CircuitBreaker" where
  "half_open_probe b =
     (if cb_allowedOnce b then (False, b) else (True, b\<lparr>cb_allowedOnce := True\<rparr>))"

definition Allow :: "world \<Rightarrow> CircuitBreaker \<Rightarrow> bool \<times> world \<times> CircuitBreaker" where
  "Allow w b =
     (case cb_state b of
        CircuitClosed \<Rightarrow> (True, w, b)
      | CircuitOpen \<Rightarrow>
          (let (now, w1) = time_Now w in
           if time_Sub now (cb_openedAt b) \<ge> cb_OpenFor b then
             (let (r, b1) = half_open_probe (b\<lparr>cb_state := CircuitHalfOpen, cb_allowedOnce := False\<rparr>)
              in (r, w1, b1))
           else (False, w1, b))
      | CircuitHalfOpen \<Rightarrow> (let (r, b1) = half_open_probe b in (r, w, b1)))"

definition State :: "world \<Rightarrow> CircuitBreaker \<Rightarrow> CircuitState \<times> world \<times> CircuitBreaker" where
  "State w b =
     (if cb_state b = CircuitOpen then
        (let (now, w1) = time_Now w in
         if time_Sub now (cb_openedAt b) \<ge> cb_OpenFor b then
           (CircuitHalfOpen, w1, b\<lparr>cb_state := CircuitHalfOpen, cb_allowedOnce := False\<rparr>)
         else (CircuitOpen, w1, b))
      else (cb_state b, w, b))"

definition RecordSuccess :: "CircuitBreaker \<Rightarrow> CircuitBreaker" where
  "RecordSuccess b = b\<lparr>cb_failures := 0, cb_state := CircuitClosed, cb_allowedOnce := False\<rparr>"

definition RecordFailure :: "world \<Rightarrow> CircuitBreaker \<Rightarrow> world \<times> CircuitBreaker" where
  "RecordFailure w b =
     (let b1 = b\<lparr>cb_failures := ctr_add (cb_failures b) 1\<rparr> in
      if cb_state b1 = CircuitHalfOpen \<or> cb_failures b1 \<ge> cb_Threshold b1 then
        (let (now, w1) = time_Now w in
         (w1, b1\<lparr>cb_state := CircuitOpen, cb_openedAt := now, cb_allowedOnce := False\<rparr>))
      else (w, b1))"

text \<open>
  \<open>Execute\<close> runs a closure over the rest of the state \<open>'s\<close>.  The Go closure returns an error and
  assigns its result to a captured variable on success; here it returns the sum of both.
\<close>

definition Execute ::
    "(world \<Rightarrow> 's \<Rightarrow> (go_error + 'r) \<times> world \<times> 's) \<Rightarrow> world \<Rightarrow> CircuitBreaker \<Rightarrow> 's
     \<Rightarrow> (go_error + 'r) \<times> world \<times> CircuitBreaker \<times> 's" where
  "Execute fn w b s =
     (let (ok, w1, b1) = Allow w b in
      if \<not> ok then (Inl ErrCircuitOpen, w1, b1, s)
      else case fn w1 s of
          (Inl e, w2, s1) \<Rightarrow> (let (w3, b2) = RecordFailure w2 b1 in (Inl e, w3, b2, s1))
        | (Inr r, w2, s1) \<Rightarrow> (Inr r, w2, RecordSuccess b1, s1))"

section \<open>One call\<close>

lemma Allow_closed [simp]: "cb_state b = CircuitClosed \<Longrightarrow> Allow w b = (True, w, b)"
  by (simp add: Allow_def)

lemma Allow_open_early:
  "cb_state b = CircuitOpen \<Longrightarrow> time_Sub (clk w (ticks w)) (cb_openedAt b) < cb_OpenFor b \<Longrightarrow>
   Allow w b = (False, snd (time_Now w), b)"
  by (simp add: Allow_def time_Now_def)

lemma Allow_open_elapsed:
  "cb_state b = CircuitOpen \<Longrightarrow> cb_OpenFor b \<le> time_Sub (clk w (ticks w)) (cb_openedAt b) \<Longrightarrow>
   Allow w b = (True, snd (time_Now w), b\<lparr>cb_state := CircuitHalfOpen, cb_allowedOnce := True\<rparr>)"
  by (simp add: Allow_def time_Now_def half_open_probe_def)

lemma Allow_half_open:
  "cb_state b = CircuitHalfOpen \<Longrightarrow>
   Allow w b = (\<not> cb_allowedOnce b, w, b\<lparr>cb_allowedOnce := True\<rparr>)"
  by (simp add: Allow_def half_open_probe_def)

text \<open>
  While the breaker is open and its window has not elapsed, \<open>Execute\<close> returns
  \<open>ErrCircuitOpen\<close> and does not run the call: neither the call's state nor the breaker changes.
\<close>

theorem open_breaker_short_circuits:
  assumes "cb_state b = CircuitOpen"
    and "time_Sub (clk w (ticks w)) (cb_openedAt b) < cb_OpenFor b"
  shows "Execute fn w b s = (Inl ErrCircuitOpen, w\<lparr>ticks := Suc (ticks w)\<rparr>, b, s)"
  using Allow_open_early [OF assms] by (simp add: Execute_def)

definition demo_world :: world where
  "demo_world = \<lparr>clk = (\<lambda>n. int n), ticks = 1, uuids = (\<lambda>n. replicate (Suc n) (CHR ''i'')), drawn = 0\<rparr>"

theorem open_breaker_short_circuits_witness:
  "Execute (\<lambda>w s. (Inr s, w, s + 1)) demo_world
     ((NewCircuitBreaker 3 10)\<lparr>cb_state := CircuitOpen\<rparr>) (7::nat)
   = (Inl ErrCircuitOpen, demo_world\<lparr>ticks := 2\<rparr>, (NewCircuitBreaker 3 10)\<lparr>cb_state := CircuitOpen\<rparr>, 7)"
  using open_breaker_short_circuits [of "(NewCircuitBreaker 3 10)\<lparr>cb_state := CircuitOpen\<rparr>" demo_world
      "\<lambda>w s. (Inr s, w, s + 1)" "7::nat"]
  by (simp add: NewCircuitBreaker_def demo_world_def time_Sub_def numeral_2_eq_2)

text \<open>
  The outcome of an admitted call decides the breaker: a success closes it and clears the
  counter; a failure adds one and opens it when the probe failed or the threshold is reached,
  stamping the time; the closure's own result is returned unchanged.
\<close>

theorem execute_outcome:
  assumes "Allow w b = (True, w1, b1)" and "fn w1 s = (r, w2, s1)"
  shows "Execute fn w b s =
    (case r of
       Inr _ \<Rightarrow> (r, w2, b1\<lparr>cb_failures := 0, cb_state := CircuitClosed, cb_allowedOnce := False\<rparr>, s1)
     | Inl _ \<Rightarrow>
         if cb_state b1 = CircuitHalfOpen \<or> cb_Threshold b1 \<le> ctr_add (cb_failures b1) 1
         then (r, w2\<lparr>ticks := Suc (ticks w2)\<rparr>,
               b1\<lparr>cb_failures := ctr_add (cb_failures b1) 1, cb_state := CircuitOpen,
                  cb_openedAt := clk w2 (ticks w2), cb_allowedOnce := False\<rparr>, s1)
         else (r, w2, b1\<lparr>cb_failures := ctr_add (cb_failures b1) 1\<rparr>, s1))"
  using assms
  by (cases r) (simp_all add: Execute_def RecordSuccess_def RecordFailure_def time_Now_def Let_def)

theorem execute_outcome_witness:
  "Execute (\<lambda>w s. (Inl ErrVendorUnavailable, w, s)) demo_world (NewCircuitBreaker 1 10) (0::nat)
   = (Inl ErrVendorUnavailable :: go_error + nat, demo_world\<lparr>ticks := 2\<rparr>,
      (NewCircuitBreaker 1 10)\<lparr>cb_failures := 1, cb_state := CircuitOpen, cb_openedAt := 1\<rparr>, 0)"
  using execute_outcome [of demo_world "NewCircuitBreaker 1 10" demo_world "NewCircuitBreaker 1 10"
      "\<lambda>w s. (Inl ErrVendorUnavailable :: go_error + nat, w, s)" "0::nat"
      "Inl ErrVendorUnavailable" demo_world 0]
  by (simp add: NewCircuitBreaker_def demo_world_def numeral_2_eq_2 ctr_add_def wrap64_id)

section \<open>Interleaved calls\<close>

text \<open>
  Calls to \<open>Execute\<close> overlap: a call is admitted by \<open>Allow\<close>, runs, and later records its outcome.
  The system carries the breaker, the clock, the number of calls in flight, and two ghost fields:
  the outcomes recorded so far, latest first (\<open>True\<close> a success), and the calls admitted since the
  last outcome.
\<close>

record breaker_sys =
  bs_world :: world
  bs_breaker :: CircuitBreaker
  bs_inflight :: nat
  bs_outcomes :: "bool list"
  bs_admitted :: nat

inductive breaker_step :: "breaker_sys \<Rightarrow> breaker_sys \<Rightarrow> bool" where
  admit: "Allow (bs_world s) (bs_breaker s) = (True, w, b) \<Longrightarrow>
     breaker_step s (s\<lparr>bs_world := w, bs_breaker := b,
       bs_inflight := Suc (bs_inflight s), bs_admitted := Suc (bs_admitted s)\<rparr>)"
| refuse: "Allow (bs_world s) (bs_breaker s) = (False, w, b) \<Longrightarrow>
     breaker_step s (s\<lparr>bs_world := w, bs_breaker := b\<rparr>)"
| succeed: "bs_inflight s = Suc n \<Longrightarrow>
     breaker_step s (s\<lparr>bs_breaker := RecordSuccess (bs_breaker s), bs_inflight := n,
       bs_outcomes := True # bs_outcomes s, bs_admitted := 0\<rparr>)"
| fail: "bs_inflight s = Suc n \<Longrightarrow> RecordFailure (bs_world s) (bs_breaker s) = (w, b) \<Longrightarrow>
     breaker_step s (s\<lparr>bs_world := w, bs_breaker := b, bs_inflight := n,
       bs_outcomes := False # bs_outcomes s, bs_admitted := 0\<rparr>)"
| look: "State (bs_world s) (bs_breaker s) = (r, w, b) \<Longrightarrow>
     breaker_step s (s\<lparr>bs_world := w, bs_breaker := b\<rparr>)"

inductive_cases breaker_stepE: "breaker_step s t"

definition breaker_init :: "int \<Rightarrow> duration \<Rightarrow> world \<Rightarrow> breaker_sys" where
  "breaker_init threshold openFor w =
     \<lparr>bs_world = w, bs_breaker = NewCircuitBreaker threshold openFor, bs_inflight = 0,
      bs_outcomes = [], bs_admitted = 0\<rparr>"

inductive breaker_reach :: "breaker_sys \<Rightarrow> bool" where
  start: "threshold \<le> maxInt64 \<Longrightarrow> breaker_reach (breaker_init threshold openFor w)"
| step: "breaker_reach s \<Longrightarrow> breaker_step s t \<Longrightarrow> breaker_reach t"

definition trailing_failures :: "bool list \<Rightarrow> int" where
  "trailing_failures os = int (length (takeWhile Not os))"

lemma trailing_failures_simps [simp]:
  "trailing_failures [] = 0"
  "trailing_failures (True # os) = 0"
  "trailing_failures (False # os) = trailing_failures os + 1"
  by (simp_all add: trailing_failures_def)

lemma trailing_nonneg: "0 \<le> trailing_failures os"
  by (simp add: trailing_failures_def)

definition breaker_ok :: "CircuitBreaker \<Rightarrow> bool list \<Rightarrow> nat \<Rightarrow> bool" where
  "breaker_ok b os adm \<longleftrightarrow>
      0 < cb_Threshold b \<and> cb_Threshold b \<le> maxInt64 \<and>
      cb_failures b = wrap64 (trailing_failures os) \<and>
      (cb_state b = CircuitClosed \<longleftrightarrow> trailing_failures os < cb_Threshold b) \<and>
      (cb_allowedOnce b \<longrightarrow> cb_state b = CircuitHalfOpen) \<and>
      (cb_state b \<noteq> CircuitClosed \<longrightarrow> adm = (if cb_allowedOnce b then 1 else 0))"

definition breaker_inv :: "breaker_sys \<Rightarrow> bool" where
  "breaker_inv s \<longleftrightarrow> breaker_ok (bs_breaker s) (bs_outcomes s) (bs_admitted s)"

lemma breaker_inv_init: "threshold \<le> maxInt64 \<Longrightarrow> breaker_inv (breaker_init threshold openFor w)"
  by (simp add: breaker_inv_def breaker_ok_def breaker_init_def NewCircuitBreaker_def)

lemma Allow_cases:
  assumes "Allow w b = (r, w', b')"
  shows "(cb_state b = CircuitClosed \<and> r \<and> b' = b)
    \<or> (cb_state b = CircuitOpen \<and> r \<and> b' = b\<lparr>cb_state := CircuitHalfOpen, cb_allowedOnce := True\<rparr>)
    \<or> (cb_state b = CircuitOpen \<and> \<not> r \<and> b' = b)
    \<or> (cb_state b = CircuitHalfOpen \<and> r = (\<not> cb_allowedOnce b) \<and> b' = b\<lparr>cb_allowedOnce := True\<rparr>)"
proof (cases "cb_state b")
  case CircuitClosed
  with assms show ?thesis by simp
next
  case CircuitOpen
  with assms show ?thesis
    by (auto simp: Allow_def half_open_probe_def split: prod.splits if_splits)
next
  case CircuitHalfOpen
  with assms show ?thesis by (auto simp: Allow_half_open)
qed

lemma State_cases:
  assumes "State w b = (r, w', b')"
  shows "b' = b \<or> (cb_state b = CircuitOpen \<and> b' = b\<lparr>cb_state := CircuitHalfOpen, cb_allowedOnce := False\<rparr>)"
  using assms by (auto simp: State_def split: prod.splits if_splits)

lemma RecordFailure_cases:
  assumes "RecordFailure w b = (w', b')"
  shows "(\<exists>t. b' = b\<lparr>cb_failures := ctr_add (cb_failures b) 1, cb_state := CircuitOpen, cb_openedAt := t,
             cb_allowedOnce := False\<rparr> \<and> (cb_state b = CircuitHalfOpen \<or> cb_Threshold b \<le> ctr_add (cb_failures b) 1))
    \<or> (b' = b\<lparr>cb_failures := ctr_add (cb_failures b) 1\<rparr> \<and> cb_state b \<noteq> CircuitHalfOpen
         \<and> ctr_add (cb_failures b) 1 < cb_Threshold b)"
  using assms by (auto simp: RecordFailure_def Let_def split: prod.splits if_splits)

lemma Allow_ok:
  assumes "Allow w b = (r, w', b')" and "breaker_ok b os adm"
  shows "breaker_ok b' os (if r then Suc adm else adm)"
  using Allow_cases [OF assms(1)] assms(2)
  by (elim disjE conjE; simp add: breaker_ok_def)

lemma State_ok: "State w b = (r, w', b') \<Longrightarrow> breaker_ok b os adm \<Longrightarrow> breaker_ok b' os adm"
  by (drule State_cases, elim disjE conjE; simp add: breaker_ok_def)

lemma RecordSuccess_ok: "breaker_ok b os adm \<Longrightarrow> breaker_ok (RecordSuccess b) (True # os) 0"
  by (simp add: breaker_ok_def RecordSuccess_def)

lemma RecordFailure_ok:
  assumes "RecordFailure w b = (w', b')" and "breaker_ok b os adm"
  shows "breaker_ok b' (False # os) 0"
proof -
  have count: "ctr_add (cb_failures b) 1 = wrap64 (trailing_failures (False # os))"
    using assms(2) by (simp add: breaker_ok_def add.commute)
  have thr: "cb_Threshold b \<le> maxInt64" "0 < cb_Threshold b"
    and st: "cb_state b = CircuitClosed \<longleftrightarrow> trailing_failures os < cb_Threshold b"
    using assms(2) by (simp_all add: breaker_ok_def)
  have closed: "ctr_add (cb_failures b) 1 = trailing_failures (False # os)" if "cb_state b = CircuitClosed"
    unfolding count by (rule wrap64_id) (use st thr that trailing_nonneg [of os] in simp_all)
  show ?thesis
  proof (cases "cb_state b")
    case CircuitClosed
    then show ?thesis using RecordFailure_cases [OF assms(1)] closed [OF CircuitClosed] count assms(2)
      by (auto simp: breaker_ok_def)
  qed (use RecordFailure_cases [OF assms(1)] count st assms(2) in \<open>auto simp: breaker_ok_def\<close>)
qed

lemmas breaker_ok_ops = Allow_ok State_ok RecordSuccess_ok RecordFailure_ok

lemma breaker_inv_step: "breaker_step s t \<Longrightarrow> breaker_inv s \<Longrightarrow> breaker_inv t"
  by (erule breaker_step.cases) (auto simp: breaker_inv_def dest: breaker_ok_ops)

lemma breaker_reach_inv: "breaker_reach s \<Longrightarrow> breaker_inv s"
  by (induction rule: breaker_reach.induct) (auto intro: breaker_inv_init breaker_inv_step)

text \<open>
  C25: Under any interleaving of calls, successes, failures and state reads, the failure counter is the
  number of consecutive failures among the latest recorded outcomes (as a 64-bit \<open>int\<close>); the breaker is
  closed exactly while that number is below the threshold, and the counter is then exact; and once the
  threshold is reached, at most one call (the probe) is admitted until the next outcome is recorded, and
  the half-open breaker whose probe is out admits no other.
\<close>

theorem breaker_counts_consecutive_failures:
  assumes "breaker_reach s"
  shows "cb_failures (bs_breaker s) = wrap64 (trailing_failures (bs_outcomes s))
       \<and> (cb_state (bs_breaker s) = CircuitClosed \<longleftrightarrow> trailing_failures (bs_outcomes s) < cb_Threshold (bs_breaker s))
       \<and> (cb_state (bs_breaker s) = CircuitClosed \<longrightarrow> cb_failures (bs_breaker s) = trailing_failures (bs_outcomes s))
       \<and> (cb_Threshold (bs_breaker s) \<le> trailing_failures (bs_outcomes s) \<longrightarrow>
            bs_admitted s = (if cb_allowedOnce (bs_breaker s) then 1 else 0)
          \<and> (cb_allowedOnce (bs_breaker s) \<longrightarrow> cb_state (bs_breaker s) = CircuitHalfOpen
              \<and> fst (Allow (bs_world s) (bs_breaker s)) = False))"
proof -
  have ok: "breaker_ok (bs_breaker s) (bs_outcomes s) (bs_admitted s)"
    using breaker_reach_inv [OF assms] by (simp add: breaker_inv_def)
  then have "wrap64 (trailing_failures (bs_outcomes s)) = trailing_failures (bs_outcomes s)"
    if "cb_state (bs_breaker s) = CircuitClosed"
    using that trailing_nonneg [of "bs_outcomes s"] by (intro wrap64_id) (simp_all add: breaker_ok_def)
  then show ?thesis using ok by (auto simp: breaker_ok_def Allow_half_open)
qed

definition demo_tripped :: breaker_sys where
  "demo_tripped = (breaker_init 1 10 demo_world)
     \<lparr>bs_world := demo_world\<lparr>ticks := 2\<rparr>,
      bs_breaker := (NewCircuitBreaker 1 10)\<lparr>cb_failures := 1, cb_state := CircuitOpen, cb_openedAt := 1\<rparr>,
      bs_outcomes := [False]\<rparr>"

lemma demo_breaker_reach: "breaker_reach demo_tripped"
proof -
  let ?s0 = "breaker_init 1 10 demo_world"
  let ?s1 = "?s0\<lparr>bs_inflight := 1, bs_admitted := 1\<rparr>"
  have "breaker_step ?s0 (?s0\<lparr>bs_world := bs_world ?s0, bs_breaker := bs_breaker ?s0,
      bs_inflight := Suc (bs_inflight ?s0), bs_admitted := Suc (bs_admitted ?s0)\<rparr>)"
    by (rule admit) (simp add: breaker_init_def NewCircuitBreaker_def)
  then have s1: "breaker_reach ?s1"
    using breaker_reach.step [OF breaker_reach.start [of 1]] by (simp add: breaker_init_def)
  have "RecordFailure (bs_world ?s1) (bs_breaker ?s1) = (demo_world\<lparr>ticks := 2\<rparr>,
      (NewCircuitBreaker 1 10)\<lparr>cb_failures := 1, cb_state := CircuitOpen, cb_openedAt := 1\<rparr>)"
    by (simp add: breaker_init_def RecordFailure_def NewCircuitBreaker_def demo_world_def time_Now_def
        numeral_2_eq_2 ctr_add_def wrap64_id)
  from breaker_step.fail [of ?s1 0, OF _ this] s1 show ?thesis
    using breaker_reach.step [OF s1] by (simp add: breaker_init_def demo_tripped_def)
qed

theorem breaker_counts_consecutive_failures_witness:
  "cb_state (bs_breaker demo_tripped) \<noteq> CircuitClosed \<and> bs_admitted demo_tripped = 0
   \<and> trailing_failures (bs_outcomes demo_tripped) = cb_Threshold (bs_breaker demo_tripped)"
  using breaker_counts_consecutive_failures [OF demo_breaker_reach]
  by (simp add: demo_tripped_def breaker_init_def NewCircuitBreaker_def)

end
