(* ===== verification/Http_Provider.thy ===== *)
theory Http_Provider
  imports Circuit Idempotent Decision
begin

text \<open>
  \<open>internal/vendor/http_provider.go\<close>: the provider that calls a vendor over HTTP under the circuit
  breaker, and the request encoders and response decoders of Chainalysis and TRM.  The vendor and
  the network are the parameter \<open>roundtrip\<close>: from the request it yields an error of the HTTP
  client, or a status and a body that may fail to be read.  Spans and trace headers are left out.
\<close>

section \<open>The provider\<close>

record HttpRequest =
  rq_Method :: string
  rq_URL :: string
  rq_Body :: string
  rq_ContentType :: string
  rq_Authorization :: string
  rq_IdempotencyHeader :: string

type_synonym 'n roundtrip =
  "world \<Rightarrow> 'n \<Rightarrow> HttpRequest \<Rightarrow> (go_error + (int \<times> (go_error + string))) \<times> world \<times> 'n"

record HTTPProvider =
  hp_name :: string
  hp_apiKey :: string
  hp_baseURL :: string
  hp_encoder :: "ScreenRequest \<Rightarrow> go_error + string"
  hp_decoder :: "string \<Rightarrow> ScreenRequest \<Rightarrow> string \<Rightarrow> go_error + ScreenResponse"

definition vendor_request :: "HTTPProvider \<Rightarrow> ScreenRequest \<Rightarrow> string \<Rightarrow> HttpRequest" where
  "vendor_request hp req body =
     \<lparr>rq_Method = ''POST'', rq_URL = hp_baseURL hp @ ''/v1/screen'', rq_Body = body,
      rq_ContentType = ''application/json'', rq_Authorization = ''Bearer '' @ hp_apiKey hp,
      rq_IdempotencyHeader = vq_IdempotencyKey req\<rparr>"

text \<open>The closure that \<open>Screen\<close> hands to the breaker.\<close>

definition vendor_call ::
    "'n roundtrip \<Rightarrow> HTTPProvider \<Rightarrow> ScreenRequest \<Rightarrow> string \<Rightarrow> world \<Rightarrow> 'n
     \<Rightarrow> (go_error + ScreenResponse) \<times> world \<times> 'n" where
  "vendor_call roundtrip hp req body w n =
     (case roundtrip w n (vendor_request hp req body) of
        (Inl e, w1, n1) \<Rightarrow> (Inl e, w1, n1)
      | (Inr (status, rbody), w1, n1) \<Rightarrow>
          (case rbody of
             Inl e \<Rightarrow> (Inl e, w1, n1)
           | Inr raw \<Rightarrow>
               if status \<ge> 500 then
                 (Inl (ErrText (''vendor '' @ hp_name hp @ '': status '' @ Itoa status)), w1, n1)
               else if status \<ge> 400 then
                 (Inl (ErrText (''vendor '' @ hp_name hp @ '': client error status '' @ Itoa status
                        @ '': '' @ raw)), w1, n1)
               else (case hp_decoder hp (hp_name hp) req raw of
                   Inl e \<Rightarrow> (Inl e, w1, n1)
                 | Inr out \<Rightarrow> (Inr (out\<lparr>vr_RawRequest := body, vr_RawResponse := raw\<rparr>), w1, n1))))"

definition HTTPProvider_Screen ::
    "'n roundtrip \<Rightarrow> HTTPProvider \<Rightarrow> world \<Rightarrow> CircuitBreaker \<times> 'n \<Rightarrow> ScreenRequest
     \<Rightarrow> (go_error + ScreenResponse) \<times> world \<times> (CircuitBreaker \<times> 'n)" where
  "HTTPProvider_Screen roundtrip hp w bn req0 =
     (let (b, n) = bn in
      if hp_apiKey hp = '''' then (Inl (ErrText (''vendor '' @ hp_name hp @ '': missing api key'')), w, (b, n))
      else
        (let req = with_key req0 in
         case hp_encoder hp req of
           Inl e \<Rightarrow> (Inl (Wrap ''encode'' e), w, (b, n))
         | Inr body \<Rightarrow>
             (case Execute (vendor_call roundtrip hp req body) w b n of
                (Inl e, w1, b1, n1) \<Rightarrow>
                  (Inl (if errors_Is e ErrCircuitOpen then ErrVendorUnavailable else e), w1, (b1, n1))
              | (Inr resp, w1, b1, n1) \<Rightarrow> (Inr resp, w1, (b1, n1)))))"

definition http_provider :: "'n roundtrip \<Rightarrow> HTTPProvider \<Rightarrow> (CircuitBreaker \<times> 'n) ScreenProvider" where
  "http_provider roundtrip hp =
     \<lparr>prov_Name = (\<lambda>_. hp_name hp), prov_Screen = HTTPProvider_Screen roundtrip hp\<rparr>"

text \<open>It advances the world when the network does.\<close>

lemma Allow_advances: "Allow w b = (r, w', b') \<Longrightarrow> world_le w w'"
  by (auto simp: Allow_def half_open_probe_def time_Now_def Let_def split: CircuitState.splits if_splits prod.splits)

lemma RecordFailure_advances: "RecordFailure w b = (w', b') \<Longrightarrow> world_le w w'"
  by (auto simp: RecordFailure_def time_Now_def Let_def split: if_splits)

lemma Execute_advances:
  assumes "\<And>w s r w' s'. fn w s = (r, w', s') \<Longrightarrow> world_le w w'"
    and "Execute fn w b s = (r, w', b', s')"
  shows "world_le w w'"
proof -
  obtain ok w1 b1 where a: "Allow w b = (ok, w1, b1)" by (metis prod_cases3)
  obtain r2 w2 s2 where f: "fn w1 s = (r2, w2, s2)" by (metis prod_cases3)
  obtain w3 b3 where rf: "RecordFailure w2 b1 = (w3, b3)" by fastforce
  have "world_le w w1" "world_le w1 w2" "world_le w2 w3"
    using Allow_advances [OF a] assms(1) [OF f] RecordFailure_advances [OF rf] by simp_all
  moreover have "w' \<in> {w1, w2, w3}"
    using assms(2) a f rf by (auto simp: Execute_def split: if_splits sum.splits)
  ultimately show ?thesis by (auto intro: world_le_trans)
qed

lemma http_advances:
  assumes "\<And>w n q r w' n'. roundtrip w n q = (r, w', n') \<Longrightarrow> world_le w w'"
  shows "screen_provider (http_provider roundtrip hp)"
proof
  fix w bn q r w' bn'
  assume run: "prov_Screen (http_provider roundtrip hp) w bn q = (r, w', bn')"
  have call: "world_le u u'" if "vendor_call roundtrip hp q' body u n = (x, u', n')" for q' body u n x u' n'
    using that assms by (auto simp: vendor_call_def split: prod.splits sum.splits if_splits)
  have ex: "world_le u u'"
    if "Execute (vendor_call roundtrip hp q' body) u b n = (x, u', bn')" for q' body u b n x u' bn'
    by (rule Execute_advances [of "vendor_call roundtrip hp q' body" u b n x u' "fst bn'" "snd bn'"])
      (auto simp: that intro: call)
  show "world_le w w'"
    using run
    by (auto dest: ex simp: http_provider_def HTTPProvider_Screen_def Let_def split: if_splits sum.splits prod.splits)
qed

section \<open>Vendor encodings\<close>

text \<open>The keys of a marshalled map are sorted.\<close>

definition ChainalysisEncoder :: "ScreenRequest \<Rightarrow> go_error + string" where
  "ChainalysisEncoder req = Inr (marshal_obj
     [(''address'', VStr (vq_Address req)), (''amount'', VStr (vq_Amount req)),
      (''chain'', VStr (vq_Chain req)), (''idempotency'', VStr (vq_IdempotencyKey req)),
      (''source'', VStr (vq_SourceAddress req)), (''tx_id'', VStr (vq_TxID req))])"

definition TRMEncoder :: "ScreenRequest \<Rightarrow> go_error + string" where
  "TRMEncoder req = Inr (marshal_obj
     [(''address'', VStr (vq_Address req)), (''amount'', VStr (vq_Amount req)),
      (''chain'', VStr (vq_Chain req)), (''idempotencyKey'', VStr (vq_IdempotencyKey req)),
      (''source'', VStr (vq_SourceAddress req)), (''txId'', VStr (vq_TxID req))])"

definition decoded :: "string \<Rightarrow> int \<times> string \<Rightarrow> ScreenResponse" where
  "decoded vendor v =
     \<lparr>vr_Vendor = vendor, vr_RiskScore = fst v, vr_Exposure = snd v, vr_RawRequest = '''', vr_RawResponse = ''''\<rparr>"

definition ChainalysisDecoder :: "string \<Rightarrow> ScreenRequest \<Rightarrow> string \<Rightarrow> go_error + ScreenResponse" where
  "ChainalysisDecoder vendor req raw =
     (case unmarshal [''risk_score'', ''exposure''] (verdict_setter ''risk_score'') (0, '''') raw of
        Inl e \<Rightarrow> Inl (Wrap ''decode chainalysis'' e)
      | Inr v \<Rightarrow> Inr (decoded vendor v))"

definition TRMDecoder :: "string \<Rightarrow> ScreenRequest \<Rightarrow> string \<Rightarrow> go_error + ScreenResponse" where
  "TRMDecoder vendor req raw =
     (case unmarshal [''riskScore'', ''exposure''] (verdict_setter ''riskScore'') (0, '''') raw of
        Inl e \<Rightarrow> Inl (Wrap ''decode trm'' e)
      | Inr v \<Rightarrow> Inr (decoded vendor v))"

section \<open>Breaker and errors\<close>

text \<open>
  C26: What an HTTP provider with a key does with an encodable request while its breaker is open.  As long as
  the window has not elapsed it answers \<open>ErrVendorUnavailable\<close> without touching the network, whatever the
  vendor would have said.  Once it has elapsed, the request is the probe and reaches the vendor: an answer
  is returned and closes the breaker with a counter of zero, an error opens it anew from that moment.
\<close>

theorem open_breaker_no_vendor_traffic:
  assumes "hp_apiKey hp \<noteq> ''''" and "hp_encoder hp (with_key req) = Inr body" and "cb_state b = CircuitOpen"
  shows "if time_Sub (clk w (ticks w)) (cb_openedAt b) < cb_OpenFor b
    then HTTPProvider_Screen roundtrip hp w (b, n) req = (Inl ErrVendorUnavailable, w\<lparr>ticks := Suc (ticks w)\<rparr>, (b, n))
    else (case vendor_call roundtrip hp (with_key req) body (w\<lparr>ticks := Suc (ticks w)\<rparr>) n of (r, w2, n2) \<Rightarrow>
      \<exists>x w3 b3. HTTPProvider_Screen roundtrip hp w (b, n) req = (x, w3, (b3, n2))
        \<and> (case r of
             Inl e \<Rightarrow> isl x \<and> cb_state b3 = CircuitOpen \<and> cb_openedAt b3 = clk w2 (ticks w2)
           | Inr resp \<Rightarrow> x = Inr resp \<and> cb_state b3 = CircuitClosed \<and> cb_failures b3 = 0))"
proof (cases "time_Sub (clk w (ticks w)) (cb_openedAt b) < cb_OpenFor b")
  case True
  then show ?thesis using assms(1,2) Allow_open_early [OF assms(3) True] by (simp add: HTTPProvider_Screen_def Execute_def)
next
  case False
  then have le: "cb_OpenFor b \<le> time_Sub (clk w (ticks w)) (cb_openedAt b)" by simp
  obtain r w2 n2 where v: "vendor_call roundtrip hp (with_key req) body (w\<lparr>ticks := Suc (ticks w)\<rparr>) n = (r, w2, n2)"
    by (metis prod_cases3)
  show ?thesis using False assms(1,2) Allow_open_elapsed [OF assms(3) le] v
    by (cases r) (auto simp: HTTPProvider_Screen_def Execute_def RecordFailure_def RecordSuccess_def time_Now_def Let_def)
qed

definition demo_hp :: HTTPProvider where
  "demo_hp = \<lparr>hp_name = ''chainalysis'', hp_apiKey = ''key'', hp_baseURL = ''https://api'',
     hp_encoder = ChainalysisEncoder, hp_decoder = ChainalysisDecoder\<rparr>"

definition demo_roundtrip :: "nat roundtrip" where
  "demo_roundtrip w n rq = (Inr (503, Inr ''''), w, Suc n)"

lemma demo_body: "hp_encoder demo_hp (with_key demo_request) = Inr (projr (ChainalysisEncoder (with_key demo_request)))"
  by (simp add: demo_hp_def ChainalysisEncoder_def)

theorem open_breaker_no_vendor_traffic_witness:
  "fst (HTTPProvider_Screen demo_roundtrip demo_hp demo_world
      ((NewCircuitBreaker 3 10)\<lparr>cb_state := CircuitOpen\<rparr>, 0) demo_request) = Inl ErrVendorUnavailable
   \<and> snd (snd (snd (HTTPProvider_Screen demo_roundtrip demo_hp demo_world
      ((NewCircuitBreaker 3 10)\<lparr>cb_state := CircuitOpen\<rparr>, 0) demo_request))) = 0"
  using open_breaker_no_vendor_traffic [of demo_hp demo_request _
      "(NewCircuitBreaker 3 10)\<lparr>cb_state := CircuitOpen\<rparr>" demo_world, OF _ demo_body, of demo_roundtrip 0]
  by (simp add: demo_hp_def ChainalysisEncoder_def NewCircuitBreaker_def demo_world_def time_Sub_def)

lemma vendor_call_error_status:
  assumes "roundtrip w n (vendor_request hp req body) = (Inr (status, Inr raw), w1, n1)" and "status \<ge> 400"
  shows "\<exists>e. vendor_call roundtrip hp req body w n = (Inl e, w1, n1) \<and> \<not> errors_Is e ErrCircuitOpen"
  using assms by (simp add: vendor_call_def)

text \<open>
  Every vendor answer with an error status, 4xx as well as 5xx, fails the screen and counts as a
  failure of a closed breaker; at the threshold it opens.
\<close>

theorem error_status_counts_as_failure:
  assumes "hp_apiKey hp \<noteq> ''''" and "hp_encoder hp (with_key req) = Inr body"
    and "cb_state b = CircuitClosed"
    and "roundtrip w n (vendor_request hp (with_key req) body) = (Inr (status, Inr raw), w1, n1)"
    and "status \<ge> 400"
  shows "\<exists>e b1 w2. HTTPProvider_Screen roundtrip hp w (b, n) req = (Inl e, w2, (b1, n1))
       \<and> cb_failures b1 = ctr_add (cb_failures b) 1
       \<and> (cb_state b1 = CircuitOpen \<longleftrightarrow> cb_Threshold b \<le> ctr_add (cb_failures b) 1)"
proof -
  obtain e where call: "vendor_call roundtrip hp (with_key req) body w n = (Inl e, w1, n1)"
    using vendor_call_error_status [of roundtrip w n hp "with_key req" body status raw w1 n1] assms(4,5) by blast
  show ?thesis
    using assms(1-3) call
    by (auto simp: HTTPProvider_Screen_def Execute_def RecordFailure_def time_Now_def Let_def)
qed

theorem error_status_counts_as_failure_witness:
  "\<exists>e b1 w2. HTTPProvider_Screen demo_roundtrip demo_hp demo_world (NewCircuitBreaker 1 10, 0) demo_request
      = (Inl e, w2, (b1, 1)) \<and> cb_state b1 = CircuitOpen"
  using error_status_counts_as_failure [of demo_hp demo_request _ "NewCircuitBreaker 1 10" demo_roundtrip
      demo_world 0 503 "''''" demo_world 1, OF _ demo_body]
  by (auto simp: demo_hp_def ChainalysisEncoder_def NewCircuitBreaker_def demo_roundtrip_def ctr_add_def wrap64_id)

section \<open>Replaying vendor payloads\<close>

text \<open>
  Re-hydration of a stored Chainalysis payload is its own decoding: whenever the decoder
  accepted the body, the replayed response carries the same score and exposure.
\<close>

theorem chainalysis_replay_faithful:
  assumes "ChainalysisDecoder vendor req raw = Inr r" and "vrr_ResponsePayload c = raw"
  shows "\<exists>v. hydrate (vrr_ResponsePayload c) = Inr v
       \<and> vr_RiskScore (replay_of c v) = vr_RiskScore r \<and> vr_Exposure (replay_of c v) = vr_Exposure r"
  using assms by (auto simp: ChainalysisDecoder_def hydrate_def replay_of_def decoded_def split: sum.splits)

definition demo_payload :: string where
  "demo_payload = marshal_obj [(''risk_score'', VInt 95)]"

lemma demo_payload_decoded:
  "ChainalysisDecoder ''chainalysis'' req demo_payload = Inr (decoded ''chainalysis'' (95, ''''))"
proof -
  have "list_all ascii_field [(''risk_score'', VInt 95)]" by (simp add: is_ascii_def)
  then show ?thesis
    by (simp add: ChainalysisDecoder_def unmarshal_def demo_payload_def parse_marshal_obj verdict_setter_def
        set_int_def Atoi_Itoa)
qed

theorem chainalysis_replay_faithful_witness:
  "\<exists>v. hydrate demo_payload = Inr v \<and> fst v = 95"
  using chainalysis_replay_faithful [OF demo_payload_decoded, of "demo_record\<lparr>vrr_ResponsePayload := demo_payload\<rparr>"]
  by (auto simp: replay_of_def decoded_def)

text \<open>An answer of an HTTP provider carries both payloads as they were on the wire.\<close>

lemma vendor_call_answer:
  assumes "vendor_call roundtrip hp req body w n = (Inr r, w1, n1)"
  shows "\<exists>out. hp_decoder hp (hp_name hp) req (vr_RawResponse r) = Inr out \<and> r = out\<lparr>vr_RawRequest := body, vr_RawResponse := vr_RawResponse r\<rparr>"
  using assms by (auto simp: vendor_call_def split: prod.splits sum.splits if_splits)

lemma http_answer:
  assumes "prov_Screen (http_provider roundtrip hp) w p req = (Inr r, w1, p1)"
  shows "\<exists>body out. hp_encoder hp (with_key req) = Inr body
    \<and> hp_decoder hp (hp_name hp) (with_key req) (vr_RawResponse r) = Inr out
    \<and> r = out\<lparr>vr_RawRequest := body, vr_RawResponse := vr_RawResponse r\<rparr>"
proof -
  obtain b n where p: "p = (b, n)" by fastforce
  obtain body w0 b1 n1 where body: "hp_encoder hp (with_key req) = Inr body"
    "Execute (vendor_call roundtrip hp (with_key req) body) w b n = (Inr r, w0, b1, n1)"
    using assms by (auto simp: http_provider_def HTTPProvider_Screen_def p Let_def split: if_splits sum.splits prod.splits)
  obtain u u' n' where "vendor_call roundtrip hp (with_key req) body u n = (Inr r, u', n')"
    using body(2) by (auto simp: Execute_def Let_def split: prod.splits if_splits sum.splits)
  from vendor_call_answer [OF this] show ?thesis using body(1) by blast
qed

lemma no_empty_verdict: "ChainalysisDecoder vendor req raw = Inr out \<Longrightarrow> raw \<noteq> ''''"
  by (auto simp: ChainalysisDecoder_def unmarshal_def parse_json_def split: sum.splits)

text \<open>
  C27: A retry repeats the first answer.  With Chainalysis as \<open>buildProvider\<close> sets it up, behind the breaker
  and the response store, once a screen of a key that was not stored has been answered, every later screen
  with that key gets this very answer, score, exposure and payloads, and neither the breaker nor the
  network is touched.
\<close>

theorem retry_replays_first_answer:
  assumes "hp_encoder hp = ChainalysisEncoder" and "hp_decoder hp = ChainalysisDecoder"
    and "distinct (keys_of s)" and "map_of s (vq_IdempotencyKey (with_key req)) = None"
    and "IdempotentProvider_Screen (http_provider roundtrip hp) memory_response_store w (p, s) req = (Inr r, w', (p', s'))"
    and "vq_IdempotencyKey (with_key req') = vq_IdempotencyKey (with_key req)"
  shows "IdempotentProvider_Screen (http_provider roundtrip hp) memory_response_store v (q, s') req' = (Inr r, v, (q, s'))"
proof -
  obtain r0 w1 c where first: "prov_Screen (http_provider roundtrip hp) w p (with_key req) = (Inr r0, w1, p')"
    "r = fill_raw (with_key req) r0" "distinct (keys_of s')"
    "map_of s' (vq_IdempotencyKey (with_key req)) = Some c" "vrr_Vendor c = vr_Vendor r"
    "vrr_ResponsePayload c = vr_RawResponse r" "vrr_RequestPayload c = vr_RawRequest r"
    using memory_first_answer [OF assms(3-5)] by blast
  obtain body out where out: "ChainalysisDecoder (hp_name hp) (with_key (with_key req)) (vr_RawResponse r0) = Inr out"
    "r0 = out\<lparr>vr_RawRequest := body, vr_RawResponse := vr_RawResponse r0\<rparr>"
    using http_answer [OF first(1)] assms(2) by auto
  have raw: "vr_RawResponse r = vr_RawResponse r0"
    using no_empty_verdict [OF out(1)] by (simp add: first(2) fill_raw_def)
  obtain x where x: "hydrate (vrr_ResponsePayload c) = Inr x"
    "vr_RiskScore (replay_of c x) = vr_RiskScore out" "vr_Exposure (replay_of c x) = vr_Exposure out"
    using chainalysis_replay_faithful [OF out(1), of c] first(6) raw by auto
  have "vr_RiskScore r0 = vr_RiskScore out \<and> vr_Exposure r0 = vr_Exposure out" by (subst out(2), subst (2) out(2)) simp
  then have "replay_of c x = r" using x(2,3) first(5-7) by (simp add: replay_of_def first(2) fill_raw_def)
  with mrs.replay [OF first(3) _ x(1), of req'] first(4) assms(6) show ?thesis by simp
qed

definition demo_vendor :: "nat roundtrip" where
  "demo_vendor w n rq = (Inr (200, Inr demo_payload), w, Suc n)"

lemma demo_first_answer:
  "\<exists>r w' p' s'. IdempotentProvider_Screen (http_provider demo_vendor demo_hp) memory_response_store demo_world
     ((NewCircuitBreaker 3 10, 0), []) demo_request = (Inr r, w', (p', s')) \<and> vr_RiskScore r = 95 \<and> snd p' = 1"
proof -
  have "vendor_call demo_vendor demo_hp req body w n =
      (Inr ((decoded ''chainalysis'' (95, ''''))\<lparr>vr_RawRequest := body, vr_RawResponse := demo_payload\<rparr>), w, Suc n)" for req body w n
    by (simp add: vendor_call_def demo_vendor_def demo_hp_def demo_payload_decoded)
  then show ?thesis
    by (simp add: IdempotentProvider_Screen_def MemoryResponseStore_Get_def MemoryResponseStore_Put_def http_provider_def
        HTTPProvider_Screen_def Execute_def demo_hp_def ChainalysisEncoder_def NewCircuitBreaker_def time_Now_def Let_def
        fill_raw_def decoded_def demo_request_def with_key_def IdempotencyKey_def split: prod.split)
qed

theorem retry_replays_first_answer_witness:
  "\<exists>r w' p' s'. IdempotentProvider_Screen (http_provider demo_vendor demo_hp) memory_response_store demo_world
       ((NewCircuitBreaker 3 10, 0), []) demo_request = (Inr r, w', (p', s')) \<and> vr_RiskScore r = 95
     \<and> IdempotentProvider_Screen (http_provider demo_vendor demo_hp) memory_response_store w' (p', s') demo_request
         = (Inr r, w', (p', s'))"
proof -
  obtain r w' p' s' where run: "IdempotentProvider_Screen (http_provider demo_vendor demo_hp) memory_response_store demo_world
      ((NewCircuitBreaker 3 10, 0), []) demo_request = (Inr r, w', (p', s'))" "vr_RiskScore r = 95"
    using demo_first_answer by blast
  have "hp_encoder demo_hp = ChainalysisEncoder" "hp_decoder demo_hp = ChainalysisDecoder" by (simp_all add: demo_hp_def)
  from retry_replays_first_answer [OF this _ _ run(1) refl] run show ?thesis by auto
qed

lemma find_field_riskScore: "find_field [''risk_score'', ''exposure''] ''riskScore'' = None"
  by (simp add: find_field_def)

text \<open>
  C28: A stored TRM payload is not: TRM names the score \<open>riskScore\<close>, which re-hydration ignores, so
  the replayed response has score 0.  For a TRM answer with a score at or above the block threshold
  and no exposure, the first screen decides \<open>BLOCK\<close> and the retry \<open>ALLOW\<close>.
\<close>

theorem trm_replay_loses_score:
  assumes "thresholdsFor ul t chain = (block, high)" and "block \<le> n" and "0 < block" and "0 < high"
    and "n \<le> maxInt64" and "raw = marshal_obj [(''riskScore'', VInt n)]"
  shows "\<exists>r v. TRMDecoder vendor req raw = Inr r \<and> hydrate raw = Inr v
       \<and> vr_RiskScore r = n \<and> vr_Exposure r = '''' \<and> v = (0, '''')
       \<and> Decide t (ExposureFromScore ul t (vr_RiskScore r) chain) = DecisionBlock
       \<and> Decide t (ExposureFromScore ul t (fst v) chain) = DecisionAllow"
proof -
  have a: "list_all ascii_field [(''riskScore'', VInt n)]"
    by (simp add: is_ascii_def)
  have "TRMDecoder vendor req raw = Inr (decoded vendor (n, ''''))"
    using a assms by (simp add: TRMDecoder_def unmarshal_def parse_marshal_obj verdict_setter_def
        set_int_def Atoi_Itoa)
  moreover have "hydrate raw = Inr (0, '''')"
    using a assms by (simp add: hydrate_def unmarshal_def parse_marshal_obj find_field_riskScore)
  ultimately show ?thesis
    using assms(1-4) by (simp add: ExposureFromScore_def decoded_def)
qed

theorem trm_replay_loses_score_witness:
  "\<exists>r. TRMDecoder ''trm'' demo_request (marshal_obj [(''riskScore'', VInt 95)]) = Inr r \<and> vr_RiskScore r = 95
   \<and> hydrate (marshal_obj [(''riskScore'', VInt 95)]) = Inr (0, '''')"
  using trm_replay_loses_score [of id "NewThresholds 90 50 DecisionManualReview" "''ethereum''" 90 50 95 _
      "''trm''" demo_request, OF _ _ _ _ _ refl]
  by (auto simp: thresholdsFor_def NewThresholds_def)

end
