(* ===== verification/Pg_Alert.thy ===== *)
theory Pg_Alert
  imports Schema Alert
begin

text \<open>
  \<open>internal/store/pg_alert.go\<close>: alerts in the table \<open>kyt_alerts\<close>.  Each operation is compared with that of
  the in-memory store, for alerts as the table holds them (times in whole microseconds) and texts that the
  server takes.
\<close>

section \<open>The store\<close>

text \<open>\<open>errors.As\<close> finds the driver's error under any wrapping.\<close>

fun isInvalidUUID :: "go_error \<Rightarrow> bool" where
  "isInvalidUUID (PqErr code m) \<longleftrightarrow> code = ''22P02''"
| "isInvalidUUID (Wrap p e) \<longleftrightarrow> isInvalidUUID e"
| "isInvalidUUID _ \<longleftrightarrow> False"

text \<open>Reading one column of a row into a variable, and going on with it.\<close>

definition read_col :: "(sql_val \<Rightarrow> 'v option) \<Rightarrow> row \<Rightarrow> string \<Rightarrow> ('v \<Rightarrow> go_error + 'a) \<Rightarrow> go_error + 'a" where
  "read_col f r c k = (case f (r c) of None \<Rightarrow> Inl scan_error | Some x \<Rightarrow> k x)"

definition scanAlert :: "row \<Rightarrow> go_error + Alert" where
  "scanAlert r =
     read_col scan_text r ''id'' (\<lambda>i.
     read_col scan_text0 r ''screen_id'' (\<lambda>screenID.
     read_col scan_text r ''tx_id'' (\<lambda>tx.
     read_col scan_text r ''address'' (\<lambda>addr.
     read_col scan_text r ''chain'' (\<lambda>ch.
     read_col scan_text r ''exposure'' (\<lambda>ex.
     read_col scan_text r ''severity'' (\<lambda>sev.
     read_col scan_text r ''status'' (\<lambda>status.
     read_col scan_text0 r ''assignee'' (\<lambda>assignee.
     read_col scan_time r ''created_at'' (\<lambda>created.
     read_col scan_null_time r ''closed_at'' (\<lambda>closedAt.
       Inr \<lparr>al_ID = i, al_ScreenID = screenID, al_TxID = tx, al_Address = addr, al_Chain = ch,
            al_Exposure = ex, al_Severity = sev, al_Status = status, al_Assignee = assignee,
            al_CreatedAt = created, al_ClosedAt = closedAt\<rparr>)))))))))))"

definition null_time :: "gotime option \<Rightarrow> sql_val" where
  "null_time t = (case t of None \<Rightarrow> SNull | Some u \<Rightarrow> STime u)"

definition alert_columns :: "string list" where
  "alert_columns = [''id'', ''screen_id'', ''tx_id'', ''address'', ''chain'', ''exposure'', ''severity'', ''status'',
     ''assignee'', ''created_at'', ''closed_at'']"

definition alert_args :: "Alert \<Rightarrow> sql_val list" where
  "alert_args a = [SText (al_ID a), null_text (al_ScreenID a), SText (al_TxID a), SText (al_Address a),
     SText (al_Chain a), SText (al_Exposure a), SText (al_Severity a), SText (al_Status a),
     null_text (al_Assignee a), STime (al_CreatedAt a), null_time (al_ClosedAt a)]"

definition PGAlertStore_Create :: "'d DB \<Rightarrow> 'd \<Rightarrow> Alert \<Rightarrow> (go_error + Alert) \<times> 'd" where
  "PGAlertStore_Create db d a =
     (if al_ID a = '''' then (Inl (ErrText ''alert id required''), d)
      else (case db_Exec db d (Insert ''kyt_alerts'' alert_columns (DoNothing [''id''])) (alert_args a) of
              (Inl err, d1) \<Rightarrow> (Inl (Wrap ''pgalert create'' err), d1)
            | (Inr (Inl err), d1) \<Rightarrow> (Inl (Wrap ''pgalert create rows'' err), d1)
            | (Inr (Inr n), d1) \<Rightarrow> if n = 0 then (Inl ErrDuplicate, d1) else (Inr a, d1)))"

definition PGAlertStore_Get :: "'d DB \<Rightarrow> 'd \<Rightarrow> string \<Rightarrow> go_error + Alert option" where
  "PGAlertStore_Get db d i =
     (case QueryRow db d (Select ''kyt_alerts'' [''id''] None None) [SText i] scanAlert of
        Inl err \<Rightarrow>
          if err = ErrNoRows then Inr None
          else if isInvalidUUID err then Inr None
          else Inl (Wrap ''pgalert get'' err)
      | Inr a \<Rightarrow> Inr (Some a))"

text \<open>\<open>var out []alert.Alert\<close>, to which every row is appended: without rows it stays \<open>nil\<close>.\<close>

definition appended :: "'a list \<Rightarrow> 'a slice" where
  "appended xs = (if xs = [] then None else Some xs)"

lemma items_appended [simp]: "items (appended xs) = xs"
  by (simp add: appended_def)

definition PGAlertStore_List :: "'d DB \<Rightarrow> 'd \<Rightarrow> string \<Rightarrow> go_error + Alert slice" where
  "PGAlertStore_List db d status =
     (case (if status = '''' then db_Query db d (Select ''kyt_alerts'' [] None (Some ''created_at'')) []
            else db_Query db d (Select ''kyt_alerts'' [''status''] None (Some ''created_at'')) [SText status]) of
        Inl err \<Rightarrow> Inl (Wrap ''pgalert list'' err)
      | Inr (rows, rowsErr) \<Rightarrow>
          (case scan_rows scanAlert rows of
             Inl err \<Rightarrow> Inl (Wrap ''pgalert list scan'' err)
           | Inr out \<Rightarrow>
               (case rowsErr of Some err \<Rightarrow> Inl (Wrap ''pgalert list rows'' err) | None \<Rightarrow> Inr (appended out))))"

definition update_columns :: "string list" where
  "update_columns = [''screen_id'', ''tx_id'', ''address'', ''chain'', ''exposure'', ''severity'', ''status'',
     ''assignee'', ''closed_at'']"

definition update_args :: "Alert \<Rightarrow> sql_val list" where
  "update_args a = [SText (al_ID a), null_text (al_ScreenID a), SText (al_TxID a), SText (al_Address a),
     SText (al_Chain a), SText (al_Exposure a), SText (al_Severity a), SText (al_Status a),
     null_text (al_Assignee a), null_time (al_ClosedAt a)]"

definition PGAlertStore_Update :: "'d DB \<Rightarrow> 'd \<Rightarrow> Alert \<Rightarrow> go_error option \<times> 'd" where
  "PGAlertStore_Update db d a =
     (case db_Exec db d (UpdateBy ''kyt_alerts'' [''id''] update_columns) (update_args a) of
        (Inl err, d1) \<Rightarrow>
          if isInvalidUUID err then (Some ErrNotFound, d1) else (Some (Wrap ''pgalert update'' err), d1)
      | (Inr (Inl err), d1) \<Rightarrow> (Some (Wrap ''pgalert update rows'' err), d1)
      | (Inr (Inr n), d1) \<Rightarrow> if n = 0 then (Some ErrNotFound, d1) else (None, d1))"

definition pg_alert_store :: "'d DB \<Rightarrow> 'd AlertStore" where
  "pg_alert_store db = \<lparr>as_Create = PGAlertStore_Create db, as_Get = PGAlertStore_Get db,
     as_List = PGAlertStore_List db, as_Update = PGAlertStore_Update db\<rparr>"

section \<open>Rows and alerts\<close>

definition alert_row :: "Alert \<Rightarrow> row" where
  "alert_row a = bind_cols alert_columns (alert_args a)"

lemmas alert_row_defs = alert_row_def alert_columns_def alert_args_def update_columns_def update_args_def

lemma scan_alert_row [simp]: "scanAlert (alert_row a) = Inr a"
  by (simp add: scanAlert_def read_col_def alert_row_defs null_time_def split: option.split)

lemma key_alert_row [simp]: "key_of [''id''] (alert_row a) = [SText (al_ID a)]"
  by (simp add: key_of_def alert_row_defs)

lemma status_alert_row [simp]: "key_of [''status''] (alert_row a) = [SText (al_Status a)]"
  by (simp add: key_of_def alert_row_defs)

lemma created_alert_row [simp]: "time_key (alert_row a ''created_at'') = al_CreatedAt a"
  by (simp add: alert_row_defs)

lemma update_alert_row:
  "al_CreatedAt b = al_CreatedAt a \<Longrightarrow> al_ID b = al_ID a \<Longrightarrow>
     override_cols update_columns (bind_cols ([''id''] @ update_columns) (update_args a)) (alert_row b) = alert_row a"
  by (rule ext) (simp add: override_cols_def alert_row_defs)


section \<open>The two stores side by side\<close>

text \<open>
  The alerts the service stores have canonical UUIDs.  An id that a caller asks for is a canonical UUID or
  none at all; of either kind it must be a text the server takes.
\<close>

definition canonical :: "(string \<Rightarrow> string option) \<Rightarrow> Alert \<Rightarrow> bool" where
  "canonical canon a \<longleftrightarrow> canon (al_ID a) = Some (al_ID a)
     \<and> (al_ScreenID a = '''' \<or> canon (al_ScreenID a) = Some (al_ScreenID a))"

definition plain_id :: "(string \<Rightarrow> string option) \<Rightarrow> string \<Rightarrow> bool" where
  "plain_id canon i \<longleftrightarrow> sql_text i \<and> (canon i = Some i \<or> canon i = None)"

definition alerts_rel ::
    "('d \<Rightarrow> string \<Rightarrow> row list) \<Rightarrow> ('d \<Rightarrow> bool) \<Rightarrow> (string \<Rightarrow> string option) \<Rightarrow> 'd \<Rightarrow> MemoryStore \<Rightarrow> bool" where
  "alerts_rel contents up canon d s \<longleftrightarrow> up d \<and> mem_ok s
     \<and> contents d ''kyt_alerts'' = map (\<lambda>i. alert_row (the (ms_mem s i))) (ms_order s)
     \<and> (\<forall>i \<in> dom (ms_mem s). canon i = Some i)"

lemma good_create: "canonical canon a \<Longrightarrow> good_uuids canon kyt_alerts alert_columns (alert_args a)"
  by (auto simp: good_uuids_def canonical_def alert_columns_def alert_args_def null_text_def null_time_def
      split: if_splits option.splits)

lemma good_update: "canonical canon a \<Longrightarrow> good_uuids canon kyt_alerts ([''id''] @ update_columns) (update_args a)"
  by (auto simp: good_uuids_def canonical_def update_columns_def update_args_def null_text_def null_time_def
      split: if_splits option.splits)

lemma alert_shape: "columns_match kyt_alerts alert_columns (alert_args a)" "set (required kyt_alerts) \<subseteq> set alert_columns"
  "columns_match kyt_alerts ([''id''] @ update_columns) (update_args a)" "take (length [''id'']) (update_args a) = [SText (al_ID a)]"
  "set update_columns \<inter> set (tb_key kyt_alerts) = {}"
  by (simp_all add: columns_match_def table_columns alert_columns_def alert_args_def update_columns_def update_args_def
      table_required)

lemma update_key: "text_keys kyt_alerts [''id''] (update_args a)"
  by (simp add: text_keys_def table_lookups update_args_def del: insert_iff) simp_all

lemma alert_lookup: "select_shape kyt_alerts [''id''] None None [SText i]"
  "select_shape kyt_alerts [] None (Some ''created_at'') []"
  "select_shape kyt_alerts [''status''] None (Some ''created_at'') [SText st]"
  by (simp_all add: select_shape_def text_keys_def table_lookups del: insert_iff) simp_all

definition sendable_alert :: "Alert \<Rightarrow> bool" where
  "sendable_alert a \<longleftrightarrow> list_all sendable (alert_args a)"

lemma sendable_update: "sendable_alert a \<Longrightarrow> list_all sendable (update_args a)"
  by (simp add: sendable_alert_def alert_args_def update_args_def)

text \<open>What the relation says of the rows.\<close>

lemma rel_get:
  assumes "alerts_rel contents up canon d s" and "i \<in> set (ms_order s)"
  shows "\<exists>a. ms_mem s i = Some a \<and> al_ID a = i"
proof -
  have "i \<in> dom (ms_mem s)" using assms by (simp add: alerts_rel_def mem_ok_def)
  then obtain a where "ms_mem s i = Some a" by blast
  then show ?thesis using assms by (auto simp: alerts_rel_def mem_ok_def)
qed

lemma rel_order: "alerts_rel contents up canon d s \<Longrightarrow> i \<in> set (ms_order s) \<longleftrightarrow> ms_mem s i \<noteq> None"
  by (simp add: alerts_rel_def mem_ok_def domIff)

lemma rel_keys:
  assumes "alerts_rel contents up canon d s"
  shows "key_of [''id''] ` set (contents d ''kyt_alerts'') = (\<lambda>i. [SText i]) ` set (ms_order s)"
proof -
  have "key_of [''id''] (alert_row (the (ms_mem s i))) = [SText i]" if "i \<in> set (ms_order s)" for i
    using rel_get [OF assms that] by auto
  then show ?thesis using assms by (simp add: alerts_rel_def image_image cong: image_cong)
qed

lemma filter_distinct: "distinct xs \<Longrightarrow> filter (\<lambda>j. j = i) xs = (if i \<in> set xs then [i] else [])"
  by (induction xs) (auto simp: filter_empty_conv)

lemma rel_filter:
  assumes "alerts_rel contents up canon d s"
  shows "filter (\<lambda>r. key_of [''id''] r = [SText i]) (contents d ''kyt_alerts'')
    = (case ms_mem s i of None \<Rightarrow> [] | Some a \<Rightarrow> [alert_row a])"
proof -
  have key: "key_of [''id''] (alert_row (the (ms_mem s j))) = [SText i] \<longleftrightarrow> j = i" if "j \<in> set (ms_order s)" for j
    using rel_get [OF assms that] by auto
  have d: "distinct (ms_order s)" using assms by (simp add: alerts_rel_def mem_ok_def)
  have "filter (\<lambda>r. key_of [''id''] r = [SText i]) (contents d ''kyt_alerts'')
      = map (\<lambda>j. alert_row (the (ms_mem s j))) (filter (\<lambda>j. j = i) (ms_order s))"
    using assms key by (simp add: alerts_rel_def filter_map o_def cong: filter_cong)
  also have "filter (\<lambda>j. j = i) (ms_order s) = (if i \<in> set (ms_order s) then [i] else [])"
    using d by (rule filter_distinct)
  finally show ?thesis using rel_order [OF assms] by (auto split: option.split)
qed


context kyt_db
begin

abbreviation rel :: "'d \<Rightarrow> MemoryStore \<Rightarrow> bool" where
  "rel \<equiv> alerts_rel contents up canon"

lemma sim_create:
  assumes rel: "rel d s"
    and fits: "al_ID a = '''' \<or> canonical canon a \<and> sendable_alert a \<and> fits d kyt_alerts (alert_row a)"
  shows "\<exists>d'. PGAlertStore_Create db d a = (fst (MemoryStore_Create s a), d') \<and> rel d' (snd (MemoryStore_Create s a))"
proof (cases "al_ID a = ''''")
  case True
  then show ?thesis using rel by (simp add: PGAlertStore_Create_def MemoryStore_Create_def)
next
  case False
  with fits have ok: "canonical canon a" "fits d kyt_alerts (alert_row a)" and snd: "list_all sendable (alert_args a)"
    by (simp_all add: sendable_alert_def)
  have up: "up d" and mem: "mem_ok s" using rel by (simp_all add: alerts_rel_def)
  note good = good_create [OF ok(1)]
  show ?thesis
  proof (cases "ms_mem s (al_ID a)")
    case None
    then have "key_of [''id''] (alert_row a) \<notin> key_of [''id''] ` set (contents d ''kyt_alerts'')"
      unfolding rel_keys [OF rel] using rel_order [OF rel] by auto
    then obtain d' where d': "db_Exec db d (Insert ''kyt_alerts'' alert_columns (DoNothing [''id''])) (alert_args a) = (Inr (Inr 1), d')"
      "up d'" "changes_only contents ''kyt_alerts'' (contents d ''kyt_alerts'' @ [alert_row a]) d d'"
      using insert_new [OF tables_in(3) up alert_shape(1,2) good snd ok(2) [unfolded alert_row_def], of "DoNothing [''id'']"]
      by (auto simp: alert_row_def)
    have old: "map (\<lambda>i. alert_row (the (((ms_mem s)(al_ID a \<mapsto> a)) i))) (ms_order s) = map (\<lambda>i. alert_row (the (ms_mem s i))) (ms_order s)"
      using None rel_order [OF rel] by auto
    have "rel d' (snd (MemoryStore_Create s a))"
      using rel d'(2,3) mem_create_new [OF mem False None] ok(1) old
      by (auto simp: alerts_rel_def changes_only_def canonical_def)
    then show ?thesis using False d'(1) mem_create_new(1) [OF mem False None] by (simp add: PGAlertStore_Create_def)
  next
    case (Some b)
    then have "key_of [''id''] (alert_row a) \<in> key_of [''id''] ` set (contents d ''kyt_alerts'')"
      unfolding rel_keys [OF rel] using rel_order [OF rel] by auto
    then have "db_Exec db d (Insert ''kyt_alerts'' alert_columns (DoNothing [''id''])) (alert_args a) = (Inr (Inr 0), d)"
      using insert_nothing [OF tables_in(3) up alert_shape(1,2) good snd ok(2) [unfolded alert_row_def]] by (simp add: alert_row_def)
    then show ?thesis using False Some rel by (simp add: PGAlertStore_Create_def MemoryStore_Create_def)
  qed
qed

lemma sim_get:
  assumes rel: "rel d s" and i: "plain_id canon i"
  shows "PGAlertStore_Get db d i = MemoryStore_Get s i"
proof (cases "canon i = None")
  case True
  have up: "up d" using rel by (simp add: alerts_rel_def)
  have snd: "list_all sendable [SText i]" using i by (simp add: plain_id_def)
  have "bad_uuid canon kyt_alerts [''id''] [SText i]" using True i by (simp add: bad_uuid_def plain_id_def)
  then obtain m where "db_Query db d (Select ''kyt_alerts'' [''id''] None None) [SText i] = Inl (PqErr ''22P02'' m)"
    using select_invalid [OF tables_in(3) up alert_lookup(1) _ snd] by auto
  moreover have "\<forall>i \<in> dom (ms_mem s). canon i \<noteq> None" using rel by (auto simp only: alerts_rel_def)
  then have "ms_mem s i = None" using True by blast
  ultimately show ?thesis by (simp add: PGAlertStore_Get_def QueryRow_def MemoryStore_Get_def)
next
  case False
  have up: "up d" using rel by (simp add: alerts_rel_def)
  have snd: "list_all sendable [SText i]" using i by (simp add: plain_id_def)
  have good: "good_uuids canon kyt_alerts [''id''] [SText i]" using False i by (auto simp: good_uuids_def plain_id_def)
  obtain rs where "db_Query db d (Select ''kyt_alerts'' [''id''] None None) [SText i] = Inr (rs, None)"
    "mset rs = mset (selected [''id''] None [SText i] (contents d ''kyt_alerts''))"
    using select_rows [OF tables_in(3) up alert_lookup(1) good snd] by auto
  then show ?thesis using rel_filter [OF rel, of i]
    by (auto simp: PGAlertStore_Get_def QueryRow_def MemoryStore_Get_def selected_def split: option.splits)
qed

text \<open>An id that the server does not take is an error of the table, where the in-memory store knows no such alert.\<close>

lemma get_bad_text:
  assumes "up d" and "\<not> sql_text i"
  shows "\<exists>e. PGAlertStore_Get db d i = Inl (Wrap ''pgalert get'' e)"
proof -
  have "\<not> bad_uuid canon kyt_alerts [''id''] [SText i]" "list_ex bad_text [SText i]"
    using assms(2) by (simp_all add: bad_uuid_def)
  then obtain m where "db_Query db d (Select ''kyt_alerts'' [''id''] None None) [SText i] = Inl (PqErr ''22021'' m)"
    using select_bad_text [OF tables_in(3) assms(1) alert_lookup(1)] by auto
  then show ?thesis by (simp add: PGAlertStore_Get_def QueryRow_def)
qed

lemma sim_update:
  assumes rel: "rel d s" and ok: "canonical canon a" "fits d kyt_alerts (alert_row a)" and snd: "sendable_alert a"
    and old: "ms_mem s (al_ID a) = Some b" "al_CreatedAt b = al_CreatedAt a"
  shows "\<exists>d'. PGAlertStore_Update db d a = (None, d') \<and> rel d' (snd (MemoryStore_Update s a))"
proof -
  have up: "up d" and mem: "mem_ok s" using rel by (simp_all add: alerts_rel_def)
  let ?new = "override_cols update_columns (bind_cols ([''id''] @ update_columns) (update_args a))"
  have row: "alert_row (the (ms_mem s i)) = alert_row b \<and> al_ID b = i \<and> (i = al_ID a \<longrightarrow> ?new (alert_row b) = alert_row a)"
    if "ms_mem s i = Some b" for i b
    using that mem old update_alert_row [of b a] by (auto simp: mem_ok_def)
  have fit: "fits d kyt_alerts (?new r)"
    if "r \<in> set (contents d ''kyt_alerts'')" "key_of [''id''] r = [SText (al_ID a)]" for r
  proof -
    have "r \<in> set (filter (\<lambda>r. key_of [''id''] r = [SText (al_ID a)]) (contents d ''kyt_alerts''))" using that by simp
    then show ?thesis using ok(2) row unfolding rel_filter [OF rel] by (auto split: option.splits)
  qed
  have "alert_row b \<in> set (filter (\<lambda>r. key_of [''id''] r = [SText (al_ID a)]) (contents d ''kyt_alerts''))"
    unfolding rel_filter [OF rel] old(1) by simp
  then have hit: "take (length [''id'']) (update_args a) \<in> key_of [''id''] ` set (contents d (tb_name kyt_alerts))"
    unfolding alert_shape(4) by (force intro: rev_image_eqI)
  obtain d' where d': "db_Exec db d (UpdateBy ''kyt_alerts'' [''id''] update_columns) (update_args a)
      = (Inr (Inr (int (length (filter (\<lambda>r. key_of [''id''] r = [SText (al_ID a)]) (contents d ''kyt_alerts''))))), d')"
    "up d'" "changes_only contents ''kyt_alerts''
      (map (\<lambda>r. if key_of [''id''] r = [SText (al_ID a)] then ?new r else r) (contents d ''kyt_alerts'')) d d'"
    using update_rows [OF tables_in(3) up alert_shape(3) good_update [OF ok(1)] sendable_update [OF snd] update_key alert_shape(5) hit] fit
    unfolding alert_shape(4) by (auto simp: update_args_def)
  have n: "(case ms_mem s (al_ID a) of None \<Rightarrow> 0 | Some _ \<Rightarrow> (1::int))
      = int (length (filter (\<lambda>r. key_of [''id''] r = [SText (al_ID a)]) (contents d ''kyt_alerts'')))"
    by (simp add: rel_filter [OF rel] split: option.split)
  have rows: "map (\<lambda>r. if key_of [''id''] r = [SText (al_ID a)] then ?new r else r) (contents d ''kyt_alerts'')
      = map (\<lambda>i. alert_row (if i = al_ID a then a else the (ms_mem s i))) (ms_order s)"
  proof -
    have c: "contents d ''kyt_alerts'' = map (\<lambda>i. alert_row (the (ms_mem s i))) (ms_order s)"
      using rel by (simp only: alerts_rel_def)
    have "(if key_of [''id''] (alert_row (the (ms_mem s i))) = [SText (al_ID a)] then ?new (alert_row (the (ms_mem s i)))
        else alert_row (the (ms_mem s i))) = alert_row (if i = al_ID a then a else the (ms_mem s i))"
      if i: "i \<in> set (ms_order s)" for i
    proof -
      obtain b where "ms_mem s i = Some b" using rel_get [OF rel i] by blast
      then show ?thesis using row [of i b] by auto
    qed
    then show ?thesis unfolding c map_map o_def by (intro map_cong refl)
  qed
  have "rel d' (snd (MemoryStore_Update s a))"
    using d'(2,3) rel mem_update_present [OF mem, of a] ok(1) old(1) unfolding rows
    by (auto simp: alerts_rel_def changes_only_def canonical_def)
  then show ?thesis using old(1) d'(1) n by (simp add: PGAlertStore_Update_def MemoryStore_Update_def)
qed

lemma sim_list:
  assumes rel: "rel d s" and st: "sql_text st"
  shows "\<exists>xs ys. PGAlertStore_List db d st = Inr (appended xs) \<and> MemoryStore_List s st = Inr (Some ys)
    \<and> mset xs = mset ys \<and> sorted (map al_CreatedAt xs)"
proof -
  define ks where "ks = (if st = '''' then [] else [''status''])"
  define vs where "vs = (if st = '''' then [] else [SText st])"
  have good: "good_uuids canon kyt_alerts ks vs" by (simp add: good_uuids_def ks_def vs_def)
  have shape: "select_shape kyt_alerts ks None (Some ''created_at'') vs" by (simp add: ks_def vs_def alert_lookup)
  have snd: "list_all sendable vs" using st by (simp add: vs_def)
  have up: "up d" using rel by (simp add: alerts_rel_def)
  obtain rs where q: "db_Query db d (Select ''kyt_alerts'' ks None (Some ''created_at'')) vs = Inr (rs, None)"
    "mset rs = mset (selected ks None vs (contents d ''kyt_alerts''))" "sorted (map (\<lambda>r. time_key (r ''created_at'')) rs)"
    using select_rows [OF tables_in(3) up shape good snd] by auto
  let ?as = "map (\<lambda>i. case ms_mem s i of Some a \<Rightarrow> a | None \<Rightarrow> zero_Alert) (ms_order s)"
  have all: "contents d ''kyt_alerts'' = map alert_row ?as"
    using rel rel_order [OF rel] by (auto simp: alerts_rel_def)
  have sel: "selected ks None vs (map alert_row as) = map alert_row (filter (\<lambda>a. st = '''' \<or> al_Status a = st) as)" for as
    by (induction as) (auto simp: selected_def ks_def vs_def key_of_def [of "[]"])
  have "mset rs = mset (map alert_row (filter (\<lambda>a. st = '''' \<or> al_Status a = st) ?as))"
    using q(2) unfolding all sel .
  from scan_permuted [of scanAlert, OF scan_alert_row this]
  obtain as where as: "rs = map alert_row as" "scan_rows scanAlert rs = Inr as"
    "mset as = mset (filter (\<lambda>a. st = '''' \<or> al_Status a = st) ?as)" by blast
  have "PGAlertStore_List db d st = Inr (appended as)"
    using q(1) as(2) by (simp add: PGAlertStore_List_def ks_def vs_def split: if_splits)
  then show ?thesis using as q(3) by (auto simp: MemoryStore_List_def o_def)
qed

end

definition demo_uuid :: string where
  "demo_uuid = ''0190c1de-7a3b-7def-8123-456789abcdef''"

lemma demo_uuid_canonical: "uuid_canon demo_uuid = Some demo_uuid" "uuid_canon ''not-a-uuid'' = None"
proof -
  have "is_uuid demo_uuid" by code_simp
  then show "uuid_canon demo_uuid = Some demo_uuid" by (simp add: uuid_canon_def)
qed (simp add: uuid_canon_def is_uuid_def)

end
