(* ===== verification/Pg_Cache.thy ===== *)
theory Pg_Cache
  imports Pg_Alert Screen
begin

text \<open>
  The cache of \<open>internal/store\<close>: the interface \<open>store.Cache\<close> (\<open>cache.go\<close>), its adapter to the screen
  path (\<open>storeCacheAdapter\<close> in \<open>cmd/kyt/main.go\<close>) and the implementation over the table
  \<open>address_risk_cache\<close> (\<open>pg_cache.go\<close>).
\<close>

section \<open>The interface and its adapter\<close>

record SVerdict =
  sv_Address :: string
  sv_Chain :: string
  sv_RiskScore :: int
  sv_Exposure :: string
  sv_Decision :: string
  sv_Vendor :: string
  sv_CachedAt :: gotime
  sv_TTLSeconds :: int
  sv_ExpiresAt :: gotime

record 's StoreCache =
  sc_Get :: "world \<Rightarrow> 's \<Rightarrow> string \<Rightarrow> string \<Rightarrow> (go_error + SVerdict option) \<times> world \<times> 's"
  sc_Set :: "world \<Rightarrow> 's \<Rightarrow> SVerdict \<Rightarrow> go_error option \<times> world \<times> 's"
  sc_Delete :: "world \<Rightarrow> 's \<Rightarrow> string \<Rightarrow> string \<Rightarrow> go_error option \<times> world \<times> 's"

text \<open>The screen path's verdict has no times: \<open>Set\<close> leaves them zero, \<open>Get\<close> drops them.\<close>

definition to_store :: "Verdict \<Rightarrow> SVerdict" where
  "to_store v = \<lparr>sv_Address = vd_Address v, sv_Chain = vd_Chain v, sv_RiskScore = vd_RiskScore v,
     sv_Exposure = vd_Exposure v, sv_Decision = vd_Decision v, sv_Vendor = vd_Vendor v,
     sv_CachedAt = 0, sv_TTLSeconds = 0, sv_ExpiresAt = 0\<rparr>"

definition of_store :: "SVerdict \<Rightarrow> Verdict" where
  "of_store v = \<lparr>vd_Address = sv_Address v, vd_Chain = sv_Chain v, vd_RiskScore = sv_RiskScore v,
     vd_Exposure = sv_Exposure v, vd_Decision = sv_Decision v, vd_Vendor = sv_Vendor v\<rparr>"

definition adapter_Get :: "'s StoreCache \<Rightarrow> world \<Rightarrow> 's \<Rightarrow> string \<Rightarrow> string \<Rightarrow> (go_error + Verdict option) \<times> world \<times> 's" where
  "adapter_Get cache w s address chain =
     (case sc_Get cache w s address chain of
        (Inl err, w1, s1) \<Rightarrow> (Inl err, w1, s1)
      | (Inr None, w1, s1) \<Rightarrow> (Inr None, w1, s1)
      | (Inr (Some v), w1, s1) \<Rightarrow> (Inr (Some (of_store v)), w1, s1))"

definition adapter_Set :: "'s StoreCache \<Rightarrow> world \<Rightarrow> 's \<Rightarrow> Verdict \<Rightarrow> go_error option \<times> world \<times> 's" where
  "adapter_Set cache w s v = sc_Set cache w s (to_store v)"

definition storeCacheAdapter :: "'s StoreCache \<Rightarrow> 's CacheOps" where
  "storeCacheAdapter cache = \<lparr>c_Get = adapter_Get cache, c_Set = adapter_Set cache, c_Delete = sc_Delete cache\<rparr>"

lemma of_to_store [simp]: "of_store (to_store v) = v"
  by (simp add: of_store_def to_store_def)

section \<open>Times of a verdict\<close>

text \<open>
  \<open>int(ttl.Seconds())\<close>: the whole seconds, towards zero.  (Below \<open>2^22\<close> seconds the intermediate
  \<open>float64\<close> is exact enough to give this for any duration; whole seconds are always exact.)
\<close>

definition ttl_seconds :: "duration \<Rightarrow> int" where
  "ttl_seconds d = (if 0 \<le> d then d div second else - ((- d) div second))"

text \<open>What both \<open>Set\<close> functions do before they store: fill the times that are still zero.\<close>

definition fill_times :: "duration \<Rightarrow> duration \<Rightarrow> world \<Rightarrow> SVerdict \<Rightarrow> SVerdict \<times> world" where
  "fill_times defaultTTL sanctionedTTL w v =
     (let ttl = TTLFor (sv_Exposure v) defaultTTL sanctionedTTL;
          (now, w1) = time_Now w;
          v1 = (if IsZero (sv_CachedAt v) then v\<lparr>sv_CachedAt := now\<rparr> else v);
          v2 = (if sv_TTLSeconds v1 = 0 then v1\<lparr>sv_TTLSeconds := ttl_seconds ttl\<rparr> else v1);
          v3 = (if IsZero (sv_ExpiresAt v2) then v2\<lparr>sv_ExpiresAt := time_Add (sv_CachedAt v2) ttl\<rparr> else v2)
      in (v3, w1))"

lemma fill_times_verdict: "fill_times dt st w v = (u, w1) \<Longrightarrow> of_store u = of_store v \<and> w1 = snd (time_Now w)"
  by (auto simp: fill_times_def of_store_def Let_def time_Now_def split: if_splits)

section \<open>The table as a cache\<close>

record PGCache =
  pgc_defaultTTL :: duration
  pgc_sanctionedTTL :: duration

definition NewPGCache :: "duration \<Rightarrow> duration \<Rightarrow> PGCache" where
  "NewPGCache defaultTTL sanctionedTTL = \<lparr>pgc_defaultTTL = defaultTTL, pgc_sanctionedTTL = sanctionedTTL\<rparr>"

definition scanVerdict :: "row \<Rightarrow> go_error + SVerdict" where
  "scanVerdict r =
     read_col scan_text r ''address'' (\<lambda>addr.
     read_col scan_text r ''chain'' (\<lambda>ch.
     read_col scan_int_col r ''risk_score'' (\<lambda>score.
     read_col scan_text r ''exposure'' (\<lambda>ex.
     read_col scan_text r ''decision'' (\<lambda>dec.
     read_col scan_text r ''vendor'' (\<lambda>vendor.
     read_col scan_time r ''cached_at'' (\<lambda>cachedAt.
     read_col scan_int_col r ''ttl_seconds'' (\<lambda>ttl.
     read_col scan_time r ''expires_at'' (\<lambda>expiresAt.
       Inr \<lparr>sv_Address = addr, sv_Chain = ch, sv_RiskScore = score, sv_Exposure = ex, sv_Decision = dec,
            sv_Vendor = vendor, sv_CachedAt = cachedAt, sv_TTLSeconds = ttl, sv_ExpiresAt = expiresAt\<rparr>)))))))))"

definition PGCache_Get ::
    "'d DB \<Rightarrow> PGCache \<Rightarrow> world \<Rightarrow> 'd \<Rightarrow> string \<Rightarrow> string \<Rightarrow> (go_error + SVerdict option) \<times> world \<times> 'd" where
  "PGCache_Get db c w d address chain =
     (let (now, w1) = time_Now w in
      case QueryRow db d (Select ''address_risk_cache'' [''address'', ''chain''] (Some ''expires_at'') None)
             [SText address, SText chain, STime now] scanVerdict of
        Inl err \<Rightarrow> if err = ErrNoRows then (Inr None, w1, d) else (Inl (Wrap ''pgcache get'' err), w1, d)
      | Inr v \<Rightarrow> (Inr (Some v), w1, d))"

definition cache_columns :: "string list" where
  "cache_columns = [''address'', ''chain'', ''risk_score'', ''exposure'', ''decision'', ''vendor'', ''cached_at'',
     ''ttl_seconds'', ''expires_at'']"

definition cache_excluded :: "string list" where
  "cache_excluded = [''risk_score'', ''exposure'', ''decision'', ''vendor'', ''cached_at'', ''ttl_seconds'', ''expires_at'']"

definition cache_args :: "SVerdict \<Rightarrow> sql_val list" where
  "cache_args v = [SText (sv_Address v), SText (sv_Chain v), SInt (sv_RiskScore v), SText (sv_Exposure v),
     SText (sv_Decision v), SText (sv_Vendor v), STime (sv_CachedAt v), SInt (sv_TTLSeconds v), STime (sv_ExpiresAt v)]"

definition PGCache_Set :: "'d DB \<Rightarrow> PGCache \<Rightarrow> world \<Rightarrow> 'd \<Rightarrow> SVerdict \<Rightarrow> go_error option \<times> world \<times> 'd" where
  "PGCache_Set db c w d v =
     (let (v1, w1) = fill_times (pgc_defaultTTL c) (pgc_sanctionedTTL c) w v in
      case db_Exec db d (Insert ''address_risk_cache'' cache_columns (DoUpdate [''address'', ''chain''] cache_excluded))
             (cache_args v1) of
        (Inl err, d1) \<Rightarrow> (Some (Wrap ''pgcache set'' err), w1, d1)
      | (Inr _, d1) \<Rightarrow> (None, w1, d1))"

definition PGCache_Delete :: "'d DB \<Rightarrow> world \<Rightarrow> 'd \<Rightarrow> string \<Rightarrow> string \<Rightarrow> go_error option \<times> world \<times> 'd" where
  "PGCache_Delete db w d address chain =
     (case db_Exec db d (DeleteBy ''address_risk_cache'' [''address'', ''chain'']) [SText address, SText chain] of
        (Inl err, d1) \<Rightarrow> (Some (Wrap ''pgcache delete'' err), w, d1)
      | (Inr _, d1) \<Rightarrow> (None, w, d1))"

definition pg_cache :: "'d DB \<Rightarrow> PGCache \<Rightarrow> 'd StoreCache" where
  "pg_cache db c = \<lparr>sc_Get = PGCache_Get db c, sc_Set = PGCache_Set db c, sc_Delete = PGCache_Delete db\<rparr>"

section \<open>Nothing is ever cached\<close>

text \<open>
  The migration makes \<open>id\<close> the primary key of the table, without a default, and the \<open>INSERT\<close> of \<open>Set\<close>
  does not give one.
\<close>

definition cache_empty :: "('d \<Rightarrow> string \<Rightarrow> row list) \<Rightarrow> ('d \<Rightarrow> bool) \<Rightarrow> 'd \<Rightarrow> bool" where
  "cache_empty contents up d \<longleftrightarrow> up d \<and> contents d ''address_risk_cache'' = []"

lemma id_missing: "columns_match address_risk_cache cache_columns (cache_args v)"
  "\<not> set (required address_risk_cache) \<subseteq> set cache_columns"
  by (simp_all add: columns_match_def table_columns cache_columns_def cache_args_def table_required)

lemma cache_lookup_shape:
  "select_shape address_risk_cache [''address'', ''chain''] (Some ''expires_at'') None [SText a, SText c, STime t]"
  "columns_match address_risk_cache [''address'', ''chain''] [SText a, SText c]"
  "text_keys address_risk_cache [''address'', ''chain''] [SText a, SText c]"
  by (simp_all add: select_shape_def text_keys_def columns_match_def table_columns table_lookups del: insert_iff) simp_all

lemma no_uuids: "id_col \<notin> set ks \<Longrightarrow> tb_uuids t = [id_col] \<Longrightarrow> good_uuids canon t ks vs"
  by (auto simp: good_uuids_def dest: set_zip_leftD)

context kyt_db
begin

lemma set_refused:
  assumes "up d"
  shows "\<exists>e w'. PGCache_Set db c w d v = (Some (Wrap ''pgcache set'' e), w', d)"
proof -
  obtain u w1 where f: "fill_times (pgc_defaultTTL c) (pgc_sanctionedTTL c) w v = (u, w1)" by fastforce
  obtain code m where "db_Exec db d (Insert ''address_risk_cache'' cache_columns
      (DoUpdate [''address'', ''chain''] cache_excluded)) (cache_args u) = (Inl (PqErr code m), d)"
    using insert_missing [OF tables_in(1) assms id_missing] by simp blast
  then show ?thesis by (simp add: PGCache_Set_def f)
qed

lemma get_never_hits:
  assumes "cache_empty contents up d"
  shows "\<exists>r. PGCache_Get db c w d a ch = (r, snd (time_Now w), d) \<and> (\<forall>v. r \<noteq> Inr (Some v))"
proof -
  have good: "good_uuids canon address_risk_cache [''address'', ''chain''] [SText a, SText ch, STime (fst (time_Now w))]"
    by (rule no_uuids [of "''id''"]) simp_all
  have "rs = []" if "db_Query db d (Select ''address_risk_cache'' [''address'', ''chain''] (Some ''expires_at'') None)
      [SText a, SText ch, STime (fst (time_Now w))] = Inr (rs, e)" for rs e
    using select_sound [OF tables_in(1) cache_lookup_shape(1) good, of d rs e] that assms
    by (simp add: cache_empty_def selected_def)
  then show ?thesis by (auto simp: PGCache_Get_def QueryRow_def split_beta split: sum.splits list.splits option.splits)
qed

text \<open>With texts the server takes the lookup misses; otherwise it fails.\<close>

lemma get_misses:
  assumes "cache_empty contents up d" and "sql_text a" and "sql_text ch" and "pg_time (fst (time_Now w))"
  shows "PGCache_Get db c w d a ch = (Inr None, snd (time_Now w), d)"
proof -
  have good: "good_uuids canon address_risk_cache [''address'', ''chain''] [SText a, SText ch, STime (fst (time_Now w))]"
    by (rule no_uuids [of "''id''"]) simp_all
  have snd: "list_all sendable [SText a, SText ch, STime (fst (time_Now w))]" using assms(2-4) by simp
  have up: "up d" using assms(1) by (simp add: cache_empty_def)
  obtain rs where q: "db_Query db d (Select ''address_risk_cache'' [''address'', ''chain''] (Some ''expires_at'') None)
      [SText a, SText ch, STime (fst (time_Now w))] = Inr (rs, None)"
    using select_rows [OF tables_in(1) up cache_lookup_shape(1) good snd] by auto
  then have "rs = []" using select_sound [OF tables_in(1) cache_lookup_shape(1) good, of d rs None] assms(1)
    by (simp add: cache_empty_def selected_def)
  then show ?thesis using q by (simp add: PGCache_Get_def QueryRow_def split_beta)
qed

lemma get_fails:
  assumes "up d" and "\<not> (sql_text a \<and> sql_text ch)"
  shows "\<exists>e. PGCache_Get db c w d a ch = (Inl (Wrap ''pgcache get'' e), snd (time_Now w), d)"
proof -
  let ?vs = "[SText a, SText ch, STime (fst (time_Now w))]"
  have "\<not> bad_uuid canon address_risk_cache [''address'', ''chain''] ?vs" by (simp add: bad_uuid_def)
  moreover have "list_ex bad_text ?vs" using assms(2) by auto
  ultimately obtain m where "db_Query db d (Select ''address_risk_cache'' [''address'', ''chain''] (Some ''expires_at'') None) ?vs
      = Inl (PqErr ''22021'' m)"
    using select_bad_text [OF tables_in(1) assms(1) cache_lookup_shape(1)] unfolding table_names by blast
  then show ?thesis by (simp add: PGCache_Get_def QueryRow_def split_beta)
qed

lemma delete_empty:
  assumes "cache_empty contents up d"
  shows "\<exists>e d'. PGCache_Delete db w d a ch = (e, w, d') \<and> cache_empty contents up d'"
proof (cases "sql_text a \<and> sql_text ch")
  case True
  have good: "good_uuids canon address_risk_cache [''address'', ''chain''] [SText a, SText ch]"
    by (rule no_uuids [of "''id''"]) simp_all
  have snd: "list_all sendable [SText a, SText ch]" using True by simp
  have up: "up d" using assms by (simp add: cache_empty_def)
  show ?thesis
    using delete_rows [OF tables_in(1) cache_not_referenced up cache_lookup_shape(2,3) good snd] assms
    by (fastforce simp: cache_empty_def changes_only_def PGCache_Delete_def)
next
  case False
  let ?s = "DeleteBy ''address_risk_cache'' [''address'', ''chain'']"
  have bad: "\<not> bad_uuid canon address_risk_cache (stmt_columns ?s) [SText a, SText ch]" "list_ex bad_text [SText a, SText ch]"
    using False by (auto simp: bad_uuid_def)
  have up: "up d" using assms by (simp add: cache_empty_def)
  have "\<exists>c m. db_Exec db d ?s [SText a, SText ch] = (Inl (PqErr c m), d)"
    using bad by (intro exec_bad_text [OF tables_in(1) up]) (simp_all add: cache_lookup_shape(2))
  then show ?thesis using assms by (auto simp: PGCache_Delete_def)
qed

lemma pg_step_empty:
  assumes "cache_empty contents up d" and "cache_step (storeCacheAdapter (pg_cache db c)) op (w, d) = (w', d')"
  shows "cache_empty contents up d'"
proof (cases op)
  case (CacheGet a ch)
  then show ?thesis using assms get_never_hits [OF assms(1), of c w a ch]
    by (auto simp: storeCacheAdapter_def adapter_Get_def pg_cache_def split: sum.splits option.splits)
next
  case (CacheSet v)
  moreover have "up d" using assms(1) by (simp add: cache_empty_def)
  ultimately show ?thesis using assms set_refused [of d c w "to_store v"]
    by (auto simp: storeCacheAdapter_def adapter_Set_def pg_cache_def)
next
  case (CacheDelete a ch)
  then show ?thesis using assms delete_empty [OF assms(1), of w a ch] by (auto simp: storeCacheAdapter_def pg_cache_def)
qed

lemma pg_run_empty:
  "cache_empty contents up d \<Longrightarrow>
     cache_empty contents up (snd (fold (cache_step (storeCacheAdapter (pg_cache db c))) os (w, d)))"
proof (induction os arbitrary: w d)
  case (Cons op os)
  obtain w1 d1 where "cache_step (storeCacheAdapter (pg_cache db c)) op (w, d) = (w1, d1)" by fastforce
  then show ?case using Cons.IH pg_step_empty [OF Cons.prems] by simp
qed simp

end


section \<open>Screening over such a cache\<close>

text \<open>A service whose cache, in the states \<open>dead\<close>, never has a verdict (it misses, or fails) and never leaves them.\<close>

definition dead_cache :: "'c CacheOps \<Rightarrow> ('c \<Rightarrow> bool) \<Rightarrow> bool" where
  "dead_cache ops dead \<longleftrightarrow>
     (\<forall>w s a c r w' s'. dead s \<longrightarrow> c_Get ops w s a c = (r, w', s') \<longrightarrow> (\<forall>v. r \<noteq> Inr (Some v)) \<and> dead s')
   \<and> (\<forall>w s v e w' s'. dead s \<longrightarrow> c_Set ops w s v = (e, w', s') \<longrightarrow> dead s')"

lemma dead_vendor:
  assumes "svc_cache svc = Some ops" and "dead_cache ops dead" and "dead (st_cache st)"
    and "screen_vendor svc st req = (r, st')"
  shows "(\<forall>resp. r = Inr resp \<longrightarrow> \<not> rp_CacheHit resp) \<and> dead (st_cache st')"
proof -
  obtain a w p where v: "prov_Screen (svc_provider svc) (st_world st) (st_provider st) (vendor_request_of req) = (a, w, p)"
    by (metis prod_cases3)
  have fin: "(\<forall>resp. r = Inr resp \<longrightarrow> \<not> rp_CacheHit resp) \<and> st_cache st' = st_cache st1"
    if "finalize svc st1 req score ex dec vend False = (r, st')" for st1 score ex dec vend
    using that finalize_response [of svc st1 req score ex dec vend False] finalize_frame(1) [of svc st1 req score ex dec vend False]
    by auto
  show ?thesis
  proof (cases a)
    case (Inl e)
    show ?thesis using fin [OF screen_vendor_error [of svc st req e w p, symmetric, unfolded assms(4)]] v Inl assms(3) by simp
  next
    case (Inr vr)
    obtain e w1 c where s: "c_Set ops w (st_cache st) (verdict_of svc req vr) = (e, w1, c)"
      by (metis prod_cases3)
    have "dead c" using assms(2,3) s unfolding dead_cache_def by blast
    then show ?thesis
      using fin [OF screen_vendor_answer [of svc st req vr w p, OF _ assms(1) s, symmetric, unfolded assms(4)]] v Inr by simp
  qed
qed

lemma dead_screen:
  assumes "svc_cache svc = Some ops" and "dead_cache ops dead" and "dead (st_cache st)"
    and "Service_Screen svc st req = (r, st')"
  shows "(\<forall>resp. r = Inr resp \<longrightarrow> \<not> rp_CacheHit resp) \<and> dead (st_cache st')"
proof (cases "validate req")
  case (Some e)
  then show ?thesis using assms by (auto simp: Service_Screen_def)
next
  case None
  define st0 where "st0 = st\<lparr>st_world := (st_world st)\<lparr>ticks := Suc (ticks (st_world st))\<rparr>\<rparr>"
  obtain r1 st1 where b: "screen_body svc st0 req = (r1, st1)" by fastforce
  have same: "r = r1" "st_cache st' = st_cache st1"
    using Service_Screen_valid [OF None b [unfolded st0_def]] assms(4) by auto
  obtain a w c where g: "c_Get ops (st_world st0) (st_cache st0) (rq_Address req) (rq_Chain req) = (a, w, c)"
    by (metis prod_cases3)
  have "dead (st_cache st0)" using assms(3) by (simp add: st0_def)
  then have miss: "\<forall>v. a \<noteq> Inr (Some v)" "dead c" using assms(2) g unfolding dead_cache_def by blast+
  define st2 where "st2 = st0\<lparr>st_world := w, st_cache := c\<rparr>"
  have look: "screen_lookup svc st0 req = (None, st2)"
    using g assms(1) miss by (auto simp: screen_lookup_def st2_def split: sum.splits option.splits)
  show ?thesis
    using dead_vendor [OF assms(1,2) _ screen_body_miss [OF look, symmetric, unfolded b]] miss same by (simp add: st2_def)
qed

lemma dead_run:
  assumes "svc_cache svc = Some ops" and "dead_cache ops dead"
  shows "dead (st_cache st) \<Longrightarrow>
    (\<forall>resp. Inr resp \<in> set (fst (screen_run svc reqs st)) \<longrightarrow> \<not> rp_CacheHit resp) \<and> dead (st_cache (snd (screen_run svc reqs st)))"
proof (induction reqs arbitrary: st)
  case (Cons req reqs)
  obtain r st1 where s: "Service_Screen svc st req = (r, st1)" by fastforce
  note d = dead_screen [OF assms Cons.prems s]
  then show ?case using Cons.IH [of st1] s by (auto split: prod.splits)
qed simp

context kyt_db
begin

lemma pg_dead: "dead_cache (storeCacheAdapter (pg_cache db c)) (cache_empty contents up)"
  unfolding dead_cache_def
proof (intro conjI allI impI)
  fix w d a ch r w' d'
  assume d: "cache_empty contents up d" and g: "c_Get (storeCacheAdapter (pg_cache db c)) w d a ch = (r, w', d')"
  show "r \<noteq> Inr (Some v)" "cache_empty contents up d'" for v
    using g d get_never_hits [OF d, of c w a ch]
    by (auto simp: storeCacheAdapter_def adapter_Get_def pg_cache_def split: sum.splits option.splits)
next
  fix w d v e w' d'
  assume d: "cache_empty contents up d" and s: "c_Set (storeCacheAdapter (pg_cache db c)) w d v = (e, w', d')"
  show "cache_empty contents up d'" using pg_step_empty [OF d, of c "CacheSet v" w w' d'] s by simp
qed

end

text \<open>
  C13: A service that caches in the database never caches.  Over a fresh table, every write of a verdict is
  refused (and the refusal ignored), no lookup finds a verdict, whatever mixture of lookups, writes and
  invalidations comes: it misses, or fails when the address or chain is not UTF-8 without NUL (which the
  server refuses); and no screen is ever answered from the cache.
\<close>

theorem pg_cache_never_serves:
  assumes "kyt_db db contents up fits canon" and "cache_empty contents up d"
    and "svc_cache svc = Some (storeCacheAdapter (pg_cache db c))" and "st_cache st = d"
  shows "(\<forall>w os w1 d1 a ch. fold (cache_step (storeCacheAdapter (pg_cache db c))) os (w, d) = (w1, d1) \<longrightarrow>
      (\<forall>v. fst (adapter_Get (pg_cache db c) w1 d1 a ch) \<noteq> Inr (Some v))
      \<and> (sql_text a \<and> sql_text ch \<and> pg_time (fst (time_Now w1)) \<longrightarrow> fst (adapter_Get (pg_cache db c) w1 d1 a ch) = Inr None)
      \<and> (\<not> (sql_text a \<and> sql_text ch) \<longrightarrow> \<not> is_ok (fst (adapter_Get (pg_cache db c) w1 d1 a ch)))
      \<and> (\<forall>v. \<exists>e. fst (adapter_Set (pg_cache db c) w1 d1 v) = Some e))
    \<and> (\<forall>reqs resp. Inr resp \<in> set (fst (screen_run svc reqs st)) \<longrightarrow> \<not> rp_CacheHit resp)"
proof (intro conjI allI impI)
  fix w os w1 d1 a ch
  assume "fold (cache_step (storeCacheAdapter (pg_cache db c))) os (w, d) = (w1, d1)"
  with kyt_db.pg_run_empty [OF assms(1,2), of c os w] have e: "cache_empty contents up d1" by simp
  show "fst (adapter_Get (pg_cache db c) w1 d1 a ch) \<noteq> Inr (Some v)" for v
    using kyt_db.get_never_hits [OF assms(1) e, of c w1 a ch]
    by (auto simp: adapter_Get_def pg_cache_def split: sum.splits option.splits)
  show "fst (adapter_Get (pg_cache db c) w1 d1 a ch) = Inr None"
    if "sql_text a \<and> sql_text ch \<and> pg_time (fst (time_Now w1))"
    using kyt_db.get_misses [OF assms(1) e, of a ch w1 c] that by (simp add: adapter_Get_def pg_cache_def)
  have up: "up d1" using e by (simp add: cache_empty_def)
  show "\<not> is_ok (fst (adapter_Get (pg_cache db c) w1 d1 a ch))" if "\<not> (sql_text a \<and> sql_text ch)"
    using kyt_db.get_fails [OF assms(1) up that, of c w1] by (auto simp: adapter_Get_def pg_cache_def)
  from up show "\<exists>e. fst (adapter_Set (pg_cache db c) w1 d1 v) = Some e" for v
    using kyt_db.set_refused [OF assms(1), of d1 c w1 "to_store v"] by (auto simp: adapter_Set_def pg_cache_def)
next
  fix reqs resp
  assume "Inr resp \<in> set (fst (screen_run svc reqs st))"
  then show "\<not> rp_CacheHit resp"
    using dead_run [OF assms(3) kyt_db.pg_dead [OF assms(1)], of st reqs] assms(2,4) by blast
qed

definition demo_pg_service :: "(engine, MockProvider, MemoryScreenStore, MemoryStore) Service" where
  "demo_pg_service = NewService (storeCacheAdapter (pg_cache pg_engine (NewPGCache 3600000000000 604800000000000)))
     mock_provider demo_thresholds (memory_screen_store (\<lambda>m. m)) memory_alert_store (\<lambda>s. s)"

definition demo_pg_state :: "(engine, MockProvider, MemoryScreenStore, MemoryStore) screen_state" where
  "demo_pg_state = \<lparr>st_world = demo_screen_world, st_cache = empty_db, st_provider = st_provider demo_state,
     st_screens = [], st_alerts = NewMemoryStore, st_audit = NewEmitter 8, st_metrics = zero_Metrics\<rparr>"

theorem pg_cache_never_serves_witness:
  "list_all (\<lambda>r. case r of Inr resp \<Rightarrow> \<not> rp_CacheHit resp | Inl _ \<Rightarrow> True)
     (fst (screen_run demo_pg_service [demo_request1, demo_request1] demo_pg_state))"
proof -
  have "cache_empty (\<lambda>d. d) (\<lambda>_. True) empty_db" by (simp add: cache_empty_def empty_db_def)
  moreover have "svc_cache demo_pg_service =
      Some (storeCacheAdapter (pg_cache pg_engine (NewPGCache 3600000000000 604800000000000)))"
    by (simp add: demo_pg_service_def NewService_def)
  moreover have "st_cache demo_pg_state = empty_db" by (simp add: demo_pg_state_def)
  ultimately have "\<forall>resp. Inr resp \<in> set (fst (screen_run demo_pg_service [demo_request1, demo_request1] demo_pg_state))
      \<longrightarrow> \<not> rp_CacheHit resp"
    using pg_cache_never_serves [OF pg.kyt_db_axioms] by blast
  then show ?thesis by (auto simp: list_all_iff split: sum.splits)
qed

end
