(* ===== verification/Redis_Cache.thy ===== *)
theory Redis_Cache
  imports Pg_Cache Go_Json
begin

text \<open>
  \<open>internal/store/redis_cache.go\<close>: verdicts as JSON under a key per chain and address.  The Redis client
  is a parameter, and so is the encoding of a time in JSON (\<open>time.Time.MarshalJSON\<close>).
\<close>

section \<open>The cache\<close>

text \<open>A reply to \<open>GET\<close>: \<open>redis.Nil\<close>, an error, or the bytes.\<close>

datatype redis_reply = RedisNil | RedisError go_error | RedisBytes string

record 'r Redis =
  rd_Get :: "world \<Rightarrow> 'r \<Rightarrow> string \<Rightarrow> redis_reply \<times> 'r"
  rd_Set :: "world \<Rightarrow> 'r \<Rightarrow> string \<Rightarrow> string \<Rightarrow> duration \<Rightarrow> go_error option \<times> 'r"
  rd_Del :: "world \<Rightarrow> 'r \<Rightarrow> string \<Rightarrow> go_error option \<times> 'r"

record TimeCodec =
  tc_format :: "gotime \<Rightarrow> string option"
  tc_parse :: "string \<Rightarrow> gotime option"

record RedisCache =
  rc_defaultTTL :: duration
  rc_sanctionedTTL :: duration

definition NewRedisCache :: "duration \<Rightarrow> duration \<Rightarrow> RedisCache" where
  "NewRedisCache defaultTTL sanctionedTTL = \<lparr>rc_defaultTTL = defaultTTL, rc_sanctionedTTL = sanctionedTTL\<rparr>"

definition redisKey :: "string \<Rightarrow> string \<Rightarrow> string" where
  "redisKey address chain = ''arc:'' @ chain @ '':'' @ address"

text \<open>\<open>json.Marshal\<close> and \<open>json.Unmarshal\<close> of a \<open>store.Verdict\<close>, whose fields have no tags.\<close>

definition verdict_fields :: "string list" where
  "verdict_fields = [''Address'', ''Chain'', ''RiskScore'', ''Exposure'', ''Decision'', ''Vendor'', ''CachedAt'',
     ''TTLSeconds'', ''ExpiresAt'']"

text \<open>A time outside the years 0 to 9999 has no encoding.\<close>

definition marshal_sverdict :: "TimeCodec \<Rightarrow> SVerdict \<Rightarrow> go_error + string" where
  "marshal_sverdict tc v =
     (case tc_format tc (sv_CachedAt v) of
        None \<Rightarrow> Inl json_error
      | Some cachedAt \<Rightarrow>
          (case tc_format tc (sv_ExpiresAt v) of
             None \<Rightarrow> Inl json_error
           | Some expiresAt \<Rightarrow> Inr (marshal_obj
               [(''Address'', VStr (sv_Address v)), (''Chain'', VStr (sv_Chain v)),
                (''RiskScore'', VInt (sv_RiskScore v)), (''Exposure'', VStr (sv_Exposure v)),
                (''Decision'', VStr (sv_Decision v)), (''Vendor'', VStr (sv_Vendor v)),
                (''CachedAt'', VStr cachedAt), (''TTLSeconds'', VInt (sv_TTLSeconds v)),
                (''ExpiresAt'', VStr expiresAt)])))"

definition set_time :: "TimeCodec \<Rightarrow> (gotime \<Rightarrow> 'a \<Rightarrow> 'a) \<Rightarrow> json \<Rightarrow> 'a \<Rightarrow> 'a option" where
  "set_time tc upd v r =
     (case v of
        JStr s \<Rightarrow> (case tc_parse tc s of Some t \<Rightarrow> Some (upd t r) | None \<Rightarrow> None)
      | JNull \<Rightarrow> Some r
      | _ \<Rightarrow> None)"

definition sverdict_setter :: "TimeCodec \<Rightarrow> string \<Rightarrow> json \<Rightarrow> SVerdict \<Rightarrow> SVerdict option" where
  "sverdict_setter tc f =
     (if f = ''Address'' then set_str (\<lambda>s v. v\<lparr>sv_Address := s\<rparr>)
      else if f = ''Chain'' then set_str (\<lambda>s v. v\<lparr>sv_Chain := s\<rparr>)
      else if f = ''RiskScore'' then set_int (\<lambda>n v. v\<lparr>sv_RiskScore := n\<rparr>)
      else if f = ''Exposure'' then set_str (\<lambda>s v. v\<lparr>sv_Exposure := s\<rparr>)
      else if f = ''Decision'' then set_str (\<lambda>s v. v\<lparr>sv_Decision := s\<rparr>)
      else if f = ''Vendor'' then set_str (\<lambda>s v. v\<lparr>sv_Vendor := s\<rparr>)
      else if f = ''CachedAt'' then set_time tc (\<lambda>t v. v\<lparr>sv_CachedAt := t\<rparr>)
      else if f = ''TTLSeconds'' then set_int (\<lambda>n v. v\<lparr>sv_TTLSeconds := n\<rparr>)
      else set_time tc (\<lambda>t v. v\<lparr>sv_ExpiresAt := t\<rparr>))"

definition zero_SVerdict :: SVerdict where
  "zero_SVerdict = \<lparr>sv_Address = '''', sv_Chain = '''', sv_RiskScore = 0, sv_Exposure = '''', sv_Decision = '''',
     sv_Vendor = '''', sv_CachedAt = 0, sv_TTLSeconds = 0, sv_ExpiresAt = 0\<rparr>"

definition unmarshal_sverdict :: "TimeCodec \<Rightarrow> string \<Rightarrow> go_error + SVerdict" where
  "unmarshal_sverdict tc raw = unmarshal verdict_fields (sverdict_setter tc) zero_SVerdict raw"

definition RedisCache_Get ::
    "'r Redis \<Rightarrow> TimeCodec \<Rightarrow> world \<Rightarrow> 'r \<Rightarrow> string \<Rightarrow> string \<Rightarrow> (go_error + SVerdict option) \<times> world \<times> 'r" where
  "RedisCache_Get rd tc w r address chain =
     (case rd_Get rd w r (redisKey address chain) of
        (RedisNil, r1) \<Rightarrow> (Inr None, w, r1)
      | (RedisError err, r1) \<Rightarrow> (Inl (Wrap ''rediscache get'' err), w, r1)
      | (RedisBytes raw, r1) \<Rightarrow>
          (case unmarshal_sverdict tc raw of
             Inl err \<Rightarrow> (Inl (Wrap ''rediscache decode'' err), w, r1)
           | Inr v \<Rightarrow> (Inr (Some v), w, r1)))"

definition RedisCache_Set ::
    "'r Redis \<Rightarrow> TimeCodec \<Rightarrow> RedisCache \<Rightarrow> world \<Rightarrow> 'r \<Rightarrow> SVerdict \<Rightarrow> go_error option \<times> world \<times> 'r" where
  "RedisCache_Set rd tc c w r v =
     (let ttl = TTLFor (sv_Exposure v) (rc_defaultTTL c) (rc_sanctionedTTL c);
          (v1, w1) = fill_times (rc_defaultTTL c) (rc_sanctionedTTL c) w v
      in case marshal_sverdict tc v1 of
           Inl err \<Rightarrow> (Some (Wrap ''rediscache encode'' err), w1, r)
         | Inr body \<Rightarrow>
             (case rd_Set rd w1 r (redisKey (sv_Address v1) (sv_Chain v1)) body ttl of
                (Some err, r1) \<Rightarrow> (Some (Wrap ''rediscache set'' err), w1, r1)
              | (None, r1) \<Rightarrow> (None, w1, r1)))"

definition RedisCache_Delete :: "'r Redis \<Rightarrow> world \<Rightarrow> 'r \<Rightarrow> string \<Rightarrow> string \<Rightarrow> go_error option \<times> world \<times> 'r" where
  "RedisCache_Delete rd w r address chain =
     (case rd_Del rd w r (redisKey address chain) of
        (Some err, r1) \<Rightarrow> (Some (Wrap ''rediscache delete'' err), w, r1)
      | (None, r1) \<Rightarrow> (None, w, r1))"

definition redis_cache :: "'r Redis \<Rightarrow> TimeCodec \<Rightarrow> RedisCache \<Rightarrow> 'r StoreCache" where
  "redis_cache rd tc c = \<lparr>sc_Get = RedisCache_Get rd tc, sc_Set = RedisCache_Set rd tc c, sc_Delete = RedisCache_Delete rd\<rparr>"


section \<open>What it serves\<close>

text \<open>
  What is relied on of the client: \<open>kept r\<close> are the pairs of key and value that a \<open>GET\<close> may still find;
  only \<open>SET\<close> adds one.  (A value leaves the set when it expires, is overwritten or deleted.)
\<close>

locale redis_client =
  fixes rd :: "'r Redis" and kept :: "'r \<Rightarrow> (string \<times> string) set"
  assumes get_kept: "rd_Get rd w r k = (RedisBytes b, r') \<Longrightarrow> (k, b) \<in> kept r"
    and get_adds_none: "rd_Get rd w r k = (x, r') \<Longrightarrow> kept r' \<subseteq> kept r"
    and set_adds_one: "rd_Set rd w r k b t = (y, r') \<Longrightarrow> kept r' \<subseteq> insert (k, b) (kept r)"
    and del_adds_none: "rd_Del rd w r k = (y, r') \<Longrightarrow> kept r' \<subseteq> kept r"

lemmas redis_lawsD = redis_client.get_kept redis_client.get_adds_none redis_client.set_adds_one redis_client.del_adds_none

text \<open>An encoded time is plain ASCII and is read back.\<close>

definition time_laws :: "TimeCodec \<Rightarrow> bool" where
  "time_laws tc \<longleftrightarrow> (\<forall>t s. tc_format tc t = Some s \<longrightarrow> tc_parse tc s = Some t \<and> is_ascii s)"

definition plain_verdict :: "Verdict \<Rightarrow> bool" where
  "plain_verdict v \<longleftrightarrow> is_ascii (vd_Address v) \<and> is_ascii (vd_Chain v) \<and> is_ascii (vd_Exposure v)
     \<and> is_ascii (vd_Decision v) \<and> is_ascii (vd_Vendor v) \<and> minInt64 \<le> vd_RiskScore v \<and> vd_RiskScore v \<le> maxInt64"

lemma unmarshal_marshal:
  assumes tc: "time_laws tc" and m: "marshal_sverdict tc v = Inr b" and plain: "plain_verdict (of_store v)"
    and ttl: "minInt64 \<le> sv_TTLSeconds v" "sv_TTLSeconds v \<le> maxInt64"
  shows "unmarshal_sverdict tc b = Inr v"
proof -
  obtain c e where f: "tc_format tc (sv_CachedAt v) = Some c" "tc_format tc (sv_ExpiresAt v) = Some e"
    using m by (auto simp: marshal_sverdict_def split: option.splits)
  define ms where "ms = [(''Address'', VStr (sv_Address v)), (''Chain'', VStr (sv_Chain v)),
      (''RiskScore'', VInt (sv_RiskScore v)), (''Exposure'', VStr (sv_Exposure v)),
      (''Decision'', VStr (sv_Decision v)), (''Vendor'', VStr (sv_Vendor v)),
      (''CachedAt'', VStr c), (''TTLSeconds'', VInt (sv_TTLSeconds v)), (''ExpiresAt'', VStr e)]"
  have b: "b = marshal_obj ms" using m f by (simp add: marshal_sverdict_def ms_def)
  have t: "tc_parse tc c = Some (sv_CachedAt v)" "tc_parse tc e = Some (sv_ExpiresAt v)" "is_ascii c" "is_ascii e"
    using tc f by (auto simp: time_laws_def)
  have a: "list_all ascii_field ms"
    using plain t by (simp add: ms_def plain_verdict_def of_store_def)
  show ?thesis
    unfolding unmarshal_sverdict_def unmarshal_def b parse_marshal_obj [OF a] unfolding ms_def
    using plain ttl
    by (simp add: verdict_fields_def sverdict_setter_def set_str_def set_int_def set_time_def t Atoi_Itoa
        plain_verdict_def of_store_def zero_SVerdict_def)
qed

lemma ttl_seconds_range: "minInt64 \<le> d \<Longrightarrow> d \<le> maxInt64 \<Longrightarrow> minInt64 \<le> ttl_seconds d \<and> ttl_seconds d \<le> maxInt64"
  by (auto simp: ttl_seconds_def)

lemma fill_times_ttl: "sv_TTLSeconds (fst (fill_times dt st w v)) =
    (if sv_TTLSeconds v = 0 then ttl_seconds (TTLFor (sv_Exposure v) dt st) else sv_TTLSeconds v)"
  by (simp add: fill_times_def Let_def time_Now_def)

definition good_ttls :: "RedisCache \<Rightarrow> bool" where
  "good_ttls c \<longleftrightarrow> rc_defaultTTL c \<in> {minInt64..maxInt64} \<and> rc_sanctionedTTL c \<in> {minInt64..maxInt64}"

text \<open>What the server holds after a run: values written for verdicts that were set.\<close>

definition written :: "TimeCodec \<Rightarrow> cache_op list \<Rightarrow> (string \<times> string) set \<Rightarrow> bool" where
  "written tc os kb \<longleftrightarrow> (\<forall>(k, b) \<in> kb. \<exists>u x. CacheSet u \<in> set os \<and> k = redisKey (vd_Address u) (vd_Chain u)
     \<and> (plain_verdict u \<longrightarrow> unmarshal_sverdict tc b = Inr x \<and> of_store x = u))"

lemma written_mono: "written tc os kb \<Longrightarrow> kb' \<subseteq> kb \<Longrightarrow> set os \<subseteq> set os' \<Longrightarrow> written tc os' kb'"
  unfolding written_def by blast

lemma redis_step_written:
  assumes laws: "redis_client rd kept" and tc: "time_laws tc" and c: "good_ttls c"
    and step: "cache_step (storeCacheAdapter (redis_cache rd tc c)) op (w, r) = (w', r')" and old: "written tc os (kept r)"
  shows "written tc (os @ [op]) (kept r')"
proof -
  note law = redis_lawsD [OF laws]
  have less: ?thesis if "kept r' \<subseteq> kept r" using old that by (rule written_mono) auto
  show ?thesis
  proof (cases op)
    case (CacheGet a ch)
    then have "kept r' \<subseteq> kept r" using step
      by (auto simp: storeCacheAdapter_def adapter_Get_def redis_cache_def RedisCache_Get_def dest: law(2)
          split: prod.splits redis_reply.splits sum.splits option.splits)
    then show ?thesis by (rule less)
  next
    case (CacheDelete a ch)
    then have "kept r' \<subseteq> kept r" using step
      by (auto simp: storeCacheAdapter_def redis_cache_def RedisCache_Delete_def dest: law(4)
          split: prod.splits option.splits)
    then show ?thesis by (rule less)
  next
    case (CacheSet u)
    obtain v w1 where f: "fill_times (rc_defaultTTL c) (rc_sanctionedTTL c) w (to_store u) = (v, w1)" by fastforce
    have v: "of_store v = u" using fill_times_verdict [OF f] by simp
    have ttl: "minInt64 \<le> sv_TTLSeconds v" "sv_TTLSeconds v \<le> maxInt64"
      using fill_times_ttl [of "rc_defaultTTL c" "rc_sanctionedTTL c" w "to_store u"] f c ttl_seconds_range
      by (simp_all add: to_store_def TTLFor_def good_ttls_def)
    show ?thesis
    proof (cases "marshal_sverdict tc v")
      case (Inl e)
      then have "r' = r" using step CacheSet f
        by (simp add: storeCacheAdapter_def adapter_Set_def redis_cache_def RedisCache_Set_def)
      then show ?thesis using less by simp
    next
      case (Inr b)
      then have "kept r' \<subseteq> insert (redisKey (sv_Address v) (sv_Chain v), b) (kept r)" using step CacheSet f
        by (auto simp: storeCacheAdapter_def adapter_Set_def redis_cache_def RedisCache_Set_def dest: law(3)
            split: prod.splits option.splits)
      moreover have "redisKey (sv_Address v) (sv_Chain v) = redisKey (vd_Address u) (vd_Chain u)"
        using v by (auto simp: of_store_def)
      moreover have "plain_verdict u \<longrightarrow> unmarshal_sverdict tc b = Inr v \<and> of_store v = u"
        using unmarshal_marshal [OF tc Inr] v ttl by simp
      ultimately show ?thesis using old CacheSet unfolding written_def by fastforce
    qed
  qed
qed

lemma redis_run_written:
  assumes "redis_client rd kept" and "time_laws tc" and "good_ttls c"
  shows "written tc os0 (kept r) \<Longrightarrow>
    written tc (os0 @ os) (kept (snd (fold (cache_step (storeCacheAdapter (redis_cache rd tc c))) os (w, r))))"
proof (induction os arbitrary: os0 w r)
  case (Cons op os)
  obtain w1 r1 where s: "cache_step (storeCacheAdapter (redis_cache rd tc c)) op (w, r) = (w1, r1)" by fastforce
  show ?case using Cons.IH [OF redis_step_written [OF assms s Cons.prems], of w1] s by simp
qed simp

text \<open>
  C14: The Redis cache serves no verdict of another address.  Starting from an empty server, after any sequence
  of lookups, writes and invalidations of plain verdicts on chains without a colon, whatever a lookup returns
  is, score and decision included, a verdict that was set for that address and chain.
\<close>

theorem redis_serves_own_address:
  assumes "redis_client rd kept" and "time_laws tc" and "good_ttls c" and "kept r = {}"
    and "fold (cache_step (storeCacheAdapter (redis_cache rd tc c))) os (w, r) = (w1, r1)"
    and "\<forall>u. CacheSet u \<in> set os \<longrightarrow> plain_verdict u \<and> CHR '':'' \<notin> set (vd_Chain u)" and "CHR '':'' \<notin> set ch"
    and "fst (adapter_Get (redis_cache rd tc c) w2 r1 a ch) = Inr (Some v)"
  shows "CacheSet v \<in> set os \<and> vd_Address v = a \<and> vd_Chain v = ch"
proof -
  have wr: "written tc os (kept r1)"
    using redis_run_written [OF assms(1-3), of "[]" r os w] assms(4,5) by (simp add: written_def)
  obtain b r2 x where b: "rd_Get rd w2 r1 (redisKey a ch) = (RedisBytes b, r2)" "unmarshal_sverdict tc b = Inr x" "v = of_store x"
    using assms(8)
    by (auto simp: adapter_Get_def redis_cache_def RedisCache_Get_def
        split: prod.splits redis_reply.splits sum.splits option.splits)
  have "(redisKey a ch, b) \<in> kept r1" by (rule redis_lawsD(1) [OF assms(1) b(1)])
  then obtain u y where u: "CacheSet u \<in> set os" "redisKey a ch = redisKey (vd_Address u) (vd_Chain u)"
    "plain_verdict u \<longrightarrow> unmarshal_sverdict tc b = Inr y \<and> of_store y = u"
    using wr unfolding written_def by blast
  have "v = u" using b(2,3) u(1,3) assms(6) by auto
  moreover have "ch = vd_Chain u \<and> a = vd_Address u"
    using u(1,2) assms(6,7) colon_split [of ch "vd_Chain u"] by (auto simp: redisKey_def)
  ultimately show ?thesis using u(1) by auto
qed

text \<open>A server without expiry, and times written in unary.\<close>

definition demo_redis :: "(string \<rightharpoonup> string) Redis" where
  "demo_redis = \<lparr>rd_Get = (\<lambda>w m k. (case m k of None \<Rightarrow> RedisNil | Some b \<Rightarrow> RedisBytes b, m)),
     rd_Set = (\<lambda>w m k b t. (None, m(k \<mapsto> b))), rd_Del = (\<lambda>w m k. (None, m(k := None)))\<rparr>"

definition demo_codec :: TimeCodec where
  "demo_codec = \<lparr>tc_format = (\<lambda>t. if 0 \<le> t then Some (replicate (nat t) (CHR ''1'')) else None),
     tc_parse = (\<lambda>s. Some (int (length s)))\<rparr>"

lemma demo_time_laws: "time_laws demo_codec"
  by (auto simp: time_laws_def demo_codec_def is_ascii_def list_all_iff split: if_splits)

interpretation demo_client: redis_client demo_redis "\<lambda>m. {(k, b). m k = Some b}"
  by unfold_locales (auto simp: demo_redis_def split: option.splits if_splits)

theorem redis_serves_own_address_witness:
  "\<exists>w1 r1. fold (cache_step (storeCacheAdapter (redis_cache demo_redis demo_codec (NewRedisCache 50 250)))) [CacheSet demo_verdict]
       (demo_cache_world, Map.empty) = (w1, r1)
     \<and> fst (adapter_Get (redis_cache demo_redis demo_codec (NewRedisCache 50 250)) w1 r1 ''0xbad'' ''ethereum'') = Inr (Some demo_verdict)
     \<and> CacheSet demo_verdict \<in> set [CacheSet demo_verdict] \<and> vd_Chain demo_verdict = ''ethereum''"
proof -
  let ?rc = "redis_cache demo_redis demo_codec (NewRedisCache 50 250)"
  obtain v w1 where f: "fill_times 50 250 demo_cache_world (to_store demo_verdict) = (v, w1)" by fastforce
  have v: "of_store v = demo_verdict" using fill_times_verdict [OF f] by simp
  have t: "0 \<le> sv_CachedAt v" "0 \<le> sv_ExpiresAt v"
    using f by (auto simp: fill_times_def to_store_def time_Now_def demo_cache_world_def time_Add_def TTLFor_def
        IsZero_def Let_def)
  obtain b where m: "marshal_sverdict demo_codec v = Inr b"
    using t by (simp add: marshal_sverdict_def demo_codec_def)
  have plain: "plain_verdict demo_verdict"
    by (simp add: plain_verdict_def demo_verdict_def)
  have ttl: "sv_TTLSeconds v = 0"
    using fill_times_ttl [of 50 250 demo_cache_world "to_store demo_verdict"] f
    by (simp add: to_store_def TTLFor_def ttl_seconds_def)
  have u: "unmarshal_sverdict demo_codec b = Inr v"
    using unmarshal_marshal [OF demo_time_laws m] plain v ttl by simp
  let ?r1 = "Map.empty(redisKey (sv_Address v) (sv_Chain v) \<mapsto> b)"
  have key: "sv_Address v = ''0xbad''" "sv_Chain v = ''ethereum''"
    using v by (simp_all add: of_store_def demo_verdict_def)
  have run: "fold (cache_step (storeCacheAdapter ?rc)) [CacheSet demo_verdict] (demo_cache_world, Map.empty) = (w1, ?r1)"
    using f m by (simp add: storeCacheAdapter_def adapter_Set_def redis_cache_def RedisCache_Set_def NewRedisCache_def demo_redis_def)
  have got: "fst (adapter_Get ?rc w1 ?r1 ''0xbad'' ''ethereum'') = Inr (Some demo_verdict)"
    using u v key by (simp add: adapter_Get_def redis_cache_def RedisCache_Get_def demo_redis_def)
  have sets: "\<forall>u. CacheSet u \<in> set [CacheSet demo_verdict] \<longrightarrow> plain_verdict u \<and> CHR '':'' \<notin> set (vd_Chain u)"
    using plain by (simp add: demo_verdict_def)
  have "CacheSet demo_verdict \<in> set [CacheSet demo_verdict] \<and> vd_Address demo_verdict = ''0xbad'' \<and> vd_Chain demo_verdict = ''ethereum''"
    by (rule redis_serves_own_address [OF demo_client.redis_client_axioms demo_time_laws _ _ run sets _ got])
      (simp_all add: good_ttls_def NewRedisCache_def)
  then show ?thesis using run got by blast
qed

end
