(* ===== verification/Kafka_Sink.thy ===== *)
theory Kafka_Sink
  imports Audit_Events Go_Crypto
begin

text \<open>
  \<open>internal/audit/kafka_sink.go\<close>: choosing the audit sink from \<open>AUDIT_EVENT_BUS_URL\<close>, reading the
  brokers and the topic from it, and publishing an event.  The Kafka writer is the parameter
  \<open>publish\<close>; \<open>json.Marshal\<close> of an event is the parameter \<open>marshal\<close> and \<open>Time.Format\<close> the
  parameter \<open>fmt\<close>.  The value of a message is the envelope before it is rendered as JSON.
\<close>

section \<open>Choosing a sink\<close>

abbreviation DefaultAuditTopic :: string where "DefaultAuditTopic \<equiv> ''audit.v1''"

text \<open>A \<open>KafkaSink\<close> is the brokers and the topic of its writer, and the events published.\<close>

record KafkaSink =
  ks_brokers :: "string list"
  ks_topic :: string
  ks_sent :: int

datatype SinkChoice = UseMemory | UseKafka KafkaSink

definition NewKafkaSink :: "string list \<Rightarrow> string \<Rightarrow> go_error + KafkaSink" where
  "NewKafkaSink brokers topic =
     (if length brokers = 0 then Inl (ErrText ''audit kafka: no brokers provided'')
      else Inr \<lparr>ks_brokers = brokers, ks_topic = (if topic = '''' then DefaultAuditTopic else topic), ks_sent = 0\<rparr>)"

text \<open>The loop over the query parameters: the last \<open>topic=\<close> wins.\<close>

definition topic_param :: "string \<Rightarrow> string \<Rightarrow> string" where
  "topic_param kv topic = (if HasPrefix kv ''topic='' then TrimPrefix kv ''topic='' else topic)"

definition NewKafkaSinkFromURL :: "string \<Rightarrow> string \<Rightarrow> go_error + KafkaSink" where
  "NewKafkaSinkFromURL url defaultTopic =
     (let rest = TrimPrefix url ''kafka://'';
          (hosts, topic) =
            (case IndexByte rest (CHR ''?'') of
               None \<Rightarrow> (rest, '''')
             | Some i \<Rightarrow> (take i rest, fold topic_param (Split (drop (Suc i) rest) (CHR ''&'')) ''''));
          brokers = filter (\<lambda>b. b \<noteq> '''') (map TrimSpace (Split hosts (CHR '','')))
      in NewKafkaSink brokers (if topic = '''' then defaultTopic else topic))"

definition isPlainBrokerList :: "string \<Rightarrow> bool" where
  "isPlainBrokerList url = (if Contains url ''://'' then False else Contains url '':'')"

text \<open>\<open>%q\<close>; what it escapes in a string that is not plain ASCII is left out.\<close>

definition quoted :: "string \<Rightarrow> string" where
  "quoted s = [CHR 0x22] @ s @ [CHR 0x22]"

definition NewSink :: "string \<Rightarrow> go_error + SinkChoice" where
  "NewSink url =
     (if url = '''' \<or> HasPrefix url ''memory://'' then Inr UseMemory
      else if HasPrefix url ''kafka://'' then map_sum id UseKafka (NewKafkaSinkFromURL url DefaultAuditTopic)
      else if isPlainBrokerList url then map_sum id UseKafka (NewKafkaSinkFromURL (''kafka://'' @ url) DefaultAuditTopic)
      else Inl (ErrText (''audit: unknown event bus scheme in '' @ quoted url @ '' (use kafka://<brokers> or memory://)'')))"

section \<open>Publishing\<close>

fun coalesce :: "string list \<Rightarrow> string" where
  "coalesce [] = ''''"
| "coalesce (v # vs) = (if v \<noteq> '''' then v else coalesce vs)"

text \<open>The envelope of \<open>audit.v1\<close>.\<close>

record Envelope =
  en_schema_version :: string
  en_id :: string
  en_ts :: string
  en_source_service :: string
  en_actor_id :: string
  en_action :: string
  en_target_type :: string
  en_target_id :: string
  en_payload_hash :: string
  en_payload :: string

definition KafkaSink_Emit ::
    "(Event \<Rightarrow> go_error + string) \<Rightarrow> (gotime \<Rightarrow> string) \<Rightarrow> ('k \<Rightarrow> string \<Rightarrow> Envelope \<Rightarrow> go_error option \<times> 'k)
     \<Rightarrow> world \<Rightarrow> KafkaSink \<times> 'k \<Rightarrow> Event \<Rightarrow> go_error option \<times> world \<times> KafkaSink \<times> 'k" where
  "KafkaSink_Emit marshal fmt publish w sk e =
     (case marshal e of
        Inl err \<Rightarrow> (Some (Wrap ''audit kafka encode'' err), w, sk)
      | Inr payload \<Rightarrow>
          (let payloadHash = ''sha256:'' @ EncodeToString (sha256 payload);
               (i, w1) = newID w;
               (created, w2) = (if IsZero (ev_CreatedAt e) then time_Now w1 else (ev_CreatedAt e, w1));
               envelope = \<lparr>en_schema_version = ''1'', en_id = i, en_ts = fmt created,
                 en_source_service = ''aml-kyt-screening'',
                 en_actor_id = coalesce [ev_Operator e, ''aml-kyt-screening''],
                 en_action = ''kyt.screen'', en_target_type = ''transaction'',
                 en_target_id = coalesce [ev_TxID e, ev_ScreenID e, ev_Address e],
                 en_payload_hash = payloadHash, en_payload = payload\<rparr>;
               key = (if ev_ScreenID e = '''' then if ev_TxID e = '''' then i else ev_TxID e else ev_ScreenID e)
           in case publish (snd sk) key envelope of
                (Some err, k1) \<Rightarrow> (Some (Wrap ''audit kafka publish'' err), w2, fst sk, k1)
              | (None, k1) \<Rightarrow> (None, w2, (fst sk)\<lparr>ks_sent := ctr_add (ks_sent (fst sk)) 1\<rparr>, k1)))"

definition Sent :: "KafkaSink \<Rightarrow> int" where
  "Sent s = ks_sent s"


section \<open>Broker lists\<close>

fun join :: "char \<Rightarrow> string list \<Rightarrow> string" where
  "join c [] = []"
| "join c [b] = b"
| "join c (b # bs) = b @ c # join c bs"

lemma Split_join: "bs \<noteq> [] \<Longrightarrow> \<forall>b \<in> set bs. c \<notin> set b \<Longrightarrow> Split (join c bs) c = bs"
  by (induction c bs rule: join.induct) (simp_all add: Split_no_sep Split_append)

lemma set_join: "set (join c bs) \<subseteq> insert c (\<Union> (set ` set bs))"
  by (induction c bs rule: join.induct) auto

text \<open>A broker as it is written: printing characters without the separators of the URL.\<close>

definition broker :: "string \<Rightarrow> bool" where
  "broker b \<longleftrightarrow> b \<noteq> '''' \<and> list_all (\<lambda>c. visible c \<and> c \<noteq> CHR '','' \<and> c \<noteq> CHR ''?'' \<and> c \<noteq> CHR ''/'') b"

lemma broker_trim: "broker b \<Longrightarrow> TrimSpace b = b"
  by (intro TrimSpace_visible) (auto simp: broker_def list_all_iff)

lemma clean_brokers:
  assumes "bs \<noteq> []" and "\<forall>b \<in> set bs. broker b"
  shows "filter (\<lambda>b. b \<noteq> '''') (map TrimSpace (Split (join (CHR '','') bs) (CHR '',''))) = bs"
proof -
  have "Split (join (CHR '','') bs) (CHR '','') = bs"
    using assms by (intro Split_join) (auto simp: broker_def list_all_iff)
  moreover have "map TrimSpace bs = bs" using assms(2) broker_trim by (simp add: map_idI)
  moreover have "filter (\<lambda>b. b \<noteq> '''') bs = bs" using assms(2) by (simp add: broker_def)
  ultimately show ?thesis by simp
qed

lemma join_chars:
  assumes "\<forall>b \<in> set bs. broker b" and "c \<in> set (join (CHR '','') bs)"
  shows "c \<noteq> CHR ''?''" and "c \<noteq> CHR ''/''"
  using set_join [of "CHR '',''" bs] assms by (auto simp: broker_def list_all_iff)

lemma join_nonempty: "bs \<noteq> [] \<Longrightarrow> \<forall>b \<in> set bs. broker b \<Longrightarrow> join (CHR '','') bs \<noteq> []"
  by (cases "(CHR '','', bs)" rule: join.cases) (auto simp: broker_def)

lemma IndexByte_None: "c \<notin> set s \<Longrightarrow> IndexByte s c = None"
  by (induction s) auto

text \<open>
  C40: The broker URL round trip: whatever brokers and topic are written as
  \<open>kafka://b1,b2?topic=t\<close> are the brokers and topic of the sink, in order, and a bare list of
  brokers with a port publishes to the default topic.
\<close>

theorem kafka_url_roundtrip:
  assumes "bs \<noteq> []" and "\<forall>b \<in> set bs. broker b" and "t \<noteq> ''''" and "CHR ''&'' \<notin> set t"
  shows "NewSink (''kafka://'' @ join (CHR '','') bs @ ''?topic='' @ t) =
      Inr (UseKafka \<lparr>ks_brokers = bs, ks_topic = t, ks_sent = 0\<rparr>)
    \<and> (CHR '':'' \<in> set (join (CHR '','') bs) \<longrightarrow>
       NewSink (join (CHR '','') bs) = Inr (UseKafka \<lparr>ks_brokers = bs, ks_topic = ''audit.v1'', ks_sent = 0\<rparr>))"
proof
  let ?hosts = "join (CHR '','') bs"
  have q: "CHR ''?'' \<notin> set ?hosts" "CHR ''/'' \<notin> set ?hosts" using join_chars [OF assms(2)] by auto
  have i: "IndexByte (?hosts @ ''?topic='' @ t) (CHR ''?'') = Some (length ?hosts)"
    using IndexByte_append [OF q(1), of "''topic='' @ t"] by simp
  have s: "Split (''topic='' @ t) (CHR ''&'') = [''topic='' @ t]" using assms(4) by (intro Split_no_sep) auto
  have tp: "topic_param (''topic='' @ t) '''' = t" unfolding topic_param_def by (simp only: TrimPrefix_append) simp
  have parts: "take (length ?hosts) (?hosts @ ''?topic='' @ t) = ?hosts"
    "drop (Suc (length ?hosts)) (?hosts @ ''?topic='' @ t) = ''topic='' @ t" by simp_all
  have topic: "fold topic_param (Split (''topic='' @ t) (CHR ''&'')) '''' = t"
    unfolding s fold_simps tp ..
  have "NewKafkaSinkFromURL (''kafka://'' @ ?hosts @ ''?topic='' @ t) DefaultAuditTopic = NewKafkaSink bs t"
    unfolding NewKafkaSinkFromURL_def TrimPrefix_append i Let_def option.case parts topic prod.case clean_brokers [OF assms(1,2)]
      if_not_P [OF assms(3)] ..
  then have "NewKafkaSinkFromURL (''kafka://'' @ ?hosts @ ''?topic='' @ t) DefaultAuditTopic =
      Inr \<lparr>ks_brokers = bs, ks_topic = t, ks_sent = 0\<rparr>"
    using assms(1,3) by (simp add: NewKafkaSink_def)
  then show "NewSink (''kafka://'' @ ?hosts @ ''?topic='' @ t) =
      Inr (UseKafka \<lparr>ks_brokers = bs, ks_topic = t, ks_sent = 0\<rparr>)" by (simp add: NewSink_def)
  show "CHR '':'' \<in> set ?hosts \<longrightarrow>
      NewSink ?hosts = Inr (UseKafka \<lparr>ks_brokers = bs, ks_topic = ''audit.v1'', ks_sent = 0\<rparr>)"
  proof
    assume colon: "CHR '':'' \<in> set ?hosts"
    have no: "\<not> Contains ?hosts ''://''" using q(2) by (auto simp: Contains_iff)
    have pre: "\<not> HasPrefix ?hosts ''memory://''" "\<not> HasPrefix ?hosts ''kafka://''"
      using q(2) by (auto simp: prefix_def)
    have yes: "Contains ?hosts '':''" using colon split_list [OF colon] by (auto simp: Contains_iff)
    have "NewKafkaSinkFromURL (''kafka://'' @ ?hosts) DefaultAuditTopic = NewKafkaSink bs DefaultAuditTopic"
      unfolding NewKafkaSinkFromURL_def TrimPrefix_append Let_def IndexByte_None [OF q(1)] option.case prod.case
        clean_brokers [OF assms(1,2)] by simp
    then have "NewKafkaSinkFromURL (''kafka://'' @ ?hosts) DefaultAuditTopic =
        Inr \<lparr>ks_brokers = bs, ks_topic = ''audit.v1'', ks_sent = 0\<rparr>"
      using assms(1) by (simp add: NewKafkaSink_def)
    then show "NewSink ?hosts = Inr (UseKafka \<lparr>ks_brokers = bs, ks_topic = ''audit.v1'', ks_sent = 0\<rparr>)"
      using no yes pre join_nonempty [OF assms(1,2)] by (simp add: NewSink_def isPlainBrokerList_def)
  qed
qed

theorem kafka_url_roundtrip_witness:
  "NewSink ''kafka://k1:9092,k2:9092?topic=kyt'' =
     Inr (UseKafka \<lparr>ks_brokers = [''k1:9092'', ''k2:9092''], ks_topic = ''kyt'', ks_sent = 0\<rparr>)
   \<and> NewSink ''k1:9092,k2:9092'' =
     Inr (UseKafka \<lparr>ks_brokers = [''k1:9092'', ''k2:9092''], ks_topic = ''audit.v1'', ks_sent = 0\<rparr>)"
  using kafka_url_roundtrip [of "[''k1:9092'', ''k2:9092'']" "''kyt''"]
  by (simp add: broker_def visible_def)

section \<open>The topic as an audit log\<close>

text \<open>
  What is relied on of the outside: an event can be read back from its JSON, a write that succeeds
  appends its message to the topic, and a write that fails does not.
\<close>

definition kafka_laws ::
    "(Event \<Rightarrow> go_error + string) \<Rightarrow> (string \<Rightarrow> Event) \<Rightarrow> ('k \<Rightarrow> string \<Rightarrow> Envelope \<Rightarrow> go_error option \<times> 'k)
     \<Rightarrow> ('k \<Rightarrow> (string \<times> Envelope) list) \<Rightarrow> bool" where
  "kafka_laws marshal unmarshal_event publish messages \<longleftrightarrow>
     (\<forall>e p. marshal e = Inr p \<longrightarrow> unmarshal_event p = e)
   \<and> (\<forall>k key env k'. publish k key env = (None, k') \<longrightarrow> messages k' = messages k @ [(key, env)])
   \<and> (\<forall>k key env err k'. publish k key env = (Some err, k') \<longrightarrow> messages k' = messages k)"

definition kafka_sink ::
    "(Event \<Rightarrow> go_error + string) \<Rightarrow> (gotime \<Rightarrow> string) \<Rightarrow> ('k \<Rightarrow> string \<Rightarrow> Envelope \<Rightarrow> go_error option \<times> 'k)
     \<Rightarrow> (KafkaSink \<times> 'k) Sink" where
  "kafka_sink marshal fmt publish = \<lparr>sk_Emit = KafkaSink_Emit marshal fmt publish\<rparr>"

definition published ::
    "(string \<Rightarrow> Event) \<Rightarrow> ('k \<Rightarrow> (string \<times> Envelope) list) \<Rightarrow> KafkaSink \<times> 'k \<Rightarrow> Event list" where
  "published unmarshal_event messages s = map (\<lambda>m. unmarshal_event (en_payload (snd m))) (messages (snd s))"

lemma kafka_audit_log:
  assumes "kafka_laws marshal unmarshal_event publish messages"
  shows "audit_log (kafka_sink marshal fmt publish) (published unmarshal_event messages) (\<lambda>e. e)"
proof
  fix w s ev w' s'
  have laws: "marshal e = Inr p \<Longrightarrow> unmarshal_event p = e"
    "publish k key env = (None, k') \<Longrightarrow> messages k' = messages k @ [(key, env)]"
    "publish k key env = (Some err, k') \<Longrightarrow> messages k' = messages k" for e p k key env k' err
    using assms unfolding kafka_laws_def by blast+
  show "sk_Emit (kafka_sink marshal fmt publish) w s ev = (None, w', s') \<Longrightarrow>
      published unmarshal_event messages s' = published unmarshal_event messages s @ [ev]"
    by (auto simp: kafka_sink_def KafkaSink_Emit_def Let_def published_def laws(1) dest!: laws(2)
        split: sum.splits prod.splits option.splits)
  show "sk_Emit (kafka_sink marshal fmt publish) w s ev = (Some err, w', s') \<Longrightarrow>
      published unmarshal_event messages s' = published unmarshal_event messages s" for err
    by (auto simp: kafka_sink_def KafkaSink_Emit_def Let_def published_def dest!: laws(3)
        split: sum.splits prod.splits option.splits)
qed

text \<open>
  The Kafka topic holds a subsequence of the accepted events in the order they were accepted,
  exactly those whose delivery succeeded: nothing is invented, duplicated or overtaken.
\<close>

theorem kafka_topic_in_order:
  assumes "kafka_laws marshal unmarshal_event publish messages"
    and "audit_steps (kafka_sink marshal fmt publish) (audit_init n s w) y" and "messages (snd s) = []"
  shows "published unmarshal_event messages (sys_sink y) = delivered (sys_handled y)
    \<and> subseq (published unmarshal_event messages (sys_sink y)) (sys_accepted y)"
  using audit_log.reach_log [OF kafka_audit_log [OF assms(1)] assms(2)]
    audit_log.reach_in_order [OF kafka_audit_log [OF assms(1)] assms(2)] assms(3)
  by (simp add: published_def)

text \<open>A topic as a list, and one event through it.\<close>

definition demo_marshal :: "Event \<Rightarrow> go_error + string" where
  "demo_marshal e = (if e = demo_event then Inr ''{}'' else Inl (ErrText ''unsupported value''))"

definition demo_publish :: "(string \<times> Envelope) list \<Rightarrow> string \<Rightarrow> Envelope \<Rightarrow> go_error option \<times> (string \<times> Envelope) list" where
  "demo_publish k key env = (None, k @ [(key, env)])"

lemma demo_kafka_laws: "kafka_laws demo_marshal (\<lambda>_. demo_event) demo_publish (\<lambda>k. k)"
  by (simp add: kafka_laws_def demo_marshal_def demo_publish_def)

definition demo_kafka :: "KafkaSink \<times> (string \<times> Envelope) list" where
  "demo_kafka = (\<lparr>ks_brokers = [''k1:9092''], ks_topic = ''audit.v1'', ks_sent = 0\<rparr>, [])"

lemma demo_kafka_run:
  "\<exists>y. audit_steps (kafka_sink demo_marshal (\<lambda>_. '''') demo_publish) (audit_init 2 demo_kafka demo_audit_world) y
     \<and> sys_handled y = [(demo_event, True)]"
proof -
  let ?sink = "kafka_sink demo_marshal (\<lambda>_. '''') demo_publish"
  let ?y0 = "audit_init 2 demo_kafka demo_audit_world"
  define y1 where "y1 = ?y0\<lparr>sys_emitter := (NewEmitter 2)\<lparr>em_queue := [demo_event]\<rparr>, sys_accepted := [demo_event]\<rparr>"
  define y2 where "y2 = y1\<lparr>sys_emitter := (NewEmitter 2)\<lparr>em_queue := [], em_inflight := Some demo_event\<rparr>\<rparr>"
  have s1: "audit_step ?sink ?y0 y1"
    using audit_step.step_accept [of ?y0 demo_event demo_audit_world "(NewEmitter 2)\<lparr>em_queue := [demo_event]\<rparr>" ?sink]
    by (simp add: Emitter_Emit_def audit_init_def NewEmitter_def y1_def)
  have s2: "audit_step ?sink y1 y2"
    using audit_step.step_receive [of y1 "(NewEmitter 2)\<lparr>em_queue := [], em_inflight := Some demo_event\<rparr>" ?sink]
    by (simp add: audit_init_def NewEmitter_def y1_def y2_def worker_receive.simps)
  obtain r w s where e: "KafkaSink_Emit demo_marshal (\<lambda>_. '''') demo_publish demo_audit_world demo_kafka demo_event = (r, w, s)"
    by (metis prod_cases3)
  then have "r = None" by (auto simp: KafkaSink_Emit_def demo_marshal_def demo_publish_def Let_def split: prod.splits)
  with e have emit: "sk_Emit ?sink demo_audit_world demo_kafka demo_event = (None, w, s)" by (simp add: kafka_sink_def)
  then have "worker_deliver ?sink (sys_world y2) (sys_sink y2) (sys_emitter y2) =
      Some (True, w, s, (sys_emitter y2)\<lparr>em_inflight := None, em_emitted := ctr_add (em_emitted (sys_emitter y2)) 1\<rparr>)"
    by (simp add: worker_deliver_def y2_def y1_def audit_init_def)
  from audit_step.step_deliver [OF this, of demo_event]
  have s3: "audit_step ?sink y2 (y2\<lparr>sys_emitter := (sys_emitter y2)\<lparr>em_inflight := None,
      em_emitted := ctr_add (em_emitted (sys_emitter y2)) 1\<rparr>, sys_world := w, sys_sink := s, sys_handled := [(demo_event, True)]\<rparr>)"
    by (simp add: y2_def y1_def audit_init_def)
  have "audit_steps ?sink ?y0 y1" using s1 by (rule r_into_rtranclp)
  also have "audit_steps ?sink y1 y2" using s2 by (rule r_into_rtranclp)
  also have "audit_steps ?sink y2 (y2\<lparr>sys_emitter := (sys_emitter y2)\<lparr>em_inflight := None,
      em_emitted := ctr_add (em_emitted (sys_emitter y2)) 1\<rparr>, sys_world := w, sys_sink := s, sys_handled := [(demo_event, True)]\<rparr>)"
    using s3 by (rule r_into_rtranclp)
  finally show ?thesis by (intro exI conjI) (assumption, simp)
qed

theorem kafka_topic_in_order_witness:
  "\<exists>y :: (KafkaSink \<times> (string \<times> Envelope) list) audit_sys. sys_handled y = [(demo_event, True)]
     \<and> published (\<lambda>_. demo_event) (\<lambda>k :: (string \<times> Envelope) list. k) (sys_sink y) = [demo_event]"
proof -
  obtain y where y: "audit_steps (kafka_sink demo_marshal (\<lambda>_. '''') demo_publish) (audit_init 2 demo_kafka demo_audit_world) y"
    "sys_handled y = [(demo_event, True)]" using demo_kafka_run by blast
  have "published (\<lambda>_. demo_event) (\<lambda>k. k) (sys_sink y) = [demo_event]"
    using kafka_topic_in_order [OF demo_kafka_laws y(1)] y(2) by (simp add: delivered_def demo_kafka_def)
  with y(2) show ?thesis by blast
qed

end
