(* ===== verification/Pg_Screen.thy ===== *)
theory Pg_Screen
  imports Pg_Alert Screen
begin

text \<open>
  \<open>internal/store/pg_screen.go\<close>: screens in the table \<open>kyt_screens\<close>.  What is put is found again as in
  the in-memory store, under its id and in the listing of its address.
\<close>

section \<open>The store\<close>

definition screen_columns :: "string list" where
  "screen_columns = [''screen_id'', ''tx_id'', ''address'', ''source_address'', ''chain'', ''amount'', ''risk_score'',
     ''exposure'', ''decision'', ''vendor'', ''vendor_response_id'', ''cache_hit'', ''created_at'']"

definition excluded_columns :: "string list" where
  "excluded_columns = [''tx_id'', ''address'', ''source_address'', ''chain'', ''amount'', ''risk_score'',
     ''exposure'', ''decision'', ''vendor'', ''vendor_response_id'', ''cache_hit'', ''created_at'']"

definition screen_args :: "ScreenRecord \<Rightarrow> sql_val list" where
  "screen_args r = [SText (sr_ScreenID r), SText (sr_TxID r), SText (sr_Address r), null_text (sr_SourceAddress r),
     SText (sr_Chain r), SText (sr_Amount r), SInt (sr_RiskScore r), SText (sr_Exposure r), SText (sr_Decision r),
     SText (sr_Vendor r), null_text (sr_VendorResponseID r), SBool (sr_CacheHit r), STime (sr_CreatedAt r)]"

definition PGScreenStore_Put :: "'d DB \<Rightarrow> 'd \<Rightarrow> ScreenRecord \<Rightarrow> go_error option \<times> 'd" where
  "PGScreenStore_Put db d rec =
     (if sr_ScreenID rec = '''' then (Some (ErrText ''screen id required''), d)
      else (case db_Exec db d (Insert ''kyt_screens'' screen_columns (DoUpdate [''screen_id''] excluded_columns)) (screen_args rec) of
              (Inl err, d1) \<Rightarrow> (Some (Wrap ''pgscreen put'' err), d1)
            | (Inr _, d1) \<Rightarrow> (None, d1)))"

text \<open>The \<open>Scan\<close> that \<open>Get\<close> and \<open>ListByAddress\<close> share.\<close>

definition scanScreen :: "row \<Rightarrow> go_error + ScreenRecord" where
  "scanScreen r =
     read_col scan_text r ''screen_id'' (\<lambda>i.
     read_col scan_text r ''tx_id'' (\<lambda>tx.
     read_col scan_text r ''address'' (\<lambda>addr.
     read_col scan_text0 r ''source_address'' (\<lambda>source.
     read_col scan_text r ''chain'' (\<lambda>ch.
     read_col scan_text r ''amount'' (\<lambda>amount.
     read_col scan_int_col r ''risk_score'' (\<lambda>score.
     read_col scan_text r ''exposure'' (\<lambda>ex.
     read_col scan_text r ''decision'' (\<lambda>dec.
     read_col scan_text r ''vendor'' (\<lambda>vendor.
     read_col scan_text0 r ''vendor_response_id'' (\<lambda>vendorResponseID.
     read_col scan_bool r ''cache_hit'' (\<lambda>hit.
     read_col scan_time r ''created_at'' (\<lambda>created.
       Inr \<lparr>sr_ScreenID = i, sr_TxID = tx, sr_Address = addr, sr_SourceAddress = source, sr_Chain = ch,
            sr_Amount = amount, sr_RiskScore = score, sr_Exposure = ex, sr_Decision = dec, sr_Vendor = vendor,
            sr_VendorResponseID = vendorResponseID, sr_CacheHit = hit, sr_CreatedAt = created\<rparr>)))))))))))))"

definition PGScreenStore_Get :: "'d DB \<Rightarrow> 'd \<Rightarrow> string \<Rightarrow> go_error + ScreenRecord option" where
  "PGScreenStore_Get db d i =
     (case QueryRow db d (Select ''kyt_screens'' [''screen_id''] None None) [SText i] scanScreen of
        Inl err \<Rightarrow> if err = ErrNoRows then Inr None else Inl (Wrap ''pgscreen get'' err)
      | Inr rec \<Rightarrow> Inr (Some rec))"

definition PGScreenStore_ListByAddress :: "'d DB \<Rightarrow> 'd \<Rightarrow> string \<Rightarrow> string \<Rightarrow> go_error + ScreenRecord list" where
  "PGScreenStore_ListByAddress db d address chain =
     (case db_Query db d (Select ''kyt_screens'' [''address'', ''chain''] None (Some ''created_at'')) [SText address, SText chain] of
        Inl err \<Rightarrow> Inl (Wrap ''pgscreen list by address'' err)
      | Inr (rows, rowsErr) \<Rightarrow>
          (case scan_rows scanScreen rows of
             Inl err \<Rightarrow> Inl (Wrap ''pgscreen list scan'' err)
           | Inr out \<Rightarrow>
               (case rowsErr of Some err \<Rightarrow> Inl (Wrap ''pgscreen list rows'' err) | None \<Rightarrow> Inr out)))"

definition pg_screen_store :: "'d DB \<Rightarrow> 'd ScreenStore" where
  "pg_screen_store db = \<lparr>ss_Put = PGScreenStore_Put db, ss_Get = PGScreenStore_Get db,
     ss_ListByAddress = PGScreenStore_ListByAddress db\<rparr>"

section \<open>Rows and records\<close>

definition screen_row :: "ScreenRecord \<Rightarrow> row" where
  "screen_row r = bind_cols screen_columns (screen_args r)"

lemmas screen_row_defs = screen_row_def screen_columns_def screen_args_def excluded_columns_def

lemma scan_screen_row: "scanScreen (screen_row r) = Inr r"
  by (simp add: scanScreen_def read_col_def screen_row_defs)

lemma key_screen_row [simp]: "key_of [''screen_id''] (screen_row r) = [SText (sr_ScreenID r)]"
  by (simp add: key_of_def screen_row_defs)

lemma flow_screen_row [simp]: "key_of [''address'', ''chain''] (screen_row r) = [SText (sr_Address r), SText (sr_Chain r)]"
  by (simp add: key_of_def screen_row_defs)

lemma created_screen_row [simp]: "time_key (screen_row r ''created_at'') = sr_CreatedAt r"
  by (simp add: screen_row_defs)

lemma excluded_screen_row:
  "sr_ScreenID q = sr_ScreenID r \<Longrightarrow> override_cols excluded_columns (screen_row r) (screen_row q) = screen_row r"
  by (rule ext) (simp add: override_cols_def screen_row_defs)

lemma screen_shape: "columns_match kyt_screens screen_columns (screen_args r)" "set (required kyt_screens) \<subseteq> set screen_columns"
  "set excluded_columns \<subseteq> set screen_columns"
  by (simp_all add: columns_match_def table_columns screen_columns_def screen_args_def excluded_columns_def table_required)

lemma screen_lookup_shape: "select_shape kyt_screens [''screen_id''] None None [SText i]"
  "select_shape kyt_screens [''address'', ''chain''] None (Some ''created_at'') [SText a, SText c]"
  by (simp_all add: select_shape_def text_keys_def table_lookups del: insert_iff) simp_all

definition sendable_screen :: "ScreenRecord \<Rightarrow> bool" where
  "sendable_screen r \<longleftrightarrow> list_all sendable (screen_args r)"

definition canonical_screen :: "(string \<Rightarrow> string option) \<Rightarrow> ScreenRecord \<Rightarrow> bool" where
  "canonical_screen canon r \<longleftrightarrow> canon (sr_ScreenID r) = Some (sr_ScreenID r)
     \<and> (sr_VendorResponseID r = '''' \<or> canon (sr_VendorResponseID r) = Some (sr_VendorResponseID r))"

lemma good_screen: "canonical_screen canon r \<Longrightarrow> good_uuids canon kyt_screens screen_columns (screen_args r)"
  by (auto simp: good_uuids_def canonical_screen_def screen_columns_def screen_args_def null_text_def split: if_splits)

section \<open>The two stores side by side\<close>

definition screens_rel ::
    "('d \<Rightarrow> string \<Rightarrow> row list) \<Rightarrow> ('d \<Rightarrow> bool) \<Rightarrow> (string \<Rightarrow> string option) \<Rightarrow> 'd \<Rightarrow> MemoryScreenStore \<Rightarrow> bool" where
  "screens_rel contents up canon d s \<longleftrightarrow> up d \<and> distinct (keys_of s)
     \<and> (\<forall>(k, r) \<in> set s. sr_ScreenID r = k \<and> canon k = Some k)
     \<and> contents d ''kyt_screens'' = map (\<lambda>e. screen_row (snd e)) s"

fun put_all :: "'s ScreenStore \<Rightarrow> ScreenRecord list \<Rightarrow> 's \<Rightarrow> go_error option list \<times> 's" where
  "put_all ops [] s = ([], s)"
| "put_all ops (r # rs) s =
     (let (e, s1) = ss_Put ops s r; (es, s2) = put_all ops rs s1 in (e # es, s2))"

text \<open>The database takes each record as it comes.\<close>

fun screens_fit :: "'d DB \<Rightarrow> ('d \<Rightarrow> table \<Rightarrow> row \<Rightarrow> bool) \<Rightarrow> (string \<Rightarrow> string option) \<Rightarrow> 'd \<Rightarrow> ScreenRecord list \<Rightarrow> bool" where
  "screens_fit db fits canon d [] \<longleftrightarrow> True"
| "screens_fit db fits canon d (r # rs) \<longleftrightarrow>
     (sr_ScreenID r = '''' \<or> canonical_screen canon r \<and> sendable_screen r \<and> fits d kyt_screens (screen_row r))
     \<and> screens_fit db fits canon (snd (PGScreenStore_Put db d r)) rs"

lemma update_as_map:
  "distinct (keys_of s) \<Longrightarrow> k \<in> fst ` set s \<Longrightarrow>
     AList.update k r s = map (\<lambda>e. if fst e = k then (k, r) else e) s"
proof (induction s)
  case (Cons e s)
  have "k \<notin> fst ` set s \<Longrightarrow> map (\<lambda>e. if fst e = k then (k, r) else e) s = s"
    by (intro map_idI) auto
  then show ?case using Cons by (cases e) auto
qed simp

lemma filter_key:
  "distinct (keys_of s) \<Longrightarrow> filter (\<lambda>e. fst e = i) s = (case map_of s i of None \<Rightarrow> [] | Some q \<Rightarrow> [(i, q)])"
  by (induction s) (auto simp: filter_empty_conv map_of_eq_None_iff image_iff split: option.splits)

text \<open>Once the puts are over: what either store answers to a lookup and to a listing.\<close>

definition same_screens ::
    "(string \<Rightarrow> string option) \<Rightarrow> 'd DB \<Rightarrow> (MemoryScreenStore \<Rightarrow> MemoryScreenStore) \<Rightarrow> 'd \<Rightarrow> MemoryScreenStore \<Rightarrow> bool" where
  "same_screens canon db ord d s \<longleftrightarrow>
     (\<forall>i. sql_text i \<and> canon i = Some i \<longrightarrow> PGScreenStore_Get db d i = MemoryScreenStore_Get s i)
   \<and> (\<forall>i. canon i = None \<longrightarrow> MemoryScreenStore_Get s i = Inr None \<and> (\<exists>e. PGScreenStore_Get db d i = Inl e))
   \<and> (\<forall>a c. sql_text a \<and> sql_text c \<longrightarrow> (\<exists>xs ys. PGScreenStore_ListByAddress db d a c = Inr xs \<and> MemoryScreenStore_ListByAddress ord s a c = Inr ys
        \<and> mset xs = mset ys \<and> sorted (map sr_CreatedAt xs) \<and> sorted (map sr_CreatedAt ys)))"

context kyt_db
begin

abbreviation srel :: "'d \<Rightarrow> MemoryScreenStore \<Rightarrow> bool" where
  "srel \<equiv> screens_rel contents up canon"

lemma sim_put:
  assumes rel: "srel d s"
    and r: "sr_ScreenID r = '''' \<or> canonical_screen canon r \<and> sendable_screen r \<and> fits d kyt_screens (screen_row r)"
  shows "fst (PGScreenStore_Put db d r) = fst (MemoryScreenStore_Put s r)
    \<and> srel (snd (PGScreenStore_Put db d r)) (snd (MemoryScreenStore_Put s r))"
proof (cases "sr_ScreenID r = ''''")
  case True
  then show ?thesis using rel by (simp add: PGScreenStore_Put_def MemoryScreenStore_Put_def)
next
  case False
  with r have ok: "canonical_screen canon r" "fits d kyt_screens (bind_cols screen_columns (screen_args r))"
    and snd: "list_all sendable (screen_args r)"
    by (simp_all add: screen_row_def sendable_screen_def)
  let ?ins = "Insert ''kyt_screens'' screen_columns (DoUpdate [''screen_id''] excluded_columns)"
  let ?k = "sr_ScreenID r"
  have c: "contents d ''kyt_screens'' = map (\<lambda>e. screen_row (snd e)) s" and up: "up d"
    and keys: "distinct (keys_of s)" and filed: "\<And>k q. (k, q) \<in> set s \<Longrightarrow> sr_ScreenID q = k \<and> canon k = Some k"
    using rel by (auto simp: screens_rel_def)
  have ids: "key_of [''screen_id''] ` set (contents d ''kyt_screens'') = (\<lambda>e. [SText (fst e)]) ` set s"
    unfolding c set_map image_image using filed by (intro image_cong refl) force
  have canon: "canon ?k = Some ?k" using ok(1) by (simp add: canonical_screen_def)
  have stored: ?thesis if "db_Exec db d ?ins (screen_args r) = (Inr (Inr 1), d')" "up d'"
    "changes_only contents ''kyt_screens'' (map (\<lambda>e. screen_row (snd e)) (AList.update ?k r s)) d d'" for d'
  proof -
    have "sr_ScreenID q = k \<and> canon k = Some k" if "(k, q) \<in> set (AList.update ?k r s)" for k q
      using update_mem [OF that] filed canon by auto
    then have "srel d' (AList.update ?k r s)"
      using that keys by (auto simp: screens_rel_def changes_only_def distinct_update)
    then show ?thesis using False that(1) by (simp add: PGScreenStore_Put_def MemoryScreenStore_Put_def)
  qed
  show ?thesis
  proof (cases "?k \<in> fst ` set s")
    case False
    then have "map_of s ?k = None" by (simp add: map_of_eq_None_iff)
    moreover have "key_of [''screen_id''] (screen_row r) \<notin> key_of [''screen_id''] ` set (contents d ''kyt_screens'')"
      unfolding ids using False by auto
    ultimately show ?thesis
      using insert_new [OF tables_in(2) up screen_shape(1,2) good_screen [OF ok(1)] snd ok(2),
          of "DoUpdate [''screen_id''] excluded_columns"] stored
      by (auto simp: update_fresh c screen_row_def [symmetric])
  next
    case True
    have "(if key_of [''screen_id''] (screen_row (snd e)) = [SText ?k]
          then override_cols excluded_columns (screen_row r) (screen_row (snd e)) else screen_row (snd e))
        = screen_row (snd (if fst e = ?k then (?k, r) else e))" if "e \<in> set s" for e
      using filed [of "fst e" "snd e"] that excluded_screen_row [of "snd e" r] by auto
    then have rows: "map (\<lambda>q. if key_of [''screen_id''] q = [SText ?k] then override_cols excluded_columns (screen_row r) q else q)
          (contents d ''kyt_screens'') = map (\<lambda>e. screen_row (snd e)) (AList.update ?k r s)"
      unfolding c update_as_map [OF keys True] map_map o_def by (intro map_cong refl)
    have "key_of [''screen_id''] (screen_row r) \<in> key_of [''screen_id''] ` set (contents d ''kyt_screens'')"
      unfolding ids using True by auto
    then have "key_of (tb_key kyt_screens) (bind_cols screen_columns (screen_args r))
        \<in> key_of (tb_key kyt_screens) ` set (contents d (tb_name kyt_screens))"
      unfolding table_keys table_names screen_row_def .
    from insert_update [OF tables_in(2) up screen_shape(1,2) good_screen [OF ok(1)] snd ok(2) this screen_shape(3)]
    obtain d' where "db_Exec db d ?ins (screen_args r) = (Inr (Inr 1), d')" "up d'"
      "changes_only contents ''kyt_screens'' (map (\<lambda>e. screen_row (snd e)) (AList.update ?k r s)) d d'"
      unfolding table_keys table_names screen_row_def [symmetric] key_screen_row rows by blast
    then show ?thesis by (rule stored)
  qed
qed

lemma sim_put_all:
  "srel d s \<Longrightarrow> screens_fit db fits canon d rs \<Longrightarrow>
     fst (put_all (pg_screen_store db) rs d) = fst (put_all (memory_screen_store ord) rs s)
   \<and> srel (snd (put_all (pg_screen_store db) rs d)) (snd (put_all (memory_screen_store ord) rs s))"
proof (induction rs arbitrary: d s)
  case (Cons r rs)
  then show ?case using sim_put [OF Cons.prems(1), of r] by (simp add: pg_screen_store_def split_beta Let_def)
qed simp

lemma sim_get_screen:
  assumes rel: "srel d s" and i: "sql_text i" "canon i = Some i"
  shows "PGScreenStore_Get db d i = MemoryScreenStore_Get s i"
proof -
  have snd: "list_all sendable [SText i]" using i by simp
  have up: "up d" using rel by (simp add: screens_rel_def)
  have c: "contents d ''kyt_screens'' = map (\<lambda>e. screen_row (snd e)) s" and keys: "distinct (keys_of s)"
    and filed: "\<And>k q. (k, q) \<in> set s \<Longrightarrow> sr_ScreenID q = k"
    using rel by (auto simp: screens_rel_def)
  have good: "good_uuids canon kyt_screens [''screen_id''] [SText i]" using i by (simp add: good_uuids_def)
  obtain rs where q: "db_Query db d (Select ''kyt_screens'' [''screen_id''] None None) [SText i] = Inr (rs, None)"
    "mset rs = mset (selected [''screen_id''] None [SText i] (contents d ''kyt_screens''))"
    using select_rows [OF tables_in(2) up screen_lookup_shape(1) good snd] by auto
  have "selected [''screen_id''] None [SText i] (contents d ''kyt_screens'')
      = map (\<lambda>e. screen_row (snd e)) (filter (\<lambda>e. fst e = i) s)"
    using filed by (auto simp: selected_def c filter_map o_def intro!: filter_cong arg_cong [where f = "map _"])
  moreover have "filter (\<lambda>e. fst e = i) s = (case map_of s i of None \<Rightarrow> [] | Some q \<Rightarrow> [(i, q)])"
    using keys by (rule filter_key)
  ultimately show ?thesis using q
    by (auto simp: PGScreenStore_Get_def QueryRow_def MemoryScreenStore_Get_def scan_screen_row split: option.splits)
qed

lemma get_not_a_uuid:
  assumes rel: "srel d s" and i: "canon i = None"
  shows "MemoryScreenStore_Get s i = Inr None \<and> (\<exists>e. PGScreenStore_Get db d i = Inl e)"
proof -
  have up: "up d" using rel by (simp add: screens_rel_def)
  have "\<exists>c m. db_Query db d (Select ''kyt_screens'' [''screen_id''] None None) [SText i] = Inl (PqErr c m)"
  proof (cases "sql_text i")
    case True
    then have "bad_uuid canon kyt_screens [''screen_id''] [SText i]" "list_all sendable [SText i]"
      using i by (simp_all add: bad_uuid_def)
    then show ?thesis using select_invalid [OF tables_in(2) up screen_lookup_shape(1)] unfolding table_names by blast
  next
    case False
    then have "\<not> bad_uuid canon kyt_screens [''screen_id''] [SText i]" "list_ex bad_text [SText i]"
      by (simp_all add: bad_uuid_def)
    then show ?thesis using select_bad_text [OF tables_in(2) up screen_lookup_shape(1)] unfolding table_names by blast
  qed
  then obtain c m where "db_Query db d (Select ''kyt_screens'' [''screen_id''] None None) [SText i] = Inl (PqErr c m)"
    by blast
  moreover have "map_of s i = None" using rel i by (force simp: screens_rel_def map_of_eq_None_iff)
  ultimately show ?thesis by (simp add: PGScreenStore_Get_def QueryRow_def MemoryScreenStore_Get_def)
qed

lemma sim_list_screens:
  assumes rel: "srel d s" and ord: "\<forall>m. mset (ord m) = mset m" and texts: "sql_text a" "sql_text c"
  shows "\<exists>xs ys. PGScreenStore_ListByAddress db d a c = Inr xs \<and> MemoryScreenStore_ListByAddress ord s a c = Inr ys
      \<and> mset xs = mset ys \<and> sorted (map sr_CreatedAt xs) \<and> sorted (map sr_CreatedAt ys)"
proof -
  let ?ks = "[''address'', ''chain'']" and ?vs = "[SText a, SText c]"
  let ?here = "\<lambda>r. sr_Address r = a \<and> sr_Chain r = c"
  have good: "good_uuids canon kyt_screens ?ks ?vs" by (simp add: good_uuids_def)
  have snd: "list_all sendable ?vs" using texts by simp
  have up: "up d" using rel by (simp add: screens_rel_def)
  obtain rs where q: "db_Query db d (Select ''kyt_screens'' ?ks None (Some ''created_at'')) ?vs = Inr (rs, None)"
    "mset rs = mset (selected ?ks None ?vs (contents d ''kyt_screens''))" "sorted (map (\<lambda>r. time_key (r ''created_at'')) rs)"
    using select_rows [OF tables_in(2) up screen_lookup_shape(2) good snd] by auto
  have "selected ?ks None ?vs (contents d ''kyt_screens'') = map screen_row (filter ?here (map snd s))"
    using rel by (simp add: screens_rel_def selected_def filter_map o_def)
  with q(2) have "mset rs = mset (map screen_row (filter ?here (map snd s)))" by (simp only:)
  from scan_permuted [of scanScreen, OF scan_screen_row this]
  obtain xs where xs: "rs = map screen_row xs" "scan_rows scanScreen rs = Inr xs" "mset xs = mset (filter ?here (map snd s))"
    by blast
  have "mset (filter ?here (map snd s)) = mset (filter ?here (map snd (ord s)))" by (simp add: ord)
  then show ?thesis using q(1,3) xs
    by (simp add: PGScreenStore_ListByAddress_def MemoryScreenStore_ListByAddress_def o_def)
qed

end

text \<open>
  The screen table behaves as the in-memory store.  After any sequence of puts, first or repeated, both
  stores have answered alike, find the same record under every UUID and list the same screens of every
  address, by creation time.  They differ in one point: a screen id that is no UUID is an error of the
  table, and merely unknown in memory.
\<close>

theorem pg_screens_refine_memory:
  assumes "kyt_db db contents up fits canon" and "screens_rel contents up canon d s"
    and "screens_fit db fits canon d rs" and "\<forall>m. mset (ord m) = mset m"
  shows "fst (put_all (pg_screen_store db) rs d) = fst (put_all (memory_screen_store ord) rs s)
    \<and> same_screens canon db ord (snd (put_all (pg_screen_store db) rs d)) (snd (put_all (memory_screen_store ord) rs s))"
  using kyt_db.sim_put_all [OF assms(1-3), of ord] kyt_db.sim_get_screen [OF assms(1)]
    kyt_db.get_not_a_uuid [OF assms(1)] kyt_db.sim_list_screens [OF assms(1) _ assms(4)]
  unfolding same_screens_def by blast

definition demo_pg_screen :: ScreenRecord where
  "demo_pg_screen = \<lparr>sr_ScreenID = demo_uuid, sr_TxID = ''tx1'', sr_Address = ''0xbad'', sr_SourceAddress = '''',
     sr_Chain = ''ethereum'', sr_Amount = ''1.00000000'', sr_RiskScore = 90, sr_Exposure = ''SANCTIONED'',
     sr_Decision = ''BLOCK'', sr_Vendor = ''mock'', sr_VendorResponseID = '''', sr_CacheHit = False, sr_CreatedAt = 100\<rparr>"

lemma demo_pg_sendable: "sendable_screen demo_pg_screen"
  by code_simp

theorem pg_screens_refine_memory_witness:
  "fst (put_all (pg_screen_store pg_engine) [demo_pg_screen, demo_pg_screen] empty_db) = [None, None]
   \<and> same_screens uuid_canon pg_engine (\<lambda>m. m)
       (snd (put_all (pg_screen_store pg_engine) [demo_pg_screen, demo_pg_screen] empty_db))
       (snd (put_all (memory_screen_store (\<lambda>m. m)) [demo_pg_screen, demo_pg_screen] []))"
proof -
  have "screens_rel (\<lambda>d. d) (\<lambda>_. True) uuid_canon empty_db []" by (simp add: screens_rel_def empty_db_def)
  moreover have "screens_fit pg_engine (\<lambda>_ _ _. True) uuid_canon empty_db [demo_pg_screen, demo_pg_screen]"
    using demo_pg_sendable by (simp add: canonical_screen_def demo_pg_screen_def demo_uuid_canonical)
  moreover have "demo_uuid \<noteq> ''''" by (simp add: demo_uuid_def)
  then have "fst (put_all (memory_screen_store (\<lambda>m. m)) [demo_pg_screen, demo_pg_screen] []) = [None, None]"
    by (simp add: demo_pg_screen_def MemoryScreenStore_Put_def Let_def)
  ultimately show ?thesis
    using pg_screens_refine_memory [OF pg.kyt_db_axioms, of empty_db "[]" "[demo_pg_screen, demo_pg_screen]" "\<lambda>m. m"]
    by simp
qed

end
