(* ===== verification/Wiring.thy ===== *)
theory Wiring
  imports Store_Config Service_Run Http_Provider Redis_Cache Kafka_Sink Pg_Screen Db_Sink
begin

text \<open>
  \<open>cmd/kyt/main.go\<close> and the constructors of \<open>internal/store/store.go\<close>: which cache, stores, provider, audit
  sink and webhook secrets the service runs with, what is opened and closed on the way, and the order of
  shutdown.
\<close>

section \<open>What the outside answers while the service boots\<close>

record Boot =
  bt_env :: environ
  bt_sql_open :: "string \<Rightarrow> go_error option"
  bt_db_ping :: "go_error option"
  bt_migrate :: "go_error option"
  bt_parse_redis :: "string \<Rightarrow> go_error option"
  bt_redis_ping :: "go_error option"

datatype resource = ResDB | ResRedis | ResKafka

datatype action = Opened resource | Closed resource

section \<open>Stores\<close>

definition store_Open :: "Boot \<Rightarrow> Config \<Rightarrow> go_error option \<times> action list" where
  "store_Open bt cfg =
     (if cf_DBURL cfg = '''' then (Some (ErrText ''DB_URL is required''), [])
      else (case bt_sql_open bt (cf_DBURL cfg) of
              Some err \<Rightarrow> (Some (Wrap ''open db'' err), [])
            | None \<Rightarrow>
                (case bt_db_ping bt of
                   Some err \<Rightarrow> (Some (Wrap ''ping db'' err), [Opened ResDB, Closed ResDB])
                 | None \<Rightarrow>
                     (case bt_migrate bt of
                        Some err \<Rightarrow> (Some (Wrap ''migrate'' err), [Opened ResDB, Closed ResDB])
                      | None \<Rightarrow> (None, [Opened ResDB])))))"

datatype CacheKind = UseMemoryCache MemoryCache | UsePGCache PGCache | UseRedisCache RedisCache

definition store_NewCache :: "Boot \<Rightarrow> Config \<Rightarrow> (go_error + CacheKind) \<times> action list" where
  "store_NewCache bt cfg =
     (if cf_RedisURL cfg \<noteq> '''' then
        (case bt_parse_redis bt (cf_RedisURL cfg) of
           Some err \<Rightarrow> (Inl (Wrap ''parse REDIS_URL'' err), [])
         | None \<Rightarrow>
             (case bt_redis_ping bt of
                Some err \<Rightarrow> (Inl (Wrap ''ping redis'' err), [Opened ResRedis, Closed ResRedis])
              | None \<Rightarrow> (Inr (UseRedisCache (NewRedisCache (cf_CacheTTL cfg) (cf_SanctionedCacheTTL cfg))), [Opened ResRedis])))
      else (Inr (UsePGCache (NewPGCache (cf_CacheTTL cfg) (cf_SanctionedCacheTTL cfg))), []))"

text \<open>\<open>Close\<close> of a cache: the table's cache closes the database.\<close>

fun cache_Close :: "CacheKind \<Rightarrow> action list" where
  "cache_Close (UseRedisCache c) = [Closed ResRedis]"
| "cache_Close (UsePGCache c) = [Closed ResDB]"
| "cache_Close (UseMemoryCache c) = []"

text \<open>\<open>HealthChecker.Check\<close>: the pings of the database and of the cache, where there are.\<close>

definition HealthChecker_Check :: "go_error option option \<Rightarrow> go_error option option \<Rightarrow> go_error option" where
  "HealthChecker_Check db cache =
     (case (case db of Some (Some err) \<Rightarrow> Some (Wrap ''db'' err) | _ \<Rightarrow> None) of
        Some err \<Rightarrow> Some err
      | None \<Rightarrow> (case cache of Some (Some err) \<Rightarrow> Some (Wrap ''cache'' err) | _ \<Rightarrow> None))"

section \<open>Building the service\<close>

text \<open>\<open>openCache\<close>: the cache, whether there is a database, and the cleanup.\<close>

definition openCache :: "Boot \<Rightarrow> Config \<Rightarrow> (go_error + CacheKind \<times> bool \<times> action list option) \<times> action list" where
  "openCache bt cfg =
     (if cf_DBURL cfg = '''' then
        (if Getenv (bt_env bt) ''DEV_MODE'' \<noteq> ''1''
         then (Inl (ErrText ''DB_URL not set and DEV_MODE!=1; refusing to start in production mode''), [])
         else (Inr (UseMemoryCache (NewMemoryCache (cf_CacheTTL cfg) (cf_SanctionedCacheTTL cfg)), False, None), []))
      else (case store_Open bt cfg of
              (Some err, as) \<Rightarrow> (Inl err, as)
            | (None, as) \<Rightarrow>
                (case store_NewCache bt cfg of
                   (Inl err, bs) \<Rightarrow> (Inl err, as @ bs @ [Closed ResDB])
                 | (Inr cache, bs) \<Rightarrow> (Inr (cache, True, Some (cache_Close cache @ [Closed ResDB])), as @ bs))))"

definition buildProvider ::
    "(string \<Rightarrow> duration option) \<Rightarrow> environ \<Rightarrow> Config \<Rightarrow> (HTTPProvider \<times> duration) option" where
  "buildProvider pd env cfg =
     (let vcfg = DefaultConfig pd env;
          vcfg1 = (if cf_VendorTimeout cfg > 0 then vcfg\<lparr>VendorTimeout := cf_VendorTimeout cfg\<rparr> else vcfg);
          vcfg2 = (if cf_CircuitBreakerThreshold cfg > 0
                   then vcfg1\<lparr>CircuitBreakerThreshold := cf_CircuitBreakerThreshold cfg\<rparr> else vcfg1)
      in if ChainalysisAPIKey vcfg2 \<noteq> '''' then
           Some (\<lparr>hp_name = ''chainalysis'', hp_apiKey = ChainalysisAPIKey vcfg2, hp_baseURL = ChainalysisAPIURL vcfg2,
                  hp_encoder = ChainalysisEncoder, hp_decoder = ChainalysisDecoder\<rparr>, VendorTimeout vcfg2)
         else if TRMAPIKey vcfg2 \<noteq> '''' then
           Some (\<lparr>hp_name = ''trm'', hp_apiKey = TRMAPIKey vcfg2, hp_baseURL = TRMAPIURL vcfg2,
                  hp_encoder = TRMEncoder, hp_decoder = TRMDecoder\<rparr>, VendorTimeout vcfg2)
         else None)"

datatype ProviderKind = UseIdempotentHTTP HTTPProvider duration CircuitBreaker MemoryResponseStore | UseMock MockProvider

datatype SinkKind = UseDBSink | UseMemorySink | UseKafkaSink KafkaSink

text \<open>\<open>buildAuditSink\<close>: the sink, the closer if there is one, and what was opened.\<close>

definition buildAuditSink :: "environ \<Rightarrow> bool \<Rightarrow> (go_error + SinkKind \<times> action list option) \<times> action list" where
  "buildAuditSink env db =
     (let busURL = Getenv env ''AUDIT_EVENT_BUS_URL'' in
      case NewSink busURL of
        Inl err \<Rightarrow> (Inl err, [])
      | Inr choice \<Rightarrow>
          if busURL = '''' \<and> db then (Inr (UseDBSink, None), [])
          else (case choice of
                  UseMemory \<Rightarrow> (Inr (UseMemorySink, Some []), [])
                | UseKafka k \<Rightarrow> (Inr (UseKafkaSink k, Some [Closed ResKafka]), [Opened ResKafka])))"

record Wiring =
  wi_cache :: CacheKind
  wi_db :: bool
  wi_provider :: ProviderKind
  wi_thresholds :: Thresholds
  wi_sink :: SinkKind
  wi_emitter :: Emitter
  wi_secrets :: secrets

datatype boot_result = BootError go_error | BootFatal string | Booted Wiring "action list option"

definition webhook_secrets :: "environ \<Rightarrow> secrets" where
  "webhook_secrets env = [''chainalysis'' \<mapsto> Getenv env ''CHAINALYSIS_WEBHOOK_SECRET'',
     ''trm'' \<mapsto> Getenv env ''TRM_WEBHOOK_SECRET'']"

definition chooseProvider :: "(string \<Rightarrow> duration option) \<Rightarrow> environ \<Rightarrow> Config \<Rightarrow> ProviderKind option" where
  "chooseProvider pd env cfg =
     (let breaker = NewCircuitBreaker (cf_CircuitBreakerThreshold cfg) (60 * second) in
      case buildProvider pd env cfg of
        Some (hp, timeout) \<Rightarrow> Some (UseIdempotentHTTP hp timeout breaker NewMemoryResponseStore)
      | None \<Rightarrow>
          if Getenv env ''DEV_MODE'' = ''1'' then Some (UseMock (NewMockProvider ''mock''))
          else if Getenv env ''KYT_PROVIDER_URL'' = '''' \<and> Getenv env ''CHAINALYSIS_API_KEY'' = ''''
                  \<and> Getenv env ''TRM_API_KEY'' = '''' then None
          else Some (UseMock (NewMockProvider ''mock'')))"

definition no_provider_text :: string where
  "no_provider_text = ''KYT_PROVIDER_URL (or CHAINALYSIS_API_KEY / TRM_API_KEY) required in production mode; real KYT provider not yet implemented ''
     @ [CHR 0xE2, CHR 0x80, CHR 0x94] @ '' set DEV_MODE=1 for local dev''"

definition buildServices ::
    "(string \<Rightarrow> duration option) \<Rightarrow> (string \<Rightarrow> string) \<Rightarrow> Boot \<Rightarrow> Config \<Rightarrow> boot_result \<times> action list" where
  "buildServices pd ul bt cfg =
     (case openCache bt cfg of
        (Inl err, as) \<Rightarrow> (BootError err, as)
      | (Inr (cache, db, cleanup), as) \<Rightarrow>
          (case chooseProvider pd (bt_env bt) cfg of
             None \<Rightarrow> (BootFatal no_provider_text, as)
           | Some provider \<Rightarrow>
               (let thresholds = DefaultThresholds ul (bt_env bt) in
                case buildAuditSink (bt_env bt) db of
                  (Inl err, bs) \<Rightarrow>
                    (BootError (Wrap ''build audit sink'' err),
                     as @ bs @ (case cleanup of None \<Rightarrow> [] | Some cs \<Rightarrow> cs))
                | (Inr (sink, auditCleanup), bs) \<Rightarrow>
                    (let cleanup1 = (case auditCleanup of
                           None \<Rightarrow> cleanup
                         | Some ds \<Rightarrow> Some ((case cleanup of None \<Rightarrow> [] | Some cs \<Rightarrow> cs) @ ds))
                     in (Booted \<lparr>wi_cache = cache, wi_db = db, wi_provider = provider, wi_thresholds = thresholds,
                           wi_sink = sink, wi_emitter = NewEmitter 1024, wi_secrets = webhook_secrets (bt_env bt)\<rparr> cleanup1,
                         as @ bs)))))"

section \<open>Running it\<close>

datatype life =
    TracerInstalled | Act action | RestListen string | GrpcListen string | GrpcStopped | RestShutdown | AuditClosed
  | TracerShutdown | Exited

text \<open>Why the servers end: the context is cancelled, with the result of \<open>Shutdown\<close>, or one of them fails.\<close>

datatype ending = Cancelled "go_error option" | ServerFailed go_error

text \<open>
  \<open>run\<close>, with its deferred calls in the order they are executed: the last one deferred first.  The goroutines
  that listen are started before the wait; \<open>log.Fatalf\<close> exits without running deferred calls.
\<close>

definition run ::
    "(string \<Rightarrow> duration option) \<Rightarrow> (string \<Rightarrow> string) \<Rightarrow> go_error option \<Rightarrow> Boot \<Rightarrow> ending \<Rightarrow> go_error option \<times> life list" where
  "run pd ul install bt fin =
     (case install of
        Some err \<Rightarrow> (Some (Wrap ''install tracer'' err), [])
      | None \<Rightarrow>
          (let cfg = LoadConfig (bt_env bt) in
           case buildServices pd ul bt cfg of
             (BootError err, as) \<Rightarrow> (Some err, TracerInstalled # map Act as @ [TracerShutdown])
           | (BootFatal msg, as) \<Rightarrow> (Some (ErrText msg), TracerInstalled # map Act as @ [Exited])
           | (Booted w cleanup, as) \<Rightarrow>
               (let port = (if Getenv (bt_env bt) ''PORT'' = '''' then ''8080'' else Getenv (bt_env bt) ''PORT'');
                    grpcPort = (if Getenv (bt_env bt) ''GRPC_PORT'' = '''' then ''9090'' else Getenv (bt_env bt) ''GRPC_PORT'')
                in ((case fin of Cancelled r \<Rightarrow> r | ServerFailed err \<Rightarrow> Some err),
                    TracerInstalled # map Act as @ [RestListen ('':'' @ port), GrpcListen ('':'' @ grpcPort)]
                    @ [GrpcStopped, RestShutdown]
                    @ (case cleanup of None \<Rightarrow> [] | Some cs \<Rightarrow> map Act cs)
                    @ [AuditClosed, TracerShutdown]))))"


text \<open>
  \<open>main\<close>: the message of \<open>log.Fatalf\<close> when the process fails, and what happened until it ended.  The fatal
  call inside \<open>buildServices\<close> has ended the process with its own message.
\<close>

definition kyt_main ::
    "(string \<Rightarrow> duration option) \<Rightarrow> (string \<Rightarrow> string) \<Rightarrow> go_error option \<Rightarrow> Boot \<Rightarrow> ending \<Rightarrow> string option \<times> life list" where
  "kyt_main pd ul install bt fin =
     (case run pd ul install bt fin of
        (None, evs) \<Rightarrow> (None, evs)
      | (Some err, evs) \<Rightarrow>
          if Exited \<in> set evs then (Some (error_text err), evs)
          else (Some (''kyt: '' @ error_text err), evs @ [Exited]))"

section \<open>Resources\<close>

fun still_open :: "action list \<Rightarrow> resource set \<Rightarrow> resource set" where
  "still_open [] rs = rs"
| "still_open (Opened r # as) rs = still_open as (insert r rs)"
| "still_open (Closed r # as) rs = still_open as (rs - {r})"

lemma still_open_append [simp]: "still_open (as @ bs) rs = still_open bs (still_open as rs)"
  by (induction as rs rule: still_open.induct) simp_all

definition used_resources :: "Wiring \<Rightarrow> resource set" where
  "used_resources w =
     (if wi_db w then {ResDB} else {})
   \<union> (case wi_cache w of UseRedisCache c \<Rightarrow> {ResRedis} | _ \<Rightarrow> {})
   \<union> (case wi_sink w of UseKafkaSink k \<Rightarrow> {ResKafka} | _ \<Rightarrow> {})"

abbreviation run_cleanup :: "action list option \<Rightarrow> action list" where
  "run_cleanup c \<equiv> (case c of None \<Rightarrow> [] | Some cs \<Rightarrow> cs)"

lemma open_cache_resources:
  assumes "openCache bt cfg = (r, as)"
  shows "case r of Inl e \<Rightarrow> still_open as {} = {}
    | Inr (cache, db, cleanup) \<Rightarrow>
        still_open as {} = (if db then {ResDB} else {}) \<union> (case cache of UseRedisCache c \<Rightarrow> {ResRedis} | _ \<Rightarrow> {})
        \<and> still_open (run_cleanup cleanup) (still_open as {}) = {}
        \<and> (\<forall>rs. ResDB \<notin> rs \<and> ResRedis \<notin> rs \<longrightarrow> still_open (run_cleanup cleanup) (still_open as {} \<union> rs) = rs)"
proof -
  have o: "store_Open bt cfg = (None, [Opened ResDB]) \<or> (\<exists>e as. store_Open bt cfg = (Some e, as) \<and> still_open as {} = {})"
    by (auto simp: store_Open_def split: option.split)
  have c: "(\<exists>k. store_NewCache bt cfg = (Inr (UsePGCache k), []) \<or> store_NewCache bt cfg = (Inr (UseRedisCache k'), [Opened ResRedis]))
      \<or> (\<exists>e as. store_NewCache bt cfg = (Inl e, as) \<and> (\<forall>rs. ResRedis \<notin> rs \<longrightarrow> still_open as rs = rs))"
    if "k' = NewRedisCache (cf_CacheTTL cfg) (cf_SanctionedCacheTTL cfg)" for k'
    using that by (auto simp: store_NewCache_def split: option.split)
  show ?thesis using assms o c [OF refl]
    by (auto simp: openCache_def split: if_splits)
qed

lemma audit_sink_cases:
  "(\<exists>e. buildAuditSink env db = (Inl e, []))
   \<or> buildAuditSink env db = (Inr (UseDBSink, None), [])
   \<or> buildAuditSink env db = (Inr (UseMemorySink, Some []), [])
   \<or> (\<exists>k. buildAuditSink env db = (Inr (UseKafkaSink k, Some [Closed ResKafka]), [Opened ResKafka]))"
proof (cases "NewSink (Getenv env ''AUDIT_EVENT_BUS_URL'')")
  case (Inl e)
  then show ?thesis by (simp add: buildAuditSink_def)
next
  case (Inr choice)
  then show ?thesis by (cases choice) (simp_all add: buildAuditSink_def Let_def)
qed

lemma build_resources:
  assumes "buildServices pd ul bt cfg = (b, as)"
  shows "case b of
      BootError e \<Rightarrow> still_open as {} = {}
    | BootFatal m \<Rightarrow> (\<exists>cache cleanup. openCache bt cfg = (Inr (cache, True, cleanup), as)
        \<and> still_open as {} = {ResDB} \<union> (case cache of UseRedisCache c \<Rightarrow> {ResRedis} | _ \<Rightarrow> {}))
    | Booted w cleanup \<Rightarrow> still_open as {} = used_resources w \<and> still_open (run_cleanup cleanup) (still_open as {}) = {}"
proof (cases "openCache bt cfg")
  case (Pair r cs)
  note res = open_cache_resources [OF Pair]
  show ?thesis
  proof (cases r)
    case (Inl e)
    then show ?thesis using assms Pair res by (auto simp: buildServices_def)
  next
    case (Inr x)
    obtain cache db cleanup where x: "x = (cache, db, cleanup)" by (metis prod_cases3)
    note res = res [unfolded Inr x, simplified]
    show ?thesis
    proof (cases "chooseProvider pd (bt_env bt) cfg")
      case None
      have "Getenv (bt_env bt) ''DEV_MODE'' \<noteq> ''1''" using None by (auto simp: chooseProvider_def split: option.splits if_splits)
      then have "db" using Pair Inr x by (auto simp: openCache_def split: if_splits prod.splits option.splits sum.splits)
      then show ?thesis using assms Pair Inr x res None by (auto simp: buildServices_def)
    next
      case (Some p)
      let ?busURL = "Getenv (bt_env bt) ''AUDIT_EVENT_BUS_URL''"
      consider (bad) e where "buildAuditSink (bt_env bt) db = (Inl e, [])"
        | (db_sink) "buildAuditSink (bt_env bt) db = (Inr (UseDBSink, None), [])"
        | (mem_sink) "buildAuditSink (bt_env bt) db = (Inr (UseMemorySink, Some []), [])"
        | (kafka) k where "buildAuditSink (bt_env bt) db = (Inr (UseKafkaSink k, Some [Closed ResKafka]), [Opened ResKafka])"
        using audit_sink_cases [of "bt_env bt" db] by blast
      then show ?thesis
      proof cases
        case bad
        then show ?thesis using assms Pair Inr x Some res by (auto simp: buildServices_def Let_def split: option.splits)
      next
        case db_sink
        then show ?thesis using assms Pair Inr x Some res
          by (auto simp: buildServices_def Let_def used_resources_def)
      next
        case mem_sink
        then show ?thesis using assms Pair Inr x Some res
          by (auto simp: buildServices_def Let_def used_resources_def)
      next
        case (kafka k)
        have "still_open (cs @ [Opened ResKafka]) {} = still_open cs {} \<union> {ResKafka}" by simp
        moreover have "still_open (run_cleanup cleanup) (still_open cs {} \<union> {ResKafka}) = {ResKafka}"
          using res by blast
        ultimately show ?thesis using assms Pair Inr x Some res kafka
          by (auto simp: buildServices_def Let_def used_resources_def)
      qed
    qed
  qed
qed


text \<open>
  C17: What boot holds.  Whatever the environment and wherever the database, Redis or the audit bus fail: a
  service whose boot returns an error has closed all it opened; one that boots holds exactly the database, Redis
  client and Kafka writer it uses, and its cleanup closes them all.  A boot that ends in \<open>log.Fatalf\<close>, for want
  of a provider in production, leaves open what \<open>openCache\<close> opened: always the database, and the Redis client
  if there is one.
\<close>

theorem boot_releases_resources:
  assumes "buildServices pd ul bt cfg = (b, as)"
  shows "case b of
      BootError e \<Rightarrow> still_open as {} = {}
    | BootFatal m \<Rightarrow> (\<exists>cache cleanup. openCache bt cfg = (Inr (cache, True, cleanup), as)
        \<and> still_open as {} = {ResDB} \<union> (case cache of UseRedisCache c \<Rightarrow> {ResRedis} | _ \<Rightarrow> {}))
    | Booted w cleanup \<Rightarrow> still_open as {} = used_resources w \<and> still_open (run_cleanup cleanup) (still_open as {}) = {}"
  by (rule build_resources [OF assms])

lemma booted_parts:
  assumes "buildServices pd ul bt cfg = (Booted w cleanup, as)"
  obtains cs where "openCache bt cfg = (Inr (wi_cache w, wi_db w, cs), snd (openCache bt cfg))"
    and "chooseProvider pd (bt_env bt) cfg = Some (wi_provider w)"
    and "\<exists>ds bs. buildAuditSink (bt_env bt) (wi_db w) = (Inr (wi_sink w, ds), bs)
           \<and> cleanup = (case ds of None \<Rightarrow> cs | Some ds \<Rightarrow> Some (run_cleanup cs @ ds))
           \<and> as = snd (openCache bt cfg) @ bs"
    and "wi_secrets w = webhook_secrets (bt_env bt)"
proof -
  obtain r as1 where o: "openCache bt cfg = (r, as1)" by fastforce
  obtain cache db cs where r: "r = Inr (cache, db, cs)"
    using assms o by (cases r) (auto simp: buildServices_def)
  obtain p where p: "chooseProvider pd (bt_env bt) cfg = Some p"
    using assms o r by (cases "chooseProvider pd (bt_env bt) cfg") (auto simp: buildServices_def)
  obtain q bs where q: "buildAuditSink (bt_env bt) db = (q, bs)" by fastforce
  obtain sink ds where sink: "q = Inr (sink, ds)"
    using assms o r p q by (cases q) (auto simp: buildServices_def Let_def)
  have w: "w = \<lparr>wi_cache = cache, wi_db = db, wi_provider = p, wi_thresholds = DefaultThresholds ul (bt_env bt),
      wi_sink = sink, wi_emitter = NewEmitter 1024, wi_secrets = webhook_secrets (bt_env bt)\<rparr>"
    "cleanup = (case ds of None \<Rightarrow> cs | Some ds \<Rightarrow> Some (run_cleanup cs @ ds))" "as = as1 @ bs"
    using assms o r p q sink by (simp_all add: buildServices_def Let_def)
  show ?thesis by (rule that [of cs]) (use o r p q sink w in simp_all)
qed


lemma booted_opens:
  assumes "buildServices pd ul bt cfg = (Booted w cleanup, as)"
  shows "Closed r \<notin> set as"
proof -
  obtain cs ds bs where parts: "openCache bt cfg = (Inr (wi_cache w, wi_db w, cs), snd (openCache bt cfg))"
    "buildAuditSink (bt_env bt) (wi_db w) = (Inr (wi_sink w, ds), bs)" "as = snd (openCache bt cfg) @ bs"
    using booted_parts [OF assms] by metis
  have "Closed r \<notin> set bs" using audit_sink_cases [of "bt_env bt" "wi_db w"] parts(2) by auto
  moreover have "snd (openCache bt cfg) \<in> {[], [Opened ResDB], [Opened ResDB, Opened ResRedis]}"
    using parts(1)
    by (auto simp: openCache_def store_Open_def store_NewCache_def split: if_splits option.splits)
  ultimately show ?thesis using parts(3) by auto
qed

text \<open>A machine on which everything works, with the given environment.\<close>

definition healthy :: "environ \<Rightarrow> Boot" where
  "healthy env = \<lparr>bt_env = env, bt_sql_open = (\<lambda>_. None), bt_db_ping = None, bt_migrate = None,
     bt_parse_redis = (\<lambda>_. None), bt_redis_ping = None\<rparr>"

definition demo_cfg :: Config where
  "demo_cfg = \<lparr>cf_DBURL = ''postgres://db'', cf_RedisURL = '''', cf_CacheTTL = 3600 * second,
     cf_SanctionedCacheTTL = 604800 * second, cf_MaxOpenConns = 25, cf_MaxIdleConns = 5,
     cf_ConnMaxLifetime = 300 * second, cf_VendorTimeout = 800 * millisecond, cf_CircuitBreakerThreshold = 5\<rparr>"

definition demo_env :: environ where
  "demo_env = [''KYT_PROVIDER_URL=http://kyt'']"

lemma Getenv_demo: "Getenv demo_env ''KYT_PROVIDER_URL'' = ''http://kyt''" "Getenv demo_env ''DEV_MODE'' = ''''"
  "Getenv demo_env ''CHAINALYSIS_API_KEY'' = ''''" "Getenv demo_env ''TRM_API_KEY'' = ''''"
  "Getenv demo_env ''AUDIT_EVENT_BUS_URL'' = ''''" "Getenv demo_env ''TRM_WEBHOOK_SECRET'' = ''''"
  by (simp_all add: Getenv_def demo_env_def)

definition demo_boot :: "boot_result \<times> action list" where
  "demo_boot = buildServices (\<lambda>_. None) (\<lambda>s. s) (healthy demo_env) demo_cfg"

lemma demo_booted: "\<exists>w cleanup as. demo_boot = (Booted w cleanup, as)"
proof -
  have "openCache (healthy demo_env) demo_cfg = (Inr (UsePGCache (NewPGCache (3600 * second) (604800 * second)), True,
      Some [Closed ResDB, Closed ResDB]), [Opened ResDB])"
    by (simp add: openCache_def demo_cfg_def store_Open_def store_NewCache_def healthy_def)
  moreover have "chooseProvider (\<lambda>_. None) demo_env demo_cfg = Some (UseMock (NewMockProvider ''mock''))"
    by (simp add: chooseProvider_def buildProvider_def DefaultConfig_def Getenv_demo Let_def)
  moreover have "buildAuditSink demo_env True = (Inr (UseDBSink, None), [])"
    by (simp add: buildAuditSink_def Getenv_demo NewSink_def)
  ultimately show ?thesis
    by (simp add: demo_boot_def buildServices_def healthy_def Let_def)
qed

text \<open>The same machine without a provider.\<close>

definition fatal_boot :: "boot_result \<times> action list" where
  "fatal_boot = buildServices (\<lambda>_. None) (\<lambda>s. s) (healthy []) demo_cfg"

lemma fatal_booted: "fatal_boot = (BootFatal no_provider_text, [Opened ResDB])"
proof -
  have "openCache (healthy []) demo_cfg = (Inr (UsePGCache (NewPGCache (3600 * second) (604800 * second)), True,
      Some [Closed ResDB, Closed ResDB]), [Opened ResDB])"
    by (simp add: openCache_def demo_cfg_def store_Open_def store_NewCache_def healthy_def)
  moreover have "chooseProvider (\<lambda>_. None) [] demo_cfg = None"
    by (simp add: chooseProvider_def buildProvider_def DefaultConfig_def Getenv_def Let_def)
  ultimately show ?thesis by (simp add: fatal_boot_def buildServices_def healthy_def)
qed

theorem boot_releases_resources_witness:
  "(\<exists>w cleanup as. demo_boot = (Booted w cleanup, as) \<and> still_open (run_cleanup cleanup) (still_open as {}) = {})
   \<and> ResDB \<in> still_open (snd fatal_boot) {}"
proof
  show "\<exists>w cleanup as. demo_boot = (Booted w cleanup, as) \<and> still_open (run_cleanup cleanup) (still_open as {}) = {}"
    using demo_booted boot_releases_resources [of "\<lambda>_. None" "\<lambda>s. s" "healthy demo_env" demo_cfg]
    by (fastforce simp: demo_boot_def)
  show "ResDB \<in> still_open (snd fatal_boot) {}"
    using boot_releases_resources [OF fatal_booted [unfolded fatal_boot_def]] by (auto simp: fatal_booted)
qed

text \<open>
  C18: Which vendor answers.  A service that boots calls Chainalysis when its key is set, else TRM when that key
  is set, in both cases through the breaker and the response store; without a key it answers from the mock
  provider, which happens in production as soon as \<open>KYT_PROVIDER_URL\<close> is set to anything.
\<close>

theorem provider_selection:
  assumes "buildServices pd ul bt cfg = (Booted w cleanup, as)"
  shows "(Getenv (bt_env bt) ''CHAINALYSIS_API_KEY'' \<noteq> '''' \<longrightarrow>
      (\<exists>hp t b. wi_provider w = UseIdempotentHTTP hp t b NewMemoryResponseStore \<and> hp_name hp = ''chainalysis''
        \<and> hp_apiKey hp = Getenv (bt_env bt) ''CHAINALYSIS_API_KEY''))
    \<and> (Getenv (bt_env bt) ''CHAINALYSIS_API_KEY'' = '''' \<and> Getenv (bt_env bt) ''TRM_API_KEY'' \<noteq> '''' \<longrightarrow>
      (\<exists>hp t b. wi_provider w = UseIdempotentHTTP hp t b NewMemoryResponseStore \<and> hp_name hp = ''trm''
        \<and> hp_apiKey hp = Getenv (bt_env bt) ''TRM_API_KEY''))
    \<and> (Getenv (bt_env bt) ''CHAINALYSIS_API_KEY'' = '''' \<and> Getenv (bt_env bt) ''TRM_API_KEY'' = '''' \<longrightarrow>
      wi_provider w = UseMock (NewMockProvider ''mock'')
      \<and> (Getenv (bt_env bt) ''DEV_MODE'' = ''1'' \<or> Getenv (bt_env bt) ''KYT_PROVIDER_URL'' \<noteq> ''''))"
proof -
  have c: "chooseProvider pd (bt_env bt) cfg = Some (wi_provider w)"
    using booted_parts [OF assms] by metis
  define key where "key = Getenv (bt_env bt) ''CHAINALYSIS_API_KEY''"
  define trm where "trm = Getenv (bt_env bt) ''TRM_API_KEY''"
  let ?v = "let vcfg = DefaultConfig pd (bt_env bt);
      vcfg1 = (if cf_VendorTimeout cfg > 0 then vcfg\<lparr>VendorTimeout := cf_VendorTimeout cfg\<rparr> else vcfg)
    in (if cf_CircuitBreakerThreshold cfg > 0
      then vcfg1\<lparr>CircuitBreakerThreshold := cf_CircuitBreakerThreshold cfg\<rparr> else vcfg1)"
  have keys: "ChainalysisAPIKey ?v = key" "TRMAPIKey ?v = trm"
    by (simp_all add: Let_def DefaultConfig_def key_def trm_def)
  consider (chain) "key \<noteq> ''''" | (trm) "key = ''''" "trm \<noteq> ''''" | (none) "key = ''''" "trm = ''''" by blast
  then show ?thesis
  proof cases
    case chain
    then obtain hp t where "buildProvider pd (bt_env bt) cfg = Some (hp, t)" "hp_name hp = ''chainalysis''" "hp_apiKey hp = key"
      using keys by (simp add: buildProvider_def Let_def)
    moreover from this(1) have "wi_provider w = UseIdempotentHTTP hp t
        (NewCircuitBreaker (cf_CircuitBreakerThreshold cfg) (60 * second)) NewMemoryResponseStore"
      using c by (simp add: chooseProvider_def Let_def)
    ultimately show ?thesis using chain by (simp add: key_def)
  next
    case trm
    then obtain hp t where "buildProvider pd (bt_env bt) cfg = Some (hp, t)" "hp_name hp = ''trm''" "hp_apiKey hp = trm"
      using keys by (simp add: buildProvider_def Let_def)
    moreover from this(1) have "wi_provider w = UseIdempotentHTTP hp t
        (NewCircuitBreaker (cf_CircuitBreakerThreshold cfg) (60 * second)) NewMemoryResponseStore"
      using c by (simp add: chooseProvider_def Let_def)
    ultimately show ?thesis using trm by (simp add: key_def trm_def)
  next
    case none
    then have "buildProvider pd (bt_env bt) cfg = None" using keys by (simp add: buildProvider_def Let_def)
    then show ?thesis using c none by (auto simp: chooseProvider_def Let_def key_def trm_def split: if_splits)
  qed
qed

theorem provider_selection_witness:
  "\<exists>w cleanup as. demo_boot = (Booted w cleanup, as) \<and> Getenv demo_env ''DEV_MODE'' \<noteq> ''1''
     \<and> wi_provider w = UseMock (NewMockProvider ''mock'')"
  using demo_booted provider_selection [of "\<lambda>_. None" "\<lambda>s. s" "healthy demo_env" demo_cfg]
  by (fastforce simp: demo_boot_def healthy_def Getenv_demo)

text \<open>
  Production persists.  Outside development mode a service that boots keeps its screens and alerts in the
  database, caches in Redis or the database, and, unless an event bus is configured, writes its audit
  events to the database.
\<close>

theorem production_persists:
  assumes "buildServices pd ul bt cfg = (Booted w cleanup, as)" and "Getenv (bt_env bt) ''DEV_MODE'' \<noteq> ''1''"
  shows "wi_db w
    \<and> (if cf_RedisURL cfg = '''' then wi_cache w = UsePGCache (NewPGCache (cf_CacheTTL cfg) (cf_SanctionedCacheTTL cfg))
       else wi_cache w = UseRedisCache (NewRedisCache (cf_CacheTTL cfg) (cf_SanctionedCacheTTL cfg)))
    \<and> (Getenv (bt_env bt) ''AUDIT_EVENT_BUS_URL'' = '''' \<longrightarrow> wi_sink w = UseDBSink)"
proof -
  obtain cs ds bs where parts: "openCache bt cfg = (Inr (wi_cache w, wi_db w, cs), snd (openCache bt cfg))"
    "buildAuditSink (bt_env bt) (wi_db w) = (Inr (wi_sink w, ds), bs)"
    using booted_parts [OF assms(1)] by metis
  have cache: "wi_db w \<and> (\<exists>as. store_NewCache bt cfg = (Inr (wi_cache w), as))"
    using parts(1) assms(2)
    by (auto simp: openCache_def split: if_splits prod.splits option.splits sum.splits)
  then have "if cf_RedisURL cfg = '''' then wi_cache w = UsePGCache (NewPGCache (cf_CacheTTL cfg) (cf_SanctionedCacheTTL cfg))
       else wi_cache w = UseRedisCache (NewRedisCache (cf_CacheTTL cfg) (cf_SanctionedCacheTTL cfg))"
    by (auto simp: store_NewCache_def split: if_splits option.splits)
  moreover have "wi_sink w = UseDBSink" if "Getenv (bt_env bt) ''AUDIT_EVENT_BUS_URL'' = ''''"
    using parts(2) cache that by (simp add: buildAuditSink_def NewSink_def)
  ultimately show ?thesis using cache by blast
qed

theorem production_persists_witness:
  "\<exists>w cleanup as. demo_boot = (Booted w cleanup, as) \<and> wi_db w \<and> wi_sink w = UseDBSink"
  using demo_booted production_persists [of "\<lambda>_. None" "\<lambda>s. s" "healthy demo_env" demo_cfg]
  by (fastforce simp: demo_boot_def healthy_def Getenv_demo)



text \<open>
  C19: The order of shutdown.  However the servers end, they are stopped before anything is closed; the cleanup
  then closes the database before the audit emitter is closed, so events still queued for the table find no
  database; the tracer goes last.
\<close>

theorem shutdown_order:
  assumes "buildServices pd ul bt (LoadConfig (bt_env bt)) = (Booted w cleanup, as)" and "wi_db w"
    and "run pd ul None bt fin = (r, ls)"
  shows "\<exists>xs ys. ls = xs @ [GrpcStopped, RestShutdown] @ ys @ [AuditClosed, TracerShutdown]
    \<and> Act (Closed ResDB) \<in> set ys \<and> Act (Closed ResDB) \<notin> set xs \<and> AuditClosed \<notin> set xs \<union> set ys"
proof -
  let ?cfg = "LoadConfig (bt_env bt)"
  obtain cs ds where parts: "openCache bt ?cfg = (Inr (wi_cache w, wi_db w, cs), snd (openCache bt ?cfg))"
    "cleanup = (case ds of None \<Rightarrow> cs | Some ds \<Rightarrow> Some (run_cleanup cs @ ds))"
    using booted_parts [OF assms(1)] by metis
  have cs: "Closed ResDB \<in> set (run_cleanup cs)"
    using parts(1) assms(2)
    by (auto simp: openCache_def split: if_splits prod.splits option.splits sum.splits)
  then have closes: "Closed ResDB \<in> set (run_cleanup cleanup)"
    using parts(2) by (auto split: option.splits)
  have keeps: "Closed ResDB \<notin> set as"
    using booted_opens [OF assms(1)] .
  obtain p q where "ls = (TracerInstalled # map Act as @ [RestListen p, GrpcListen q]) @ [GrpcStopped, RestShutdown]
      @ map Act (run_cleanup cleanup) @ [AuditClosed, TracerShutdown]"
    using assms(1,3) by (auto simp: run_def Let_def split: option.splits)
  then show ?thesis using closes keeps
    by (intro exI [of _ "TracerInstalled # map Act as @ [RestListen p, GrpcListen q]"]
        exI [of _ "map Act (run_cleanup cleanup)"]) auto
qed


definition demo_db_env :: environ where
  "demo_db_env = [''DB_URL=postgres://db'', ''DEV_MODE=1'']"

theorem shutdown_order_witness:
  "\<exists>r ls xs ys. run (\<lambda>_. None) (\<lambda>s. s) None (healthy demo_db_env) (Cancelled None) = (r, ls)
     \<and> ls = xs @ [GrpcStopped, RestShutdown] @ ys @ [AuditClosed, TracerShutdown] \<and> Act (Closed ResDB) \<in> set ys"
proof -
  let ?cfg = "LoadConfig (bt_env (healthy demo_db_env))"
  have env: "Getenv demo_db_env ''DB_URL'' = ''postgres://db''" "Getenv demo_db_env ''REDIS_URL'' = ''''"
    "Getenv demo_db_env ''CHAINALYSIS_API_KEY'' = ''''" "Getenv demo_db_env ''TRM_API_KEY'' = ''''"
    "Getenv demo_db_env ''DEV_MODE'' = ''1''" "Getenv demo_db_env ''AUDIT_EVENT_BUS_URL'' = ''''"
    by (simp_all add: Getenv_def demo_db_env_def)
  have "\<exists>c cs. openCache (healthy demo_db_env) ?cfg = (Inr (c, True, Some cs), [Opened ResDB])"
    by (simp add: openCache_def LoadConfig_def env store_Open_def store_NewCache_def healthy_def)
  moreover have "chooseProvider (\<lambda>_. None) demo_db_env ?cfg = Some (UseMock (NewMockProvider ''mock''))"
    by (simp add: chooseProvider_def buildProvider_def DefaultConfig_def env Let_def)
  moreover have "buildAuditSink demo_db_env True = (Inr (UseDBSink, None), [])"
    by (simp add: buildAuditSink_def env NewSink_def)
  ultimately obtain w cleanup as where
    "buildServices (\<lambda>_. None) (\<lambda>s. s) (healthy demo_db_env) ?cfg = (Booted w cleanup, as)" "wi_db w"
    by (auto simp: buildServices_def healthy_def Let_def)
  moreover obtain r ls where "run (\<lambda>_. None) (\<lambda>s. s) None (healthy demo_db_env) (Cancelled None) = (r, ls)"
    by (rule prod.exhaust)
  ultimately show ?thesis using shutdown_order [of "\<lambda>_. None" "\<lambda>s. s" "healthy demo_db_env" w cleanup as "Cancelled None" r ls]
    by metis
qed


text \<open>
  The process ends without a message exactly when the service booted and was cancelled and shut down without
  an error; then the tracer has been shut down last.
\<close>

lemma clean_exit:
  assumes "kyt_main pd ul install bt fin = (None, evs)"
  shows "install = None \<and> fin = Cancelled None \<and> evs \<noteq> [] \<and> last evs = TracerShutdown
    \<and> (\<exists>w cleanup as. buildServices pd ul bt (LoadConfig (bt_env bt)) = (Booted w cleanup, as))"
proof -
  have r: "run pd ul install bt fin = (None, evs)"
    using assms by (auto simp: kyt_main_def split: prod.splits option.splits if_splits)
  then have i: "install = None" by (simp add: run_def split: option.splits)
  obtain b as where b: "buildServices pd ul bt (LoadConfig (bt_env bt)) = (b, as)" by fastforce
  show ?thesis
    by (cases b) (use r i b in \<open>auto simp: run_def Let_def split: ending.splits\<close>)
qed

end
