(* ===== verification/Migrate.thy ===== *)
theory Migrate
  imports Store_Config
begin

text \<open>
  \<open>internal/store/migrate.go\<close> and \<open>cmd/migrate/main.go\<close>: the embedded migrations and how they are applied
  and reverted.  The embedded files are a parameter of \<open>LoadMigrations\<close>, the connection and its transactions
  one of \<open>Migrate\<close> and \<open>MigrateDown\<close>.
\<close>

section \<open>Loading\<close>

record Migration =
  mg_Version :: int
  mg_Up :: string
  mg_Down :: string

record DirEntry =
  de_Name :: string
  de_IsDir :: bool
  de_Body :: "go_error + string"

text \<open>\<open>fmt.Sscanf(name, "%d_%s", &version, &kind)\<close>, of which only the version is used.\<close>

definition int_token :: "string \<Rightarrow> string" where
  "int_token s =
     (case s of
        [] \<Rightarrow> []
      | c # r \<Rightarrow> if c = CHR ''-'' \<or> c = CHR ''+'' then c # scan_digits r else scan_digits (c # r))"

definition Sscanf_name :: "string \<Rightarrow> int option" where
  "Sscanf_name name =
     (case skip_space name of
        None \<Rightarrow> None
      | Some s \<Rightarrow>
          (case scan_int s of
             None \<Rightarrow> None
           | Some version \<Rightarrow>
               (case drop (length (int_token s)) s of
                  [] \<Rightarrow> None
                | c # rest \<Rightarrow>
                    if c \<noteq> CHR ''_'' then None
                    else (case skip_space rest of None \<Rightarrow> None | Some [] \<Rightarrow> None | Some kind \<Rightarrow> Some version))))"

definition name_error :: go_error where
  "name_error = ErrText ''input does not match format''"

text \<open>One turn of the loop over the directory.\<close>

definition load_entry :: "DirEntry \<Rightarrow> (int \<times> Migration) list \<Rightarrow> go_error + (int \<times> Migration) list" where
  "load_entry e byVersion =
     (if de_IsDir e then Inr byVersion
      else
        (let name = de_Name e in
         case de_Body e of
           Inl err \<Rightarrow> Inl (Wrap (''read migration '' @ name) err)
         | Inr body \<Rightarrow>
             (case Sscanf_name name of
                None \<Rightarrow> Inl (Wrap (''parse migration name '' @ name) name_error)
              | Some version \<Rightarrow>
                  (let m = (case map_of byVersion version of
                              Some m \<Rightarrow> m | None \<Rightarrow> \<lparr>mg_Version = version, mg_Up = '''', mg_Down = ''''\<rparr>);
                       m1 = (if HasSuffix name ''.up.sql'' then m\<lparr>mg_Up := body\<rparr>
                             else if HasSuffix name ''.down.sql'' then m\<lparr>mg_Down := body\<rparr> else m)
                   in Inr (AList.update version m1 byVersion)))))"

fun load_entries :: "DirEntry list \<Rightarrow> (int \<times> Migration) list \<Rightarrow> go_error + (int \<times> Migration) list" where
  "load_entries [] byVersion = Inr byVersion"
| "load_entries (e # es) byVersion =
     (case load_entry e byVersion of Inl err \<Rightarrow> Inl err | Inr m \<Rightarrow> load_entries es m)"

text \<open>\<open>ord\<close> is the order in which the map is ranged over.\<close>

definition LoadMigrations ::
    "((int \<times> Migration) list \<Rightarrow> (int \<times> Migration) list) \<Rightarrow> go_error + DirEntry list \<Rightarrow> go_error + Migration list" where
  "LoadMigrations ord dir =
     (case dir of
        Inl err \<Rightarrow> Inl (Wrap ''read migrations dir'' err)
      | Inr entries \<Rightarrow>
          (case load_entries entries [] of
             Inl err \<Rightarrow> Inl err
           | Inr byVersion \<Rightarrow>
               (let ms = map snd (ord byVersion) in
                case find (\<lambda>m. mg_Up m = '''') ms of
                  Some m \<Rightarrow> Inl (ErrText (''migration '' @ Itoa (mg_Version m) @ '' missing up script''))
                | None \<Rightarrow> Inr (sort_key mg_Version ms))))"

section \<open>Applying\<close>

text \<open>
  The connection: the \<open>CREATE TABLE IF NOT EXISTS schema_migrations\<close>, the two lookups in that table, and
  transactions, whose working state is of type \<open>'t\<close>: a script, the \<open>INSERT\<close> or \<open>DELETE\<close> of a version,
  \<open>Commit\<close> and \<open>Rollback\<close>.
\<close>

record ('d, 't) MigDB =
  md_ensure :: "'d \<Rightarrow> go_error option \<times> 'd"
  md_applied :: "'d \<Rightarrow> int \<Rightarrow> go_error option"
  md_latest :: "'d \<Rightarrow> go_error + int"
  md_begin :: "'d \<Rightarrow> go_error + 't"
  md_script :: "'t \<Rightarrow> string \<Rightarrow> go_error option \<times> 't"
  md_insert :: "'t \<Rightarrow> int \<Rightarrow> go_error option \<times> 't"
  md_delete :: "'t \<Rightarrow> int \<Rightarrow> go_error option \<times> 't"
  md_commit :: "'d \<Rightarrow> 't \<Rightarrow> go_error option \<times> 'd"
  md_rollback :: "'d \<Rightarrow> 't \<Rightarrow> 'd"

text \<open>A transaction of the two functions: a script, then a change of \<open>schema_migrations\<close>.\<close>

definition in_tx ::
    "('d, 't) MigDB \<Rightarrow> 'd \<Rightarrow> string \<Rightarrow> ('t \<Rightarrow> go_error option \<times> 't) \<Rightarrow> string \<Rightarrow> string \<Rightarrow> string \<Rightarrow> string
     \<Rightarrow> go_error option \<times> 'd" where
  "in_tx db d script change begin_txt script_txt change_txt commit_txt =
     (case md_begin db d of
        Inl err \<Rightarrow> (Some (Wrap begin_txt err), d)
      | Inr t \<Rightarrow>
          (case md_script db t script of
             (Some err, t1) \<Rightarrow> (Some (Wrap script_txt err), md_rollback db d t1)
           | (None, t1) \<Rightarrow>
               (case change t1 of
                  (Some err, t2) \<Rightarrow> (Some (Wrap change_txt err), md_rollback db d t2)
                | (None, t2) \<Rightarrow>
                    (case md_commit db d t2 of
                       (Some err, d1) \<Rightarrow> (Some (Wrap commit_txt err), d1)
                     | (None, d1) \<Rightarrow> (None, d1)))))"

definition apply_up :: "('d, 't) MigDB \<Rightarrow> 'd \<Rightarrow> Migration \<Rightarrow> go_error option \<times> 'd" where
  "apply_up db d m =
     (let v = Itoa (mg_Version m) in
      in_tx db d (mg_Up m) (\<lambda>t. md_insert db t (mg_Version m))
        (''begin tx for migration '' @ v) (''apply migration '' @ v @ '' up'')
        (''record migration '' @ v) (''commit migration '' @ v))"

fun migrate_loop :: "('d, 't) MigDB \<Rightarrow> Migration list \<Rightarrow> 'd \<Rightarrow> go_error option \<times> 'd" where
  "migrate_loop db [] d = (None, d)"
| "migrate_loop db (m # ms) d =
     (case md_applied db d (mg_Version m) of
        None \<Rightarrow> migrate_loop db ms d
      | Some err \<Rightarrow>
          if err \<noteq> ErrNoRows then (Some (Wrap (''check migration '' @ Itoa (mg_Version m)) err), d)
          else (case apply_up db d m of
                  (Some e, d1) \<Rightarrow> (Some e, d1)
                | (None, d1) \<Rightarrow> migrate_loop db ms d1))"

definition Migrate :: "('d, 't) MigDB \<Rightarrow> go_error + Migration list \<Rightarrow> 'd \<Rightarrow> go_error option \<times> 'd" where
  "Migrate db loaded d =
     (case md_ensure db d of
        (Some err, d1) \<Rightarrow> (Some (Wrap ''ensure schema_migrations'' err), d1)
      | (None, d1) \<Rightarrow>
          (case loaded of Inl err \<Rightarrow> (Some err, d1) | Inr migrations \<Rightarrow> migrate_loop db migrations d1))"

definition MigrateDown :: "('d, 't) MigDB \<Rightarrow> go_error + Migration list \<Rightarrow> 'd \<Rightarrow> go_error option \<times> 'd" where
  "MigrateDown db loaded d =
     (case md_ensure db d of
        (Some err, d1) \<Rightarrow> (Some (Wrap ''ensure schema_migrations'' err), d1)
      | (None, d1) \<Rightarrow>
          (case md_latest db d1 of
             Inl err \<Rightarrow> if err = ErrNoRows then (None, d1) else (Some (Wrap ''find latest migration'' err), d1)
           | Inr version \<Rightarrow>
               (case loaded of
                  Inl err \<Rightarrow> (Some err, d1)
                | Inr migrations \<Rightarrow>
                    (let down = (case find (\<lambda>m. mg_Version m = version) migrations of Some m \<Rightarrow> mg_Down m | None \<Rightarrow> '''');
                         v = Itoa version
                     in if down = '''' then (Some (ErrText (''no down script for migration '' @ v)), d1)
                        else in_tx db d1 down (\<lambda>t. md_delete db t version)
                               (''begin tx for migration '' @ v @ '' down'') (''revert migration '' @ v @ '' down'')
                               (''delete migration '' @ v @ '' record'') (''commit migration '' @ v @ '' down'')))))"

text \<open>
  The command: its exit code.  \<open>connect\<close> is \<open>sql.Open\<close> and the \<open>Ping\<close>.
\<close>

definition migrate_main ::
    "('d, 't) MigDB \<Rightarrow> go_error + Migration list \<Rightarrow> bool \<Rightarrow> bool \<Rightarrow> environ \<Rightarrow> (string \<Rightarrow> go_error + 'd)
     \<Rightarrow> nat \<times> 'd option" where
  "migrate_main db loaded up down env connect =
     (if \<not> up \<and> \<not> down then (2, None)
      else
        (let dsn = Getenv env ''DB_URL'' in
         if dsn = '''' then (1, None)
         else
           (case connect dsn of
              Inl err \<Rightarrow> (1, None)
            | Inr d \<Rightarrow>
                if up then
                  (case Migrate db loaded d of (Some err, d1) \<Rightarrow> (1, Some d1) | (None, d1) \<Rightarrow> (0, Some d1))
                else
                  (case MigrateDown db loaded d of (Some err, d1) \<Rightarrow> (1, Some d1) | (None, d1) \<Rightarrow> (0, Some d1)))))"


section \<open>The contract of the connection\<close>

text \<open>
  \<open>versions\<close> is what \<open>schema_migrations\<close> records, \<open>effects\<close> the scripts that have taken effect, in order;
  both exist for the database and for the working state of a transaction.  A statement that fails changes
  nothing, a transaction starts from the database and becomes it when it commits.
\<close>

locale migration_db =
  fixes db :: "('d, 't) MigDB"
    and versions :: "'d \<Rightarrow> int set" and effects :: "'d \<Rightarrow> string list"
    and tversions :: "'t \<Rightarrow> int set" and teffects :: "'t \<Rightarrow> string list"
  assumes ensure: "md_ensure db d = (r, d') \<Longrightarrow> versions d' = versions d \<and> effects d' = effects d"
    and applied: "md_applied db d v = None \<Longrightarrow> v \<in> versions d"
    and not_applied: "md_applied db d v = Some ErrNoRows \<Longrightarrow> v \<notin> versions d"
    and latest: "md_latest db d = Inr v \<Longrightarrow> v \<in> versions d \<and> (\<forall>u \<in> versions d. u \<le> v)"
    and none_latest: "md_latest db d = Inl ErrNoRows \<Longrightarrow> versions d = {}"
    and begin_tx: "md_begin db d = Inr t \<Longrightarrow> tversions t = versions d \<and> teffects t = effects d"
    and script_done: "md_script db t s = (None, t') \<Longrightarrow> tversions t' = tversions t \<and> teffects t' = teffects t @ [s]"
    and insert_done: "md_insert db t v = (None, t') \<Longrightarrow> tversions t' = insert v (tversions t) \<and> teffects t' = teffects t"
    and delete_done: "md_delete db t v = (None, t') \<Longrightarrow> tversions t' = tversions t - {v} \<and> teffects t' = teffects t"
    and committed: "md_commit db d t = (None, d') \<Longrightarrow> versions d' = tversions t \<and> effects d' = teffects t"
    and not_committed: "md_commit db d t = (Some e, d') \<Longrightarrow> versions d' = versions d \<and> effects d' = effects d"
    and rolled_back: "versions (md_rollback db d t) = versions d \<and> effects (md_rollback db d t) = effects d"
begin

text \<open>All or nothing.\<close>

lemma tx_outcome:
  assumes "in_tx db d script change a b c e = (r, d')"
    and "\<And>t t'. change t = (None, t') \<Longrightarrow> tversions t' = f (tversions t) \<and> teffects t' = teffects t"
  shows "(r = None \<longrightarrow> versions d' = f (versions d) \<and> effects d' = effects d @ [script])
    \<and> (r \<noteq> None \<longrightarrow> versions d' = versions d \<and> effects d' = effects d)"
proof (cases "md_begin db d")
  case (Inl err)
  then show ?thesis using assms(1) by (auto simp: in_tx_def)
next
  case (Inr t)
  obtain r1 t1 where s: "md_script db t script = (r1, t1)" by fastforce
  obtain r2 t2 where ch: "change t1 = (r2, t2)" by fastforce
  obtain r3 d3 where co: "md_commit db d t2 = (r3, d3)" by fastforce
  show ?thesis
  proof (cases "r1 = None \<and> r2 = None")
    case True
    then have t2: "tversions t2 = f (versions d)" "teffects t2 = effects d @ [script]"
      using begin_tx [OF Inr] script_done [of t script t1] assms(2) [of t1 t2] s ch by simp_all
    show ?thesis
    proof (cases r3)
      case None
      then have "r = None" "d' = d3" using assms(1) Inr s ch co True by (simp_all add: in_tx_def)
      then show ?thesis using committed [of d t2 d3] co None t2 by simp
    next
      case (Some e)
      then have "r \<noteq> None" "d' = d3" using assms(1) Inr s ch co True by (auto simp: in_tx_def)
      then show ?thesis using not_committed [of d t2 e d3] co Some by simp
    qed
  next
    case False
    then have "r \<noteq> None" "d' = md_rollback db d t1 \<or> d' = md_rollback db d t2"
      using assms(1) Inr s ch by (auto simp: in_tx_def split: option.splits)
    then show ?thesis using rolled_back by auto
  qed
qed

lemma loop_outcome:
  assumes "migrate_loop db ms d = (r, d')" and "distinct (map mg_Version ms)"
  shows "\<exists>k. versions d' = versions d \<union> mg_Version ` set (take k (filter (\<lambda>m. mg_Version m \<notin> versions d) ms))
    \<and> effects d' = effects d @ map mg_Up (take k (filter (\<lambda>m. mg_Version m \<notin> versions d) ms))
    \<and> (r = None \<longrightarrow> length ms \<le> k)"
  using assms
proof (induction ms arbitrary: d)
  case Nil
  then show ?case by simp
next
  case (Cons m ms)
  let ?p = "\<lambda>d ms. filter (\<lambda>m. mg_Version m \<notin> versions d) ms"
  have stop: ?case if "versions d' = versions d" "effects d' = effects d" "r \<noteq> None"
    using that by (intro exI [of _ 0]) simp
  show ?case
  proof (cases "md_applied db d (mg_Version m)")
    case None
    then have "mg_Version m \<in> versions d" by (rule applied)
    moreover obtain k where "versions d' = versions d \<union> mg_Version ` set (take k (?p d ms))"
      "effects d' = effects d @ map mg_Up (take k (?p d ms))" "r = None \<longrightarrow> length ms \<le> k"
      using Cons.IH [of d] Cons.prems None by auto
    moreover have "take (Suc k) (?p d ms) = take k (?p d ms)" if "length ms \<le> k"
      using order_trans [OF length_filter_le that, of "\<lambda>m. mg_Version m \<notin> versions d"] by simp
    ultimately show ?thesis
      by (cases "r = None") (auto intro: exI [of _ "Suc k"] exI [of _ k])
  next
    case (Some err)
    show ?thesis
    proof (cases "err = ErrNoRows")
      case False
      then show ?thesis using Cons.prems(1) Some by (intro stop) auto
    next
      case True
      then have new: "mg_Version m \<notin> versions d" using Some not_applied by simp
      obtain r1 d1 where up: "apply_up db d m = (r1, d1)" by fastforce
      have out: "(r1 = None \<longrightarrow> versions d1 = insert (mg_Version m) (versions d) \<and> effects d1 = effects d @ [mg_Up m])
          \<and> (r1 \<noteq> None \<longrightarrow> versions d1 = versions d \<and> effects d1 = effects d)"
        by (rule tx_outcome [OF up [unfolded apply_up_def Let_def]]) (rule insert_done)
      show ?thesis
      proof (cases r1)
        case None
        have "mg_Version n \<noteq> mg_Version m" if "n \<in> set ms" for n
          using Cons.prems(2) that by (auto simp: image_iff)
        then have same: "?p d1 ms = ?p d ms" using out None by (intro filter_cong) auto
        obtain k where "versions d' = versions d1 \<union> mg_Version ` set (take k (?p d ms))"
          "effects d' = effects d1 @ map mg_Up (take k (?p d ms))" "r = None \<longrightarrow> length ms \<le> k"
          using Cons.IH [of d1] Cons.prems Some True up None same by auto
        then show ?thesis using new out None by (intro exI [of _ "Suc k"]) auto
      next
        case (Some e)
        then show ?thesis using Cons.prems(1) \<open>md_applied db d (mg_Version m) = Some err\<close> True up out
          by (intro stop) auto
      qed
    qed
  qed
qed

lemma migrate_outcome:
  assumes "Migrate db (Inr ms) d = (r, d')" and "distinct (map mg_Version ms)"
  shows "\<exists>k. versions d' = versions d \<union> mg_Version ` set (take k (filter (\<lambda>m. mg_Version m \<notin> versions d) ms))
    \<and> effects d' = effects d @ map mg_Up (take k (filter (\<lambda>m. mg_Version m \<notin> versions d) ms))
    \<and> (r = None \<longrightarrow> length ms \<le> k)"
proof -
  obtain r0 d0 where e: "md_ensure db d = (r0, d0)" by fastforce
  show ?thesis
  proof (cases r0)
    case None
    then show ?thesis using loop_outcome [of ms d0 r d'] assms e ensure [OF e] by (simp add: Migrate_def)
  next
    case (Some err)
    then show ?thesis using assms e ensure [OF e] by (intro exI [of _ 0]) (auto simp: Migrate_def)
  qed
qed

lemma down_outcome:
  assumes "MigrateDown db (Inr ms) d = (r, d')"
  shows "versions d' = versions d \<and> effects d' = effects d \<and> (r = None \<longrightarrow> versions d = {})
    \<or> r = None \<and> (\<exists>v m. v \<in> versions d \<and> (\<forall>u \<in> versions d. u \<le> v)
        \<and> find (\<lambda>m. mg_Version m = v) ms = Some m \<and> versions d' = versions d - {v} \<and> effects d' = effects d @ [mg_Down m])"
proof -
  obtain r0 d0 where e: "md_ensure db d = (r0, d0)" by fastforce
  note same = ensure [OF e]
  consider (failed) err where "r0 = Some err" | (no) err where "r0 = None" "md_latest db d0 = Inl err"
    | (latest) v where "r0 = None" "md_latest db d0 = Inr v"
    by (cases r0; cases "md_latest db d0") auto
  then show ?thesis
  proof cases
    case failed
    then show ?thesis using assms e same by (auto simp: MigrateDown_def)
  next
    case no
    then show ?thesis using assms e same none_latest [of d0] by (auto simp: MigrateDown_def split: if_splits)
  next
    case (latest v)
    note max = migration_db.latest [OF migration_db_axioms latest(2)]
    let ?down = "case find (\<lambda>m. mg_Version m = v) ms of Some m \<Rightarrow> mg_Down m | None \<Rightarrow> ''''"
    show ?thesis
    proof (cases "?down = ''''")
      case True
      then show ?thesis using assms e latest same by (auto simp: MigrateDown_def Let_def)
    next
      case False
      then obtain m where m: "find (\<lambda>m. mg_Version m = v) ms = Some m" by (auto split: option.splits)
      obtain a b c g where "in_tx db d0 ?down (\<lambda>t. md_delete db t v) a b c g = (r, d')"
        using assms e latest False by (simp add: MigrateDown_def Let_def del: option.case_eq_if)
      then have "(r = None \<longrightarrow> versions d' = versions d0 - {v} \<and> effects d' = effects d0 @ [?down])
          \<and> (r \<noteq> None \<longrightarrow> versions d' = versions d0 \<and> effects d' = effects d0)"
        by (rule tx_outcome) (rule delete_done)
      then show ?thesis using same max m by (cases "r = None") auto
    qed
  qed
qed

end


section \<open>What the directory gives\<close>

definition by_version :: "(int \<times> Migration) list \<Rightarrow> bool" where
  "by_version m \<longleftrightarrow> distinct (keys_of m) \<and> (\<forall>(k, g) \<in> set m. mg_Version g = k)"

lemma load_entry_by_version:
  assumes "load_entry e m = Inr m'" and "by_version m"
  shows "by_version m'"
proof (cases "de_IsDir e")
  case True
  then show ?thesis using assms by (simp add: load_entry_def)
next
  case False
  then obtain v g where m': "m' = AList.update v g m" and v: "mg_Version g = v"
    using assms by (auto simp: load_entry_def by_version_def Let_def dest!: map_of_SomeD split: sum.splits option.splits if_splits)
  then show ?thesis using assms(2) by (auto simp: by_version_def distinct_update dest!: update_mem)
qed

lemma load_entries_by_version: "load_entries es m = Inr m' \<Longrightarrow> by_version m \<Longrightarrow> by_version m'"
  by (induction es arbitrary: m) (auto split: sum.splits dest: load_entry_by_version)

lemma by_version_map: "by_version m \<Longrightarrow> map (mg_Version \<circ> snd) m = keys_of m"
  by (auto simp: by_version_def)

lemma loaded_versions:
  assumes "LoadMigrations ord dir = Inr ms" and "\<forall>m. mset (ord m) = mset m"
  shows "distinct (map mg_Version ms) \<and> sorted (map mg_Version ms) \<and> (\<forall>m \<in> set ms. mg_Up m \<noteq> '''')"
proof -
  obtain es m where m: "load_entries es [] = Inr m" "ms = sort_key mg_Version (map snd (ord m))"
    "find (\<lambda>m. mg_Up m = '''') (map snd (ord m)) = None"
    using assms(1) by (auto simp: LoadMigrations_def Let_def split: sum.splits option.splits)
  have "by_version m" using load_entries_by_version [OF m(1)] by (simp add: by_version_def)
  then have "distinct (map (mg_Version \<circ> snd) m)" by (simp add: by_version_map) (simp add: by_version_def)
  moreover have "mset (map mg_Version ms) = mset (map (mg_Version \<circ> snd) m)"
    using assms(2) by (simp add: m(2) multiset.map_comp)
  ultimately have "distinct (map mg_Version ms)" by (metis mset_eq_imp_distinct_iff)
  moreover have "sorted (map mg_Version ms)" by (simp add: m(2))
  moreover have "\<forall>m \<in> set ms. mg_Up m \<noteq> ''''" using m(2,3) by (simp add: find_None_iff)
  ultimately show ?thesis by blast
qed

section \<open>Properties\<close>

text \<open>The directory of the repository; \<open>sql\<close> gives the contents of a file.\<close>

definition migration_names :: "string list" where
  "migration_names =
     [''0001_address_risk_cache.down.sql'', ''0001_address_risk_cache.up.sql'',
      ''0002_kyt_screens.down.sql'', ''0002_kyt_screens.up.sql'',
      ''0003_kyt_alerts.down.sql'', ''0003_kyt_alerts.up.sql'',
      ''0004_vendor_responses.down.sql'', ''0004_vendor_responses.up.sql'',
      ''0005_audit_events.down.sql'', ''0005_audit_events.up.sql'']"

definition embedded :: "(string \<Rightarrow> string) \<Rightarrow> go_error + DirEntry list" where
  "embedded sql = Inr (map (\<lambda>n. \<lparr>de_Name = n, de_IsDir = False, de_Body = Inr (sql n)\<rparr>) migration_names)"

lemma scan_names:
  "map Sscanf_name migration_names = [Some 1, Some 1, Some 2, Some 2, Some 3, Some 3, Some 4, Some 4, Some 5, Some 5]"
  by code_simp

lemma sort_distinct:
  "mset xs = mset ys \<Longrightarrow> distinct (map f ys) \<Longrightarrow> sorted (map f ys) \<Longrightarrow> sort_key f xs = ys"
  by (rule sort_key_inj_key_eq) (auto simp: distinct_map dest: mset_eq_setD)

text \<open>
  The embedded migrations load.  Whatever the order in which the map is ranged over, the ten files of the
  repository give the five migrations in ascending order, each with the contents of its own two files.
\<close>

theorem embedded_migrations_load:
  assumes "\<forall>n. sql n \<noteq> ''''" and "\<forall>m. mset (ord m) = mset m"
  shows "LoadMigrations ord (embedded sql) = Inr
    [\<lparr>mg_Version = 1, mg_Up = sql ''0001_address_risk_cache.up.sql'', mg_Down = sql ''0001_address_risk_cache.down.sql''\<rparr>,
     \<lparr>mg_Version = 2, mg_Up = sql ''0002_kyt_screens.up.sql'', mg_Down = sql ''0002_kyt_screens.down.sql''\<rparr>,
     \<lparr>mg_Version = 3, mg_Up = sql ''0003_kyt_alerts.up.sql'', mg_Down = sql ''0003_kyt_alerts.down.sql''\<rparr>,
     \<lparr>mg_Version = 4, mg_Up = sql ''0004_vendor_responses.up.sql'', mg_Down = sql ''0004_vendor_responses.down.sql''\<rparr>,
     \<lparr>mg_Version = 5, mg_Up = sql ''0005_audit_events.up.sql'', mg_Down = sql ''0005_audit_events.down.sql''\<rparr>]"
    (is "_ = Inr ?ms")
proof -
  let ?m = "map (\<lambda>m. (mg_Version m, m)) ?ms"
  have load: "load_entries (map (\<lambda>n. \<lparr>de_Name = n, de_IsDir = False, de_Body = Inr (sql n)\<rparr>) migration_names) [] = Inr ?m"
    using scan_names by (simp add: migration_names_def load_entry_def suffix_def)
  have perm: "mset (map snd (ord ?m)) = mset ?ms"
    using assms(2) by (simp add: o_def)
  then have "set (map snd (ord ?m)) = set ?ms" by (rule mset_eq_setD)
  then have "find (\<lambda>m. mg_Up m = '''') (map snd (ord ?m)) = None"
    using assms(1) unfolding find_None_iff by auto
  moreover have "sort_key mg_Version (map snd (ord ?m)) = ?ms"
    using perm by (rule sort_distinct) simp_all
  ultimately show ?thesis unfolding LoadMigrations_def embedded_def by (simp add: load)
qed


definition demo_sql :: "string \<Rightarrow> string" where
  "demo_sql name = ''-- '' @ name"

theorem embedded_migrations_load_witness:
  "\<exists>ms. LoadMigrations rev (embedded demo_sql) = Inr ms \<and> map mg_Version ms = [1, 2, 3, 4, 5]
     \<and> mg_Down (hd ms) = ''-- 0001_address_risk_cache.down.sql''"
  using embedded_migrations_load [of demo_sql rev] by (simp add: demo_sql_def)

text \<open>
  C16: Migrations apply once, in order, all or nothing.  Over a connection that keeps its contract, however
  \<open>Migrate\<close> ends, the scripts that have taken effect are those of the first \<open>k\<close> pending versions in ascending
  order, and exactly these versions are newly recorded; when it succeeds, every migration of the directory
  is recorded, and running it again applies nothing.
\<close>

theorem migrate_applies_pending:
  assumes "migration_db db versions effects tversions teffects" and "\<forall>m. mset (ord m) = mset m"
    and "LoadMigrations ord dir = Inr ms" and "Migrate db (LoadMigrations ord dir) d = (r, d1)"
  shows "sorted (map mg_Version ms)
    \<and> (\<exists>k. versions d1 = versions d \<union> mg_Version ` set (take k (filter (\<lambda>m. mg_Version m \<notin> versions d) ms))
        \<and> effects d1 = effects d @ map mg_Up (take k (filter (\<lambda>m. mg_Version m \<notin> versions d) ms)))
    \<and> (r = None \<longrightarrow> versions d1 = versions d \<union> mg_Version ` set ms
        \<and> (\<forall>r2 d2. Migrate db (LoadMigrations ord dir) d1 = (r2, d2) \<longrightarrow> effects d2 = effects d1 \<and> versions d2 = versions d1))"
proof -
  let ?p = "\<lambda>d. filter (\<lambda>m. mg_Version m \<notin> versions d) ms"
  have ms: "distinct (map mg_Version ms)" "sorted (map mg_Version ms)" using loaded_versions [OF assms(3,2)] by simp_all
  note run = migration_db.migrate_outcome [OF assms(1) _ ms(1)]
  obtain k where k: "versions d1 = versions d \<union> mg_Version ` set (take k (?p d))"
    "effects d1 = effects d @ map mg_Up (take k (?p d))" "r = None \<longrightarrow> length ms \<le> k"
    using run [OF assms(4) [unfolded assms(3)]] by blast
  have all: "versions d1 = versions d \<union> mg_Version ` set ms" if "r = None"
  proof -
    have "take k (?p d) = ?p d" using k(3) that order_trans [OF length_filter_le, of ms k] by simp
    then show ?thesis using k(1) by auto
  qed
  have again: "effects d2 = effects d1 \<and> versions d2 = versions d1" if "r = None" "Migrate db (Inr ms) d1 = (r2, d2)" for r2 d2
  proof -
    have "?p d1 = []" using all [OF that(1)] by (auto simp: filter_empty_conv)
    then show ?thesis using run [OF that(2)] by auto
  qed
  show ?thesis unfolding assms(3)
    by (intro conjI impI allI exI [of _ k] ms(2) k(1,2)) (use all again in auto)
qed

text \<open>
  \<open>MigrateDown\<close> steps back one migration.  It either leaves everything as it was (successfully only when no
  migration is recorded) or runs the down script of the highest recorded version and removes its record.
\<close>

theorem migrate_down_reverts_latest:
  assumes "migration_db db versions effects tversions teffects" and "LoadMigrations ord dir = Inr ms"
    and "MigrateDown db (LoadMigrations ord dir) d = (r, d1)"
  shows "versions d1 = versions d \<and> effects d1 = effects d \<and> (r = None \<longrightarrow> versions d = {})
    \<or> r = None \<and> (\<exists>v m. v \<in> versions d \<and> (\<forall>u \<in> versions d. u \<le> v)
        \<and> find (\<lambda>m. mg_Version m = v) ms = Some m \<and> versions d1 = versions d - {v} \<and> effects d1 = effects d @ [mg_Down m])"
  using migration_db.down_outcome [OF assms(1)] assms(2,3) by simp

text \<open>A connection that keeps the contract: the recorded versions and the scripts run so far.\<close>

type_synonym migrated = "int list \<times> string list"

definition demo_migdb :: "(migrated, migrated) MigDB" where
  "demo_migdb =
     \<lparr>md_ensure = (\<lambda>d. (None, d)),
      md_applied = (\<lambda>d v. if v \<in> set (fst d) then None else Some ErrNoRows),
      md_latest = (\<lambda>d. if fst d = [] then Inl ErrNoRows else Inr (Max (set (fst d)))),
      md_begin = (\<lambda>d. Inr d),
      md_script = (\<lambda>t s. (None, (fst t, snd t @ [s]))),
      md_insert = (\<lambda>t v. (None, (v # fst t, snd t))),
      md_delete = (\<lambda>t v. (None, (removeAll v (fst t), snd t))),
      md_commit = (\<lambda>d t. (None, t)),
      md_rollback = (\<lambda>d t. d)\<rparr>"

interpretation demo_mig: migration_db demo_migdb "\<lambda>d. set (fst d)" snd "\<lambda>t. set (fst t)" snd
  by unfold_locales (auto simp: demo_migdb_def split: if_splits)

theorem migrate_applies_pending_witness:
  "\<exists>r d1. Migrate demo_migdb (LoadMigrations rev (embedded demo_sql)) ([1, 2], []) = (r, d1)
     \<and> (r = None \<longrightarrow> set (fst d1) = {1, 2, 3, 4, 5})"
proof -
  obtain ms where ms: "LoadMigrations rev (embedded demo_sql) = Inr ms" "map mg_Version ms = [1, 2, 3, 4, 5]"
    by (rule that [OF embedded_migrations_load [of demo_sql rev]]) (simp_all add: demo_sql_def)
  have "mg_Version ` set ms = {1, 2, 3, 4, 5}" using arg_cong [OF ms(2), of set] by simp
  moreover obtain r d1 where run: "Migrate demo_migdb (LoadMigrations rev (embedded demo_sql)) ([1, 2], []) = (r, d1)"
    by (rule prod.exhaust)
  ultimately show ?thesis
    using migrate_applies_pending [OF demo_mig.migration_db_axioms _ ms(1) run] by auto
qed

theorem migrate_down_reverts_latest_witness:
  "\<exists>r d1. MigrateDown demo_migdb (LoadMigrations rev (embedded demo_sql)) ([1, 2], []) = (r, d1) \<and> 1 \<in> set (fst d1)"
proof -
  obtain ms where ms: "LoadMigrations rev (embedded demo_sql) = Inr ms"
    by (rule that [OF embedded_migrations_load [of demo_sql rev]]) (simp_all add: demo_sql_def)
  obtain r d1 where run: "MigrateDown demo_migdb (LoadMigrations rev (embedded demo_sql)) ([1, 2], []) = (r, d1)"
    by (rule prod.exhaust)
  have "1 \<in> set (fst d1)"
    using migrate_down_reverts_latest [OF demo_mig.migration_db_axioms ms run] by force
  then show ?thesis using run by blast
qed

end
