(* ===== verification/Audit_Worker.thy ===== *)
theory Audit_Worker
  imports Audit_Events
begin

text \<open>
  More of \<open>internal/audit/audit.go\<close>: the JSON sink, and the worker goroutine by itself.  Left alone, the
  worker stops after a bounded number of steps, so \<open>Close\<close> returns.
\<close>

section \<open>The JSON sink\<close>

text \<open>\<open>marshal\<close> is \<open>json.Marshal\<close> of an event, which fails on a time outside the years 0 to 9999.\<close>

type_synonym JSONSink = "string list"

definition NewJSONSink :: JSONSink where
  "NewJSONSink = []"

definition JSONSink_Emit ::
    "(Event \<Rightarrow> go_error + string) \<Rightarrow> world \<Rightarrow> JSONSink \<Rightarrow> Event \<Rightarrow> go_error option \<times> world \<times> JSONSink" where
  "JSONSink_Emit marshal w s e = (case marshal e of Inl err \<Rightarrow> (Some err, w, s) | Inr body \<Rightarrow> (None, w, s @ [body]))"

definition JSONSink_Bytes :: "JSONSink \<Rightarrow> string list" where
  "JSONSink_Bytes s = s"

definition json_sink :: "(Event \<Rightarrow> go_error + string) \<Rightarrow> JSONSink Sink" where
  "json_sink marshal = \<lparr>sk_Emit = JSONSink_Emit marshal\<rparr>"

interpretation json_log: audit_log "json_sink marshal" JSONSink_Bytes "\<lambda>e. projr (marshal e)" for marshal
  by unfold_locales (auto simp: json_sink_def JSONSink_Emit_def JSONSink_Bytes_def split: sum.splits)

section \<open>The worker by itself\<close>

text \<open>The steps of the goroutine, without new events and without a call of \<open>Close\<close>.\<close>

inductive worker_step :: "'s Sink \<Rightarrow> 's audit_sys \<Rightarrow> 's audit_sys \<Rightarrow> bool" for sink where
  work_receive: "worker_receive (sys_emitter y) = Some e \<Longrightarrow> worker_step sink y (y\<lparr>sys_emitter := e\<rparr>)"
| work_deliver: "worker_deliver sink (sys_world y) (sys_sink y) (sys_emitter y) = Some (ok, w, s, e) \<Longrightarrow>
     em_inflight (sys_emitter y) = Some ev \<Longrightarrow>
     worker_step sink y (y\<lparr>sys_emitter := e, sys_world := w, sys_sink := s, sys_handled := sys_handled y @ [(ev, ok)]\<rparr>)"
| work_return: "worker_return (sys_emitter y) = Some e \<Longrightarrow> worker_step sink y (y\<lparr>sys_emitter := e\<rparr>)"

inductive_cases worker_stepE: "worker_step sink y z"

lemma worker_step_audit: "worker_step sink y z \<Longrightarrow> audit_step sink y z"
  by (induction rule: worker_step.induct) (auto intro: audit_step.intros)

text \<open>What is left for the worker to do.\<close>

definition work_left :: "'s audit_sys \<Rightarrow> nat" where
  "work_left y =
     (let e = sys_emitter y in
      2 * length (em_queue e) + (if em_inflight e = None then 0 else 1) + (if em_running e then 1 else 0))"

lemma worker_step_less: "worker_step sink y z \<Longrightarrow> work_left z < work_left y"
proof (induction rule: worker_step.induct)
  case (work_receive y e)
  then show ?case by (auto simp: work_left_def worker_receive.simps split: if_splits list.splits)
next
  case (work_deliver y ok w s e ev)
  then show ?case by (auto simp: work_left_def worker_deliver_def split: prod.splits option.splits)
next
  case (work_return y e)
  then show ?case by (auto simp: work_left_def worker_return_def split: if_splits)
qed

lemma worker_steps_bounded: "(worker_step sink ^^ n) y z \<Longrightarrow> n + work_left z \<le> work_left y"
proof (induction n arbitrary: z)
  case (Suc n)
  then obtain x where "(worker_step sink ^^ n) y x" "worker_step sink x z" by auto
  with Suc.IH worker_step_less show ?case by fastforce
qed simp

lemma worker_stuck:
  assumes "\<nexists>z. worker_step sink y z"
  shows "em_inflight (sys_emitter y) = None \<and> (em_running (sys_emitter y) \<longrightarrow>
    em_queue (sys_emitter y) = [] \<and> \<not> em_stopped (sys_emitter y))"
proof -
  have none: "em_inflight (sys_emitter y) = None"
  proof (rule ccontr)
    assume "em_inflight (sys_emitter y) \<noteq> None"
    then obtain ev where ev: "em_inflight (sys_emitter y) = Some ev" by blast
    obtain r w s where "sk_Emit sink (sys_world y) (sys_sink y) ev = (r, w, s)" by (metis prod_cases3)
    then have "worker_deliver sink (sys_world y) (sys_sink y) (sys_emitter y) \<noteq> None"
      using ev by (cases r) (simp_all add: worker_deliver_def)
    then obtain ok w s e where "worker_deliver sink (sys_world y) (sys_sink y) (sys_emitter y) = Some (ok, w, s, e)"
      by (metis option.exhaust prod_cases4)
    from work_deliver [OF this ev] show False using assms by (auto simp only: not_ex)
  qed
  moreover have "em_queue (sys_emitter y) = []" if "em_running (sys_emitter y)"
  proof (rule ccontr)
    assume "em_queue (sys_emitter y) \<noteq> []"
    then have "\<exists>e. worker_receive (sys_emitter y) = Some e"
      using that none by (cases "em_queue (sys_emitter y)") (simp_all add: worker_receive.simps)
    then show False using assms work_receive by blast
  qed
  moreover have "\<not> em_stopped (sys_emitter y)" if "em_running (sys_emitter y)"
    using assms work_return [of y _ sink] that none by (auto simp: worker_return_def)
  ultimately show ?thesis by blast
qed

text \<open>
  C20: The worker terminates.  Left alone it makes at most two steps for each queued event and two more, whatever
  the sink answers; when it cannot go on it holds no event, and it has either emptied the queue or returned:
  once \<open>stopCh\<close> is closed, \<open>Close\<close> returns.
\<close>

theorem audit_worker_terminates:
  "wfP (worker_step sink)\<inverse>\<inverse>
   \<and> ((worker_step sink ^^ n) y z \<longrightarrow> n \<le> 2 * length (em_queue (sys_emitter y)) + 2)
   \<and> ((\<nexists>x. worker_step sink z x) \<longrightarrow> em_inflight (sys_emitter z) = None
        \<and> (em_stopped (sys_emitter z) \<longrightarrow> Emitter_Close_returns (sys_emitter z))
        \<and> (em_running (sys_emitter z) \<longrightarrow> em_queue (sys_emitter z) = []))"
proof (intro conjI impI)
  show "wfP (worker_step sink)\<inverse>\<inverse>"
    by (rule wfp_if_convertible_to_nat [of _ work_left]) (simp add: worker_step_less)
next
  assume "(worker_step sink ^^ n) y z"
  from worker_steps_bounded [OF this] show "n \<le> 2 * length (em_queue (sys_emitter y)) + 2"
    by (auto simp: work_left_def Let_def split: if_splits)
next
  assume "\<nexists>x. worker_step sink z x"
  from worker_stuck [OF this]
  show "em_inflight (sys_emitter z) = None" "em_stopped (sys_emitter z) \<Longrightarrow> Emitter_Close_returns (sys_emitter z)"
    "em_running (sys_emitter z) \<Longrightarrow> em_queue (sys_emitter z) = []"
    by (auto simp: Emitter_Close_returns_def)
qed

lemma demo_queued_work: "worker_step memory_sink demo_queued (demo_queued\<lparr>sys_emitter :=
    (sys_emitter demo_queued)\<lparr>em_queue := tl (em_queue (sys_emitter demo_queued)),
       em_inflight := Some (hd (em_queue (sys_emitter demo_queued)))\<rparr>\<rparr>)"
  by (rule work_receive) (simp add: demo_audit_defs NewEmitter_def worker_receive.simps)

theorem audit_worker_terminates_witness:
  "(\<exists>z. (worker_step memory_sink ^^ 1) demo_queued z) \<and> 1 \<le> 2 * length (em_queue (sys_emitter demo_queued)) + (2::nat)"
proof -
  have "(worker_step memory_sink ^^ 1) demo_queued (demo_queued\<lparr>sys_emitter :=
      (sys_emitter demo_queued)\<lparr>em_queue := tl (em_queue (sys_emitter demo_queued)),
         em_inflight := Some (hd (em_queue (sys_emitter demo_queued)))\<rparr>\<rparr>)"
    unfolding relpowp_1 by (rule demo_queued_work)
  then show ?thesis using audit_worker_terminates [of memory_sink 1 demo_queued] by blast
qed

end
