(* ===== verification/Pg_Service.thy ===== *)
theory Pg_Service
  imports Service_Run Pg_Screen
begin

text \<open>
  The service over one PostgreSQL database.  \<open>Pg_Alert\<close> and \<open>Pg_Screen\<close> compare each store with its
  in-memory counterpart; here both stores are views of the same database, the foreign key from alerts to
  screens included, and the whole service (REST, gRPC, webhooks, reviews) is compared with the service
  over the in-memory stores.
\<close>

section \<open>The services over any stores\<close>

text \<open>The services as \<open>buildServices\<close> puts them together, over a cache, a provider and two stores.\<close>

definition store_services ::
    "'c CacheOps \<Rightarrow> 'p ScreenProvider \<Rightarrow> Thresholds \<Rightarrow> (string \<Rightarrow> string) \<Rightarrow> secrets \<Rightarrow> 's ScreenStore \<Rightarrow> 'a AlertStore
     \<Rightarrow> ('c, 'p, 's, 'a) Services" where
  "store_services cops prov th ul secrets screens alerts =
     \<lparr>sv_Screen = NewService cops prov th screens alerts ul, sv_Alerts = alerts,
      sv_Webhook = WithReviewer (NewProcessor secrets (Some (c_Delete cops)) (Some alerts))
        (Some (TriggerReview (NewTrigger screens alerts)))\<rparr>"

lemma store_services_simps [simp]:
  "sv_Screen (store_services cops prov th ul secrets screens alerts) = NewService cops prov th screens alerts ul"
  "sv_Alerts (store_services cops prov th ul secrets screens alerts) = alerts"
  "wp_verifier (sv_Webhook (store_services cops prov th ul secrets screens alerts)) = secrets"
  "wp_cache (sv_Webhook (store_services cops prov th ul secrets screens alerts)) = Some (c_Delete cops)"
  "wp_alerts (sv_Webhook (store_services cops prov th ul secrets screens alerts)) = Some alerts"
  "wp_reviewer (sv_Webhook (store_services cops prov th ul secrets screens alerts)) = Some (TriggerReview (NewTrigger screens alerts))"
  by (simp_all add: store_services_def WithReviewer_def NewProcessor_def)

lemma memory_store_services:
  "memory_services ord prov th ul secrets =
     store_services memory_cache prov th ul secrets (memory_screen_store ord) memory_alert_store"
  by (simp add: memory_services_def store_services_def memory_processor_def memory_trigger_def memory_cache_def)

text \<open>
  A call to services whose two stores share a database.  The type of the state has a place for each store;
  between calls both hold the database.  No call writes alerts before it has written its screen, so the
  database it leaves after that can be computed first, and is the one in which it writes its alerts.
\<close>

definition with_alert_db :: "('c, 'p, 's, 'a) kyt_state \<Rightarrow> 'a \<Rightarrow> ('c, 'p, 's, 'a) kyt_state" where
  "with_alert_db st d = st\<lparr>ks_core := (ks_core st)\<lparr>st_alerts := d\<rparr>\<rparr>"

definition with_screen_db :: "('c, 'p, 's, 'a) kyt_state \<Rightarrow> 's \<Rightarrow> ('c, 'p, 's, 'a) kyt_state" where
  "with_screen_db st d = st\<lparr>ks_core := (ks_core st)\<lparr>st_screens := d\<rparr>\<rparr>"

definition on_one_db ::
    "(('c, 'p, 'd, 'd) kyt_state \<Rightarrow> 'o \<times> ('c, 'p, 'd, 'd) kyt_state) \<Rightarrow> ('c, 'p, 'd, 'd) kyt_state
     \<Rightarrow> 'o \<times> ('c, 'p, 'd, 'd) kyt_state" where
  "on_one_db call st =
     (let d = st_screens (ks_core (snd (call st)));
          (out, st') = call (with_alert_db st d)
      in (out, with_screen_db st' (st_alerts (ks_core st'))))"

fun shared_run ::
    "(gotime \<Rightarrow> string) \<Rightarrow> ('c, 'p, 'd, 'd) Services \<Rightarrow> call list \<Rightarrow> ('c, 'p, 'd, 'd) kyt_state
     \<Rightarrow> outcome list \<times> ('c, 'p, 'd, 'd) kyt_state" where
  "shared_run fmt s [] st = ([], st)"
| "shared_run fmt s (c # cs) st =
     (let (o1, st1) = on_one_db (service_step fmt s c) st; (os, st2) = shared_run fmt s cs st1 in (o1 # os, st2))"

section \<open>What PostgreSQL stores\<close>

text \<open>
  Texts are UTF-8 without NUL, short enough for the indexes on them; an id is a canonical UUID; times lie
  between the years 1 and 9999; a score fits \<open>INTEGER\<close>.
\<close>

definition pg_text :: "string \<Rightarrow> bool" where
  "pg_text s \<longleftrightarrow> sql_text s \<and> length s \<le> 1000"

definition canonical_id :: "(string \<Rightarrow> string option) \<Rightarrow> string \<Rightarrow> bool" where
  "canonical_id canon i \<longleftrightarrow> sql_text i \<and> canon i = Some i"

definition storable_screen :: "(string \<Rightarrow> string option) \<Rightarrow> ScreenRecord \<Rightarrow> bool" where
  "storable_screen canon r \<longleftrightarrow> canonical_id canon (sr_ScreenID r)
     \<and> list_all pg_text [sr_TxID r, sr_Address r, sr_SourceAddress r, sr_Chain r, sr_Exposure r,
         sr_Decision r, sr_Vendor r, sr_VendorResponseID r]
     \<and> - 2147483648 \<le> sr_RiskScore r \<and> sr_RiskScore r < 2147483648 \<and> pg_time (sr_CreatedAt r)"

definition storable_alert :: "(string \<Rightarrow> string option) \<Rightarrow> Alert \<Rightarrow> bool" where
  "storable_alert canon a \<longleftrightarrow> canonical_id canon (al_ID a)
     \<and> list_all pg_text [al_ScreenID a, al_TxID a, al_Address a, al_Chain a, al_Exposure a, al_Severity a,
         al_Status a, al_Assignee a]
     \<and> pg_time (al_CreatedAt a) \<and> (case al_ClosedAt a of None \<Rightarrow> True | Some t \<Rightarrow> pg_time t)"

text \<open>
  An amount is written into a \<open>NUMERIC(20, 8)\<close>: \<open>numeric s\<close> is the text that is read back, or \<open>None\<close> when
  PostgreSQL refuses \<open>s\<close>.  A time is written into a \<open>TIMESTAMPTZ\<close>, which keeps it to the microsecond:
  \<open>micro t\<close> is the time that is read back.
\<close>

definition micro_alert :: "(gotime \<Rightarrow> gotime) \<Rightarrow> Alert \<Rightarrow> Alert" where
  "micro_alert micro a = a\<lparr>al_CreatedAt := micro (al_CreatedAt a), al_ClosedAt := map_option micro (al_ClosedAt a)\<rparr>"

definition stored_screen :: "(string \<Rightarrow> string option) \<Rightarrow> (gotime \<Rightarrow> gotime) \<Rightarrow> ScreenRecord \<Rightarrow> ScreenRecord" where
  "stored_screen numeric micro r =
     r\<lparr>sr_Amount := (case numeric (sr_Amount r) of Some s \<Rightarrow> s | None \<Rightarrow> sr_Amount r),
       sr_CreatedAt := micro (sr_CreatedAt r)\<rparr>"

fun round_time :: "(gotime \<Rightarrow> gotime) \<Rightarrow> sql_val \<Rightarrow> sql_val" where
  "round_time micro (STime t) = STime (micro t)"
| "round_time micro v = v"

definition timed_columns :: "table \<Rightarrow> string list \<Rightarrow> sql_val list \<Rightarrow> bool" where
  "timed_columns t cs vs \<longleftrightarrow>
     list_all (\<lambda>(c, v). case v of STime u \<Rightarrow> c \<in> set (columns_of (\<lambda>c. col_type c = TIMESTAMPTZ) t) | _ \<Rightarrow> True) (zip cs vs)"

text \<open>
  The locale adds to the laws of the database what it does with amounts and times, and which rows fit: an
  alert may only name a screen that is there.
\<close>

definition names_screen :: "('d \<Rightarrow> string \<Rightarrow> row list) \<Rightarrow> 'd \<Rightarrow> Alert \<Rightarrow> bool" where
  "names_screen contents d a \<longleftrightarrow>
     al_ScreenID a = '''' \<or> [SText (al_ScreenID a)] \<in> key_of [''screen_id''] ` set (contents d ''kyt_screens'')"

locale kyt_service_db = kyt_db db contents up fits canon
  for db :: "'d DB" and contents up fits canon +
  fixes numeric :: "string \<Rightarrow> string option" and micro :: "gotime \<Rightarrow> gotime"
  assumes numeric_text: "numeric z = Some s \<Longrightarrow> sql_text z \<and> sql_text s"
    and amount_stored: "numeric (sr_Amount r) = Some s \<Longrightarrow>
      db_Exec db d (Insert ''kyt_screens'' screen_columns cl) (screen_args r) =
      db_Exec db d (Insert ''kyt_screens'' screen_columns cl) (screen_args (r\<lparr>sr_Amount := s\<rparr>))"
    and amount_refused: "up d \<Longrightarrow> numeric (sr_Amount r) = None \<Longrightarrow>
      \<exists>c m. db_Exec db d (Insert ''kyt_screens'' screen_columns cl) (screen_args r) = (Inl (PqErr c m), d)"
    and micro_idem: "micro (micro t) = micro t"
    and micro_mono: "t \<le> u \<Longrightarrow> micro t \<le> micro u"
    and micro_time: "pg_time t \<Longrightarrow> pg_time (micro t)"
    and times_stored: "tb \<in> set kyt_tables \<Longrightarrow> stmt_table st = tb_name tb \<Longrightarrow> columns_match tb (stmt_columns st) vs \<Longrightarrow>
      timed_columns tb (stmt_columns st) vs \<Longrightarrow> list_all sendable vs \<Longrightarrow>
      db_Exec db d st vs = db_Exec db d st (map (round_time micro) vs)"
    and fits_screen: "storable_screen canon r \<Longrightarrow> numeric (sr_Amount r) \<noteq> None \<Longrightarrow>
      fits d kyt_screens (screen_row (stored_screen numeric micro r))"
    and fits_alert: "storable_alert canon a \<Longrightarrow> names_screen contents d a \<Longrightarrow>
      fits d kyt_alerts (alert_row (micro_alert micro a))"

section \<open>The two states side by side\<close>

definition as_stored :: "(string \<Rightarrow> string option) \<Rightarrow> (gotime \<Rightarrow> gotime) \<Rightarrow> MemoryScreenStore \<Rightarrow> MemoryScreenStore" where
  "as_stored numeric micro s = map (\<lambda>e. (fst e, stored_screen numeric micro (snd e))) s"

definition stored_alerts :: "(gotime \<Rightarrow> gotime) \<Rightarrow> MemoryStore \<Rightarrow> MemoryStore" where
  "stored_alerts micro a = a\<lparr>ms_mem := map_option (micro_alert micro) \<circ> ms_mem a\<rparr>"

lemma as_stored_update:
  "as_stored numeric micro (AList.update k r s) = AList.update k (stored_screen numeric micro r) (as_stored numeric micro s)"
  by (induction s) (auto simp: as_stored_def)

lemma stored_screen_simps [simp]:
  "sr_ScreenID (stored_screen numeric micro r) = sr_ScreenID r" "sr_Decision (stored_screen numeric micro r) = sr_Decision r"
  "sr_TxID (stored_screen numeric micro r) = sr_TxID r" "sr_Address (stored_screen numeric micro r) = sr_Address r"
  "sr_Chain (stored_screen numeric micro r) = sr_Chain r" "sr_Exposure (stored_screen numeric micro r) = sr_Exposure r"
  "sr_CreatedAt (stored_screen numeric micro r) = micro (sr_CreatedAt r)"
  "sr_VendorResponseID (stored_screen numeric micro r) = sr_VendorResponseID r"
  by (simp_all add: stored_screen_def)

lemma micro_alert_simps [simp]:
  "al_ID (micro_alert micro a) = al_ID a" "al_ScreenID (micro_alert micro a) = al_ScreenID a"
  "al_Status (micro_alert micro a) = al_Status a" "al_Exposure (micro_alert micro a) = al_Exposure a"
  "al_TxID (micro_alert micro a) = al_TxID a" "al_Address (micro_alert micro a) = al_Address a"
  "al_Chain (micro_alert micro a) = al_Chain a" "al_CreatedAt (micro_alert micro a) = micro (al_CreatedAt a)"
  "al_ClosedAt (micro_alert micro a) = map_option micro (al_ClosedAt a)"
  "canonical canon (micro_alert micro a) = canonical canon a"
  "names_screen contents d (micro_alert micro a) = names_screen contents d a"
  by (simp_all add: micro_alert_def canonical_def names_screen_def)

lemma stored_alerts_simps [simp]:
  "ms_order (stored_alerts micro a) = ms_order a" "ms_mem (stored_alerts micro a) i = map_option (micro_alert micro) (ms_mem a i)"
  "dom (ms_mem (stored_alerts micro a)) = dom (ms_mem a)"
  by (simp_all add: stored_alerts_def dom_map_option_comp)

lemma stored_alerts_ok [simp]: "mem_ok (stored_alerts micro a) = mem_ok a"
proof -
  have "(\<forall>b. map_option (micro_alert micro) (ms_mem a i) = Some b \<longrightarrow> al_ID b = i) \<longleftrightarrow> (\<forall>b. ms_mem a i = Some b \<longrightarrow> al_ID b = i)" for i
    by (cases "ms_mem a i") simp_all
  then show ?thesis unfolding mem_ok_def by simp
qed

lemma stored_alerts_create:
  "MemoryStore_Create (stored_alerts micro a) (micro_alert micro b) =
     (map_sum id (micro_alert micro) (fst (MemoryStore_Create a b)), stored_alerts micro (snd (MemoryStore_Create a b)))"
  by (auto simp: MemoryStore_Create_def stored_alerts_def fun_eq_iff)

lemma stored_alerts_update:
  "MemoryStore_Update (stored_alerts micro a) (micro_alert micro b) =
     (fst (MemoryStore_Update a b), stored_alerts micro (snd (MemoryStore_Update a b)))"
  by (auto simp: MemoryStore_Update_def stored_alerts_def fun_eq_iff)

lemma stored_alerts_list:
  assumes "mem_ok a" and "MemoryStore_List a st = Inr (Some ys)"
  shows "MemoryStore_List (stored_alerts micro a) st = Inr (Some (map (micro_alert micro) ys))"
proof -
  have get: "(case map_option (micro_alert micro) (ms_mem a i) of Some b \<Rightarrow> b | None \<Rightarrow> zero_Alert)
      = micro_alert micro (case ms_mem a i of Some b \<Rightarrow> b | None \<Rightarrow> zero_Alert)" if "i \<in> set (ms_order a)" for i
  proof -
    have "i \<in> dom (ms_mem a)" using assms(1) that by (simp add: mem_ok_def)
    then show ?thesis by auto
  qed
  have eq: "map (\<lambda>i. case ms_mem (stored_alerts micro a) i of Some b \<Rightarrow> b | None \<Rightarrow> zero_Alert) (ms_order a)
      = map (micro_alert micro) (map (\<lambda>i. case ms_mem a i of Some b \<Rightarrow> b | None \<Rightarrow> zero_Alert) (ms_order a))"
    using get by simp
  have ys: "ys = filter (\<lambda>a. st = '''' \<or> al_Status a = st)
      (map (\<lambda>i. case ms_mem a i of Some b \<Rightarrow> b | None \<Rightarrow> zero_Alert) (ms_order a))"
    using assms(2) by (simp add: MemoryStore_List_def)
  show ?thesis unfolding MemoryStore_List_def stored_alerts_simps(1) eq filter_map ys by (simp add: o_def)
qed

text \<open>Two alerts that the database keeps as the same one.\<close>

definition same_alert :: "(gotime \<Rightarrow> gotime) \<Rightarrow> Alert \<Rightarrow> Alert \<Rightarrow> bool" where
  "same_alert micro a b \<longleftrightarrow> micro_alert micro a = micro_alert micro b"

lemma same_alert_refl [simp]: "same_alert micro a a"
  by (simp add: same_alert_def)

text \<open>
  The database holds the screens and the alerts, with amounts and times as PostgreSQL keeps them, and the
  alerts name screens that are there.
\<close>

definition db_holds ::
    "('d \<Rightarrow> string \<Rightarrow> row list) \<Rightarrow> ('d \<Rightarrow> bool) \<Rightarrow> (string \<Rightarrow> string option) \<Rightarrow> (string \<Rightarrow> string option)
     \<Rightarrow> (gotime \<Rightarrow> gotime) \<Rightarrow> 'd \<Rightarrow> MemoryScreenStore \<Rightarrow> MemoryStore \<Rightarrow> bool" where
  "db_holds contents up canon numeric micro d s a \<longleftrightarrow> screens_rel contents up canon d (as_stored numeric micro s)
     \<and> alerts_rel contents up canon d (stored_alerts micro a)
     \<and> (\<forall>i b. ms_mem a i = Some b \<longrightarrow> al_ScreenID b = '''' \<or> al_ScreenID b \<in> fst ` set s)"

text \<open>Everything but the stores.\<close>

definition same_env :: "('c, 'p, 's, 'a) screen_state \<Rightarrow> ('c, 'p, 't, 'b) screen_state \<Rightarrow> bool" where
  "same_env p m \<longleftrightarrow> st_world p = st_world m \<and> st_cache p = st_cache m \<and> st_provider p = st_provider m
     \<and> st_audit p = st_audit m \<and> st_metrics p = st_metrics m"

text \<open>What the in-memory stores hold can be stored.\<close>

definition stores_storable :: "(string \<Rightarrow> string option) \<Rightarrow> (string \<Rightarrow> string option) \<Rightarrow> MemoryScreenStore \<Rightarrow> MemoryStore \<Rightarrow> bool" where
  "stores_storable canon numeric s a \<longleftrightarrow>
     list_all (\<lambda>e. storable_screen canon (snd e) \<and> numeric (sr_Amount (snd e)) \<noteq> None) s
   \<and> list_all (\<lambda>i. storable_alert canon (the (ms_mem a i))) (ms_order a)"

lemma storable_alert_in:
  "stores_storable canon numeric s a \<Longrightarrow> mem_ok a \<Longrightarrow> ms_mem a i = Some b \<Longrightarrow> storable_alert canon b"
  unfolding stores_storable_def list_all_iff mem_ok_def by force

lemma storable_screen_in:
  "stores_storable canon numeric s a \<Longrightarrow> (k, r) \<in> set s \<Longrightarrow> storable_screen canon r \<and> numeric (sr_Amount r) \<noteq> None"
  by (force simp: stores_storable_def list_all_iff)

lemma as_stored_keys: "fst ` set (as_stored numeric micro s) = fst ` set s"
  by (force simp: as_stored_def)

text \<open>Storable rows are parameters that the server takes, in the columns of their types.\<close>

lemma storable_sendable:
  "storable_alert canon a \<Longrightarrow> sendable_alert a"
  "storable_screen canon r \<Longrightarrow> sql_text (sr_Amount r) \<Longrightarrow> sendable_screen r"
  by (auto simp: storable_alert_def storable_screen_def canonical_id_def sendable_alert_def sendable_screen_def alert_args_def
      screen_args_def pg_text_def null_text_def null_time_def split: option.splits)

lemma timed_args:
  "timed_columns kyt_screens screen_columns (screen_args r)" "timed_columns kyt_alerts alert_columns (alert_args a)"
  "timed_columns kyt_alerts ([''id''] @ update_columns) (update_args a)"
  by (simp_all add: timed_columns_def table_lookups screen_columns_def screen_args_def alert_columns_def alert_args_def
      update_columns_def update_args_def null_text_def null_time_def split: option.split)

lemma rounded_args:
  "map (round_time micro) (screen_args r) = screen_args (r\<lparr>sr_CreatedAt := micro (sr_CreatedAt r)\<rparr>)"
  "map (round_time micro) (alert_args a) = alert_args (micro_alert micro a)"
  "map (round_time micro) (update_args a) = update_args (micro_alert micro a)"
  by (simp_all add: screen_args_def alert_args_def update_args_def micro_alert_def null_text_def null_time_def split: option.split)

context kyt_db
begin

text \<open>A store writes to no other table than its own.\<close>

lemma put_frame:
  assumes up: "up d" and ok: "canonical_screen canon r" "fits d kyt_screens (screen_row r)" "sendable_screen r"
    and u: "u \<noteq> ''kyt_screens''"
  shows "contents (snd (PGScreenStore_Put db d r)) u = contents d u"
proof (cases "sr_ScreenID r = ''''")
  case False
  note f = ok(2) [unfolded screen_row_def] and snd = ok(3) [unfolded sendable_screen_def]
  have "\<exists>n d'. db_Exec db d (Insert ''kyt_screens'' screen_columns (DoUpdate [''screen_id''] excluded_columns)) (screen_args r)
      = (Inr n, d') \<and> contents d' u = contents d u"
  proof (cases "key_of (tb_key kyt_screens) (bind_cols screen_columns (screen_args r))
      \<in> key_of (tb_key kyt_screens) ` set (contents d (tb_name kyt_screens))")
    case True
    from insert_update [OF tables_in(2) up screen_shape(1,2) good_screen [OF ok(1)] snd f True screen_shape(3)] u
    show ?thesis by (auto simp: changes_only_def)
  next
    case False
    from insert_new [OF tables_in(2) up screen_shape(1,2) good_screen [OF ok(1)] snd f False,
        of "DoUpdate [''screen_id''] excluded_columns"] u
    show ?thesis by (auto simp: changes_only_def)
  qed
  then show ?thesis using False by (auto simp: PGScreenStore_Put_def)
qed (simp add: PGScreenStore_Put_def)

lemma create_frame:
  assumes up: "up d" and ok: "canonical canon a" "fits d kyt_alerts (alert_row a)" "sendable_alert a"
    and u: "u \<noteq> ''kyt_alerts''"
  shows "contents (snd (PGAlertStore_Create db d a)) u = contents d u"
proof (cases "al_ID a = ''''")
  case False
  note f = ok(2) [unfolded alert_row_def] and snd = ok(3) [unfolded sendable_alert_def]
  have "\<exists>n d'. db_Exec db d (Insert ''kyt_alerts'' alert_columns (DoNothing [''id''])) (alert_args a)
      = (Inr (Inr n), d') \<and> contents d' u = contents d u"
  proof (cases "key_of (tb_key kyt_alerts) (bind_cols alert_columns (alert_args a))
      \<in> key_of (tb_key kyt_alerts) ` set (contents d (tb_name kyt_alerts))")
    case True
    from insert_nothing [OF tables_in(3) up alert_shape(1,2) good_create [OF ok(1)] snd f True]
    show ?thesis by simp
  next
    case False
    from insert_new [OF tables_in(3) up alert_shape(1,2) good_create [OF ok(1)] snd f False, of "DoNothing [''id'']"] u
    show ?thesis by (auto simp: changes_only_def)
  qed
  then show ?thesis using False by (auto simp: PGAlertStore_Create_def)
qed (simp add: PGAlertStore_Create_def)

lemma update_frame:
  assumes up: "up d" and ok: "canonical canon a" "sendable_alert a" and u: "u \<noteq> ''kyt_alerts''"
    and old: "[SText (al_ID a)] \<in> key_of [''id''] ` set (contents d ''kyt_alerts'')"
    and fits: "\<And>r. r \<in> set (contents d ''kyt_alerts'') \<Longrightarrow> key_of [''id''] r = [SText (al_ID a)] \<Longrightarrow>
      fits d kyt_alerts (override_cols update_columns (bind_cols ([''id''] @ update_columns) (update_args a)) r)"
  shows "contents (snd (PGAlertStore_Update db d a)) u = contents d u"
proof -
  from update_rows [OF tables_in(3) up alert_shape(3) good_update [OF ok(1)] sendable_update [OF ok(2)] update_key alert_shape(5),
      unfolded alert_shape(4) table_names, OF old fits]
  obtain n d' where "db_Exec db d (UpdateBy ''kyt_alerts'' [''id''] update_columns) (update_args a) = (Inr (Inr n), d')"
    "\<exists>rs. changes_only contents ''kyt_alerts'' rs d d'" by blast
  then have "\<exists>n d'. db_Exec db d (UpdateBy ''kyt_alerts'' [''id''] update_columns) (update_args a) = (Inr (Inr n), d')
      \<and> contents d' u = contents d u" using u by (auto simp: changes_only_def)
  then show ?thesis by (auto simp: PGAlertStore_Update_def)
qed

end

lemma alerts_rel_up: "alerts_rel contents up canon d a \<Longrightarrow> up d"
  by (simp add: alerts_rel_def)

lemma alerts_rel_frame:
  "alerts_rel contents up canon d a \<Longrightarrow> up d' \<Longrightarrow> contents d' ''kyt_alerts'' = contents d ''kyt_alerts'' \<Longrightarrow>
     alerts_rel contents up canon d' a"
  by (simp add: alerts_rel_def)

lemma screens_rel_frame:
  "screens_rel contents up canon d s \<Longrightarrow> up d' \<Longrightarrow> contents d' ''kyt_screens'' = contents d ''kyt_screens'' \<Longrightarrow>
     screens_rel contents up canon d' s"
  by (simp add: screens_rel_def)

context kyt_service_db
begin

abbreviation holds :: "'d \<Rightarrow> MemoryScreenStore \<Rightarrow> MemoryStore \<Rightarrow> bool" where
  "holds \<equiv> db_holds contents up canon numeric micro"

text \<open>Writing a row, and writing it as the database keeps it.\<close>

lemma put_stored:
  assumes st: "storable_screen canon r" and amount: "numeric (sr_Amount r) \<noteq> None"
  shows "PGScreenStore_Put db d r = PGScreenStore_Put db d (stored_screen numeric micro r)"
proof -
  obtain s where s: "numeric (sr_Amount r) = Some s" using amount by blast
  let ?ins = "Insert ''kyt_screens'' screen_columns (DoUpdate [''screen_id''] excluded_columns)"
  let ?r = "r\<lparr>sr_CreatedAt := micro (sr_CreatedAt r)\<rparr>"
  have snd: "list_all sendable (screen_args r)"
    using storable_sendable(2) [OF st] numeric_text [OF s] by (simp add: sendable_screen_def)
  have "db_Exec db d ?ins (screen_args r) = db_Exec db d ?ins (screen_args ?r)"
    using times_stored [OF tables_in(2), of ?ins "screen_args r" d] screen_shape(1) timed_args(1) snd
    unfolding rounded_args by simp
  also have "\<dots> = db_Exec db d ?ins (screen_args (?r\<lparr>sr_Amount := s\<rparr>))" using amount_stored [of ?r s] s by simp
  also have "?r\<lparr>sr_Amount := s\<rparr> = stored_screen numeric micro r" using s by (simp add: stored_screen_def)
  finally show ?thesis by (simp add: PGScreenStore_Put_def)
qed

lemma create_stored:
  assumes "storable_alert canon b"
  shows "db_Exec db d (Insert ''kyt_alerts'' alert_columns (DoNothing [''id''])) (alert_args b) =
    db_Exec db d (Insert ''kyt_alerts'' alert_columns (DoNothing [''id''])) (alert_args (micro_alert micro b))"
  using times_stored [OF tables_in(3), of "Insert ''kyt_alerts'' alert_columns (DoNothing [''id''])" "alert_args b" d]
    alert_shape(1) timed_args(2) storable_sendable(1) [OF assms]
  unfolding rounded_args by (simp add: sendable_alert_def)

lemma update_stored:
  assumes "storable_alert canon b"
  shows "PGAlertStore_Update db d b = PGAlertStore_Update db d (micro_alert micro b)"
  using times_stored [OF tables_in(3), of "UpdateBy ''kyt_alerts'' [''id''] update_columns" "update_args b" d]
    alert_shape(3) timed_args(3) sendable_update [OF storable_sendable(1) [OF assms]]
  unfolding rounded_args by (simp add: PGAlertStore_Update_def)

lemma stored_screen_sendable:
  assumes st: "storable_screen canon r" and amount: "numeric (sr_Amount r) \<noteq> None"
  shows "sendable_screen (stored_screen numeric micro r)"
proof -
  obtain s where "numeric (sr_Amount r) = Some s" using amount by blast
  then show ?thesis using storable_sendable(2) [OF st] numeric_text [of _ s] micro_time [of "sr_CreatedAt r"]
    by (auto simp: sendable_screen_def screen_args_def stored_screen_def)
qed

lemma stored_alert_sendable:
  assumes "storable_alert canon a"
  shows "sendable_alert (micro_alert micro a)"
  using storable_sendable(1) [OF assms] micro_time
  by (auto simp: sendable_alert_def alert_args_def micro_alert_def null_time_def null_text_def split: option.splits if_splits)

lemma micro_alert_idem [simp]: "micro_alert micro (micro_alert micro a) = micro_alert micro a"
  by (simp add: micro_alert_def micro_idem option.map_comp o_def)

text \<open>A screen is put.\<close>

lemma holds_put:
  assumes h: "holds d s a" and i: "sr_ScreenID r \<noteq> ''''" "canonical_screen canon r"
    and st: "storable_screen canon r" "numeric (sr_Amount r) \<noteq> None"
  shows "\<exists>d'. PGScreenStore_Put db d r = (None, d') \<and> holds d' (AList.update (sr_ScreenID r) r s) a"
proof -
  let ?r = "stored_screen numeric micro r"
  note fit = fits_screen [OF st, of d] and snd = stored_screen_sendable [OF st]
  have c: "canonical_screen canon ?r" using i(2) by (simp add: canonical_screen_def)
  have srel: "screens_rel contents up canon d (as_stored numeric micro s)"
    and arel: "alerts_rel contents up canon d (stored_alerts micro a)"
    using h by (simp_all add: db_holds_def)
  from sim_put [OF srel, of ?r] c fit snd
  have p: "fst (PGScreenStore_Put db d ?r) = None"
    "screens_rel contents up canon (snd (PGScreenStore_Put db d ?r)) (AList.update (sr_ScreenID r) ?r (as_stored numeric micro s))"
    using i(1) by (simp_all add: MemoryScreenStore_Put_def)
  then have "up (snd (PGScreenStore_Put db d ?r))" by (simp add: screens_rel_def)
  then have "alerts_rel contents up canon (snd (PGScreenStore_Put db d ?r)) (stored_alerts micro a)"
    using arel put_frame [OF alerts_rel_up [OF arel] c fit snd] by (intro alerts_rel_frame [OF arel]) simp_all
  moreover have "fst ` set (AList.update (sr_ScreenID r) r s) = insert (sr_ScreenID r) (fst ` set s)"
    by (simp add: dom_update)
  ultimately have "holds (snd (PGScreenStore_Put db d ?r)) (AList.update (sr_ScreenID r) r s) a"
    using h p(2) by (auto simp: db_holds_def as_stored_update)
  then show ?thesis using p(1) unfolding put_stored [OF st] by (metis prod.collapse)
qed

text \<open>An alert names a screen that is there, or none.\<close>

lemma holds_names:
  assumes "holds d s a" and "al_ScreenID b = '''' \<or> al_ScreenID b \<in> fst ` set s"
  shows "names_screen contents d b \<and> (al_ScreenID b = '''' \<or> canon (al_ScreenID b) = Some (al_ScreenID b))"
proof (cases "al_ScreenID b = ''''")
  case False
  then have "al_ScreenID b \<in> fst ` set (as_stored numeric micro s)" using assms(2) by (simp add: as_stored_keys)
  then obtain r where r: "(al_ScreenID b, r) \<in> set (as_stored numeric micro s)" by force
  have rel: "\<forall>(k, q) \<in> set (as_stored numeric micro s). sr_ScreenID q = k \<and> canon k = Some k"
    "contents d ''kyt_screens'' = map (\<lambda>e. screen_row (snd e)) (as_stored numeric micro s)"
    using assms(1) by (simp_all add: db_holds_def screens_rel_def)
  have k: "sr_ScreenID r = al_ScreenID b" "canon (al_ScreenID b) = Some (al_ScreenID b)"
    using bspec [OF rel(1) r] by simp_all
  have c: "screen_row r \<in> set (contents d ''kyt_screens'')"
    unfolding rel(2) set_map using r by (intro image_eqI [of _ _ "(al_ScreenID b, r)"]) simp_all
  have "key_of [''screen_id''] (screen_row r) = [SText (al_ScreenID b)]" using k by simp
  then have "[SText (al_ScreenID b)] \<in> key_of [''screen_id''] ` set (contents d ''kyt_screens'')" using c by (metis image_eqI)
  then show ?thesis using k by (simp add: names_screen_def)
qed (simp add: names_screen_def)

lemma holds_create:
  assumes h: "holds d s a" and st: "storable_alert canon b"
    and n: "al_ScreenID b = '''' \<or> al_ScreenID b \<in> fst ` set s"
  shows "\<exists>d'. PGAlertStore_Create db d b = (fst (MemoryStore_Create a b), d') \<and> holds d' s (snd (MemoryStore_Create a b))"
proof -
  let ?b = "micro_alert micro b"
  have srel: "screens_rel contents up canon d (as_stored numeric micro s)"
    and arel: "alerts_rel contents up canon d (stored_alerts micro a)"
    using h by (simp_all add: db_holds_def)
  have i: "canon (al_ID b) = Some (al_ID b)" using st by (simp add: storable_alert_def canonical_id_def)
  have c: "canonical canon ?b" and f: "fits d kyt_alerts (alert_row ?b)" and snd: "sendable_alert ?b"
    using holds_names [OF h n] i fits_alert [OF st, of d] stored_alert_sendable [OF st] by (simp_all add: canonical_def)
  from sim_create [OF arel, of ?b] c f snd obtain d' where
    d': "PGAlertStore_Create db d ?b = (map_sum id (micro_alert micro) (fst (MemoryStore_Create a b)), d')"
    "alerts_rel contents up canon d' (stored_alerts micro (snd (MemoryStore_Create a b)))"
    by (auto simp: stored_alerts_create)
  have "PGAlertStore_Create db d b = (fst (MemoryStore_Create a b), d')"
    using d'(1) create_stored [OF st, of d]
    by (auto simp: PGAlertStore_Create_def MemoryStore_Create_def split: if_splits prod.splits sum.splits)
  moreover have "screens_rel contents up canon d' (as_stored numeric micro s)"
    using create_frame [OF alerts_rel_up [OF arel] c f snd, of "''kyt_screens''"] d' alerts_rel_up [OF d'(2)]
    by (intro screens_rel_frame [OF srel]) simp_all
  then have "holds d' s (snd (MemoryStore_Create a b))"
    using d'(2) h n by (auto simp: db_holds_def MemoryStore_Create_def split: if_splits)
  ultimately show ?thesis by blast
qed

text \<open>The alert \<open>b\<close>, read back and updated as \<open>q\<close>.\<close>

lemma holds_update:
  assumes h: "holds d s a" and st: "storable_alert canon b" "storable_alert canon q" and q: "same_alert micro q b"
    and b: "ms_mem a (al_ID b) = Some c" "al_ScreenID b = al_ScreenID c" "al_CreatedAt b = al_CreatedAt c"
  shows "\<exists>d'. PGAlertStore_Update db d q = (None, d') \<and> holds d' s (snd (MemoryStore_Update a b))"
proof -
  let ?b = "micro_alert micro b"
  have srel: "screens_rel contents up canon d (as_stored numeric micro s)"
    and arel: "alerts_rel contents up canon d (stored_alerts micro a)"
    using h by (simp_all add: db_holds_def)
  have n: "al_ScreenID b = '''' \<or> al_ScreenID b \<in> fst ` set s" using h b by (metis db_holds_def)
  have i: "canon (al_ID b) = Some (al_ID b)" using st(1) by (simp add: storable_alert_def canonical_id_def)
  have cc: "canonical canon ?b" and f: "fits d kyt_alerts (alert_row ?b)" and snd: "sendable_alert ?b"
    using holds_names [OF h n] i fits_alert [OF st(1), of d] stored_alert_sendable [OF st(1)] by (simp_all add: canonical_def)
  have old: "ms_mem (stored_alerts micro a) (al_ID ?b) = Some (micro_alert micro c)" "al_CreatedAt (micro_alert micro c) = al_CreatedAt ?b"
    using b by simp_all
  from sim_update [OF arel cc f snd old] obtain d' where d': "PGAlertStore_Update db d ?b = (None, d')"
    "alerts_rel contents up canon d' (stored_alerts micro (snd (MemoryStore_Update a b)))"
    by (auto simp: stored_alerts_update)
  have rows: "filter (\<lambda>r. key_of [''id''] r = [SText (al_ID ?b)]) (contents d ''kyt_alerts'') = [alert_row (micro_alert micro c)]"
    using rel_filter [OF arel, of "al_ID b"] b(1) by simp
  have r: "r = alert_row (micro_alert micro c)" if "r \<in> set (contents d ''kyt_alerts'')" "key_of [''id''] r = [SText (al_ID ?b)]" for r
  proof -
    have "r \<in> set (filter (\<lambda>r. key_of [''id''] r = [SText (al_ID ?b)]) (contents d ''kyt_alerts''))" using that by simp
    then show ?thesis unfolding rows by simp
  qed
  have "alert_row (micro_alert micro c) \<in> set (filter (\<lambda>r. key_of [''id''] r = [SText (al_ID ?b)]) (contents d ''kyt_alerts''))"
    unfolding rows by simp
  then have "alert_row (micro_alert micro c) \<in> set (contents d ''kyt_alerts'')"
    "key_of [''id''] (alert_row (micro_alert micro c)) = [SText (al_ID ?b)]" unfolding set_filter by blast+
  then have hit: "[SText (al_ID ?b)] \<in> key_of [''id''] ` set (contents d ''kyt_alerts'')" by (metis imageI)
  have "mem_ok a" using arel by (simp add: alerts_rel_def)
  then have "al_ID c = al_ID b" using b(1) unfolding mem_ok_def by blast
  then have "fits d kyt_alerts (override_cols update_columns (bind_cols ([''id''] @ update_columns) (update_args ?b)) r)"
    if "r \<in> set (contents d ''kyt_alerts'')" "key_of [''id''] r = [SText (al_ID ?b)]" for r
    using r [OF that] update_alert_row [of "micro_alert micro c" ?b] b(3) f by simp
  then have "screens_rel contents up canon d' (as_stored numeric micro s)"
    using update_frame [OF alerts_rel_up [OF arel] cc snd _ hit, of "''kyt_screens''"] d' alerts_rel_up [OF d'(2)]
    by (intro screens_rel_frame [OF srel]) simp_all
  then have "holds d' s (snd (MemoryStore_Update a b))"
    using d'(2) h n b by (auto simp: db_holds_def MemoryStore_Update_def split: if_splits)
  then show ?thesis using d'(1) q update_stored [OF st(2), of d] by (auto simp: same_alert_def)
qed

end

lemma create_service:
  "AlertService_Create store w s sid tx ad ch ex sev =
     (fst (as_Create store s (new_alert (uuids w (drawn w)) sid tx ad ch ex sev (clk w (ticks w)))),
      w\<lparr>drawn := Suc (drawn w), ticks := Suc (ticks w)\<rparr>,
      snd (as_Create store s (new_alert (uuids w (drawn w)) sid tx ad ch ex sev (clk w (ticks w)))))"
  by (simp add: AlertService_Create_def new_alert_def newID_def time_Now_def Let_def split: prod.split)

lemma pg_alert_store_simps [simp]:
  "as_Create (pg_alert_store db) = PGAlertStore_Create db" "as_Get (pg_alert_store db) = PGAlertStore_Get db"
  "as_List (pg_alert_store db) = PGAlertStore_List db" "as_Update (pg_alert_store db) = PGAlertStore_Update db"
  by (simp_all add: pg_alert_store_def)

lemma pg_screen_store_simps [simp]:
  "ss_Put (pg_screen_store db) = PGScreenStore_Put db" "ss_Get (pg_screen_store db) = PGScreenStore_Get db"
  "ss_ListByAddress (pg_screen_store db) = PGScreenStore_ListByAddress db"
  by (simp_all add: pg_screen_store_def)

lemma assign_open:
  "AlertService_Get store s i = Inr b \<Longrightarrow> al_Status b \<noteq> StatusClosed \<Longrightarrow>
     as_Update store s (assigned_copy who b) = (None, s') \<Longrightarrow>
     AlertService_Assign store s i who = (Inr (assigned_copy who b), s')"
  by (simp add: AlertService_Assign_def assigned_copy_def Let_def)

lemma close_open:
  "AlertService_Get store s i = Inr b \<Longrightarrow> al_Status b \<noteq> StatusClosed \<Longrightarrow>
     as_Update store s (closed_copy (clk w (ticks w)) who b) = (None, s') \<Longrightarrow>
     AlertService_Close store w s i who = (Inr (closed_copy (clk w (ticks w)) who b), w\<lparr>ticks := Suc (ticks w)\<rparr>, s')"
  by (cases "who = ''''") (simp_all add: AlertService_Close_def closed_copy_def time_Now_def Let_def)

text \<open>Answers with alerts that the database keeps as the same one.\<close>

definition alert_alike :: "(gotime \<Rightarrow> gotime) \<Rightarrow> go_error + Alert \<Rightarrow> go_error + Alert \<Rightarrow> bool" where
  "alert_alike micro x y \<longleftrightarrow> rel_sum (=) (same_alert micro) x y"

lemma alert_alike_simps [simp]:
  "alert_alike micro (Inl e) y \<longleftrightarrow> y = Inl e" "alert_alike micro x (Inl e) \<longleftrightarrow> x = Inl e"
  "alert_alike micro (Inr a) (Inr b) \<longleftrightarrow> same_alert micro a b" "alert_alike micro x x"
  by (cases x; cases y; auto simp: alert_alike_def)+

lemma storable_read_back:
  assumes "storable_alert canon b" and "\<And>t. pg_time t \<Longrightarrow> pg_time (micro t)" and "al_ClosedAt q = al_ClosedAt b \<or> al_ClosedAt q = map_option micro (al_ClosedAt b)"
    and "q\<lparr>al_ClosedAt := al_ClosedAt b\<rparr> = b\<lparr>al_CreatedAt := micro (al_CreatedAt b)\<rparr>"
  shows "storable_alert canon q"
proof -
  have "q = (b\<lparr>al_CreatedAt := micro (al_CreatedAt b)\<rparr>)\<lparr>al_ClosedAt := al_ClosedAt q\<rparr>"
    using assms(4) by (cases q, cases b) simp
  moreover have "storable_alert canon ((b\<lparr>al_CreatedAt := micro (al_CreatedAt b)\<rparr>)\<lparr>al_ClosedAt := al_ClosedAt q\<rparr>)"
    using assms(1-3) by (auto simp: storable_alert_def split: option.splits)
  ultimately show ?thesis by metis
qed

context kyt_service_db
begin

lemma service_create_sim:
  assumes "holds d s a"
    and "storable_alert canon (new_alert (uuids w (drawn w)) sid tx ad ch ex sev (clk w (ticks w)))"
    and "sid = '''' \<or> sid \<in> fst ` set s"
    and "AlertService_Create memory_alert_store w a sid tx ad ch ex sev = (r, w', a')"
  shows "\<exists>d'. AlertService_Create (pg_alert_store db) w d sid tx ad ch ex sev = (r, w', d') \<and> holds d' s a'"
  using holds_create [OF assms(1,2)] assms(3,4)
  by (auto simp: create_service new_alert_def)

text \<open>What a lookup finds is the alert as it was stored.\<close>

lemma service_get_sim:
  assumes "holds d s a" and "plain_id canon i"
  shows "AlertService_Get (pg_alert_store db) d i = map_sum id (micro_alert micro) (AlertService_Get memory_alert_store a i)"
  using sim_get [of d "stored_alerts micro a" i] assms
  by (auto simp: AlertService_Get_def db_holds_def MemoryStore_Get_def split: option.splits)

lemma service_assign_sim:
  assumes h: "holds d s a" and i: "plain_id canon i"
    and m: "AlertService_Assign memory_alert_store a i who = (r, a')" and st: "stores_storable canon numeric s' a'" "mem_ok a'"
  shows "\<exists>r' d'. AlertService_Assign (pg_alert_store db) d i who = (r', d') \<and> alert_alike micro r' r \<and> holds d' s a'"
proof (cases "\<exists>b. AlertService_Get memory_alert_store a i = Inr b \<and> al_Status b \<noteq> StatusClosed")
  case False
  then have "AlertService_Assign (pg_alert_store db) d i who = (r, d) \<and> a' = a"
  proof (cases "AlertService_Get memory_alert_store a i")
    case (Inl e)
    then have p: "AlertService_Get (pg_alert_store db) d i = Inl e" using service_get_sim [OF h i] by simp
    have "r = Inl e" "a' = a" using m Inl by (simp_all add: AlertService_Assign_def)
    then show ?thesis using p by (simp add: AlertService_Assign_def)
  next
    case (Inr b)
    then have "al_Status b = StatusClosed" using False by blast
    then show ?thesis using Inr m service_get_sim [OF h i] by (simp add: AlertService_Assign_def)
  qed
  then show ?thesis using h by auto
next
  case True
  then obtain b where b: "AlertService_Get memory_alert_store a i = Inr b" "al_Status b \<noteq> StatusClosed" by blast
  have ok: "mem_ok a" using h by (simp add: db_holds_def alerts_rel_def)
  have present: "ms_mem a i = Some b" using b(1) mas.service_get [OF ok, of i] by (simp split: option.splits)
  have id: "al_ID b = i" using ok present by (simp add: mem_ok_def)
  define b' q where "b' = assigned_copy who b" and "q = assigned_copy who (micro_alert micro b)"
  have id': "al_ID b' = i" "al_ScreenID b' = al_ScreenID b" "al_CreatedAt b' = al_CreatedAt b"
    using id by (simp_all add: b'_def assigned_copy_def)
  define up where "up = a\<lparr>ms_mem := (ms_mem a)(i \<mapsto> b')\<rparr>"
  have u: "MemoryStore_Update a b' = (None, up)" using id' present by (simp add: MemoryStore_Update_def up_def)
  then have same: "r = Inr b'" "a' = up"
    using m assign_open [OF b, of who up] by (simp_all add: b'_def)
  then have "ms_mem a' i = Some b'" by (simp add: up_def)
  then have st1: "storable_alert canon b'" by (rule storable_alert_in [OF st])
  have st2: "storable_alert canon q"
    by (rule storable_read_back [OF st1 micro_time]) (cases b; simp add: q_def b'_def assigned_copy_def micro_alert_def)+
  have qb: "same_alert micro q b'"
    by (simp add: same_alert_def q_def b'_def assigned_copy_def micro_alert_def micro_idem option.map_comp o_def)
  from holds_update [OF h st1 st2 qb] id' present u
  obtain d' where "PGAlertStore_Update db d q = (None, d')" "holds d' s up" by auto
  then show ?thesis
    using assign_open [of "pg_alert_store db" d i "micro_alert micro b" who d'] b service_get_sim [OF h i] same qb
    by (auto simp: q_def)
qed

lemma service_close_sim:
  assumes h: "holds d s a" and i: "plain_id canon i"
    and m: "AlertService_Close memory_alert_store w a i who = (r, w', a')" and st: "stores_storable canon numeric s' a'" "mem_ok a'"
  shows "\<exists>r' d'. AlertService_Close (pg_alert_store db) w d i who = (r', w', d') \<and> alert_alike micro r' r \<and> holds d' s a'"
proof (cases "\<exists>b. AlertService_Get memory_alert_store a i = Inr b \<and> al_Status b \<noteq> StatusClosed")
  case False
  then have "AlertService_Close (pg_alert_store db) w d i who = (r, w', d) \<and> a' = a"
  proof (cases "AlertService_Get memory_alert_store a i")
    case (Inl e)
    then have p: "AlertService_Get (pg_alert_store db) d i = Inl e" using service_get_sim [OF h i] by simp
    have "r = Inl e" "a' = a" "w' = tick w" using m Inl by (simp_all add: AlertService_Close_def time_Now_def)
    then show ?thesis using p by (simp add: AlertService_Close_def time_Now_def)
  next
    case (Inr b)
    then have "al_Status b = StatusClosed" using False by blast
    then show ?thesis using Inr m service_get_sim [OF h i] by (simp add: AlertService_Close_def time_Now_def)
  qed
  then show ?thesis using h by auto
next
  case True
  then obtain b where b: "AlertService_Get memory_alert_store a i = Inr b" "al_Status b \<noteq> StatusClosed" by blast
  have ok: "mem_ok a" using h by (simp add: db_holds_def alerts_rel_def)
  have present: "ms_mem a i = Some b" using b(1) mas.service_get [OF ok, of i] by (simp split: option.splits)
  have id: "al_ID b = i" using ok present by (simp add: mem_ok_def)
  define b' q where "b' = closed_copy (clk w (ticks w)) who b" and "q = closed_copy (clk w (ticks w)) who (micro_alert micro b)"
  have id': "al_ID b' = i" "al_ScreenID b' = al_ScreenID b" "al_CreatedAt b' = al_CreatedAt b"
    using id by (simp_all add: b'_def closed_copy_def)
  define up where "up = a\<lparr>ms_mem := (ms_mem a)(i \<mapsto> b')\<rparr>"
  have u: "MemoryStore_Update a b' = (None, up)" using id' present by (simp add: MemoryStore_Update_def up_def)
  then have same: "r = Inr b'" "a' = up" "w' = w\<lparr>ticks := Suc (ticks w)\<rparr>"
    using m close_open [OF b, of w who up] by (simp_all add: b'_def)
  then have "ms_mem a' i = Some b'" by (simp add: up_def)
  then have st1: "storable_alert canon b'" by (rule storable_alert_in [OF st])
  have st2: "storable_alert canon q"
    by (rule storable_read_back [OF st1 micro_time]) (cases b; simp add: q_def b'_def closed_copy_def micro_alert_def)+
  have qb: "same_alert micro q b'"
    by (simp add: same_alert_def q_def b'_def closed_copy_def micro_alert_def micro_idem)
  from holds_update [OF h st1 st2 qb] id' present u
  obtain d' where "PGAlertStore_Update db d q = (None, d')" "holds d' s up" by auto
  then show ?thesis
    using close_open [of "pg_alert_store db" d i "micro_alert micro b" w who d'] b service_get_sim [OF h i] same qb
    by (auto simp: q_def)
qed

end

section \<open>A screen\<close>

lemma put_row_store:
  "put_row (NewService cops prov th ss as ul) r st =
     (fst (ss_Put ss (st_screens st) r), st\<lparr>st_screens := snd (ss_Put ss (st_screens st) r)\<rparr>)"
  by (simp add: put_row_def NewService_def split: prod.split)

lemma finalize_alert_env:
  "same_env p m \<Longrightarrow> same_env (finalize_alert (NewService cops prov th ss as ul) p i req ex dec)
     (finalize_alert (NewService cops prov th ss' as' ul) m i req ex dec)"
  by (simp add: finalize_alert_def NewService_def create_service same_env_def)

lemma finalize_audit_env:
  "same_env p m \<Longrightarrow> same_env (finalize_audit (NewService cops prov th ss as ul) p ev)
     (finalize_audit (NewService cops prov th ss' as' ul) m ev)"
  by (simp add: finalize_audit_def NewService_def same_env_def split: prod.split)

lemma same_env_alerts [simp]: "same_env (p\<lparr>st_alerts := x\<rparr>) m = same_env p m"
  by (simp add: same_env_def)

lemma same_env_screens [simp]:
  "same_env (p\<lparr>st_screens := x\<rparr>) m = same_env p m" "same_env p (m\<lparr>st_screens := y\<rparr>) = same_env p m"
  by (simp_all add: same_env_def)

text \<open>Both sides of \<open>finalize\<close> up to the alert.\<close>

lemma finalize_stored:
  assumes "ss_Put ss (st_screens st) (row_of req (answer_of i score ex dec vend hit) now) = (None, s1)"
    and "i = uuids (st_world st) (drawn (st_world st))" and "now = clk (st_world st) (ticks (st_world st))"
    and "w1 = (st_world st)\<lparr>drawn := Suc (drawn (st_world st)), ticks := Suc (ticks (st_world st))\<rparr>"
  shows "finalize (NewService cops prov th ss as ul) st req score ex dec vend hit =
     (Inr (answer_of i score ex dec vend hit),
      finalize_audit (NewService cops prov th ss as ul)
        (finalize_alert (NewService cops prov th ss as ul) (st\<lparr>st_world := w1, st_screens := s1\<rparr>) i req ex dec)
        (event_of req (answer_of i score ex dec vend hit) now))"
  using assms by (simp add: finalize_unfold put_row_store Let_def)

lemma finalize_alert_store:
  "finalize_alert (NewService cops prov th ss as ul) st i req ex dec =
     (if dec = DecisionAllow then st
      else st\<lparr>st_world := fst (snd (AlertService_Create as (st_world st) (st_alerts st) i (rq_TxID req) (rq_Address req)
              (rq_Chain req) ex (SeverityFor ex))),
          st_alerts := snd (snd (AlertService_Create as (st_world st) (st_alerts st) i (rq_TxID req) (rq_Address req)
              (rq_Chain req) ex (SeverityFor ex))),
          st_metrics := (st_metrics st)\<lparr>AlertsOpen := ctr_add (AlertsOpen (st_metrics st)) 1\<rparr>\<rparr>)"
  by (simp add: finalize_alert_def NewService_def split: prod.split)

lemma memory_state_ok_cong:
  "memory_state_ok ord st \<Longrightarrow> world_le (st_world st) (st_world st') \<Longrightarrow> st_screens st' = st_screens st \<Longrightarrow>
     st_alerts st' = st_alerts st \<Longrightarrow> memory_state_ok ord st'"
  using used_ids_mono [of "st_world st" "st_world st'"] world_le_fresh [of "st_world st" "st_world st'"]
  by (auto simp: memory_state_ok_def)

context kyt_service_db
begin

text \<open>
  A step of the screen path over the database: whatever the alert store holds, it answers alike, keeps the
  same environment and leaves the same database after the screen; and it ends in the right database when
  its alerts are written there.
\<close>

definition linked ::
    "(('c, 'p, 'd, 'd) screen_state \<Rightarrow> 'o \<times> ('c, 'p, 'd, 'd) screen_state) \<Rightarrow> ('c, 'p, 'd, 'd) screen_state \<Rightarrow> 'o
     \<Rightarrow> ('c, 'p, MemoryScreenStore, MemoryStore) screen_state \<Rightarrow> bool" where
  "linked op p r m \<longleftrightarrow> (\<exists>d.
     (\<forall>x. fst (op (p\<lparr>st_alerts := x\<rparr>)) = r \<and> same_env (snd (op (p\<lparr>st_alerts := x\<rparr>))) m
        \<and> st_screens (snd (op (p\<lparr>st_alerts := x\<rparr>))) = d)
   \<and> holds (st_alerts (snd (op (p\<lparr>st_alerts := d\<rparr>)))) (st_screens m) (st_alerts m))"

lemma linked_by: "linked op' p' r m \<Longrightarrow> (\<And>x. op (p\<lparr>st_alerts := x\<rparr>) = op' (p'\<lparr>st_alerts := x\<rparr>)) \<Longrightarrow> linked op p r m"
  by (simp add: linked_def)

definition ready :: "(MemoryScreenStore \<Rightarrow> MemoryScreenStore) \<Rightarrow> ('c, 'p, 'd, 'a) screen_state
    \<Rightarrow> ('c, 'p, MemoryScreenStore, MemoryStore) screen_state \<Rightarrow> bool" where
  "ready ord p m \<longleftrightarrow> same_env p m \<and> memory_state_ok ord m \<and> holds (st_screens p) (st_screens m) (st_alerts m)"

lemma ready_step:
  "ready ord p m \<Longrightarrow> same_env p' m' \<Longrightarrow> world_le (st_world m) (st_world m') \<Longrightarrow> st_screens p' = st_screens p \<Longrightarrow>
     st_screens m' = st_screens m \<Longrightarrow> st_alerts m' = st_alerts m \<Longrightarrow> ready ord p' m'"
  using memory_state_ok_cong [of ord m m'] by (simp add: ready_def)

lemma finalize_linked:
  assumes rdy: "ready ord p m"
    and fin: "finalize (NewService cops prov th (memory_screen_store ord) memory_alert_store ul) m req score ex dec vend hit = (r, m')"
    and fit: "stores_storable canon numeric (st_screens m') (st_alerts m')"
  shows "linked (\<lambda>p. finalize (NewService cops prov th (pg_screen_store db) (pg_alert_store db) ul) p req score ex dec vend hit) p r m'"
proof -
  let ?svcM = "NewService cops prov th (memory_screen_store ord) memory_alert_store ul"
  let ?svcP = "NewService cops prov th (pg_screen_store db) (pg_alert_store db) ul"
  have env: "same_env p m" and ok: "memory_state_ok ord m" and h: "holds (st_screens p) (st_screens m) (st_alerts m)"
    using rdy by (simp_all add: ready_def)
  define w i now w1 where "w = st_world m" and "i = uuids w (drawn w)" and "now = clk w (ticks w)"
    and "w1 = w\<lparr>drawn := Suc (drawn w), ticks := Suc (ticks w)\<rparr>"
  define resp row where "resp = answer_of i score ex dec vend hit" and "row = row_of req resp now"
  have id: "sr_ScreenID row = i" by (simp add: row_def row_of_def resp_def)
  have fresh: "fresh_ids w" using ok by (simp add: memory_state_ok_def w_def)
  have i: "i \<noteq> ''''" using fresh_nonempty [OF fresh] by (simp add: i_def)
  define s1 where "s1 = AList.update i row (st_screens m)"
  define m1 where "m1 = m\<lparr>st_world := w1, st_screens := s1\<rparr>"
  have "MemoryScreenStore_Put (st_screens m) row = (None, s1)" using i id by (simp add: MemoryScreenStore_Put_def s1_def)
  with fin have m': "r = Inr resp" "m' = finalize_audit ?svcM (finalize_alert ?svcM m1 i req ex dec) (event_of req resp now)"
    by (simp_all add: finalize_stored [OF _ refl refl refl] m1_def w1_def i_def now_def w_def resp_def row_def)
  have s': "st_screens m' = s1" unfolding m'(2) by (simp add: frame_simps m1_def)
  have a': "st_alerts m' = st_alerts (finalize_alert ?svcM m1 i req ex dec)" unfolding m'(2) by (simp add: frame_simps)
  have "map_of s1 i = Some row" by (simp add: s1_def)
  then have row: "storable_screen canon row" "numeric (sr_Amount row) \<noteq> None"
    using storable_screen_in [OF fit [unfolded s'], of i row] by (auto dest: map_of_SomeD)
  have "canonical_screen canon row"
    using row(1) by (simp add: storable_screen_def canonical_id_def canonical_screen_def row_def row_of_def)
  with holds_put [OF h _ _ row] i id obtain d1
    where d1: "PGScreenStore_Put db (st_screens p) row = (None, d1)" "holds d1 s1 (st_alerts m)"
    by (auto simp: s1_def)
  define q where "q x = p\<lparr>st_alerts := x, st_world := w1, st_screens := d1\<rparr>" for x
  have wp: "st_world p = w" using env by (simp add: same_env_def w_def)
  have finP: "finalize ?svcP (p\<lparr>st_alerts := x\<rparr>) req score ex dec vend hit =
      (Inr resp, finalize_audit ?svcP (finalize_alert ?svcP (q x) i req ex dec) (event_of req resp now))" for x
  proof -
    have "ss_Put (pg_screen_store db) (st_screens (p\<lparr>st_alerts := x\<rparr>)) (row_of req (answer_of i score ex dec vend hit) now) = (None, d1)"
      using d1(1) by (simp add: row_def resp_def)
    from finalize_stored [OF this, of w1 cops prov th "pg_alert_store db" ul]
    show ?thesis using wp by (simp add: i_def now_def w1_def q_def resp_def)
  qed
  have envq: "same_env (q x) m1" for x using env by (simp add: same_env_def q_def m1_def)
  have "holds (st_alerts (finalize_alert ?svcP (q d1) i req ex dec)) s1 (st_alerts m')"
  proof (cases "dec = DecisionAllow")
    case True
    then show ?thesis using d1(2) by (simp add: a' finalize_alert_store q_def m1_def)
  next
    case False
    let ?j = "uuids w1 (drawn w1)"
    let ?new = "new_alert ?j i (rq_TxID req) (rq_Address req) (rq_Chain req) ex (SeverityFor ex) (clk w1 (ticks w1))"
    obtain ra wa aa where c: "AlertService_Create memory_alert_store w1 (st_alerts m) i (rq_TxID req) (rq_Address req)
        (rq_Chain req) ex (SeverityFor ex) = (ra, wa, aa)" by (metis prod_cases3)
    have aa: "st_alerts m' = aa" using False c by (simp add: a' finalize_alert_store m1_def)
    have j: "?j \<noteq> ''''" "ms_mem (st_alerts m) ?j = None" and mem: "mem_ok (st_alerts m)"
      using ok fresh fresh_nonempty [OF fresh] fresh_not_used [OF fresh, of 1]
      by (auto simp: memory_state_ok_def w1_def w_def)
    from mas.service_create [OF mem j(2,1), of i "rq_TxID req" "rq_Address req" "rq_Chain req" ex "SeverityFor ex"] c
    have "mem_ok aa" "ms_mem aa ?j = Some ?new" by auto
    then have "storable_alert canon ?new" using storable_alert_in [OF fit] aa by simp
    moreover have "i \<in> fst ` set s1" by (simp add: s1_def dom_update)
    ultimately obtain d' where "AlertService_Create (pg_alert_store db) w1 d1 i (rq_TxID req) (rq_Address req)
        (rq_Chain req) ex (SeverityFor ex) = (ra, wa, d')" "holds d' s1 aa"
      using service_create_sim [OF d1(2) _ _ c] by blast
    then show ?thesis using False aa by (simp add: finalize_alert_store q_def)
  qed
  then show ?thesis
    unfolding linked_def finP m'(1) s'
    using finalize_audit_env [OF finalize_alert_env [OF envq]]
    by (intro exI [of _ d1]) (simp add: frame_simps m'(2) q_def)
qed

end

context kyt_service_db
begin

lemma vendor_linked:
  assumes prov: "screen_provider prov" and cache: "verdict_cache cops held"
    and rdy: "ready ord p m"
    and run: "screen_vendor (NewService cops prov th (memory_screen_store ord) memory_alert_store ul) m req = (r, m')"
    and fit: "stores_storable canon numeric (st_screens m') (st_alerts m')"
  shows "linked (\<lambda>p. screen_vendor (NewService cops prov th (pg_screen_store db) (pg_alert_store db) ul) p req) p r m'"
proof -
  let ?svcM = "NewService cops prov th (memory_screen_store ord) memory_alert_store ul"
  let ?svcP = "NewService cops prov th (pg_screen_store db) (pg_alert_store db) ul"
  have same: "st_world p = st_world m" "st_cache p = st_cache m" "st_provider p = st_provider m"
    "st_audit p = st_audit m" "st_metrics p = st_metrics m"
    using rdy by (simp_all add: ready_def same_env_def)
  obtain a w v where v: "prov_Screen prov (st_world m) (st_provider m) (vendor_request_of req) = (a, w, v)"
    by (metis prod_cases3)
  have le: "world_le (st_world m) w" using screen_provider.advances [OF prov v] .
  show ?thesis
  proof (cases a)
    case (Inl e)
    define mt where "mt = (st_metrics m)\<lparr>VendorErrorsTotal := ctr_add (VendorErrorsTotal (st_metrics m)) 1\<rparr>"
    define m2 where "m2 = m\<lparr>st_world := w, st_provider := v, st_metrics := mt\<rparr>"
    define p2 where "p2 = p\<lparr>st_world := w, st_provider := v, st_metrics := mt\<rparr>"
    have run': "finalize ?svcM m2 req 0 ExposureUnknown DecideVendorUnreachable '''' False = (r, m')"
      using run screen_vendor_error [of ?svcM m req e w v] v Inl by (simp add: NewService_def m2_def mt_def)
    have "linked (\<lambda>p. finalize ?svcP p req 0 ExposureUnknown DecideVendorUnreachable '''' False) p2 r m'"
      by (rule finalize_linked [OF ready_step [OF rdy] run' fit])
        (simp_all add: p2_def m2_def same_env_def same le)
    then show ?thesis
    proof (rule linked_by)
      fix x
      have "prov_Screen (svc_provider ?svcP) (st_world (p\<lparr>st_alerts := x\<rparr>)) (st_provider (p\<lparr>st_alerts := x\<rparr>)) (vendor_request_of req)
          = (Inl e, w, v)" using v Inl same by (simp add: NewService_def)
      from screen_vendor_error [OF this]
      show "screen_vendor ?svcP (p\<lparr>st_alerts := x\<rparr>) req
          = finalize ?svcP (p2\<lparr>st_alerts := x\<rparr>) req 0 ExposureUnknown DecideVendorUnreachable '''' False"
        by (cases p) (simp add: p2_def mt_def same [symmetric])
    qed
  next
    case (Inr vr)
    have vd: "verdict_of ?svcP req vr = verdict_of ?svcM req vr" by (simp add: verdict_of_def NewService_def)
    let ?v = "verdict_of ?svcM req vr"
    obtain e w3 c where s: "c_Set cops w (st_cache m) ?v = (e, w3, c)" by (metis prod_cases3)
    have le3: "world_le (st_world m) w3" using world_le_trans [OF le verdict_cache.set_world [OF cache s]] .
    define m2 where "m2 = m\<lparr>st_provider := v, st_world := w3, st_cache := c\<rparr>"
    define p2 where "p2 = p\<lparr>st_provider := v, st_world := w3, st_cache := c\<rparr>"
    have run': "finalize ?svcM m2 req (vr_RiskScore vr) (vd_Exposure ?v) (vd_Decision ?v) (vr_Vendor vr) False = (r, m')"
      using run screen_vendor_answer [of ?svcM m req vr w v cops e w3 c] v Inr s by (simp add: NewService_def m2_def)
    have "linked (\<lambda>p. finalize ?svcP p req (vr_RiskScore vr) (vd_Exposure ?v) (vd_Decision ?v) (vr_Vendor vr) False) p2 r m'"
      by (rule finalize_linked [OF ready_step [OF rdy] run' fit])
        (simp_all add: p2_def m2_def same_env_def same le3)
    then show ?thesis
    proof (rule linked_by)
      fix x
      have pv: "prov_Screen (svc_provider ?svcP) (st_world (p\<lparr>st_alerts := x\<rparr>)) (st_provider (p\<lparr>st_alerts := x\<rparr>)) (vendor_request_of req)
          = (Inr vr, w, v)" "svc_cache ?svcP = Some cops"
        using v Inr same by (simp_all add: NewService_def)
      have "c_Set cops w (st_cache (p\<lparr>st_alerts := x\<rparr>)) (verdict_of ?svcP req vr) = (e, w3, c)"
        unfolding vd using same s by simp
      from screen_vendor_answer [OF pv this]
      show "screen_vendor ?svcP (p\<lparr>st_alerts := x\<rparr>) req
          = finalize ?svcP (p2\<lparr>st_alerts := x\<rparr>) req (vr_RiskScore vr) (vd_Exposure ?v) (vd_Decision ?v) (vr_Vendor vr) False"
        by (cases p) (simp add: p2_def vd)
    qed
  qed
qed

lemma body_linked:
  assumes prov: "screen_provider prov" and cache: "verdict_cache cops held"
    and rdy: "ready ord p m"
    and run: "screen_body (NewService cops prov th (memory_screen_store ord) memory_alert_store ul) m req = (r, m')"
    and fit: "stores_storable canon numeric (st_screens m') (st_alerts m')"
  shows "linked (\<lambda>p. screen_body (NewService cops prov th (pg_screen_store db) (pg_alert_store db) ul) p req) p r m'"
proof -
  let ?svcM = "NewService cops prov th (memory_screen_store ord) memory_alert_store ul"
  let ?svcP = "NewService cops prov th (pg_screen_store db) (pg_alert_store db) ul"
  have same: "st_world p = st_world m" "st_cache p = st_cache m" "st_provider p = st_provider m"
    "st_audit p = st_audit m" "st_metrics p = st_metrics m"
    using rdy by (simp_all add: ready_def same_env_def)
  obtain g w c where g: "c_Get cops (st_world m) (st_cache m) (rq_Address req) (rq_Chain req) = (g, w, c)"
    by (metis prod_cases3)
  have le: "world_le (st_world m) w" using verdict_cache.get_world [OF cache g] .
  let ?hit = "case g of Inr (Some v) \<Rightarrow> Some v | _ \<Rightarrow> None"
  have lookM: "screen_lookup ?svcM m req = (?hit, m\<lparr>st_world := w, st_cache := c\<rparr>)"
    using g by (simp add: screen_lookup_def NewService_def)
  have lookP: "screen_lookup ?svcP (p\<lparr>st_alerts := x\<rparr>) req = (?hit, p\<lparr>st_alerts := x, st_world := w, st_cache := c\<rparr>)" for x
    using g same by (simp add: screen_lookup_def NewService_def)
  show ?thesis
  proof (cases ?hit)
    case (Some v)
    define mt where "mt = (st_metrics m)\<lparr>CacheHitsTotal := ctr_add (CacheHitsTotal (st_metrics m)) 1\<rparr>"
    define m2 where "m2 = m\<lparr>st_world := w, st_cache := c, st_metrics := mt\<rparr>"
    define p2 where "p2 = p\<lparr>st_world := w, st_cache := c, st_metrics := mt\<rparr>"
    have run': "finalize ?svcM m2 req (vd_RiskScore v) (vd_Exposure v) (vd_Decision v) (vd_Vendor v) True = (r, m')"
      using run screen_body_hit [OF lookM [unfolded Some]] by (simp add: m2_def mt_def)
    have "linked (\<lambda>p. finalize ?svcP p req (vd_RiskScore v) (vd_Exposure v) (vd_Decision v) (vd_Vendor v) True) p2 r m'"
      by (rule finalize_linked [OF ready_step [OF rdy] run' fit])
        (simp_all add: p2_def m2_def same_env_def same le)
    then show ?thesis
      by (rule linked_by, unfold screen_body_hit [OF lookP [unfolded Some]], cases p)
        (simp add: p2_def mt_def same [symmetric])
  next
    case None
    define mt where "mt = (st_metrics m)\<lparr>CacheMissesTotal := ctr_add (CacheMissesTotal (st_metrics m)) 1\<rparr>"
    define m2 where "m2 = m\<lparr>st_world := w, st_cache := c, st_metrics := mt\<rparr>"
    define p2 where "p2 = p\<lparr>st_world := w, st_cache := c, st_metrics := mt\<rparr>"
    have run': "screen_vendor ?svcM m2 req = (r, m')"
      using run screen_body_miss [OF lookM [unfolded None]] by (simp add: m2_def mt_def)
    have "linked (\<lambda>p. screen_vendor ?svcP p req) p2 r m'"
      by (rule vendor_linked [OF prov cache ready_step [OF rdy] run' fit])
        (simp_all add: p2_def m2_def same_env_def same le)
    then show ?thesis
      by (rule linked_by, unfold screen_body_miss [OF lookP [unfolded None]], cases p)
        (simp add: p2_def mt_def same [symmetric])
  qed
qed

end

text \<open>The clock readings and counters around a screen.\<close>

definition timed :: "gotime \<Rightarrow> ('c, 'p, 's, 'a) screen_state \<Rightarrow> ('c, 'p, 's, 'a) screen_state" where
  "timed start st =
     (let (end, w) = time_Now (st_world st);
          m = ObserveScreenDuration (time_Sub end start) (st_metrics st)
      in st\<lparr>st_world := w, st_metrics := m\<lparr>ScreenTotal := ctr_add (ScreenTotal m) 1\<rparr>\<rparr>)"

lemma timed_simps [simp]:
  "st_screens (timed start st) = st_screens st" "st_alerts (timed start st) = st_alerts st"
  "st_world (timed start st) = tick (st_world st)"
  "same_env p m \<Longrightarrow> same_env (timed start p) (timed start m)"
  by (simp_all add: timed_def same_env_def time_Now_def Let_def)

lemma Service_Screen_timed:
  "validate req = None \<Longrightarrow>
     Service_Screen svc st req =
       (let (r, st1) = screen_body svc (st\<lparr>st_world := tick (st_world st)\<rparr>) req in (r, timed (clk (st_world st) (ticks (st_world st))) st1))"
  by (simp add: Service_Screen_def timed_def time_Now_def Let_def split: prod.split)

lemma path_over_memory:
  "screen_provider prov \<Longrightarrow> verdict_cache cops held \<Longrightarrow>
     screen_path prov cops held (memory_screen_store ord) (mss_ok ord) map_of memory_alert_store mem_ok ms_mem"
  by (intro screen_path.intro mss.screen_store_axioms mas.alert_store_axioms)

lemma screen_over_memory:
  assumes "screen_provider prov" and "verdict_cache cops held" and "memory_state_ok ord m" and "validate req = None"
    and "Service_Screen (NewService cops prov th (memory_screen_store ord) memory_alert_store ul) m req = (r, m')"
  shows "\<exists>resp. r = Inr resp \<and> screen_effect req resp (map_of (st_screens m)) (map_of (st_screens m'))
        (ms_mem (st_alerts m)) (ms_mem (st_alerts m')) (st_audit m) (st_audit m')
    \<and> memory_state_ok ord m' \<and> world_le (st_world m) (st_world m')"
  using screen_path.screen_has_effect [OF path_over_memory [OF assms(1,2)], of ord m req th ul] assms(3-5)
  by (auto simp: memory_state_ok_def screen_path.path_ok_def [OF path_over_memory [OF assms(1,2)]])

lemma screen_memory_ok:
  assumes "screen_provider prov" and "verdict_cache cops held" and "memory_state_ok ord m"
    and "Service_Screen (NewService cops prov th (memory_screen_store ord) memory_alert_store ul) m req = (r, m')"
  shows "memory_state_ok ord m' \<and> world_le (st_world m) (st_world m')"
proof (cases "validate req")
  case (Some e)
  then show ?thesis using assms by (auto simp: Service_Screen_def)
next
  case None
  then show ?thesis using screen_over_memory [OF assms(1-3) None assms(4)] by blast
qed

context kyt_service_db
begin

lemma screen_linked:
  assumes prov: "screen_provider prov" and cache: "verdict_cache cops held" and rdy: "ready ord p m"
    and run: "Service_Screen (NewService cops prov th (memory_screen_store ord) memory_alert_store ul) m req = (r, m')"
    and fit: "stores_storable canon numeric (st_screens m') (st_alerts m')"
  shows "linked (\<lambda>p. Service_Screen (NewService cops prov th (pg_screen_store db) (pg_alert_store db) ul) p req) p r m'"
proof (cases "validate req")
  case (Some e)
  then have "r = Inl e" "m' = m" using run by (simp_all add: Service_Screen_def)
  then show ?thesis using Some rdy by (auto simp: linked_def Service_Screen_def ready_def)
next
  case None
  let ?svcM = "NewService cops prov th (memory_screen_store ord) memory_alert_store ul"
  let ?svcP = "NewService cops prov th (pg_screen_store db) (pg_alert_store db) ul"
  have w: "st_world p = st_world m" using rdy by (simp add: ready_def same_env_def)
  define start where "start = clk (st_world m) (ticks (st_world m))"
  define m0 p0 where "m0 = m\<lparr>st_world := tick (st_world m)\<rparr>" and "p0 = p\<lparr>st_world := tick (st_world m)\<rparr>"
  obtain m1 where m1: "screen_body ?svcM m0 req = (r, m1)" "m' = timed start m1"
    using run Service_Screen_timed [OF None, of ?svcM m] by (auto simp: m0_def start_def Let_def split: prod.splits)
  have fit1: "stores_storable canon numeric (st_screens m1) (st_alerts m1)" using fit m1(2) by simp
  have "same_env p0 m0" using rdy by (simp add: ready_def same_env_def p0_def m0_def)
  then have "linked (\<lambda>p. screen_body ?svcP p req) p0 r m1"
    by (intro body_linked [OF prov cache ready_step [OF rdy] m1(1) fit1]) (simp_all add: p0_def m0_def)
  then obtain d where d: "\<And>x. fst (screen_body ?svcP (p0\<lparr>st_alerts := x\<rparr>) req) = r"
    "\<And>x. same_env (snd (screen_body ?svcP (p0\<lparr>st_alerts := x\<rparr>) req)) m1"
    "\<And>x. st_screens (snd (screen_body ?svcP (p0\<lparr>st_alerts := x\<rparr>) req)) = d"
    "holds (st_alerts (snd (screen_body ?svcP (p0\<lparr>st_alerts := d\<rparr>) req))) (st_screens m1) (st_alerts m1)"
    unfolding linked_def by blast
  have run': "Service_Screen ?svcP (p\<lparr>st_alerts := x\<rparr>) req =
      (r, timed start (snd (screen_body ?svcP (p0\<lparr>st_alerts := x\<rparr>) req)))" for x
  proof -
    have "p\<lparr>st_alerts := x, st_world := tick (st_world m)\<rparr> = p0\<lparr>st_alerts := x\<rparr>" by (cases p) (simp add: p0_def)
    then show ?thesis using Service_Screen_timed [OF None, of ?svcP "p\<lparr>st_alerts := x\<rparr>"] d(1) [of x] w
      by (simp add: start_def Let_def split_beta)
  qed
  show ?thesis unfolding linked_def run' m1(2) using d(2-4) by (intro exI [of _ d]) simp
qed

end

section \<open>A review\<close>

lemma review_record_stored: "review_record alerts ex sev (stored_screen numeric micro r) = review_record alerts ex sev r"
  by (intro ext) (simp add: review_record_def)

lemma same_sorted:
  assumes "mset xs = mset ys" and "sorted (map f xs)" and "sorted (map f ys)" and "distinct (map f ys)"
  shows "xs = ys"
proof -
  have "mset (map f xs) = mset (map f ys)" using assms(1) by (metis mset_map)
  then have d: "distinct (map f xs)" using assms(4) by (metis mset_eq_imp_distinct_iff)
  have s: "set xs = set ys" using assms(1) by (metis set_mset_mset)
  have "inj_on f (set xs \<union> set ys)" using d s by (simp add: distinct_map)
  then show ?thesis
    by (rule map_sorted_distinct_set_unique) (simp_all only: assms d s)
qed

context kyt_service_db
begin

text \<open>The loop of a review.\<close>

lemma review_sim:
  assumes "holds d s a" and "mem_ok a" and "fresh_ids w" and "dom (ms_mem a) \<subseteq> used_ids w"
    and "sr_ScreenID ` set rs \<subseteq> fst ` set s"
    and "fold (review_record memory_alert_store ex (SeverityFor ex)) rs (w, a) = (w', a')"
    and "\<forall>b \<in> ran (ms_mem a'). storable_alert canon b"
  shows "\<exists>d'. fold (review_record (pg_alert_store db) ex (SeverityFor ex)) (map (stored_screen numeric micro) rs) (w, d) = (w', d')
    \<and> holds d' s a'"
  using assms(1-6)
proof (induction rs arbitrary: d w a)
  case Nil
  then show ?case by simp
next
  case (Cons r rs)
  show ?case
  proof (cases "sr_Decision r = DecisionAllow")
    case False
    then show ?thesis using Cons.IH [OF Cons.prems(1-4)] Cons.prems(5,6) by (simp add: review_record_def)
  next
    case True
    let ?i = "uuids w (drawn w)"
    let ?w1 = "w\<lparr>drawn := Suc (drawn w), ticks := Suc (ticks w)\<rparr>"
    let ?a = "new_alert ?i (sr_ScreenID r) (sr_TxID r) (sr_Address r) (sr_Chain r) ex (SeverityFor ex) (clk w (ticks w))"
    have new: "ms_mem a ?i = None" "?i \<noteq> ''''"
      using Cons.prems(3,4) fresh_not_used [of w 0] fresh_nonempty [of w "drawn w"] by auto
    obtain a1 where c: "AlertService_Create memory_alert_store w a (sr_ScreenID r) (sr_TxID r) (sr_Address r) (sr_Chain r) ex
        (SeverityFor ex) = (Inr ?a, ?w1, a1)" "mem_ok a1" "ms_mem a1 = (ms_mem a)(?i \<mapsto> ?a)"
      using mas.service_create [OF Cons.prems(2) new, of "sr_ScreenID r" "sr_TxID r" "sr_Address r" "sr_Chain r" ex
          "SeverityFor ex"] by blast
    have fresh1: "fresh_ids ?w1" using Cons.prems(3) by (simp add: fresh_ids_def)
    have dom1: "dom (ms_mem a1) \<subseteq> used_ids ?w1"
      using c(3) Cons.prems(4) used_ids_mono [of w ?w1] by (auto simp: used_ids_def)
    have "review_record memory_alert_store ex (SeverityFor ex) r (w, a) = (?w1, a1)"
      using True c(1) by (simp add: review_record_def)
    then have rest: "fold (review_record memory_alert_store ex (SeverityFor ex)) rs (?w1, a1) = (w', a')"
      using Cons.prems(6) by simp
    have "ms_mem a' = ms_mem a1 ++ map_of (review_alerts ?w1 ex (allowed rs))"
      using mas.review_loop [OF c(2) fresh1 dom1, of ex rs] rest by auto
    moreover have "map_of (review_alerts ?w1 ex (allowed rs)) ?i = None"
      using review_alerts_unused [OF fresh1, of ex "allowed rs"] by (auto simp: map_of_eq_None_iff used_ids_def)
    ultimately have "ms_mem a' ?i = Some ?a" using c(3) by (simp add: map_add_def)
    then have "storable_alert canon ?a" using assms(7) by (auto simp: ran_def)
    then obtain d1 where d1: "AlertService_Create (pg_alert_store db) w d (sr_ScreenID r) (sr_TxID r) (sr_Address r) (sr_Chain r) ex
        (SeverityFor ex) = (Inr ?a, ?w1, d1)" "holds d1 s a1"
      using service_create_sim [OF Cons.prems(1) _ _ c(1)] Cons.prems(5) by auto
    have "review_record (pg_alert_store db) ex (SeverityFor ex) r (w, d) = (?w1, d1)"
      using True d1(1) by (simp add: review_record_def)
    then show ?thesis using Cons.IH [OF d1(2) c(2) fresh1 dom1 _ rest] Cons.prems(5)
      by (simp add: review_record_stored)
  qed
qed

lemma list_sim:
  assumes h: "holds d s a" and ord: "\<forall>m. mset (ord m) = mset m" and texts: "sql_text ad" "sql_text ch"
    and times: "distinct (map (\<lambda>r. micro (sr_CreatedAt r)) (filter (\<lambda>r. sr_Address r = ad \<and> sr_Chain r = ch) (map snd s)))"
    and ys: "MemoryScreenStore_ListByAddress ord s ad ch = Inr ys"
  shows "PGScreenStore_ListByAddress db d ad ch = Inr (map (stored_screen numeric micro) ys) \<and> set ys \<subseteq> snd ` set s"
proof -
  let ?f = "stored_screen numeric micro"
  have rel: "srel d (as_stored numeric micro s)" using h by (simp add: db_holds_def)
  let ?here = "\<lambda>r. sr_Address r = ad \<and> sr_Chain r = ch"
  from sim_list_screens [OF rel ord texts]
  obtain xs zs where l: "PGScreenStore_ListByAddress db d ad ch = Inr xs"
    "MemoryScreenStore_ListByAddress ord (as_stored numeric micro s) ad ch = Inr zs" "mset xs = mset zs" "sorted (map sr_CreatedAt xs)"
    by blast
  have y: "ys = sort_key sr_CreatedAt (filter ?here (map snd (ord s)))"
    and z: "mset zs = mset (filter ?here (map snd (ord (as_stored numeric micro s))))"
    using ys l(2) by (auto simp: MemoryScreenStore_ListByAddress_def)
  have my: "mset ys = mset (filter ?here (map snd s))" using ord by (simp add: y mset_filter)
  have "mset (filter ?here (map snd (ord (as_stored numeric micro s)))) = filter_mset ?here (image_mset snd (mset (as_stored numeric micro s)))"
    using ord by (simp add: mset_filter)
  also have "\<dots> = image_mset ?f (filter_mset ?here (image_mset snd (mset s)))"
    by (simp add: as_stored_def multiset.map_comp o_def filter_mset_image_mset)
  also have "\<dots> = mset (map ?f ys)" by (simp add: my mset_filter)
  finally have m: "mset xs = mset (map ?f ys)" using l(3) z by simp
  have "sorted (map sr_CreatedAt ys)" by (simp add: y)
  then have sorted: "sorted (map sr_CreatedAt (map ?f ys))"
    by (auto simp: sorted_map o_def intro: micro_mono elim: sorted_wrt_mono_rel [rotated])
  have "mset (map (\<lambda>r. micro (sr_CreatedAt r)) ys) = mset (map (\<lambda>r. micro (sr_CreatedAt r)) (filter ?here (map snd s)))"
    unfolding mset_map my ..
  then have "distinct (map (\<lambda>r. micro (sr_CreatedAt r)) ys)" using times mset_eq_imp_distinct_iff by blast
  then have "distinct (map sr_CreatedAt (map ?f ys))" by (simp add: o_def)
  from same_sorted [OF m l(4) sorted this] have "xs = map ?f ys" .
  moreover have "set (ord s) = set s" using ord by (metis mset_eq_setD)
  then have "set ys \<subseteq> snd ` set s" unfolding y by auto
  ultimately show ?thesis using l(1) by simp
qed

end

end
