(* ===== verification/Pg_Run.thy ===== *)
theory Pg_Run
  imports Pg_Service
begin

text \<open>
  The whole service over one PostgreSQL database, against the service over the in-memory stores: requests,
  deliveries and reviews get the same answers, and what is known of the in-memory service holds of the
  tables.
\<close>

section \<open>Calls to a shared database\<close>

lemma on_one_db_alerts:
  assumes "st_alerts (ks_core p) = st_screens (ks_core p)" and "call p = (oc, p1)"
    and "st_screens (ks_core p1) = st_screens (ks_core p)"
  shows "on_one_db call p = (oc, with_screen_db p1 (st_alerts (ks_core p1)))"
proof -
  have "with_alert_db p (st_screens (ks_core p)) = p" using assms(1) by (simp add: with_alert_db_def)
  then show ?thesis using assms(2,3) by (simp add: on_one_db_def)
qed

lemma on_one_db_same:
  assumes "\<And>d. call (with_alert_db p d) = call' (with_alert_db q d)" and "st_alerts (ks_core p) = st_alerts (ks_core q)"
  shows "on_one_db call p = on_one_db call' q"
proof -
  have "with_alert_db p (st_alerts (ks_core p)) = p" "with_alert_db q (st_alerts (ks_core q)) = q"
    by (simp_all add: with_alert_db_def)
  then have "call p = call' q" using assms(1) [of "st_alerts (ks_core p)"] assms(2) by simp
  then show ?thesis using assms(1) by (simp add: on_one_db_def)
qed

lemma memory_state_ok_alerts:
  "memory_state_ok ord (ks_core st) \<Longrightarrow> mem_ok a \<Longrightarrow> world_le (st_world (ks_core st)) w \<Longrightarrow> dom (ms_mem a) \<subseteq> used_ids w \<Longrightarrow>
     memory_state_ok ord (ks_core (with_alerts st w a))"
  using used_ids_mono [of "st_world (ks_core st)" w] world_le_fresh [of "st_world (ks_core st)" w]
  by (auto simp: memory_state_ok_def with_alerts_def)

text \<open>
  Answers are alike when they are equal, but for three things.  The times of an alert that was read back are
  those the database keeps.  A listing is in the order of creation.  A listing without alerts is the \<open>nil\<close>
  slice over the database, and an empty one in memory (\<open>null\<close> and \<open>[]\<close> on the wire).
\<close>

definition listing_alike :: "(gotime \<Rightarrow> gotime) \<Rightarrow> Alert slice \<Rightarrow> Alert slice \<Rightarrow> bool" where
  "listing_alike micro xs ys \<longleftrightarrow>
     (if items ys = [] then xs = None \<and> ys = Some []
      else xs \<noteq> None \<and> ys \<noteq> None \<and> mset (items xs) = mset (map (micro_alert micro) (items ys))
        \<and> sorted (map al_CreatedAt (items xs)))"

fun body_alike :: "(gotime \<Rightarrow> gotime) \<Rightarrow> Body \<Rightarrow> Body \<Rightarrow> bool" where
  "body_alike micro (BAlert a) (BAlert b) \<longleftrightarrow> same_alert micro a b"
| "body_alike micro (BAlerts xs) (BAlerts ys) \<longleftrightarrow> listing_alike micro xs ys"
| "body_alike micro x y \<longleftrightarrow> x = y"

definition resp_alike :: "(gotime \<Rightarrow> gotime) \<Rightarrow> HttpResp \<Rightarrow> HttpResp \<Rightarrow> bool" where
  "resp_alike micro x y \<longleftrightarrow> hp_Status x = hp_Status y \<and> hp_RequestID x = hp_RequestID y \<and> body_alike micro (hp_Body x) (hp_Body y)"

text \<open>The message of an alert that was read back.\<close>

definition proto_alike ::
    "(gotime \<Rightarrow> gotime) \<Rightarrow> (gotime \<Rightarrow> string) \<Rightarrow> grpc_status + pb_Alert \<Rightarrow> grpc_status + pb_Alert \<Rightarrow> bool" where
  "proto_alike micro fmt x y \<longleftrightarrow>
     rel_sum (=) (\<lambda>p q. \<exists>a. q = toProtoAlert fmt a \<and> p = toProtoAlert fmt (micro_alert micro a)) x y"

fun outcome_alike :: "(gotime \<Rightarrow> gotime) \<Rightarrow> (gotime \<Rightarrow> string) \<Rightarrow> outcome \<Rightarrow> outcome \<Rightarrow> bool" where
  "outcome_alike micro fmt (OHttp x) (OHttp y) \<longleftrightarrow> resp_alike micro x y"
| "outcome_alike micro fmt (OAlert x) (OAlert y) \<longleftrightarrow> proto_alike micro fmt x y"
| "outcome_alike micro fmt x y \<longleftrightarrow> x = y"

text \<open>
  The ids a call asks for are canonical UUIDs or no UUIDs, and its texts such as the server takes; the screens
  a review finds were made in different microseconds.
\<close>

fun call_plain ::
    "(string \<Rightarrow> string option) \<Rightarrow> (gotime \<Rightarrow> gotime) \<Rightarrow> ('c, 'p, MemoryScreenStore, 'a) kyt_state \<Rightarrow> call \<Rightarrow> bool" where
  "call_plain canon micro m (CallHttp r) \<longleftrightarrow> list_all (plain_id canon) ('''' # hr_Path r) \<and> sql_text (hr_Query r ''status'')"
| "call_plain canon micro m (CallScreen p) \<longleftrightarrow> True"
| "call_plain canon micro m (CallGetAlert i) \<longleftrightarrow> plain_id canon i"
| "call_plain canon micro m (RunReview n) \<longleftrightarrow>
     (n < length (ks_pending m) \<longrightarrow>
      (let rec = ks_pending m ! n
       in sql_text (rc_Address rec) \<and> sql_text (rc_Chain rec)
        \<and> distinct (map (\<lambda>r. micro (sr_CreatedAt r))
            (filter (\<lambda>r. sr_Address r = rc_Address rec \<and> sr_Chain r = rc_Chain rec) (map snd (st_screens (ks_core m)))))))"

section \<open>Handlers\<close>

lemma with_parts [simp]:
  "ks_seen (with_screen_db st d) = ks_seen st" "ks_pending (with_screen_db st d) = ks_pending st"
  "st_screens (ks_core (with_screen_db st d)) = d" "st_alerts (ks_core (with_screen_db st d)) = st_alerts (ks_core st)"
  "st_world (ks_core (with_screen_db st d)) = st_world (ks_core st)"
  "same_env (ks_core (with_screen_db st d)) m = same_env (ks_core st) m"
  "st_alerts (ks_core (with_alert_db st d)) = d"
  by (simp_all add: with_screen_db_def with_alert_db_def)

lemma with_alerts_parts [simp]:
  "ks_seen (with_alerts st w a) = ks_seen st" "ks_pending (with_alerts st w a) = ks_pending st"
  "st_screens (ks_core (with_alerts st w a)) = st_screens (ks_core st)" "st_alerts (ks_core (with_alerts st w a)) = a"
  "st_world (ks_core (with_alerts st w a)) = w"
  by (simp_all add: with_alerts_def)

lemma same_env_with_alerts:
  "same_env (ks_core p) (ks_core m) \<Longrightarrow> same_env (ks_core (with_alerts p w d)) (ks_core (with_alerts m w a))"
  by (simp add: same_env_def with_alerts_def)

context kyt_service_db
begin

definition kyt_ready ::
    "(MemoryScreenStore \<Rightarrow> MemoryScreenStore) \<Rightarrow> ('c, 'p, 'd, 'd) kyt_state
     \<Rightarrow> ('c, 'p, MemoryScreenStore, MemoryStore) kyt_state \<Rightarrow> bool" where
  "kyt_ready ord p m \<longleftrightarrow> ready ord (ks_core p) (ks_core m) \<and> st_alerts (ks_core p) = st_screens (ks_core p)
     \<and> ks_seen p = ks_seen m \<and> ks_pending p = ks_pending m"

text \<open>A call over the database gets an answer like \<open>oc\<close> and ends in a state like \<open>m\<close>.\<close>

definition served ::
    "(MemoryScreenStore \<Rightarrow> MemoryScreenStore) \<Rightarrow> ('o \<Rightarrow> 'o \<Rightarrow> bool)
     \<Rightarrow> (('c, 'p, 'd, 'd) kyt_state \<Rightarrow> 'o \<times> ('c, 'p, 'd, 'd) kyt_state) \<Rightarrow> ('c, 'p, 'd, 'd) kyt_state \<Rightarrow> 'o
     \<Rightarrow> ('c, 'p, MemoryScreenStore, MemoryStore) kyt_state \<Rightarrow> bool" where
  "served ord R call p oc m \<longleftrightarrow> (\<exists>oc' p'. on_one_db call p = (oc', p') \<and> R oc' oc \<and> kyt_ready ord p' m)"

lemma served_alerts:
  assumes "kyt_ready ord p m" and "call p = (oc', p')" and "R oc' oc" and "st_screens (ks_core p') = st_screens (ks_core p)"
    and "same_env (ks_core p') (ks_core m')" and "ks_seen p' = ks_seen m'" and "ks_pending p' = ks_pending m'"
    and "holds (st_alerts (ks_core p')) (st_screens (ks_core m')) (st_alerts (ks_core m'))"
    and "memory_state_ok ord (ks_core m')" and "world_le (st_world (ks_core m)) (st_world (ks_core m'))"
  shows "served ord R call p oc m'"
proof -
  have db: "st_alerts (ks_core p) = st_screens (ks_core p)"
    using assms(1) by (simp add: kyt_ready_def ready_def)
  have "on_one_db call p = (oc', with_screen_db p' (st_alerts (ks_core p')))"
    by (rule on_one_db_alerts [where call = call, OF db assms(2,4)])
  then show ?thesis using assms
    by (intro served_def [THEN iffD2] exI conjI) (auto simp: kyt_ready_def ready_def)
qed

lemma served_same:
  assumes "kyt_ready ord p m" and "call p = (oc', p)" and "R oc' oc"
  shows "served ord R call p oc m"
proof -
  have k: "same_env (ks_core p) (ks_core m)" "ks_seen p = ks_seen m" "ks_pending p = ks_pending m"
    "holds (st_alerts (ks_core p)) (st_screens (ks_core m)) (st_alerts (ks_core m))" "memory_state_ok ord (ks_core m)"
    using assms(1) by (simp_all add: kyt_ready_def ready_def)
  show ?thesis by (rule served_alerts [where R = R and call = call, OF assms refl k world_le_refl])
qed

lemma served_screen:
  assumes rdy: "kyt_ready ord p m" and l: "linked op (ks_core p) r core"
    and call: "\<And>st. call st = (f (fst (op (ks_core st))), st\<lparr>ks_core := snd (op (ks_core st))\<rparr>)" and R: "R (f r) oc"
    and ok: "memory_state_ok ord core" and le: "world_le (st_world (ks_core m)) (st_world core)"
  shows "served ord R call p oc (m\<lparr>ks_core := core\<rparr>)"
proof -
  obtain d where d: "\<And>x. fst (op ((ks_core p)\<lparr>st_alerts := x\<rparr>)) = r" "\<And>x. same_env (snd (op ((ks_core p)\<lparr>st_alerts := x\<rparr>))) core"
    "\<And>x. st_screens (snd (op ((ks_core p)\<lparr>st_alerts := x\<rparr>))) = d"
    "holds (st_alerts (snd (op ((ks_core p)\<lparr>st_alerts := d\<rparr>)))) (st_screens core) (st_alerts core)"
    using l unfolding linked_def by blast
  have "ks_core p\<lparr>st_alerts := st_alerts (ks_core p)\<rparr> = ks_core p" by simp
  then have d1: "st_screens (ks_core (snd (call p))) = d" using d(3) [of "st_alerts (ks_core p)"] by (simp add: call)
  define q where "q = snd (op ((ks_core p)\<lparr>st_alerts := d\<rparr>))"
  have "on_one_db call p = (f r, with_screen_db (p\<lparr>ks_core := q\<rparr>) (st_alerts q))"
    using d(1) [of d] by (simp add: on_one_db_def d1) (simp add: call with_alert_db_def q_def)
  moreover have "kyt_ready ord (with_screen_db (p\<lparr>ks_core := q\<rparr>) (st_alerts q)) (m\<lparr>ks_core := core\<rparr>)"
    using rdy d(2) [of d] d(4) ok by (simp add: kyt_ready_def ready_def q_def)
  ultimately show ?thesis using R by (auto simp: served_def)
qed

end

abbreviation services_in_memory ::
    "(MemoryScreenStore \<Rightarrow> MemoryScreenStore) \<Rightarrow> 'c CacheOps \<Rightarrow> 'p ScreenProvider \<Rightarrow> Thresholds \<Rightarrow> (string \<Rightarrow> string) \<Rightarrow> secrets
     \<Rightarrow> ('c, 'p, MemoryScreenStore, MemoryStore) Services" where
  "services_in_memory ord cops prov th ul secrets \<equiv>
     store_services cops prov th ul secrets (memory_screen_store ord) memory_alert_store"

abbreviation services_in_db ::
    "'d DB \<Rightarrow> 'c CacheOps \<Rightarrow> 'p ScreenProvider \<Rightarrow> Thresholds \<Rightarrow> (string \<Rightarrow> string) \<Rightarrow> secrets \<Rightarrow> ('c, 'p, 'd, 'd) Services" where
  "services_in_db db cops prov th ul secrets \<equiv>
     store_services cops prov th ul secrets (pg_screen_store db) (pg_alert_store db)"

abbreviation kyt_storable ::
    "(string \<Rightarrow> string option) \<Rightarrow> (string \<Rightarrow> string option) \<Rightarrow> ('c, 'p, MemoryScreenStore, MemoryStore) kyt_state \<Rightarrow> bool" where
  "kyt_storable canon numeric m \<equiv> stores_storable canon numeric (st_screens (ks_core m)) (st_alerts (ks_core m))"

lemma resp_alike_refl: "(\<nexists>xs. hp_Body r = BAlerts xs) \<Longrightarrow> resp_alike micro r r"
  by (cases "hp_Body r") (simp_all add: resp_alike_def)

lemma resp_alike_simps [simp]:
  "resp_alike micro (writeError rid e) (writeError rid e)"
  "resp_alike micro (writeJSON rid n (BScreen x)) (writeJSON rid n (BScreen x))"
  "resp_alike micro (webhook_response rid res) (webhook_response rid res)"
  "resp_alike micro (healthz rid) (healthz rid)"
  by (auto intro!: resp_alike_refl simp: writeError_def writeJSON_def webhook_response_def healthz_def Let_def)

lemma resp_alike_alert:
  "alert_alike micro x y \<Longrightarrow>
     resp_alike micro (case x of Inl e \<Rightarrow> writeError rid e | Inr a \<Rightarrow> writeJSON rid n (BAlert a))
       (case y of Inl e \<Rightarrow> writeError rid e | Inr a \<Rightarrow> writeJSON rid n (BAlert a))"
  by (cases x; cases y) (simp, simp, simp, simp add: resp_alike_def writeJSON_def)

lemma proto_alike_simps [simp]:
  "proto_alike micro fmt (Inl s) (Inl s)"
  "proto_alike micro fmt (Inr (toProtoAlert fmt (micro_alert micro a))) (Inr (toProtoAlert fmt a))"
  by (auto simp: proto_alike_def)

text \<open>What the alert operations do to the in-memory stores.\<close>

lemma assign_memory_ok:
  assumes "memory_state_ok ord (ks_core m)" and "AlertService_Assign memory_alert_store (st_alerts (ks_core m)) i who = (r, a)"
  shows "memory_state_ok ord (ks_core (with_alerts m (st_world (ks_core m)) a)) \<and> mem_ok a"
proof -
  have ok: "mem_ok (st_alerts (ks_core m))" "dom (ms_mem (st_alerts (ks_core m))) \<subseteq> used_ids (st_world (ks_core m))"
    using assms(1) by (simp_all add: memory_state_ok_def)
  have "mem_ok a"
    using assms(2) ok(1) mas.service_assign [OF ok(1), of i who] mas.update_present [OF ok(1)] mas.keyed [OF ok(1)]
    by (fastforce split: option.splits if_splits)
  then show ?thesis
    using memory_state_ok_alerts [OF assms(1) _ world_le_refl, of a] assign_dom [OF ok(1) assms(2)] ok(2) by simp
qed

lemma close_memory_ok:
  assumes "memory_state_ok ord (ks_core m)"
    and "AlertService_Close memory_alert_store (st_world (ks_core m)) (st_alerts (ks_core m)) i who = (r, w, a)"
  shows "memory_state_ok ord (ks_core (with_alerts m w a)) \<and> mem_ok a \<and> world_le (st_world (ks_core m)) w"
proof -
  have ok: "mem_ok (st_alerts (ks_core m))" "dom (ms_mem (st_alerts (ks_core m))) \<subseteq> used_ids (st_world (ks_core m))"
    using assms(1) by (simp_all add: memory_state_ok_def)
  have d: "dom (ms_mem a) = dom (ms_mem (st_alerts (ks_core m)))" "world_le (st_world (ks_core m)) w"
    using close_dom [OF ok(1) assms(2)] by simp_all
  have "mem_ok a"
    using assms(2) ok(1) mas.service_close [OF ok(1), of "st_world (ks_core m)" i who] mas.update_present [OF ok(1)] mas.keyed [OF ok(1)]
    by (fastforce split: option.splits if_splits)
  then show ?thesis
    using memory_state_ok_alerts [OF assms(1) _ d(2), of a] d ok(2) used_ids_mono [OF d(2)] by auto
qed

context kyt_service_db
begin

lemma screen_served:
  assumes prov: "screen_provider prov" and cache: "verdict_cache cops held" and rdy: "kyt_ready ord p m"
    and run: "screenHandler (services_in_memory ord cops prov th ul secrets) rid r m = (oc, m')" and fit: "kyt_storable canon numeric m'"
  shows "served ord (resp_alike micro) (screenHandler (services_in_db db cops prov th ul secrets) rid r) p oc m'"
proof (cases "decodeJSON unmarshal_request r")
  case (Inl e)
  then have "m' = m" "oc = writeError rid e" using run by (simp_all add: screenHandler_def)
  then show ?thesis using Inl by (auto simp: screenHandler_def intro: served_same [OF rdy, of _ "writeError rid e"])
next
  case (Inr req)
  let ?svcM = "NewService cops prov th (memory_screen_store ord) memory_alert_store ul"
  let ?svcP = "NewService cops prov th (pg_screen_store db) (pg_alert_store db) ul"
  obtain x core where s: "Service_Screen ?svcM (ks_core m) req = (x, core)" by fastforce
  let ?f = "\<lambda>x. case x of Inl err \<Rightarrow> writeError rid err | Inr resp \<Rightarrow> writeJSON rid StatusOK (BScreen resp)"
  have m': "oc = ?f x" "m' = m\<lparr>ks_core := core\<rparr>" using run Inr s by (auto simp: screenHandler_def split: sum.splits)
  have rc: "ready ord (ks_core p) (ks_core m)" using rdy by (simp add: kyt_ready_def)
  then have "memory_state_ok ord (ks_core m)" by (simp add: ready_def)
  note eff = screen_memory_ok [OF prov cache this s]
  have "linked (\<lambda>p. Service_Screen ?svcP p req) (ks_core p) x core"
    using fit m'(2) by (intro screen_linked [OF prov cache rc s]) simp
  then show ?thesis unfolding m'
  proof (rule served_screen [OF rdy, where f = ?f])
    fix st
    show "screenHandler (services_in_db db cops prov th ul secrets) rid r st =
        (?f (fst (Service_Screen ?svcP (ks_core st) req)), st\<lparr>ks_core := snd (Service_Screen ?svcP (ks_core st) req)\<rparr>)"
      using Inr by (simp add: screenHandler_def split: sum.split prod.split)
  qed (use eff in \<open>simp_all split: sum.split\<close>)
qed

lemma grpc_screen_served:
  assumes prov: "screen_provider prov" and cache: "verdict_cache cops held" and rdy: "kyt_ready ord p m"
    and run: "grpc_Screen (services_in_memory ord cops prov th ul secrets) q m = (oc, m')" and fit: "kyt_storable canon numeric m'"
  shows "served ord (=) (grpc_Screen (services_in_db db cops prov th ul secrets) q) p oc m'"
proof -
  let ?svcM = "NewService cops prov th (memory_screen_store ord) memory_alert_store ul"
  let ?svcP = "NewService cops prov th (pg_screen_store db) (pg_alert_store db) ul"
  let ?req = "toScreenRequest q"
  obtain x core where s: "Service_Screen ?svcM (ks_core m) ?req = (x, core)" by fastforce
  let ?f = "\<lambda>x. case x of Inl err \<Rightarrow> Inl (toGRPCError err) | Inr resp \<Rightarrow> Inr (toProtoResponse resp)"
  have m': "oc = ?f x" "m' = m\<lparr>ks_core := core\<rparr>" using run s by (auto simp: grpc_Screen_def split: sum.splits)
  have rc: "ready ord (ks_core p) (ks_core m)" using rdy by (simp add: kyt_ready_def)
  then have "memory_state_ok ord (ks_core m)" by (simp add: ready_def)
  note eff = screen_memory_ok [OF prov cache this s]
  have "linked (\<lambda>p. Service_Screen ?svcP p ?req) (ks_core p) x core"
    using fit m'(2) by (intro screen_linked [OF prov cache rc s]) simp
  then show ?thesis unfolding m'
  proof (rule served_screen [OF rdy, where f = ?f])
    fix st
    show "grpc_Screen (services_in_db db cops prov th ul secrets) q st =
        (?f (fst (Service_Screen ?svcP (ks_core st) ?req)), st\<lparr>ks_core := snd (Service_Screen ?svcP (ks_core st) ?req)\<rparr>)"
      by (simp add: grpc_Screen_def split: sum.split prod.split)
  qed (use eff in simp_all)
qed

end

context kyt_service_db
begin

lemma ready_facts:
  assumes "kyt_ready ord p m"
  shows "holds (st_alerts (ks_core p)) (st_screens (ks_core m)) (st_alerts (ks_core m))"
    and "memory_state_ok ord (ks_core m)" and "same_env (ks_core p) (ks_core m)"
    and "st_world (ks_core p) = st_world (ks_core m)"
    and "ks_seen p = ks_seen m" and "ks_pending p = ks_pending m" and "st_screens (ks_core p) = st_alerts (ks_core p)"
  using assms by (simp_all add: kyt_ready_def ready_def same_env_def)

lemma get_served:
  assumes rdy: "kyt_ready ord p m" and i: "plain_id canon i"
    and run: "getAlertHandler (services_in_memory ord cops prov th ul secrets) rid i m = (oc, m')"
  shows "served ord (resp_alike micro) (getAlertHandler (services_in_db db cops prov th ul secrets) rid i) p oc m'"
proof -
  note get = service_get_sim [OF ready_facts(1) [OF rdy] i]
  let ?call = "getAlertHandler (services_in_db db cops prov th ul secrets) rid i"
  let ?f = "\<lambda>x. case x of Inl e \<Rightarrow> writeError rid e | Inr a \<Rightarrow> writeJSON rid StatusOK (BAlert a)"
  let ?x = "AlertService_Get memory_alert_store (st_alerts (ks_core m)) i"
  have "m' = m" "oc = ?f ?x" "?call p = (?f (map_sum id (micro_alert micro) ?x), p)"
    using run by (simp_all add: getAlertHandler_def get split: sum.splits)
  moreover have "alert_alike micro (map_sum id (micro_alert micro) ?x) ?x"
    by (cases ?x) (simp_all add: same_alert_def)
  ultimately show ?thesis
    using served_same [where R = "resp_alike micro" and call = ?call, OF rdy _ resp_alike_alert] by simp
qed

lemma grpc_get_served:
  assumes rdy: "kyt_ready ord p m" and i: "plain_id canon i"
    and run: "grpc_GetAlert fmt (services_in_memory ord cops prov th ul secrets) i m = (oc, m')"
  shows "served ord (proto_alike micro fmt) (grpc_GetAlert fmt (services_in_db db cops prov th ul secrets) i) p oc m'"
proof -
  note get = service_get_sim [OF ready_facts(1) [OF rdy] i]
  let ?call = "grpc_GetAlert fmt (services_in_db db cops prov th ul secrets) i"
  let ?f = "\<lambda>x. case x of Inl e \<Rightarrow> Inl (toGRPCError e) | Inr a \<Rightarrow> Inr (toProtoAlert fmt a)"
  let ?x = "AlertService_Get memory_alert_store (st_alerts (ks_core m)) i"
  have "m' = m" "oc = ?f ?x" "?call p = (?f (map_sum id (micro_alert micro) ?x), p)"
    using run by (simp_all add: grpc_GetAlert_def get split: sum.splits)
  moreover have "proto_alike micro fmt (?f (map_sum id (micro_alert micro) ?x)) (?f ?x)" by (cases ?x) simp_all
  ultimately show ?thesis
    using served_same [where R = "proto_alike micro fmt" and call = ?call, OF rdy] by simp
qed

lemma list_served:
  assumes rdy: "kyt_ready ord p m" and status: "sql_text (hr_Query r ''status'')"
    and run: "listAlertsHandler (services_in_memory ord cops prov th ul secrets) rid r m = (oc, m')"
  shows "served ord (resp_alike micro) (listAlertsHandler (services_in_db db cops prov th ul secrets) rid r) p oc m'"
proof -
  let ?st = "hr_Query r ''status''"
  have "rel (st_alerts (ks_core p)) (stored_alerts micro (st_alerts (ks_core m)))"
    using ready_facts(1) [OF rdy] by (simp add: db_holds_def)
  from sim_list [OF this status] obtain xs zs
    where l: "PGAlertStore_List db (st_alerts (ks_core p)) ?st = Inr (appended xs)"
      "MemoryStore_List (stored_alerts micro (st_alerts (ks_core m))) ?st = Inr (Some zs)" "mset xs = mset zs"
      "sorted (map al_CreatedAt xs)"
    by blast
  obtain ys where ys: "MemoryStore_List (st_alerts (ks_core m)) ?st = Inr (Some ys)" by (simp add: MemoryStore_List_def)
  have mem: "mem_ok (st_alerts (ks_core m))" using ready_facts(2) [OF rdy] by (simp add: memory_state_ok_def)
  have zs: "zs = map (micro_alert micro) ys" using stored_alerts_list [OF mem ys, of micro] l(2) by simp
  have alike: "listing_alike micro (appended xs) (Some ys)"
  proof (cases "ys = []")
    case True
    then show ?thesis using l(3) zs by (simp add: listing_alike_def appended_def)
  next
    case False
    then have "xs \<noteq> []" using l(3) zs by auto
    then show ?thesis using False l(3,4) zs by (simp add: listing_alike_def appended_def)
  qed
  have "m' = m" "oc = writeJSON rid StatusOK (BAlerts (Some ys))"
    using run ys by (simp_all add: listAlertsHandler_def AlertService_List_def)
  moreover let ?call = "listAlertsHandler (services_in_db db cops prov th ul secrets) rid r"
  have "?call p = (writeJSON rid StatusOK (BAlerts (appended xs)), p)"
    using l(1) by (simp add: listAlertsHandler_def AlertService_List_def)
  moreover have "resp_alike micro (writeJSON rid StatusOK (BAlerts (appended xs))) (writeJSON rid StatusOK (BAlerts (Some ys)))"
    using alike by (simp add: resp_alike_def writeJSON_def)
  ultimately show ?thesis using served_same [where R = "resp_alike micro" and call = ?call, OF rdy] by simp
qed

text \<open>A handler that has changed the alerts, and perhaps read the clock.\<close>

lemma alerts_served:
  assumes rdy: "kyt_ready ord p m" and call: "call p = (oc', with_alerts p w d)" and R: "R oc' oc"
    and h: "holds d (st_screens (ks_core m)) a" and ok: "memory_state_ok ord (ks_core (with_alerts m w a))"
    and le: "world_le (st_world (ks_core m)) w"
  shows "served ord R call p oc (with_alerts m w a)"
proof -
  have env: "same_env (ks_core (with_alerts p w d)) (ks_core (with_alerts m w a))"
    by (rule same_env_with_alerts [OF ready_facts(3) [OF rdy]])
  have rest: "st_screens (ks_core (with_alerts p w d)) = st_screens (ks_core p)"
    "ks_seen (with_alerts p w d) = ks_seen (with_alerts m w a)" "ks_pending (with_alerts p w d) = ks_pending (with_alerts m w a)"
    by (simp_all add: ready_facts(5,6) [OF rdy])
  show ?thesis
    by (rule served_alerts [where R = R and call = call, OF rdy call R rest(1) env rest(2,3) _ ok]) (simp_all add: h le)
qed

lemma assign_served:
  assumes rdy: "kyt_ready ord p m" and i: "plain_id canon i"
    and run: "assignAlertHandler (services_in_memory ord cops prov th ul secrets) rid i r m = (oc, m')"
    and fit: "kyt_storable canon numeric m'"
  shows "served ord (resp_alike micro) (assignAlertHandler (services_in_db db cops prov th ul secrets) rid i r) p oc m'"
proof (cases "decodeJSON unmarshal_assign r")
  case (Inl e)
  then have "m' = m" "oc = writeError rid e" using run by (simp_all add: assignAlertHandler_def)
  then show ?thesis using Inl by (auto simp: assignAlertHandler_def intro: served_same [OF rdy, of _ "writeError rid e"])
next
  case (Inr who)
  obtain x a where s: "AlertService_Assign memory_alert_store (st_alerts (ks_core m)) i who = (x, a)" by fastforce
  let ?f = "\<lambda>x. case x of Inl err \<Rightarrow> writeError rid err | Inr b \<Rightarrow> writeJSON rid StatusOK (BAlert b)"
  have m': "oc = ?f x" "m' = with_alerts m (st_world (ks_core m)) a"
    using run Inr s by (auto simp: assignAlertHandler_def split: sum.splits)
  note mem = assign_memory_ok [OF ready_facts(2) [OF rdy] s]
  have "stores_storable canon numeric (st_screens (ks_core m)) a" using fit m'(2) by simp
  from service_assign_sim [OF ready_facts(1) [OF rdy] i s this] mem obtain x' d
    where d: "AlertService_Assign (pg_alert_store db) (st_alerts (ks_core p)) i who = (x', d)"
      "holds d (st_screens (ks_core m)) a" "alert_alike micro x' x"
    by blast
  let ?call = "assignAlertHandler (services_in_db db cops prov th ul secrets) rid i r"
  have "?call p = (?f x', with_alerts p (st_world (ks_core m)) d)"
    using Inr d(1) ready_facts(4) [OF rdy] by (simp add: assignAlertHandler_def split: sum.split)
  from alerts_served [where call = ?call and R = "resp_alike micro" and oc = "?f x", OF rdy this resp_alike_alert [OF d(3)] d(2)
      conjunct1 [OF mem] world_le_refl]
  show ?thesis unfolding m' .
qed

lemma close_served:
  assumes rdy: "kyt_ready ord p m" and i: "plain_id canon i"
    and run: "closeAlertHandler (services_in_memory ord cops prov th ul secrets) rid i r m = (oc, m')"
    and fit: "kyt_storable canon numeric m'"
  shows "served ord (resp_alike micro) (closeAlertHandler (services_in_db db cops prov th ul secrets) rid i r) p oc m'"
proof (cases "decodeJSON unmarshal_assign r")
  case (Inl e)
  then have "m' = m" "oc = writeError rid e" using run by (simp_all add: closeAlertHandler_def)
  then show ?thesis using Inl by (auto simp: closeAlertHandler_def intro: served_same [OF rdy, of _ "writeError rid e"])
next
  case (Inr who)
  obtain x w a where s: "AlertService_Close memory_alert_store (st_world (ks_core m)) (st_alerts (ks_core m)) i who = (x, w, a)"
    by (metis prod_cases3)
  let ?f = "\<lambda>x. case x of Inl err \<Rightarrow> writeError rid err | Inr b \<Rightarrow> writeJSON rid StatusOK (BAlert b)"
  have m': "oc = ?f x" "m' = with_alerts m w a"
    using run Inr s by (auto simp: closeAlertHandler_def split: sum.splits)
  note mem = close_memory_ok [OF ready_facts(2) [OF rdy] s]
  have "stores_storable canon numeric (st_screens (ks_core m)) a" using fit m'(2) by simp
  from service_close_sim [OF ready_facts(1) [OF rdy] i s this] mem obtain x' d
    where d: "AlertService_Close (pg_alert_store db) (st_world (ks_core m)) (st_alerts (ks_core p)) i who = (x', w, d)"
      "holds d (st_screens (ks_core m)) a" "alert_alike micro x' x"
    by blast
  let ?call = "closeAlertHandler (services_in_db db cops prov th ul secrets) rid i r"
  have "?call p = (?f x', with_alerts p w d)"
    using Inr d(1) ready_facts(4) [OF rdy] by (simp add: closeAlertHandler_def split: sum.split)
  from alerts_served [where call = ?call and R = "resp_alike micro" and oc = "?f x", OF rdy this resp_alike_alert [OF d(3)] d(2)] mem
  show ?thesis unfolding m' by simp
qed

end

definition same_hook :: "('c, 'a) hook_state \<Rightarrow> ('c, 'b) hook_state \<Rightarrow> bool" where
  "same_hook p m \<longleftrightarrow> hk_world p = hk_world m \<and> hk_cache p = hk_cache m \<and> hk_seen p = hk_seen m \<and> hk_pending p = hk_pending m"

definition hook_memory_ok :: "('c, MemoryStore) hook_state \<Rightarrow> bool" where
  "hook_memory_ok st \<longleftrightarrow> mem_ok (hk_alerts st) \<and> fresh_ids (hk_world st)
     \<and> dom (ms_mem (hk_alerts st)) \<subseteq> used_ids (hk_world st)"

lemma ingest_new:
  assumes "rc_EventID rec \<notin> hk_seen st" and "ingest_parse secrets vendor body sig = Inr rec"
    and "c_Delete cops (hk_world st) (hk_cache st) (rc_Address rec) (rc_Chain rec) = (e, w1, c1)"
    and "AlertService_Create alerts w1 (hk_alerts st) '''' (rc_TxID rec) (rc_Address rec)
        (rc_Chain rec) (rc_Exposure rec) (alertSeverity (rc_Exposure rec)) = (x, w2, a2)"
  shows "Ingest (sv_Webhook (store_services cops prov th ul secrets screens alerts)) vendor body sig st =
    (let st1 = st\<lparr>hk_seen := insert (rc_EventID rec) (hk_seen st), hk_world := w1, hk_cache := c1\<rparr>;
         st2 = st1\<lparr>hk_world := w2, hk_alerts := a2\<rparr> in
     case e of Some err \<Rightarrow> (rejected (''cache invalidate: '' @ error_text err), st1)
     | None \<Rightarrow> (case x of Inl err \<Rightarrow> (rejected (''alert create: '' @ error_text err), st2)
         | Inr b \<Rightarrow> (\<lparr>rs_Accepted = True, rs_Duplicate = False, rs_Reason = '''', rs_EventID = rc_EventID rec\<rparr>,
             st2\<lparr>hk_pending := hk_pending st2 @ [rec]\<rparr>)))"
  using assms
  by (simp add: Ingest_def ingest_apply_def ingest_cache_def ingest_alert_def Let_def split: option.split sum.split)

lemma ingest_over_memory:
  assumes cache: "verdict_cache cops held" and ok: "hook_memory_ok hm"
    and run: "Ingest (sv_Webhook (services_in_memory ord cops prov th ul secrets)) vendor body sig hm = (res, hm')"
  shows "hook_memory_ok hm' \<and> world_le (hk_world hm) (hk_world hm') \<and>
    (hk_alerts hm' = hk_alerts hm \<or> (\<exists>i rec now. ms_mem (hk_alerts hm) i = None \<and> i \<noteq> '''' \<and>
       ms_mem (hk_alerts hm') = (ms_mem (hk_alerts hm))(i \<mapsto> hook_alert i rec now)))"
proof (cases "ingest_parse secrets vendor body sig")
  case (Inl reason)
  then show ?thesis using run ok by (auto simp: Ingest_def)
next
  case (Inr rec)
  show ?thesis
  proof (cases "rc_EventID rec \<in> hk_seen hm")
    case True
    then show ?thesis using Inr run ok
        ingest_seen [of "sv_Webhook (services_in_memory ord cops prov th ul secrets)" vendor body sig rec hm] by auto
  next
    case False
    obtain e w1 c1 where d: "c_Delete cops (hk_world hm) (hk_cache hm) (rc_Address rec) (rc_Chain rec) = (e, w1, c1)"
      by (metis prod_cases3)
    have le: "world_le (hk_world hm) w1" using verdict_cache.delete_world [OF cache d] .
    have fresh: "fresh_ids w1" "dom (ms_mem (hk_alerts hm)) \<subseteq> used_ids w1" "mem_ok (hk_alerts hm)"
      using ok world_le_fresh [OF le] used_ids_mono [OF le] by (auto simp: hook_memory_ok_def)
    have new: "ms_mem (hk_alerts hm) (uuids w1 (drawn w1)) = None" "uuids w1 (drawn w1) \<noteq> ''''"
      using fresh fresh_not_used [OF fresh(1), of 0] fresh_nonempty [OF fresh(1)] by auto
    from mas.service_create [OF fresh(3) new, of "''''" "rc_TxID rec" "rc_Address rec" "rc_Chain rec" "rc_Exposure rec"
        "alertSeverity (rc_Exposure rec)"]
    obtain a1 where a1: "AlertService_Create memory_alert_store w1 (hk_alerts hm) '''' (rc_TxID rec) (rc_Address rec) (rc_Chain rec)
        (rc_Exposure rec) (alertSeverity (rc_Exposure rec)) =
          (Inr (hook_alert (uuids w1 (drawn w1)) rec (clk w1 (ticks w1))), w1\<lparr>drawn := Suc (drawn w1), ticks := Suc (ticks w1)\<rparr>, a1)"
      "mem_ok a1" "ms_mem a1 = (ms_mem (hk_alerts hm))(uuids w1 (drawn w1) \<mapsto> hook_alert (uuids w1 (drawn w1)) rec (clk w1 (ticks w1)))"
      by (auto simp: hook_alert_def)
    have le2: "world_le (hk_world hm) (w1\<lparr>drawn := Suc (drawn w1), ticks := Suc (ticks w1)\<rparr>)"
      using world_le_trans [OF le world_le_drawn] .
    note new1 = ingest_new [OF False Inr d a1(1), of prov th ul "memory_screen_store ord"]
    show ?thesis
    proof (cases e)
      case (Some err)
      then have "hm' = hm\<lparr>hk_seen := insert (rc_EventID rec) (hk_seen hm), hk_world := w1, hk_cache := c1\<rparr>"
        using run new1 by (simp add: Let_def)
      then show ?thesis using fresh le by (simp add: hook_memory_ok_def)
    next
      case None
      then have "hm' = hm\<lparr>hk_seen := insert (rc_EventID rec) (hk_seen hm), hk_cache := c1,
          hk_world := w1\<lparr>drawn := Suc (drawn w1), ticks := Suc (ticks w1)\<rparr>, hk_alerts := a1, hk_pending := hk_pending hm @ [rec]\<rparr>"
        using run new1 by (auto simp: Let_def)
      moreover have "fresh_ids (w1\<lparr>drawn := Suc (drawn w1), ticks := Suc (ticks w1)\<rparr>)"
        "dom (ms_mem a1) \<subseteq> used_ids (w1\<lparr>drawn := Suc (drawn w1), ticks := Suc (ticks w1)\<rparr>)"
        using fresh a1(3) used_ids_mono [of w1 "w1\<lparr>drawn := Suc (drawn w1), ticks := Suc (ticks w1)\<rparr>"] by (auto simp: used_ids_def)
      moreover have "\<exists>i rec now. ms_mem (hk_alerts hm) i = None \<and> i \<noteq> '''' \<and>
          ms_mem a1 = (ms_mem (hk_alerts hm))(i \<mapsto> hook_alert i rec now)"
        using new a1(3) by blast
      ultimately show ?thesis using a1(2) le2 by (simp add: hook_memory_ok_def)
    qed
  qed
qed

context kyt_service_db
begin

lemma ingest_sim:
  assumes cache: "verdict_cache cops held" and same: "same_hook hp hm" and h: "holds (hk_alerts hp) s (hk_alerts hm)"
    and ok: "hook_memory_ok hm"
    and run: "Ingest (sv_Webhook (services_in_memory ord cops prov th ul secrets)) vendor body sig hm = (res, hm')"
    and fit: "\<forall>b \<in> ran (ms_mem (hk_alerts hm')). storable_alert canon b"
  shows "\<exists>hp'. Ingest (sv_Webhook (services_in_db db cops prov th ul secrets)) vendor body sig hp = (res, hp')
    \<and> same_hook hp' hm' \<and> holds (hk_alerts hp') s (hk_alerts hm') \<and> hook_memory_ok hm' \<and> world_le (hk_world hm) (hk_world hm')"
proof -
  let ?P = "sv_Webhook (services_in_db db cops prov th ul secrets)"
  let ?M = "sv_Webhook (services_in_memory ord cops prov th ul secrets)"
  have eq: "hk_world hp = hk_world hm" "hk_cache hp = hk_cache hm" "hk_seen hp = hk_seen hm" "hk_pending hp = hk_pending hm"
    using same by (simp_all add: same_hook_def)
  show ?thesis
  proof (cases "ingest_parse secrets vendor body sig")
    case (Inl reason)
    then show ?thesis using run same h ok by (auto simp: Ingest_def)
  next
    case (Inr rec)
    show ?thesis
    proof (cases "rc_EventID rec \<in> hk_seen hm")
      case True
      then show ?thesis using Inr run same h ok eq
          ingest_seen [of ?M vendor body sig rec hm] ingest_seen [of ?P vendor body sig rec hp] by auto
    next
      case False
      obtain e w1 c1 where d: "c_Delete cops (hk_world hm) (hk_cache hm) (rc_Address rec) (rc_Chain rec) = (e, w1, c1)"
        by (metis prod_cases3)
      have le: "world_le (hk_world hm) w1" using verdict_cache.delete_world [OF cache d] .
      define i where "i = uuids w1 (drawn w1)"
      define w2 where "w2 = w1\<lparr>drawn := Suc (drawn w1), ticks := Suc (ticks w1)\<rparr>"
      have fresh: "fresh_ids w1" "dom (ms_mem (hk_alerts hm)) \<subseteq> used_ids w1" "mem_ok (hk_alerts hm)"
        using ok world_le_fresh [OF le] used_ids_mono [OF le] by (auto simp: hook_memory_ok_def)
      have new: "ms_mem (hk_alerts hm) i = None" "i \<noteq> ''''"
        using fresh fresh_not_used [OF fresh(1), of 0] fresh_nonempty [OF fresh(1)] by (auto simp: i_def)
      let ?new = "hook_alert i rec (clk w1 (ticks w1))"
      obtain a1 where a1: "AlertService_Create memory_alert_store w1 (hk_alerts hm) '''' (rc_TxID rec) (rc_Address rec) (rc_Chain rec)
          (rc_Exposure rec) (alertSeverity (rc_Exposure rec)) = (Inr ?new, w2, a1)"
        "mem_ok a1" "ms_mem a1 = (ms_mem (hk_alerts hm))(i \<mapsto> ?new)"
        using mas.service_create [OF fresh(3), of w1 "''''" "rc_TxID rec" "rc_Address rec" "rc_Chain rec" "rc_Exposure rec"
            "alertSeverity (rc_Exposure rec)"] new by (auto simp: hook_alert_def i_def w2_def)
      obtain y w3 dP where p: "AlertService_Create (pg_alert_store db) w1 (hk_alerts hp) '''' (rc_TxID rec) (rc_Address rec)
          (rc_Chain rec) (rc_Exposure rec) (alertSeverity (rc_Exposure rec)) = (y, w3, dP)" by (metis prod_cases3)
      note stepM = ingest_new [OF False Inr d a1(1), of prov th ul "memory_screen_store ord"]
      have "rc_EventID rec \<notin> hk_seen hp" "c_Delete cops (hk_world hp) (hk_cache hp) (rc_Address rec) (rc_Chain rec) = (e, w1, c1)"
        using False d eq by simp_all
      note stepP = ingest_new [OF this(1) Inr this(2) p, of prov th ul "pg_screen_store db"]
      show ?thesis
      proof (cases e)
        case (Some err)
        then have hm': "res = rejected (''cache invalidate: '' @ error_text err)"
          "hm' = hm\<lparr>hk_seen := insert (rc_EventID rec) (hk_seen hm), hk_world := w1, hk_cache := c1\<rparr>"
          using run stepM by (simp_all add: Let_def)
        have "hook_memory_ok hm'" using fresh by (simp add: hook_memory_ok_def hm'(2))
        then show ?thesis using Some stepP eq h le by (simp add: hm' same_hook_def Let_def)
      next
        case None
        then have hm': "res = accepted_result rec" "hm' = hm\<lparr>hk_seen := insert (rc_EventID rec) (hk_seen hm), hk_cache := c1,
            hk_world := w2, hk_alerts := a1, hk_pending := hk_pending hm @ [rec]\<rparr>"
          using run stepM by (auto simp: accepted_result_def Let_def)
        have "ms_mem (hk_alerts hm') i = Some ?new" using a1(3) hm'(2) by simp
        then have "storable_alert canon ?new" using fit by (blast intro: ranI)
        from service_create_sim [OF h this [unfolded hook_alert_def i_def] _ a1(1)] p
        have "y = Inr ?new" "w3 = w2" "holds dP s a1" by auto
        moreover have "world_le (hk_world hm) w2" using world_le_trans [OF le world_le_drawn] by (simp add: w2_def)
        moreover have "hook_memory_ok hm'"
          using a1(2,3) fresh used_ids_mono [of w1 w2] by (auto simp: hook_memory_ok_def hm'(2) w2_def i_def used_ids_def)
        ultimately show ?thesis using None stepP eq by (simp add: hm' same_hook_def accepted_result_def Let_def)
      qed
    qed
  qed
qed

end

definition count_delivery :: "Result \<Rightarrow> ('c, 'p, 's, 'a) kyt_state \<Rightarrow> ('c, 'p, 's, 'a) kyt_state" where
  "count_delivery res st = st\<lparr>ks_core := (ks_core st)\<lparr>st_metrics := count_webhook res (st_metrics (ks_core st))\<rparr>\<rparr>"

context kyt_service_db
begin

lemma webhook_served:
  assumes cache: "verdict_cache cops held" and rdy: "kyt_ready ord p m"
    and run: "webhookHandler (services_in_memory ord cops prov th ul secrets) rid vendor r m = (oc, m')"
    and fit: "kyt_storable canon numeric m'"
  shows "served ord (resp_alike micro) (webhookHandler (services_in_db db cops prov th ul secrets) rid vendor r) p oc m'"
proof (cases "ReadBody (hr_Body r) 1048576")
  case (Inl e)
  then have "m' = m" "oc = writeError rid e" using run by (simp_all add: webhookHandler_def)
  then show ?thesis using Inl by (auto simp: webhookHandler_def intro: served_same [OF rdy, of _ "writeError rid e"])
next
  case (Inr body)
  let ?M = "sv_Webhook (services_in_memory ord cops prov th ul secrets)"
  let ?P = "sv_Webhook (services_in_db db cops prov th ul secrets)"
  obtain res hm where i: "Ingest ?M vendor body (webhook_sig r) (hook_of m) = (res, hm)" by fastforce
  have m': "oc = webhook_response rid res" "m' = count_delivery res (with_hook m hm)"
    using run Inr i by (simp_all add: webhookHandler_def Let_def count_delivery_def)
  have env: "same_env (ks_core p) (ks_core m)" and mok: "memory_state_ok ord (ks_core m)"
    using ready_facts(2,3) [OF rdy] by simp_all
  have same: "same_hook (hook_of p) (hook_of m)"
    using env ready_facts(5,6) [OF rdy] by (simp add: same_hook_def hook_of_def same_env_def)
  have hok: "hook_memory_ok (hook_of m)" using mok by (simp add: hook_memory_ok_def hook_of_def memory_state_ok_def)
  have h: "holds (hk_alerts (hook_of p)) (st_screens (ks_core m)) (hk_alerts (hook_of m))"
    using ready_facts(1) [OF rdy] by (simp add: hook_of_def)
  have al: "st_alerts (ks_core m') = hk_alerts hm" by (simp add: m'(2) count_delivery_def with_hook_def)
  have "mem_ok (st_alerts (ks_core m'))" using ingest_over_memory [OF cache hok i] al by (simp add: hook_memory_ok_def)
  then have "\<forall>b \<in> ran (ms_mem (hk_alerts hm)). storable_alert canon b"
    using storable_alert_in [OF fit] al by (auto simp: ran_def)
  from ingest_sim [OF cache same h hok i this] obtain hp
    where hp: "Ingest ?P vendor body (webhook_sig r) (hook_of p) = (res, hp)" "same_hook hp hm"
      "holds (hk_alerts hp) (st_screens (ks_core m)) (hk_alerts hm)" "hook_memory_ok hm" "world_le (hk_world (hook_of m)) (hk_world hm)"
    by blast
  define q where "q = count_delivery res (with_hook p hp)"
  let ?call = "webhookHandler (services_in_db db cops prov th ul secrets) rid vendor r"
  have call: "?call p = (webhook_response rid res, q)"
    using Inr hp(1) by (simp add: webhookHandler_def Let_def q_def count_delivery_def)
  have le: "world_le (st_world (ks_core m)) (hk_world hm)" using hp(5) by (simp add: hook_of_def)
  have mem: "memory_state_ok ord (ks_core m')"
    using mok hp(4) used_ids_mono [OF le]
    by (auto simp: m'(2) count_delivery_def with_hook_def memory_state_ok_def hook_memory_ok_def)
  have env': "same_env (ks_core q) (ks_core m')"
    using env hp(2) by (simp add: m'(2) q_def count_delivery_def with_hook_def same_env_def same_hook_def)
  have parts: "st_screens (ks_core q) = st_screens (ks_core p)" "ks_seen q = ks_seen m'" "ks_pending q = ks_pending m'"
    "st_world (ks_core m') = hk_world hm" "st_screens (ks_core m') = st_screens (ks_core m)" "st_alerts (ks_core q) = hk_alerts hp"
    using hp(2) by (simp_all add: m'(2) q_def count_delivery_def with_hook_def same_hook_def)
  show ?thesis unfolding m'(1)
    by (rule served_alerts [where R = "resp_alike micro" and call = ?call, OF rdy call _ parts(1) env' parts(2,3) _ mem])
      (simp_all add: parts al hp(3) le)
qed

lemma review_served:
  assumes rdy: "kyt_ready ord p m" and plain: "call_plain canon micro m (RunReview n)"
    and run: "run_review (services_in_memory ord cops prov th ul secrets) n m = m'"
    and fit: "kyt_storable canon numeric m'"
  shows "served ord (=) (\<lambda>st. (ODone, run_review (services_in_db db cops prov th ul secrets) n st)) p ODone m'"
proof (cases "n < length (ks_pending m)")
  case False
  then have "m' = m" "run_review (services_in_db db cops prov th ul secrets) n p = p"
    using run ready_facts(6) [OF rdy] by (simp_all add: run_review_def)
  then show ?thesis by (auto intro: served_same [OF rdy])
next
  case True
  let ?rec = "ks_pending m ! n" and ?core = "ks_core m"
  let ?sev = "SeverityFor (rc_Exposure ?rec)"
  have texts: "sql_text (rc_Address ?rec)" "sql_text (rc_Chain ?rec)" and times: "distinct (map (\<lambda>r. micro (sr_CreatedAt r))
      (filter (\<lambda>r. sr_Address r = rc_Address ?rec \<and> sr_Chain r = rc_Chain ?rec) (map snd (st_screens ?core))))"
    using plain True by (simp_all add: Let_def)
  have mok: "memory_state_ok ord ?core"
    and h: "holds (st_alerts (ks_core p)) (st_screens ?core) (st_alerts ?core)" and w: "st_world (ks_core p) = st_world ?core"
    and db: "st_screens (ks_core p) = st_alerts (ks_core p)"
    using ready_facts [OF rdy] by simp_all
  have mem: "mem_ok (st_alerts ?core)" "fresh_ids (st_world ?core)" "dom (ms_mem (st_alerts ?core)) \<subseteq> used_ids (st_world ?core)"
    "mss_ok ord (st_screens ?core)" "\<forall>l. mset (ord l) = mset l"
    using mok by (simp_all add: memory_state_ok_def mss_ok_def)
  obtain ys where ys: "MemoryScreenStore_ListByAddress ord (st_screens ?core) (rc_Address ?rec) (rc_Chain ?rec) = Inr ys"
    by (simp add: MemoryScreenStore_ListByAddress_def)
  note listed = list_sim [OF h mem(5) texts times ys]
  obtain w' a' where f: "fold (review_record memory_alert_store (rc_Exposure ?rec) ?sev) ys (st_world ?core, st_alerts ?core) = (w', a')"
    by fastforce
  define cut where "cut = take n (ks_pending m) @ drop (Suc n) (ks_pending m)"
  have m': "m' = (with_alerts m w' a')\<lparr>ks_pending := cut\<rparr>"
    using run True ys f by (simp add: run_review_def triggerReview_def TriggerReview_def NewTrigger_def cut_def)
  have keys: "sr_ScreenID ` set ys \<subseteq> fst ` set (st_screens ?core)"
  proof (rule image_subsetI)
    fix r assume "r \<in> set ys"
    then obtain k where k: "(k, r) \<in> set (st_screens ?core)" using listed by auto
    then have "sr_ScreenID r = k" using mem(4) by (auto simp: mss_ok_def)
    then show "sr_ScreenID r \<in> fst ` set (st_screens ?core)" using k by (metis fst_conv image_eqI)
  qed
  have r: "mem_ok a'" "world_le (st_world ?core) w'" "dom (ms_mem a') \<subseteq> used_ids w'"
  proof -
    obtain w a where l: "fold (review_record memory_alert_store (rc_Exposure ?rec) ?sev) ys (st_world ?core, st_alerts ?core) = (w, a)"
      "mem_ok a" "world_le (st_world ?core) w" "dom (ms_mem a) \<subseteq> used_ids w"
      using mas.review_loop [OF mem(1-3), of "rc_Exposure ?rec" ys] by blast
    then show "mem_ok a'" "world_le (st_world ?core) w'" "dom (ms_mem a') \<subseteq> used_ids w'" using f by simp_all
  qed
  have "\<forall>b \<in> ran (ms_mem a'). storable_alert canon b"
    using storable_alert_in [OF fit] r(1) m' by (auto simp: ran_def)
  from review_sim [OF h mem(1-3) keys f this] obtain d'
    where d': "fold (review_record (pg_alert_store db) (rc_Exposure ?rec) ?sev) (map (stored_screen numeric micro) ys)
        (st_world ?core, st_alerts (ks_core p)) = (w', d')" "holds d' (st_screens ?core) a'" by blast
  have call: "run_review (services_in_db db cops prov th ul secrets) n p = (with_alerts p w' d')\<lparr>ks_pending := cut\<rparr>"
    using True listed d'(1) w db ready_facts(6) [OF rdy]
    by (simp add: run_review_def triggerReview_def TriggerReview_def NewTrigger_def cut_def)
  have ok: "memory_state_ok ord (ks_core m')" using memory_state_ok_alerts [OF mok r] by (simp add: m')
  let ?call = "\<lambda>st. (ODone, run_review (services_in_db db cops prov th ul secrets) n st)"
  define q where "q = (with_alerts p w' d')\<lparr>ks_pending := cut\<rparr>"
  have env: "same_env (ks_core q) (ks_core m')"
    using same_env_with_alerts [OF ready_facts(3) [OF rdy], of w' d' a'] by (simp add: q_def m')
  have parts: "?call p = (ODone, q)" "st_screens (ks_core q) = st_screens (ks_core p)" "ks_seen q = ks_seen m'"
    "ks_pending q = ks_pending m'" "st_world (ks_core m') = w'" "st_screens (ks_core m') = st_screens ?core"
    "st_alerts (ks_core q) = d'" "st_alerts (ks_core m') = a'"
    using call ready_facts(5) [OF rdy] by (simp_all add: q_def m')
  show ?thesis
    by (rule served_alerts [where R = "(=)" and call = ?call, OF rdy parts(1) refl parts(2) env parts(3,4) _ ok])
      (simp_all add: parts d'(2) r(2))
qed

end

section \<open>Requests\<close>

lemma match_path_values: "match_path ps path = Some vals \<Longrightarrow> set vals \<subseteq> set path"
  by (induction ps path arbitrary: vals rule: match_path.induct) (auto split: if_splits)

lemma find_route_values:
  assumes "find_route m path = Some (e, vals)"
  shows "path_value vals \<in> set ('''' # path)"
proof -
  obtain r where "match_route m path r = Some (e, vals)" using assms find_route_Some by blast
  then have "set vals \<subseteq> set path" by (auto simp: match_route_def split: if_splits dest: match_path_values)
  then show ?thesis by (cases vals) (auto simp: path_value_def)
qed

lemma request_id_parts:
  assumes "request_id r st = (rid, st1)"
  shows "request_id r (with_alert_db st d) = (rid, with_alert_db st1 d)"
    and "st_screens (ks_core st1) = st_screens (ks_core st)" and "st_alerts (ks_core st1) = st_alerts (ks_core st)"
    and "ks_seen st1 = ks_seen st" and "ks_pending st1 = ks_pending st"
    and "world_le (st_world (ks_core st)) (st_world (ks_core st1))"
  using assms by (auto simp: request_id_def newID_def with_alert_db_def world_le_def split: if_splits)

lemma endpoint_handlers:
  "run_endpoint s EScreen vals rid r = screenHandler s rid r"
  "run_endpoint s EGetAlert vals rid r = getAlertHandler s rid (path_value vals)"
  "run_endpoint s EListAlerts vals rid r = listAlertsHandler s rid r"
  "run_endpoint s EAssign vals rid r = assignAlertHandler s rid (path_value vals) r"
  "run_endpoint s EClose vals rid r = closeAlertHandler s rid (path_value vals) r"
  "run_endpoint s EWebhook vals rid r = webhookHandler s rid (path_value vals) r"
  by (intro ext, simp add: run_endpoint_def)+

context kyt_service_db
begin

lemma request_id_ready:
  assumes rdy: "kyt_ready ord p m" and run: "request_id r m = (rid, m1)"
  shows "\<exists>p1. request_id r p = (rid, p1) \<and> kyt_ready ord p1 m1"
proof -
  obtain rid' p1 where p1: "request_id r p = (rid', p1)" by fastforce
  have w: "st_world (ks_core p) = st_world (ks_core m)" and env: "same_env (ks_core p) (ks_core m)"
    using ready_facts(3,4) [OF rdy] by simp_all
  have same: "rid' = rid" and env1: "same_env (ks_core p1) (ks_core m1)"
    using p1 run w env by (auto simp: request_id_def newID_def same_env_def split: if_splits)
  note pm = request_id_parts [OF run] and pp = request_id_parts [OF p1]
  have "ready ord (ks_core p1) (ks_core m1)"
    by (rule ready_step [OF _ env1 pm(6) pp(2) pm(2,3)]) (use rdy in \<open>simp add: kyt_ready_def\<close>)
  then have "kyt_ready ord p1 m1"
    using rdy by (simp add: kyt_ready_def pp(2-5) pm(4,5))
  then show ?thesis using p1 same by blast
qed

text \<open>Every endpoint.\<close>

lemma endpoint_served:
  assumes prov: "screen_provider prov" and cache: "verdict_cache cops held" and rdy: "kyt_ready ord p m"
    and i: "plain_id canon (path_value vals)" and status: "sql_text (hr_Query r ''status'')"
    and run: "run_endpoint (services_in_memory ord cops prov th ul secrets) e vals rid r m = (oc, m')"
    and fit: "kyt_storable canon numeric m'"
  shows "served ord (resp_alike micro) (run_endpoint (services_in_db db cops prov th ul secrets) e vals rid r) p oc m'"
proof (cases e)
  case EHealthz
  then have "m' = m" "oc = healthz rid" using run by (simp_all add: run_endpoint_def)
  then show ?thesis using EHealthz by (auto simp: run_endpoint_def intro: served_same [OF rdy, of _ "healthz rid"])
next
  case EMetrics
  let ?x = "\<lparr>hp_Status = StatusOK, hp_RequestID = rid, hp_Body = BMetrics (render (st_metrics (ks_core m)))\<rparr>"
  have x: "m' = m" "oc = ?x" using run EMetrics by (auto simp: run_endpoint_def)
  have "st_metrics (ks_core p) = st_metrics (ks_core m)" using ready_facts(3) [OF rdy] by (simp add: same_env_def)
  then show ?thesis unfolding x using EMetrics
    by (intro served_same [OF rdy, of _ ?x] resp_alike_refl) (simp_all add: run_endpoint_def)
next
  case EScreen
  then show ?thesis using screen_served [OF prov cache rdy _ fit] run by (simp add: endpoint_handlers)
next
  case EGetAlert
  then show ?thesis using get_served [OF rdy i] run by (simp add: endpoint_handlers)
next
  case EListAlerts
  then show ?thesis using list_served [OF rdy status] run by (simp add: endpoint_handlers)
next
  case EAssign
  then show ?thesis using assign_served [OF rdy i _ fit] run by (simp add: endpoint_handlers)
next
  case EClose
  then show ?thesis using close_served [OF rdy i _ fit] run by (simp add: endpoint_handlers)
next
  case EWebhook
  then show ?thesis using webhook_served [OF cache rdy _ fit] run by (simp add: endpoint_handlers)
qed

lemma http_served:
  assumes prov: "screen_provider prov" and cache: "verdict_cache cops held" and rdy: "kyt_ready ord p m"
    and i: "list_all (plain_id canon) ('''' # hr_Path r)" and status: "sql_text (hr_Query r ''status'')"
    and run: "serve_http (services_in_memory ord cops prov th ul secrets) r m = (oc, m')"
    and fit: "kyt_storable canon numeric m'"
  shows "served ord (resp_alike micro) (serve_http (services_in_db db cops prov th ul secrets) r) p oc m'"
proof -
  let ?M = "services_in_memory ord cops prov th ul secrets" and ?P = "services_in_db db cops prov th ul secrets"
  obtain rid m1 where m1: "request_id r m = (rid, m1)" by fastforce
  obtain p1 where p1: "request_id r p = (rid, p1)" "kyt_ready ord p1 m1" using request_id_ready [OF rdy m1] by blast
  have mux: "NewMux ?M rid r m1 = (oc, m')" using run m1 by (simp add: serve_http_def)
  have "on_one_db (serve_http ?P r) p = on_one_db (NewMux ?P rid r) p1"
    by (rule on_one_db_same) (simp_all add: serve_http_def request_id_parts [OF p1(1)])
  moreover have "served ord (resp_alike micro) (NewMux ?P rid r) p1 oc m'"
  proof (cases "find_route (hr_Method r) (hr_Path r)")
    case None
    then have "m' = m1" "NewMux ?P rid r p1 = (oc, p1)" "hp_Body oc = BPlain" using mux by (auto simp: NewMux_def)
    then show ?thesis
      using served_same [where call = "NewMux ?P rid r" and R = "resp_alike micro", OF p1(2) _ resp_alike_refl] by simp
  next
    case (Some ev)
    obtain e vals where ev: "ev = (e, vals)" by fastforce
    then have "plain_id canon (path_value vals)" using find_route_values [of "hr_Method r" "hr_Path r" e vals] Some i by (auto simp: list_all_iff)
    moreover have "run_endpoint ?M e vals rid r m1 = (oc, m')" using mux Some ev by (simp add: NewMux_def)
    moreover have "NewMux ?P rid r = run_endpoint ?P e vals rid r" using Some ev by (intro ext) (simp add: NewMux_def)
    ultimately show ?thesis using endpoint_served [OF prov cache p1(2) _ status _ fit] by simp
  qed
  ultimately show ?thesis by (simp add: served_def)
qed

end

section \<open>Runs\<close>

text \<open>
  The calls of a run are plain, and after each of them what the in-memory stores hold can be stored.
\<close>

fun run_storable ::
    "(string \<Rightarrow> string option) \<Rightarrow> (string \<Rightarrow> string option) \<Rightarrow> (gotime \<Rightarrow> gotime) \<Rightarrow> (gotime \<Rightarrow> string)
     \<Rightarrow> ('c, 'p, MemoryScreenStore, MemoryStore) Services \<Rightarrow> call list
     \<Rightarrow> ('c, 'p, MemoryScreenStore, MemoryStore) kyt_state \<Rightarrow> bool" where
  "run_storable canon numeric micro fmt s [] m \<longleftrightarrow> True"
| "run_storable canon numeric micro fmt s (c # cs) m \<longleftrightarrow> call_plain canon micro m c
     \<and> (let m1 = snd (service_step fmt s c m) in kyt_storable canon numeric m1 \<and> run_storable canon numeric micro fmt s cs m1)"

text \<open>
  The service over the database \<open>d\<close>, which both its stores are views of, and the service over the in-memory
  stores are in the same state.
\<close>

definition one_db ::
    "('d \<Rightarrow> string \<Rightarrow> row list) \<Rightarrow> ('d \<Rightarrow> bool) \<Rightarrow> (string \<Rightarrow> string option) \<Rightarrow> (string \<Rightarrow> string option)
     \<Rightarrow> (gotime \<Rightarrow> gotime) \<Rightarrow> (MemoryScreenStore \<Rightarrow> MemoryScreenStore) \<Rightarrow> ('c, 'p, 'd, 'd) kyt_state
     \<Rightarrow> ('c, 'p, MemoryScreenStore, MemoryStore) kyt_state \<Rightarrow> bool" where
  "one_db contents up canon numeric micro ord p m \<longleftrightarrow>
     db_holds contents up canon numeric micro (st_screens (ks_core p)) (st_screens (ks_core m)) (st_alerts (ks_core m))
   \<and> st_alerts (ks_core p) = st_screens (ks_core p) \<and> same_env (ks_core p) (ks_core m)
   \<and> ks_seen p = ks_seen m \<and> ks_pending p = ks_pending m
   \<and> memory_state_ok ord (ks_core m)"

context kyt_service_db
begin

lemma one_db_ready: "one_db contents up canon numeric micro ord p m \<longleftrightarrow> kyt_ready ord p m"
  by (auto simp: one_db_def kyt_ready_def ready_def)

lemma served_answer:
  assumes "served ord R call p oc m" and "\<And>st. call' st = (f (fst (call st)), snd (call st))"
    and "\<And>x y. R x y \<Longrightarrow> R' (f x) (f y)"
  shows "served ord R' call' p (f oc) m"
proof -
  obtain x q where x: "on_one_db call p = (x, q)" "R x oc" "kyt_ready ord q m" using assms(1) by (auto simp: served_def)
  have "on_one_db call' p = (f x, q)"
    using x(1) by (simp add: on_one_db_def assms(2) Let_def split_beta)
  then show ?thesis using assms(3) [OF x(2)] x(3) by (auto simp: served_def)
qed

lemma step_served:
  assumes prov: "screen_provider prov" and cache: "verdict_cache cops held" and rdy: "kyt_ready ord p m"
    and plain: "call_plain canon micro m c"
    and run: "service_step fmt (services_in_memory ord cops prov th ul secrets) c m = (oc, m')"
    and fit: "kyt_storable canon numeric m'"
  shows "served ord (outcome_alike micro fmt) (service_step fmt (services_in_db db cops prov th ul secrets) c) p oc m'"
proof (cases c)
  case (CallHttp r)
  then obtain x where x: "serve_http (services_in_memory ord cops prov th ul secrets) r m = (x, m')" "oc = OHttp x"
    using run by (auto split: prod.splits)
  have "list_all (plain_id canon) ('''' # hr_Path r)" "sql_text (hr_Query r ''status'')" using plain CallHttp by simp_all
  from http_served [OF prov cache rdy this x(1) fit] show ?thesis
    unfolding x(2) CallHttp by (rule served_answer) (simp_all split: prod.split)
next
  case (CallScreen q)
  then obtain x where x: "grpc_Screen (services_in_memory ord cops prov th ul secrets) q m = (x, m')" "oc = OScreen x"
    using run by (auto split: prod.splits)
  from grpc_screen_served [OF prov cache rdy x(1) fit] show ?thesis
    unfolding x(2) CallScreen by (rule served_answer) (simp_all split: prod.split)
next
  case (CallGetAlert i)
  then obtain x where x: "grpc_GetAlert fmt (services_in_memory ord cops prov th ul secrets) i m = (x, m')" "oc = OAlert x"
    using run by (auto split: prod.splits)
  have "plain_id canon i" using plain CallGetAlert by simp
  from grpc_get_served [OF rdy this x(1)] show ?thesis
    unfolding x(2) CallGetAlert by (rule served_answer) (simp_all split: prod.split)
next
  case (RunReview n)
  then have x: "oc = ODone" "run_review (services_in_memory ord cops prov th ul secrets) n m = m'" using run by simp_all
  from review_served [OF rdy plain [unfolded RunReview] x(2) fit] show ?thesis
    unfolding x(1) RunReview by (rule served_answer [where f = "\<lambda>_. ODone"]) simp_all
qed

lemma run_served:
  assumes prov: "screen_provider prov" and cache: "verdict_cache cops held"
  shows "kyt_ready ord p m \<Longrightarrow> service_run fmt (services_in_memory ord cops prov th ul secrets) cs m = (os, m') \<Longrightarrow>
      run_storable canon numeric micro fmt (services_in_memory ord cops prov th ul secrets) cs m \<Longrightarrow>
    \<exists>os' p'. shared_run fmt (services_in_db db cops prov th ul secrets) cs p = (os', p')
      \<and> list_all2 (outcome_alike micro fmt) os' os \<and> kyt_ready ord p' m'"
proof (induction cs arbitrary: p m os)
  case Nil
  then show ?case by simp
next
  case (Cons c cs)
  let ?M = "services_in_memory ord cops prov th ul secrets" and ?P = "services_in_db db cops prov th ul secrets"
  obtain oc m1 where m1: "service_step fmt ?M c m = (oc, m1)" by fastforce
  obtain os2 where os2: "service_run fmt ?M cs m1 = (os2, m')" "os = oc # os2"
    using Cons.prems(2) m1 by (auto split: prod.splits)
  have st: "call_plain canon micro m c" "kyt_storable canon numeric m1" "run_storable canon numeric micro fmt ?M cs m1"
    using Cons.prems(3) m1 by (simp_all add: Let_def)
  obtain oc' p1 where p1: "on_one_db (service_step fmt ?P c) p = (oc', p1)" "outcome_alike micro fmt oc' oc" "kyt_ready ord p1 m1"
    using step_served [OF prov cache Cons.prems(1) st(1) m1 st(2)] by (auto simp: served_def)
  from Cons.IH [OF p1(3) os2(1) st(3)] p1(1,2) show ?case by (auto simp: os2(2))
qed

end

end
