(* ===== verification/Pg_Engine.thy ===== *)
theory Pg_Engine
  imports Pg_Service
begin

text \<open>
  A database for the service, in which amounts are kept with eight decimals, times to the microsecond, and an
  alert may only name a screen that is there: the engine of \<open>Sql\<close> behind these rules.  It obeys the laws of
  \<open>kyt_service_db\<close>, so they can hold.
\<close>

section \<open>Amounts\<close>

text \<open>Plain decimals with at most twelve digits before and eight after the point, padded to eight.\<close>

definition is_digits :: "string \<Rightarrow> bool" where
  "is_digits s \<longleftrightarrow> list_all (\<lambda>c. c \<in> set ''0123456789'') s"

definition numeric8 :: "string \<Rightarrow> string option" where
  "numeric8 s =
     (let i = takeWhile (\<lambda>c. c \<noteq> CHR ''.'') s; f = drop (Suc (length i)) s
      in if i \<noteq> '''' \<and> is_digits i \<and> is_digits f \<and> length i \<le> 12 \<and> length f \<le> 8
         then Some (i @ ''.'' @ f @ replicate (8 - length f) CHR ''0'') else None)"

lemma digits_no_point:
  assumes "is_digits s" and "c \<in> set s"
  shows "c \<noteq> CHR ''.''"
proof -
  have "c \<in> set ''0123456789''" using assms unfolding is_digits_def list_all_iff by (rule bspec)
  moreover have "CHR ''.'' \<notin> set ''0123456789''" by simp
  ultimately show ?thesis by (metis (no_types))
qed

lemma digits_append: "is_digits (s @ t) \<longleftrightarrow> is_digits s \<and> is_digits t"
  by (simp add: is_digits_def)

lemma digits_zeros: "is_digits (replicate n CHR ''0'')"
  by (induction n) (simp_all add: is_digits_def)

lemma numeric8_idem:
  assumes "numeric8 s = Some t"
  shows "numeric8 t = Some t"
proof -
  define i where "i = takeWhile (\<lambda>c. c \<noteq> CHR ''.'') s"
  define f where "f = drop (Suc (length i)) s"
  have s: "i \<noteq> ''''" "is_digits i" "is_digits f" "length i \<le> 12" "length f \<le> 8"
    "t = i @ ''.'' @ f @ replicate (8 - length f) CHR ''0''"
    using assms by (simp_all add: numeric8_def Let_def i_def f_def split: if_splits)
  have "takeWhile (\<lambda>c. c \<noteq> CHR ''.'') t = i"
    unfolding s(6) using digits_no_point [OF s(2)] by (simp add: takeWhile_append)
  moreover have "is_digits (f @ replicate (8 - length f) CHR ''0'')" using s(3) by (simp add: digits_append digits_zeros)
  ultimately show ?thesis using s by (simp add: numeric8_def Let_def)
qed

lemma digits_text:
  assumes "is_digits s"
  shows "is_ascii s \<and> CHR 0x00 \<notin> set s"
proof -
  have "c \<in> set ''0123456789''" if "c \<in> set s" for c using assms that by (simp only: is_digits_def list_all_iff)
  moreover have "\<forall>c \<in> set ''0123456789''. c \<noteq> CHR 0x00 \<and> (of_char c :: nat) < 128" by simp
  ultimately show ?thesis unfolding is_ascii_def list_all_iff by blast
qed

lemma numeric8_text:
  assumes "numeric8 s = Some t"
  shows "sql_text s \<and> sql_text t"
proof -
  define i where "i = takeWhile (\<lambda>c. c \<noteq> CHR ''.'') s"
  define f where "f = drop (Suc (length i)) s"
  have t: "is_digits i" "is_digits f" "t = i @ ''.'' @ f @ replicate (8 - length f) CHR ''0''"
    using assms by (simp_all add: numeric8_def Let_def i_def f_def split: if_splits)
  note d = digits_text [OF t(1)] digits_text [OF t(2)] digits_text [OF digits_zeros [of "8 - length f"]]
  have "s = i @ drop (length i) s" unfolding i_def by (metis takeWhile_eq_take append_take_drop_id)
  moreover have "drop (length i) s = '''' \<or> drop (length i) s = ''.'' @ f"
  proof (cases "dropWhile (\<lambda>c. c \<noteq> CHR ''.'') s")
    case Nil
    then show ?thesis unfolding i_def by (metis dropWhile_eq_drop)
  next
    case (Cons c u)
    then have "c = CHR ''.''" using hd_dropWhile [of "\<lambda>c. c \<noteq> CHR ''.''" s] by simp
    moreover have e: "drop (length i) s = c # u" using Cons unfolding i_def by (metis dropWhile_eq_drop)
    moreover have "f = drop 1 (drop (length i) s)" by (simp add: f_def)
    then have "f = u" unfolding e by simp
    ultimately show ?thesis by simp
  qed
  ultimately have "s = i \<or> s = i @ ''.'' @ f" by (metis append_Nil2)
  then show ?thesis using d unfolding t(3) sql_text_def by (auto intro!: ascii_utf8 simp: is_ascii_def)
qed

section \<open>Times\<close>

text \<open>To the nearest microsecond.\<close>

definition micro_round :: "gotime \<Rightarrow> gotime" where
  "micro_round t = (t + 500) div 1000 * 1000"

lemma micro_round_idem [simp]: "micro_round (micro_round t) = micro_round t"
  by (simp add: micro_round_def)

lemma micro_round_mono: "t \<le> u \<Longrightarrow> micro_round t \<le> micro_round u"
  by (simp add: micro_round_def zdiv_mono1)

lemma micro_round_time: "pg_time t \<Longrightarrow> pg_time (micro_round t)"
  using micro_round_mono [of 0 t] micro_round_mono [of t 315537897599000000000] by (simp add: pg_time_def micro_round_def)

definition time_columns :: "table \<Rightarrow> string list" where
  "time_columns = columns_of (\<lambda>c. col_type c = TIMESTAMPTZ)"

definition round_cols :: "table \<Rightarrow> string list \<Rightarrow> sql_val list \<Rightarrow> sql_val list" where
  "round_cols t cs vs = map (\<lambda>(c, v). if c \<in> set (time_columns t) then round_time micro_round v else v) (zip cs vs)"

lemma round_time_text [simp]: "round_time micro v = SText s \<longleftrightarrow> v = SText s" "SText s = round_time micro v \<longleftrightarrow> v = SText s"
  by (cases v; auto)+

lemma round_length: "length cs = length vs \<Longrightarrow> length (round_cols t cs vs) = length vs"
  by (simp add: round_cols_def)

lemma round_match: "columns_match t cs vs \<Longrightarrow> columns_match t cs (round_cols t cs vs)"
  by (simp add: columns_match_def round_length)

lemma round_zip:
  "length cs = length vs \<Longrightarrow>
     zip cs (round_cols t cs vs) = map (\<lambda>(c, v). (c, if c \<in> set (time_columns t) then round_time micro_round v else v)) (zip cs vs)"
  by (induction cs vs rule: list_induct2) (simp_all add: round_cols_def)

lemma round_texts: "length cs = length vs \<Longrightarrow> (c, SText s) \<in> set (zip cs (round_cols t cs vs)) \<longleftrightarrow> (c, SText s) \<in> set (zip cs vs)"
  by (induction cs vs rule: list_induct2) (auto simp: round_cols_def)

lemma round_sendable: "length cs = length vs \<Longrightarrow> list_all sendable vs \<Longrightarrow> list_all sendable (round_cols t cs vs)"
proof (induction cs vs rule: list_induct2)
  case (Cons c cs v vs)
  then show ?case by (cases v) (simp_all add: round_cols_def micro_round_time)
qed (simp add: round_cols_def)

lemma bind_round: "length cs = length vs \<Longrightarrow> c \<notin> set (time_columns t) \<Longrightarrow> bind_cols cs (round_cols t cs vs) c = bind_cols cs vs c"
  by (induction cs vs rule: list_induct2) (auto simp: round_cols_def)

lemma bind_nth: "length cs = length vs \<Longrightarrow> distinct cs \<Longrightarrow> (c, v) \<in> set (zip cs vs) \<Longrightarrow> bind_cols cs vs c = v"
  by (induction cs vs rule: list_induct2) (auto dest: set_zip_leftD)

lemma round_same:
  assumes "length cs = length vs"
    and "\<And>c v. (c, v) \<in> set (zip cs vs) \<Longrightarrow> c \<in> set (time_columns t) \<Longrightarrow> round_time micro_round v = v"
  shows "round_cols t cs vs = vs"
proof -
  have "map (\<lambda>(c, v). if c \<in> set (time_columns t) then round_time micro_round v else v) (zip cs vs) = map snd (zip cs vs)"
    using assms(2) by (intro map_cong) auto
  then show ?thesis using assms(1) by (simp add: round_cols_def)
qed

lemma round_stored:
  assumes "columns_match t cs vs" and "timed_columns t cs vs"
  shows "round_cols t cs (map (round_time micro_round) vs) = round_cols t cs vs"
proof -
  have "round_time micro_round (round_time micro_round v) = round_time micro_round v" for v by (cases v) simp_all
  moreover have "c \<notin> set (time_columns t) \<Longrightarrow> round_time micro_round v = v" if "(c, v) \<in> set (zip cs vs)" for c v
    using assms(2) that by (cases v) (auto simp: timed_columns_def time_columns_def list_all_iff)
  ultimately show ?thesis unfolding round_cols_def zip_map2 map_map by (intro map_cong refl) auto
qed

lemma exact_no_times: "list_all (\<lambda>t. list_all (\<lambda>c. c \<notin> set (time_columns t)) (tb_exact t)) kyt_tables"
  by code_simp

lemma exact_no_time: "t \<in> set kyt_tables \<Longrightarrow> c \<in> set (tb_exact t) \<Longrightarrow> c \<notin> set (time_columns t)"
  using exact_no_times unfolding list_all_iff by blast

section \<open>The checks\<close>

definition amount_at :: "string list \<Rightarrow> nat" where
  "amount_at cs = length (takeWhile (\<lambda>c. c \<noteq> ''amount'') cs)"

definition round_args :: "string list \<Rightarrow> sql_val list \<Rightarrow> go_error + sql_val list" where
  "round_args cs vs =
     (let k = amount_at cs in
      if k < length cs \<and> k < length vs then
        (case vs ! k of
           SText s \<Rightarrow> (case numeric8 s of
               None \<Rightarrow> Inl (PqErr ''22P02'' ''invalid input syntax for type numeric'')
             | Some t \<Rightarrow> Inr (vs[k := SText t]))
         | _ \<Rightarrow> Inr vs)
      else Inr vs)"

definition screen_known :: "engine \<Rightarrow> row \<Rightarrow> bool" where
  "screen_known d r \<longleftrightarrow> r ''screen_id'' = SNull \<or> r ''screen_id'' \<in> (\<lambda>q. q ''screen_id'') ` set (d ''kyt_screens'')"

definition check_insert :: "engine \<Rightarrow> string \<Rightarrow> string list \<Rightarrow> sql_val list \<Rightarrow> go_error + sql_val list" where
  "check_insert d n cs vs =
     (if n = ''kyt_screens'' then round_args cs vs
      else if n = ''kyt_alerts'' \<and> \<not> screen_known d (bind_cols cs vs)
        then Inl (PqErr ''23503'' ''insert violates foreign key constraint'')
      else Inr vs)"

definition checked_Exec :: "(string \<Rightarrow> string option) \<Rightarrow> engine \<Rightarrow> stmt \<Rightarrow> sql_val list \<Rightarrow> (go_error + (go_error + int)) \<times> engine" where
  "checked_Exec canon d s vs =
     (case find (\<lambda>t. tb_name t = stmt_table s) kyt_tables of
        None \<Rightarrow> (Inl no_table, d)
      | Some t \<Rightarrow>
          if list_ex bad_text vs then (Inl bad_encoding, d)
          else (let us = round_cols t (stmt_columns s) vs in
            case s of
              Insert n cs cl \<Rightarrow> (case check_insert d n cs us of Inl e \<Rightarrow> (Inl e, d) | Inr ws \<Rightarrow> engine_Exec canon kyt_tables d s ws)
            | _ \<Rightarrow> engine_Exec canon kyt_tables d s us))"

definition checked_db :: "(string \<Rightarrow> string option) \<Rightarrow> engine DB" where
  "checked_db canon = \<lparr>db_Exec = checked_Exec canon, db_Query = engine_Query canon kyt_tables\<rparr>"

definition checked_fits :: "engine \<Rightarrow> table \<Rightarrow> row \<Rightarrow> bool" where
  "checked_fits d t r \<longleftrightarrow>
     (\<forall>c \<in> set (time_columns t). round_time micro_round (r c) = r c)
   \<and> (tb_name t = ''kyt_screens'' \<longrightarrow> (\<forall>s. r ''amount'' = SText s \<longrightarrow> numeric8 s = Some s))
   \<and> (tb_name t = ''kyt_alerts'' \<longrightarrow> screen_known d r)"

lemma bind_amount: "amount_at cs < length cs \<Longrightarrow> length cs = length vs \<Longrightarrow> bind_cols cs vs ''amount'' = vs ! amount_at cs"
  by (induction cs vs rule: bind_cols.induct) (auto simp: amount_at_def)

lemma bind_update_amount:
  "c \<noteq> ''amount'' \<Longrightarrow> amount_at cs < length cs \<Longrightarrow> length cs = length vs \<Longrightarrow> bind_cols cs (vs[amount_at cs := v]) c = bind_cols cs vs c"
  by (induction cs vs rule: bind_cols.induct) (auto simp: amount_at_def)

lemma round_error: "round_args cs vs = Inl e \<Longrightarrow> \<exists>c m. e = PqErr c m"
  by (auto simp: round_args_def Let_def split: if_splits sql_val.splits option.splits)

lemma check_error: "check_insert d n cs vs = Inl e \<Longrightarrow> \<exists>c m. e = PqErr c m"
  by (auto simp: check_insert_def split: if_splits dest: round_error)

lemma check_length: "check_insert d n cs vs = Inr us \<Longrightarrow> length us = length vs"
  by (auto simp: check_insert_def round_args_def Let_def split: if_splits sql_val.splits option.splits)

lemma check_fits:
  assumes "checked_fits d t (bind_cols cs vs)" and "length cs = length vs"
  shows "check_insert d (tb_name t) cs vs = Inr vs"
proof (cases "tb_name t = ''kyt_screens''")
  case True
  then have "vs ! amount_at cs = SText s \<longrightarrow> numeric8 s = Some s" if "amount_at cs < length cs" for s
    using assms bind_amount [OF that assms(2)] by (simp add: checked_fits_def)
  then have "round_args cs vs = Inr vs" using assms(2)
    by (auto simp: round_args_def Let_def list_update_same_conv split: sql_val.split option.split)
  then show ?thesis using True by (simp add: check_insert_def)
next
  case False
  then show ?thesis using assms(1) by (auto simp: check_insert_def checked_fits_def)
qed

lemma check_exact:
  assumes "check_insert d (tb_name t) cs vs = Inr us" and "length cs = length vs" and "t \<in> set kyt_tables" and "c \<in> set (tb_exact t)"
  shows "bind_cols cs us c = bind_cols cs vs c"
proof (cases "tb_name t = ''kyt_screens''")
  case True
  then have "t = kyt_screens" using assms(3) by (auto simp: kyt_tables_def vendor_responses_def)
  moreover have "''amount'' \<notin> set (tb_exact kyt_screens)" by (simp add: kyt_screens_def tb_exact_def columns_of_def)
  ultimately have c: "c \<noteq> ''amount''" using assms(4) by metis
  have "us = vs \<or> (\<exists>v. amount_at cs < length cs \<and> us = vs[amount_at cs := v])"
    using assms(1) True by (auto simp: check_insert_def round_args_def Let_def split: if_splits sql_val.splits option.splits)
  then show ?thesis using bind_update_amount [OF c _ assms(2)] by auto
next
  case False
  then have "us = vs" using assms(1) by (simp add: check_insert_def split: if_splits)
  then show ?thesis by simp
qed

section \<open>The laws\<close>

lemma kyt_table_names: "distinct (map tb_name kyt_tables)"
  by (simp add: kyt_tables_def schema_defs)

lemmas find_kyt = find_table [OF kyt_table_names]

lemma checked_insert:
  "t \<in> set kyt_tables \<Longrightarrow> \<not> list_ex bad_text vs \<Longrightarrow>
   db_Exec (checked_db canon) d (Insert (tb_name t) cs cl) vs =
     (case check_insert d (tb_name t) cs (round_cols t cs vs) of
        Inl e \<Rightarrow> (Inl e, d) | Inr us \<Rightarrow> db_Exec (engine_db canon kyt_tables) d (Insert (tb_name t) cs cl) us)"
  by (simp add: checked_db_def checked_Exec_def engine_db_def find_kyt split: sum.split)

lemma checked_bad_text:
  "t \<in> set kyt_tables \<Longrightarrow> stmt_table s = tb_name t \<Longrightarrow> list_ex bad_text vs \<Longrightarrow> db_Exec (checked_db canon) d s vs = (Inl bad_encoding, d)"
  by (simp add: checked_db_def checked_Exec_def find_kyt)

lemma checked_others:
  "t \<in> set kyt_tables \<Longrightarrow> \<not> list_ex bad_text vs \<Longrightarrow> db_Exec (checked_db canon) d (UpdateBy (tb_name t) ks cs) vs =
     db_Exec (engine_db canon kyt_tables) d (UpdateBy (tb_name t) ks cs) (round_cols t (ks @ cs) vs)"
  "t \<in> set kyt_tables \<Longrightarrow> \<not> list_ex bad_text vs \<Longrightarrow> db_Exec (checked_db canon) d (DeleteBy (tb_name t) ks) vs =
     db_Exec (engine_db canon kyt_tables) d (DeleteBy (tb_name t) ks) (round_cols t ks vs)"
  "db_Query (checked_db canon) = db_Query (engine_db canon kyt_tables)"
  by (simp_all add: checked_db_def checked_Exec_def engine_db_def find_kyt)

lemma round_fits:
  assumes "columns_match t cs vs" and "checked_fits d t (bind_cols cs vs)"
  shows "round_cols t cs vs = vs"
proof (rule round_same)
  show "length cs = length vs" using assms(1) by (simp add: columns_match_def)
  fix c v assume "(c, v) \<in> set (zip cs vs)" "c \<in> set (time_columns t)"
  then show "round_time micro_round v = v"
    using assms bind_nth [of cs vs c v] by (auto simp: columns_match_def checked_fits_def)
qed

text \<open>A row that fits is inserted as it is.\<close>

lemma checked_insert_fits:
  assumes "t \<in> set kyt_tables" and "columns_match t cs vs" and "list_all sendable vs" and "checked_fits d t (bind_cols cs vs)"
  shows "db_Exec (checked_db canon) d (Insert (tb_name t) cs cl) vs = db_Exec (engine_db canon kyt_tables) d (Insert (tb_name t) cs cl) vs"
proof -
  have "length cs = length vs" using assms(2) by (simp add: columns_match_def)
  then show ?thesis using checked_insert [OF assms(1) sendable_texts [OF assms(3)]] round_fits [OF assms(2,4)] check_fits [OF assms(4)] by simp
qed

lemma key_text: "list_all (\<lambda>v. case v of SText s \<Rightarrow> True | _ \<Rightarrow> False) vs \<Longrightarrow> v \<in> set vs \<Longrightarrow> round_time micro_round v = v"
  by (cases v) (force simp: list_all_iff)+

lemma round_update:
  assumes "columns_match t (ks @ cs) vs" and "text_keys t ks vs"
    and "checked_fits d t (override_cols cs (bind_cols (ks @ cs) vs) r)"
  shows "round_cols t (ks @ cs) vs = vs"
proof (rule round_same)
  show len: "length (ks @ cs) = length vs" using assms(1) by (simp add: columns_match_def)
  fix c v assume c: "(c, v) \<in> set (zip (ks @ cs) vs)" "c \<in> set (time_columns t)"
  have bind: "bind_cols (ks @ cs) vs c = v" by (rule bind_nth [OF len _ c(1)]) (use assms(1) in \<open>simp add: columns_match_def\<close>)
  show "round_time micro_round v = v"
  proof (cases "c \<in> set cs")
    case True
    then show ?thesis using assms(3) c(2) bind by (auto simp: checked_fits_def override_cols_def)
  next
    case False
    have "zip (ks @ cs) vs = zip ks (take (length ks) vs) @ zip cs (drop (length ks) vs)" by (rule zip_append1)
    then have "(c, v) \<in> set (zip ks (take (length ks) vs))" using c(1) False by (auto dest: set_zip_leftD)
    then have "v \<in> set (take (length ks) vs)" by (rule set_zip_rightD)
    then show ?thesis using assms(2) by (intro key_text) (simp_all add: text_keys_def)
  qed
qed

lemma round_keys:
  assumes "columns_match t ks vs" and "text_keys t ks vs"
  shows "round_cols t ks vs = vs"
proof (rule round_same)
  show len: "length ks = length vs" using assms(1) by (simp add: columns_match_def)
  fix c v assume "(c, v) \<in> set (zip ks vs)"
  then have "v \<in> set vs" by (rule set_zip_rightD)
  then show "round_time micro_round v = v" using assms(2) len by (intro key_text) (simp_all add: text_keys_def)
qed

text \<open>What an insert does to a log, whatever it was given.\<close>

lemma checked_insert_plain:
  assumes t: "t \<in> set kyt_tables" and m: "columns_match t cs vs"
    and run: "db_Exec (checked_db canon) d (Insert (tb_name t) cs NoClause) vs = (x, d')"
  shows "(\<exists>e. x = Inl e \<and> d' = d) \<or> (\<exists>n r. x = Inr n \<and> changes_only (\<lambda>d. d) (tb_name t) (d (tb_name t) @ [r]) d d'
    \<and> (\<forall>c \<in> set (tb_exact t). c \<in> set cs \<longrightarrow> r c = bind_cols cs vs c))"
proof (cases "list_ex bad_text vs")
  case True
  then show ?thesis using checked_bad_text [OF t _ True, of "Insert (tb_name t) cs NoClause"] run by auto
next
  case False
  note e = engine_laws [OF kyt_table_names, of canon]
  have len: "length cs = length vs" using m by (simp add: columns_match_def)
  show ?thesis
  proof (cases "check_insert d (tb_name t) cs (round_cols t cs vs)")
    case (Inl y)
    then show ?thesis using checked_insert [OF t False, where canon = canon and d = d and cs = cs and cl = NoClause] run by auto
  next
    case (Inr us)
    have us: "length us = length cs" using check_length [OF Inr] round_length [OF len] len by simp
    then have mu: "columns_match t cs us" using m by (simp add: columns_match_def)
    have run': "db_Exec (engine_db canon kyt_tables) d (Insert (tb_name t) cs NoClause) us = (x, d')"
      using checked_insert [OF t False] run Inr by simp
    show ?thesis
    proof (cases x)
      case (Inl er)
      have "d' = d" using run' Inl find_kyt [OF t] by (auto simp: engine_defs Let_def split: if_splits)
      then show ?thesis using Inl by blast
    next
      case (Inr n)
      from sql_db.insert_plain [OF e, where d = d, OF t mu run' [unfolded Inr]] obtain r
        where r: "changes_only (\<lambda>d. d) (tb_name t) (d (tb_name t) @ [r]) d d'"
          "\<forall>c \<in> set (tb_exact t). c \<in> set cs \<longrightarrow> r c = bind_cols cs us c" by blast
      have "bind_cols cs us c = bind_cols cs vs c" if "c \<in> set (tb_exact t)" for c
        using check_exact [OF \<open>check_insert d (tb_name t) cs (round_cols t cs vs) = Inr us\<close> _ t that]
          bind_round [OF len exact_no_time [OF t that]] round_length [OF len] len by simp
      then show ?thesis using r Inr by auto
    qed
  qed
qed

lemma checked_laws: "kyt_db (checked_db canon) (\<lambda>d. d) (\<lambda>_. True) checked_fits canon"
proof (rule kyt_db.intro)
  note e = engine_laws [OF kyt_table_names, of canon]
  show "sql_db (checked_db canon) (\<lambda>d. d) (\<lambda>_. True) checked_fits canon kyt_tables"
  proof (unfold_locales, goal_cases)
    case (1 t d s vs)
    then show ?case using checked_bad_text by (auto simp: bad_encoding_def)
  next
    case (2 t d cs vs cl)
    show ?case
    proof (cases "list_ex bad_text vs")
      case True
      then show ?thesis using checked_bad_text [OF 2(1) _ True, of "Insert (tb_name t) cs cl"] by (simp add: bad_encoding_def)
    next
      case False
      have len: "length cs = length vs" using 2(3) by (simp add: columns_match_def)
      show ?thesis
      proof (cases "check_insert d (tb_name t) cs (round_cols t cs vs)")
        case (Inl y)
        then show ?thesis using checked_insert [OF 2(1) False] check_error [OF Inl] by auto
      next
        case (Inr us)
        have "length us = length cs" using check_length [OF Inr] round_length [OF len] len by simp
        then have "columns_match t cs us" using 2(3) by (simp add: columns_match_def)
        from sql_db.insert_missing [OF e, where d = d, OF 2(1) TrueI this 2(4)] show ?thesis
          using checked_insert [OF 2(1) False] Inr by simp
      qed
    qed
  next
    case (3 t cs vs d er d')
    then show ?case using checked_insert_plain by fastforce
  next
    case (4 t cs vs d er d')
    then show ?case using checked_insert_plain by fastforce
  next
    case (5 t cs vs d n d')
    then show ?case using checked_insert_plain by fastforce
  next
    case (6 t d cs vs cl)
    show ?case unfolding checked_insert_fits [OF 6(1,3,6,7)]
      by (rule sql_db.insert_new [OF e, where d = d, OF 6(1-6) TrueI 6(8)])
  next
    case (7 t d cs vs)
    show ?case unfolding checked_insert_fits [OF 7(1,3,6,7)]
      by (rule sql_db.insert_nothing [OF e, where d = d, OF 7(1-6) TrueI 7(8)])
  next
    case (8 t d cs vs us)
    show ?case unfolding checked_insert_fits [OF 8(1,3,6,7)]
      by (rule sql_db.insert_update [OF e, where d = d, OF 8(1-6) TrueI 8(8,9)])
  next
    case (9 t d ks cs vs)
    have len: "length (ks @ cs) = length vs" using 9(3) by (simp add: columns_match_def)
    have bad: "bad_uuid canon t (ks @ cs) (round_cols t (ks @ cs) vs)"
      using 9(4) unfolding bad_uuid_def round_texts [OF len] .
    show ?case unfolding checked_others(1) [OF 9(1) sendable_texts [OF 9(5)]]
      by (rule sql_db.update_invalid [OF e, where d = d, OF 9(1,2) round_match [OF 9(3)] bad round_sendable [OF len 9(5)]])
  next
    case (10 t d ks cs vs)
    obtain r where "r \<in> set (d (tb_name t))" "key_of ks r = take (length ks) vs" using 10(8) by (metis imageE)
    then have "checked_fits d t (override_cols cs (bind_cols (ks @ cs) vs) r)" by (rule 10(9))
    note same = round_update [OF 10(3,6) this]
    show ?case unfolding checked_others(1) [OF 10(1) sendable_texts [OF 10(5)]] same
      by (rule sql_db.update_rows [OF e, where d = d, OF 10(1-8) TrueI])
  next
    case (11 t d ks vs)
    show ?case unfolding checked_others(2) [OF 11(1) sendable_texts [OF 11(7)]] round_keys [OF 11(4,5)]
      by (rule sql_db.delete_rows [OF e, where d = d, OF 11])
  next
    case (12 t d ks after ord vs)
    show ?case unfolding checked_others by (rule sql_db.select_bad_text [OF e, where d = d, OF 12])
  next
    case (13 t d ks after ord vs)
    show ?case unfolding checked_others by (rule sql_db.select_invalid [OF e, where d = d, OF 13])
  next
    case (14 t ks after ord vs d rs er)
    show ?case by (rule sql_db.select_sound [OF e, where d = d, OF 14(1-3) 14(4) [unfolded checked_others]])
  next
    case (15 t d ks after ord vs)
    show ?case unfolding checked_others by (rule sql_db.select_rows [OF e, where d = d, OF 15])
  qed
qed

lemma screen_amount_at: "amount_at screen_columns = 5"
  by (simp add: amount_at_def screen_columns_def)

lemma round_screen:
  "round_args screen_columns (screen_args r) =
     (case numeric8 (sr_Amount r) of
        None \<Rightarrow> Inl (PqErr ''22P02'' ''invalid input syntax for type numeric'')
      | Some t \<Rightarrow> Inr (screen_args (r\<lparr>sr_Amount := t\<rparr>)))"
  unfolding round_args_def screen_amount_at by (simp add: screen_columns_def screen_args_def split: option.split)

lemma round_screen_args:
  "round_cols kyt_screens screen_columns (screen_args r) = screen_args (r\<lparr>sr_CreatedAt := micro_round (sr_CreatedAt r)\<rparr>)"
  by (simp add: round_cols_def time_columns_def table_lookups screen_columns_def screen_args_def)

text \<open>What happens to a screen that is inserted.\<close>

lemma checked_screen:
  "db_Exec (checked_db canon) d (Insert ''kyt_screens'' screen_columns cl) (screen_args r) =
     (if list_ex bad_text (screen_args r) then (Inl bad_encoding, d)
      else (case numeric8 (sr_Amount r) of
          None \<Rightarrow> (Inl (PqErr ''22P02'' ''invalid input syntax for type numeric''), d)
        | Some t \<Rightarrow> db_Exec (engine_db canon kyt_tables) d (Insert ''kyt_screens'' screen_columns cl)
            (screen_args (r\<lparr>sr_CreatedAt := micro_round (sr_CreatedAt r), sr_Amount := t\<rparr>))))"
proof -
  have t: "kyt_screens \<in> set kyt_tables" "tb_name kyt_screens = ''kyt_screens''" by (simp_all add: kyt_tables_def kyt_screens_def)
  show ?thesis
    using checked_bad_text [OF t(1), of "Insert ''kyt_screens'' screen_columns cl" "screen_args r" canon d]
      checked_insert [OF t(1), of "screen_args r" canon d screen_columns cl]
    by (simp add: t(2) round_screen_args check_insert_def round_screen split: option.split)
qed

lemma screen_bad_text:
  "list_ex bad_text (screen_args r) \<longleftrightarrow> \<not> sql_text (sr_Amount r) \<or> list_ex bad_text (screen_args (r\<lparr>sr_Amount := ''0''\<rparr>))"
proof -
  have "sql_text ''0''" by code_simp
  then show ?thesis by (auto simp: screen_args_def)
qed

lemma checked_amount_stored:
  assumes "numeric8 (sr_Amount r) = Some s"
  shows "db_Exec (checked_db canon) d (Insert ''kyt_screens'' screen_columns cl) (screen_args r) =
    db_Exec (checked_db canon) d (Insert ''kyt_screens'' screen_columns cl) (screen_args (r\<lparr>sr_Amount := s\<rparr>))"
proof -
  have "list_ex bad_text (screen_args (r\<lparr>sr_Amount := s\<rparr>)) = list_ex bad_text (screen_args r)"
    using numeric8_text [OF assms] screen_bad_text [of r] screen_bad_text [of "r\<lparr>sr_Amount := s\<rparr>"] by simp
  then show ?thesis unfolding checked_screen using assms numeric8_idem [OF assms] by simp
qed

lemma checked_times_stored:
  assumes t: "t \<in> set kyt_tables" "stmt_table st = tb_name t" and m: "columns_match t (stmt_columns st) vs"
    and times: "timed_columns t (stmt_columns st) vs" and snd: "list_all sendable vs"
  shows "db_Exec (checked_db canon) d st vs = db_Exec (checked_db canon) d st (map (round_time micro_round) vs)"
proof -
  have "list_all sendable (map (round_time micro_round) vs)"
  proof -
    have "sendable v \<Longrightarrow> sendable (round_time micro_round v)" for v by (cases v) (simp_all add: micro_round_time)
    then show ?thesis using snd by (simp add: list_all_iff)
  qed
  then show ?thesis using sendable_texts [OF snd] sendable_texts find_kyt [OF t(1)] t(2) round_stored [OF m times]
    by (simp add: checked_db_def checked_Exec_def)
qed

lemma service_times:
  "time_columns kyt_screens = [''created_at'', ''updated_at'']"
  "time_columns kyt_alerts = [''created_at'', ''updated_at'', ''closed_at'']"
  "tb_name kyt_screens = ''kyt_screens''" "tb_name kyt_alerts = ''kyt_alerts''"
  by (simp_all add: time_columns_def kyt_screens_def kyt_alerts_def schema_defs columns_of_def)

lemma checked_service_laws: "kyt_service_db (checked_db canon) (\<lambda>d. d) (\<lambda>_. True) checked_fits canon numeric8 micro_round"
proof (rule kyt_service_db.intro [OF checked_laws], unfold_locales, goal_cases)
  case (1 z s)
  then show ?case by (rule numeric8_text)
next
  case (2 r s d cl)
  then show ?case by (rule checked_amount_stored)
next
  case (3 d r cl)
  then show ?case by (simp add: checked_screen bad_encoding_def)
next
  case (7 tb st vs d)
  then show ?case by (rule checked_times_stored)
next
  case (8 r d)
  then obtain s where s: "numeric8 (sr_Amount r) = Some s" by blast
  then show ?case using numeric8_idem [OF s]
    by (simp add: checked_fits_def service_times screen_row_def screen_columns_def screen_args_def stored_screen_def)
next
  case (9 a d)
  then show ?case
    by (auto simp: checked_fits_def service_times alert_row_defs screen_known_def names_screen_def
        key_of_def null_text_def null_time_def image_iff split: option.split)
qed (simp_all add: micro_round_mono micro_round_time)

interpretation checked: kyt_service_db "checked_db uuid_canon" "\<lambda>d. d" "\<lambda>_. True" checked_fits uuid_canon numeric8 micro_round
  by (rule checked_service_laws)

end
