(* ===== verification/Pg_System.thy ===== *)
theory Pg_System
  imports Pg_Run Pg_Engine Redis_Cache
begin

text \<open>
  The service over one PostgreSQL database: what its answers and its tables are after any run, and a
  database for which all the assumptions hold.
\<close>

section \<open>Screens and alerts of the in-memory service, for any cache\<close>

definition kyt_covered ::
    "(MemoryScreenStore \<Rightarrow> MemoryScreenStore) \<Rightarrow> ('c, 'p, MemoryScreenStore, MemoryStore) kyt_state \<Rightarrow> bool" where
  "kyt_covered ord st \<longleftrightarrow> memory_state_ok ord (ks_core st) \<and> wf_table (ms_mem (st_alerts (ks_core st)))
     \<and> covered (map_of (st_screens (ks_core st))) (ms_mem (st_alerts (ks_core st)))"

lemma kyt_covered_alerts:
  assumes "kyt_covered ord st" and "alert_good a" and "alerts_evolve (ms_mem (st_alerts (ks_core st))) (ms_mem a)"
    and "world_le (st_world (ks_core st)) w" and "dom (ms_mem a) \<subseteq> used_ids w"
  shows "kyt_covered ord (with_alerts st w a)"
  using assms covered_evolve [OF _ assms(3)] memory_state_ok_alerts [of ord st a w]
  by (simp add: kyt_covered_def alert_good_def)

lemma kyt_covered_parts:
  assumes "kyt_covered ord st"
  shows "memory_state_ok ord (ks_core st)" and "alert_good (st_alerts (ks_core st))" and "mem_ok (st_alerts (ks_core st))"
    and "dom (ms_mem (st_alerts (ks_core st))) \<subseteq> used_ids (st_world (ks_core st))" and "fresh_ids (st_world (ks_core st))"
  using assms by (simp_all add: kyt_covered_def alert_good_def memory_state_ok_def)

lemma kyt_covered_assign:
  assumes "kyt_covered ord st" and "AlertService_Assign memory_alert_store (st_alerts (ks_core st)) i who = (r, a)"
  shows "kyt_covered ord (with_alerts st (st_world (ks_core st)) a)"
proof -
  note p = kyt_covered_parts [OF assms(1)]
  have "alert_good a" "alerts_evolve (ms_mem (st_alerts (ks_core st))) (ms_mem a)"
    using alert_op_alerts [OF p(2), of "OpAssign i who"] assms(2) by simp_all
  then show ?thesis using kyt_covered_alerts [OF assms(1)] assign_dom [OF p(3) assms(2)] p(4) by simp
qed

lemma kyt_covered_close:
  assumes "kyt_covered ord st" and "AlertService_Close memory_alert_store (st_world (ks_core st)) (st_alerts (ks_core st)) i who = (r, w, a)"
  shows "kyt_covered ord (with_alerts st w a)"
proof -
  note p = kyt_covered_parts [OF assms(1)]
  have ev: "alert_good a" "alerts_evolve (ms_mem (st_alerts (ks_core st))) (ms_mem a)"
    using alert_op_alerts [OF p(2), of "OpClose (st_world (ks_core st)) i who"] assms(2) by simp_all
  have d: "dom (ms_mem a) = dom (ms_mem (st_alerts (ks_core st)))" "world_le (st_world (ks_core st)) w"
    using close_dom [OF p(3) assms(2)] by simp_all
  then show ?thesis using kyt_covered_alerts [OF assms(1) ev d(2)] p(4) used_ids_mono [OF d(2)] by auto
qed

lemma kyt_covered_screen:
  assumes "screen_provider prov" and "verdict_cache cops held" and ok: "kyt_covered ord st"
    and run: "Service_Screen (NewService cops prov th (memory_screen_store ord) memory_alert_store ul) (ks_core st) req = (r, core)"
  shows "kyt_covered ord (st\<lparr>ks_core := core\<rparr>)"
proof (cases "validate req")
  case (Some e)
  then have "core = ks_core st" using run by (simp add: Service_Screen_def)
  then show ?thesis using ok by simp
next
  case None
  obtain resp where e: "screen_effect req resp (map_of (st_screens (ks_core st))) (map_of (st_screens core))
        (ms_mem (st_alerts (ks_core st))) (ms_mem (st_alerts core)) (st_audit (ks_core st)) (st_audit core)"
    "memory_state_ok ord core"
    using screen_over_memory [OF assms(1,2) kyt_covered_parts(1) [OF ok] None run] by blast
  have "i \<noteq> ''''" if "ms_mem (st_alerts core) i \<noteq> None" for i
  proof -
    have "i \<in> used_ids (st_world core)" using that e(2) by (auto simp: memory_state_ok_def)
    then show ?thesis using e(2) fresh_nonempty [of "st_world core"] by (auto simp: memory_state_ok_def used_ids_def)
  qed
  with screen_effect_keeps [OF e(1)] ok e(2) show ?thesis by (simp add: kyt_covered_def)
qed

lemma kyt_covered_webhook:
  assumes cache: "verdict_cache cops held" and ok: "kyt_covered ord st"
    and run: "Ingest (sv_Webhook (services_in_memory ord cops prov th ul secrets)) vendor body sig (hook_of st) = (res, h)"
  shows "kyt_covered ord (with_hook st h)"
proof -
  note p = kyt_covered_parts [OF ok]
  have "hook_memory_ok (hook_of st)" using p by (simp add: hook_memory_ok_def hook_of_def)
  note i = ingest_over_memory [OF cache this run]
  have le: "world_le (st_world (ks_core st)) (hk_world h)" using i by (simp add: hook_of_def)
  have wf: "wf_table (ms_mem (st_alerts (ks_core st)))" using ok by (simp add: kyt_covered_def)
  have t: "wf_table (ms_mem (hk_alerts h)) \<and> alerts_evolve (ms_mem (st_alerts (ks_core st))) (ms_mem (hk_alerts h))"
  proof (cases "hk_alerts h = hk_alerts (hook_of st)")
    case True
    then show ?thesis using wf by (simp add: hook_of_def)
  next
    case False
    then obtain i rec now where n: "ms_mem (st_alerts (ks_core st)) i = None" "i \<noteq> ''''"
      "ms_mem (hk_alerts h) = (ms_mem (st_alerts (ks_core st)))(i \<mapsto> hook_alert i rec now)"
      using i by (auto simp: hook_of_def)
    have "ms_mem (st_alerts (ks_core st)) \<subseteq>\<^sub>m ms_mem (hk_alerts h)" using n by (auto simp: map_le_def)
    then show ?thesis using wf hook_alert_wf [OF n(2)] n(3) map_le_evolve by (auto simp: wf_table_def)
  qed
  have "dom (map_of (st_screens (ks_core st))) \<subseteq> used_ids (hk_world h)" "mss_ok ord (st_screens (ks_core st))"
    using p(1) used_ids_mono [OF le] by (auto simp: memory_state_ok_def)
  then show ?thesis using t i ok covered_evolve [OF _ conjunct2 [OF t]]
    by (simp add: kyt_covered_def memory_state_ok_def hook_memory_ok_def with_hook_def)
qed

lemma kyt_covered_review:
  assumes ok: "kyt_covered ord st"
  shows "kyt_covered ord (run_review (services_in_memory ord cops prov th ul secrets) n st)"
proof (cases "n < length (ks_pending st)")
  case False
  then show ?thesis using ok by (simp add: run_review_def)
next
  case True
  let ?core = "ks_core st" and ?rec = "ks_pending st ! n"
  note p = kyt_covered_parts [OF ok]
  have wf: "wf_table (ms_mem (st_alerts ?core))" using ok by (simp add: kyt_covered_def)
  have "mss_ok ord (st_screens ?core)" using p(1) by (simp add: memory_state_ok_def)
  from memory_triggerReview [OF this p(3,5,4), of secrets ?rec]
  obtain w a where t: "triggerReview (memory_processor ord secrets) ?rec (st_screens ?core) (st_world ?core, st_alerts ?core) = (w, a)"
    "mem_ok a" "dom (ms_mem a) \<subseteq> used_ids w" "ms_mem (st_alerts ?core) \<subseteq>\<^sub>m ms_mem a" "world_le (st_world ?core) w"
    "\<forall>i b. ms_mem a i = Some b \<longrightarrow> ms_mem (st_alerts ?core) i = Some b \<or>
        (\<exists>sid tx ad ch now. b = new_alert i sid tx ad ch (rc_Exposure ?rec) (SeverityFor (rc_Exposure ?rec)) now)"
    by blast
  have fresh: "fresh_ids w" using world_le_fresh [OF t(5)] p(5) by simp
  have "wf_alert b \<and> al_ID b = i" if b: "ms_mem a i = Some b" for i b
  proof -
    have "i \<in> used_ids w" using b t(3) by auto
    then have "i \<noteq> ''''" using fresh_nonempty [OF fresh] by (auto simp: used_ids_def)
    then show ?thesis using t(6) b wf by (fastforce simp: wf_table_def wf_alert_def new_alert_def)
  qed
  then have "alert_good a" using t(2) by (simp add: alert_good_def wf_table_def)
  note keep = kyt_covered_alerts [OF ok this map_le_evolve [OF t(4)] t(5,3)]
  have "triggerReview (sv_Webhook (services_in_memory ord cops prov th ul secrets)) = triggerReview (memory_processor ord secrets)"
    by (intro ext) (simp add: triggerReview_def memory_processor_def memory_trigger_def WithReviewer_def NewProcessor_def)
  then have "run_review (services_in_memory ord cops prov th ul secrets) n st =
      (with_alerts st w a)\<lparr>ks_pending := take n (ks_pending st) @ drop (Suc n) (ks_pending st)\<rparr>"
    using True t(1) by (simp add: run_review_def)
  then show ?thesis using keep by (simp add: kyt_covered_def)
qed

text \<open>Every call.\<close>

lemma kyt_covered_metrics:
  "kyt_covered ord (st\<lparr>ks_core := (ks_core st)\<lparr>st_metrics := m\<rparr>\<rparr>) = kyt_covered ord st"
  by (simp add: kyt_covered_def memory_state_ok_def)

lemma kyt_covered_request_id:
  assumes "kyt_covered ord st" and "request_id r st = (rid, st1)"
  shows "kyt_covered ord st1"
proof -
  note i = request_id_parts [OF assms(2)]
  show ?thesis using assms(1) i(2,3) world_le_fresh [OF i(6)] subset_trans [OF _ used_ids_mono [OF i(6)]]
    by (simp add: kyt_covered_def memory_state_ok_def)
qed

lemma kyt_covered_endpoint:
  assumes prov: "screen_provider prov" and cache: "verdict_cache cops held" and ok: "kyt_covered ord st"
    and run: "run_endpoint (services_in_memory ord cops prov th ul secrets) e vals rid r st = (resp, st')"
  shows "kyt_covered ord st'"
proof (cases e)
  case EScreen
  show ?thesis
  proof (cases "decodeJSON unmarshal_request r")
    case (Inr req)
    obtain x core where s: "Service_Screen (NewService cops prov th (memory_screen_store ord) memory_alert_store ul) (ks_core st) req = (x, core)"
      by fastforce
    from kyt_covered_screen [OF prov cache ok s] show ?thesis
      using run Inr s by (cases x) (auto simp: EScreen endpoint_handlers screenHandler_def)
  qed (use run ok in \<open>auto simp: EScreen endpoint_handlers screenHandler_def\<close>)
next
  case EAssign
  show ?thesis
  proof (cases "decodeJSON unmarshal_assign r")
    case (Inr who)
    obtain x a where s: "AlertService_Assign memory_alert_store (st_alerts (ks_core st)) (path_value vals) who = (x, a)" by fastforce
    from kyt_covered_assign [OF ok s] show ?thesis
      using run Inr s by (cases x) (auto simp: EAssign endpoint_handlers assignAlertHandler_def)
  qed (use run ok in \<open>auto simp: EAssign endpoint_handlers assignAlertHandler_def\<close>)
next
  case EClose
  show ?thesis
  proof (cases "decodeJSON unmarshal_assign r")
    case (Inr who)
    obtain x w a where s: "AlertService_Close memory_alert_store (st_world (ks_core st)) (st_alerts (ks_core st)) (path_value vals) who = (x, w, a)"
      by (metis prod_cases3)
    from kyt_covered_close [OF ok s] show ?thesis
      using run Inr s by (cases x) (auto simp: EClose endpoint_handlers closeAlertHandler_def)
  qed (use run ok in \<open>auto simp: EClose endpoint_handlers closeAlertHandler_def\<close>)
next
  case EWebhook
  show ?thesis
  proof (cases "ReadBody (hr_Body r) 1048576")
    case (Inr body)
    obtain res h where s: "Ingest (sv_Webhook (services_in_memory ord cops prov th ul secrets)) (path_value vals) body (webhook_sig r) (hook_of st) = (res, h)"
      by fastforce
    from kyt_covered_webhook [OF cache ok s] show ?thesis
      using run Inr s by (auto simp: EWebhook endpoint_handlers webhookHandler_def Let_def kyt_covered_metrics)
  qed (use run ok in \<open>auto simp: EWebhook endpoint_handlers webhookHandler_def\<close>)
qed (use run ok in \<open>auto simp: run_endpoint_def getAlertHandler_def listAlertsHandler_def split: sum.splits\<close>)

lemma kyt_covered_step:
  assumes prov: "screen_provider prov" and cache: "verdict_cache cops held" and ok: "kyt_covered ord st"
    and run: "service_step fmt (services_in_memory ord cops prov th ul secrets) c st = (oc, st')"
  shows "kyt_covered ord st'"
proof (cases c)
  case (CallHttp r)
  obtain rid st1 where i: "request_id r st = (rid, st1)" by fastforce
  note ok1 = kyt_covered_request_id [OF ok i]
  obtain resp where m: "NewMux (services_in_memory ord cops prov th ul secrets) rid r st1 = (resp, st')"
    using run i CallHttp by (auto simp: serve_http_def split: prod.splits)
  show ?thesis
  proof (cases "find_route (hr_Method r) (hr_Path r)")
    case None
    then show ?thesis using m ok1 by (auto simp: NewMux_def)
  next
    case (Some ev)
    then show ?thesis using m kyt_covered_endpoint [OF prov cache ok1] by (cases ev) (auto simp: NewMux_def)
  qed
next
  case (CallScreen p)
  obtain x core where s: "Service_Screen (NewService cops prov th (memory_screen_store ord) memory_alert_store ul) (ks_core st)
      (toScreenRequest p) = (x, core)" by fastforce
  from kyt_covered_screen [OF prov cache ok s] show ?thesis
    using run s by (cases x) (auto simp: CallScreen grpc_Screen_def)
next
  case (CallGetAlert i)
  then show ?thesis using run ok by (auto simp: grpc_GetAlert_def split: sum.splits)
next
  case (RunReview n)
  then show ?thesis using run kyt_covered_review [OF ok] by auto
qed

lemma kyt_covered_run:
  assumes prov: "screen_provider prov" and cache: "verdict_cache cops held"
  shows "kyt_covered ord st \<Longrightarrow> service_run fmt (services_in_memory ord cops prov th ul secrets) cs st = (os, st') \<Longrightarrow>
    kyt_covered ord st'"
proof (induction cs arbitrary: st os)
  case (Cons c cs)
  obtain oc st1 where s: "service_step fmt (services_in_memory ord cops prov th ul secrets) c st = (oc, st1)" by fastforce
  show ?case using Cons.IH [OF kyt_covered_step [OF prov cache Cons.prems(1) s]] Cons.prems(2) s by (auto split: prod.splits)
qed simp

section \<open>What is known of the tables\<close>

lemma screen_row_columns:
  "screen_row r ''screen_id'' = SText (sr_ScreenID r)" "screen_row r ''decision'' = SText (sr_Decision r)"
  "screen_row r ''tx_id'' = SText (sr_TxID r)" "screen_row r ''address'' = SText (sr_Address r)"
  "screen_row r ''chain'' = SText (sr_Chain r)" "screen_row r ''exposure'' = SText (sr_Exposure r)"
  by (simp_all add: screen_row_def screen_columns_def screen_args_def)

lemma alert_row_columns:
  "alert_row a ''screen_id'' = null_text (al_ScreenID a)" "alert_row a ''exposure'' = SText (al_Exposure a)"
  "alert_row a ''tx_id'' = SText (al_TxID a)" "alert_row a ''address'' = SText (al_Address a)"
  "alert_row a ''chain'' = SText (al_Chain a)"
  by (simp_all add: alert_row_def alert_columns_def alert_args_def)

text \<open>Two rows are about the same flow.\<close>

definition same_flow_row :: "row \<Rightarrow> row \<Rightarrow> bool" where
  "same_flow_row x y \<longleftrightarrow> list_all (\<lambda>c. x c = y c) [''screen_id'', ''tx_id'', ''address'', ''chain'', ''exposure'']"

definition tables_covered :: "row list \<Rightarrow> row list \<Rightarrow> bool" where
  "tables_covered screens alerts \<longleftrightarrow>
     (\<forall>x \<in> set screens. x ''decision'' = SText DecisionAllow \<or> (\<exists>y \<in> set alerts. same_flow_row x y))
   \<and> (\<forall>y \<in> set alerts. y ''screen_id'' = SNull \<or> (\<exists>x \<in> set screens. x ''screen_id'' = y ''screen_id''))"

context kyt_service_db
begin

lemma holds_covered:
  assumes h: "holds d s a" and cov: "covered (map_of s) (ms_mem a)" and ids: "'''' \<notin> dom (map_of s)"
  shows "tables_covered (contents d ''kyt_screens'') (contents d ''kyt_alerts'')"
proof -
  have scr: "contents d ''kyt_screens'' = map (\<lambda>e. screen_row (snd e)) (as_stored numeric micro s)" "distinct (keys_of (as_stored numeric micro s))"
    "\<forall>(k, r) \<in> set (as_stored numeric micro s). sr_ScreenID r = k"
    using h by (auto simp: db_holds_def screens_rel_def)
  have al: "contents d ''kyt_alerts'' = map (\<lambda>i. alert_row (the (ms_mem (stored_alerts micro a) i))) (ms_order a)" "mem_ok a"
    using h by (auto simp: db_holds_def alerts_rel_def)
  have rows: "set (contents d ''kyt_screens'') = (\<lambda>(k, r). screen_row (stored_screen numeric micro r)) ` set s"
    unfolding scr(1) by (force simp: as_stored_def)
  have alerts: "set (contents d ''kyt_alerts'') = (\<lambda>b. alert_row (micro_alert micro b)) ` ran (ms_mem a)"
    using al(2) unfolding al(1) by (force simp: mem_ok_def ran_def)
  have key: "sr_ScreenID r = k" "map_of s k = Some r" if "(k, r) \<in> set s" for k r
  proof -
    have "(k, stored_screen numeric micro r) \<in> set (as_stored numeric micro s)" using that by (force simp: as_stored_def)
    then show "sr_ScreenID r = k" using scr(3) by fastforce
    have "distinct (map fst s)" using scr(2) by (simp add: as_stored_def o_def)
    then show "map_of s k = Some r" using that by simp
  qed
  have "x ''decision'' = SText DecisionAllow \<or> (\<exists>y \<in> set (contents d ''kyt_alerts''). same_flow_row x y)"
    if x: "x \<in> set (contents d ''kyt_screens'')" for x
  proof -
    obtain k r where r: "(k, r) \<in> set s" "x = screen_row (stored_screen numeric micro r)" using x rows by auto
    show ?thesis
    proof (cases "sr_Decision r = DecisionAllow")
      case True
      then show ?thesis by (simp add: r(2) screen_row_columns)
    next
      case False
      then obtain j b where b: "ms_mem a j = Some b" "al_ScreenID b = k" "al_TxID b = sr_TxID r" "al_Address b = sr_Address r"
        "al_Chain b = sr_Chain r" "al_Exposure b = sr_Exposure r"
        using cov key(2) [OF r(1)] unfolding covered_def by metis
      have "k \<noteq> ''''" using ids key(2) [OF r(1)] by auto
      then have "same_flow_row x (alert_row (micro_alert micro b))"
        using b key(1) [OF r(1)] by (simp add: same_flow_row_def r(2) screen_row_columns alert_row_columns null_text_def)
      then show ?thesis using b(1) unfolding alerts by (blast intro: ranI)
    qed
  qed
  moreover have "y ''screen_id'' = SNull \<or> (\<exists>x \<in> set (contents d ''kyt_screens''). x ''screen_id'' = y ''screen_id'')"
    if y: "y \<in> set (contents d ''kyt_alerts'')" for y
  proof -
    obtain j b where b: "ms_mem a j = Some b" "y = alert_row (micro_alert micro b)" using y unfolding alerts by (auto simp: ran_def)
    have "al_ScreenID b = '''' \<or> al_ScreenID b \<in> fst ` set s" using h b(1) by (simp add: db_holds_def)
    then show ?thesis
    proof
      assume "al_ScreenID b \<in> fst ` set s"
      then obtain r where "(al_ScreenID b, r) \<in> set s" by auto
      then show ?thesis using key(1) unfolding rows
        by (auto simp: b(2) alert_row_columns null_text_def screen_row_columns intro!: bexI [rotated])
    qed (simp add: b(2) alert_row_columns null_text_def)
  qed
  ultimately show ?thesis by (simp add: tables_covered_def)
qed

end

section \<open>The caches of a deployment\<close>

text \<open>
  A service with a database takes its verdicts from Redis or from the table \<open>address_risk_cache\<close>; whatever
  these hold, they only move the clock, which is all the results below ask of a cache.  (Both are kept
  as a state of their own: no other store touches that table.)
\<close>

lemma fill_times_world: "fill_times dt st w v = (v', w') \<Longrightarrow> world_le w w'"
  by (auto simp: fill_times_def time_Now_def world_le_def Let_def split: if_splits)

lemma redis_verdict_cache: "verdict_cache (storeCacheAdapter (redis_cache rd tc c)) (\<lambda>_. UNIV)"
  by unfold_locales
    (auto simp: storeCacheAdapter_def adapter_Get_def adapter_Set_def redis_cache_def RedisCache_Get_def RedisCache_Set_def
      RedisCache_Delete_def Let_def split: prod.splits sum.splits option.splits redis_reply.splits dest: fill_times_world)

lemma pg_verdict_cache: "verdict_cache (storeCacheAdapter (pg_cache db c)) (\<lambda>_. UNIV)"
  by unfold_locales
    (auto simp: storeCacheAdapter_def adapter_Get_def adapter_Set_def pg_cache_def PGCache_Get_def PGCache_Set_def
      PGCache_Delete_def time_Now_def Let_def split: prod.splits sum.splits option.splits if_splits dest: fill_times_world)

section \<open>An amount PostgreSQL refuses\<close>

definition stores_untouched :: "('c, 'p, 's, 'a) screen_state \<Rightarrow> ('c, 'p, 's, 'a) screen_state \<Rightarrow> bool" where
  "stores_untouched p q \<longleftrightarrow> st_screens q = st_screens p \<and> st_alerts q = st_alerts p \<and> st_audit q = st_audit p"

definition persist_refused :: "(go_error + Response) \<Rightarrow> bool" where
  "persist_refused r \<longleftrightarrow> (\<exists>c m. r = Inl (Wrap ''persist screen'' (Wrap ''pgscreen put'' (PqErr c m))))"

context kyt_service_db
begin

definition refused :: "('c, 'p, 'd, 'a) screen_state \<Rightarrow> (go_error + Response) \<times> ('c, 'p, 'd, 'a) screen_state \<Rightarrow> bool" where
  "refused p out \<longleftrightarrow> persist_refused (fst out) \<and> stores_untouched p (snd out)"

lemma refused_by:
  assumes "refused q (f q)" and "g = f q" and "stores_untouched p q"
  shows "refused p g"
  using assms by (simp add: refused_def stores_untouched_def)

lemma finalize_refused:
  assumes "numeric (rq_Amount req) = None" and "up (st_screens p)" and "fresh_ids (st_world p)"
  shows "refused p (finalize (NewService cops prov th (pg_screen_store db) alerts ul) p req sc ex dec vend hit)"
proof -
  let ?rec = "\<lparr>sr_ScreenID = uuids (st_world p) (drawn (st_world p)), sr_TxID = rq_TxID req, sr_Address = rq_Address req,
      sr_SourceAddress = rq_SourceAddress req, sr_Chain = rq_Chain req, sr_Amount = rq_Amount req, sr_RiskScore = sc,
      sr_Exposure = ex, sr_Decision = dec, sr_Vendor = vend, sr_VendorResponseID = '''', sr_CacheHit = hit,
      sr_CreatedAt = clk (st_world p) (ticks (st_world p))\<rparr>"
  have id: "sr_ScreenID ?rec \<noteq> ''''" using fresh_nonempty [OF assms(3)] by simp
  have "numeric (sr_Amount ?rec) = None" using assms(1) by simp
  from amount_refused [OF assms(2) this, of "DoUpdate [''screen_id''] excluded_columns"] obtain c m
    where "db_Exec db (st_screens p) (Insert ''kyt_screens'' screen_columns (DoUpdate [''screen_id''] excluded_columns))
      (screen_args ?rec) = (Inl (PqErr c m), st_screens p)" by blast
  then have "PGScreenStore_Put db (st_screens p) ?rec = (Some (Wrap ''pgscreen put'' (PqErr c m)), st_screens p)"
    using id unfolding PGScreenStore_Put_def by simp
  then show ?thesis
    by (simp add: refused_def persist_refused_def stores_untouched_def finalize_def NewService_def newID_def time_Now_def
        pg_screen_store_def Let_def)
qed

lemma vendor_refused:
  assumes "numeric (rq_Amount req) = None" and "up (st_screens p)" and "fresh_ids (st_world p)"
    and prov: "screen_provider prov" and cache: "verdict_cache cops held"
  shows "refused p (screen_vendor (NewService cops prov th (pg_screen_store db) alerts ul) p req)"
proof -
  let ?svc = "NewService cops prov th (pg_screen_store db) alerts ul"
  obtain a w v where v: "prov_Screen prov (st_world p) (st_provider p) (vendor_request_of req) = (a, w, v)"
    by (metis prod_cases3)
  have le: "world_le (st_world p) w" using screen_provider.advances [OF prov v] .
  then have fresh: "fresh_ids w" using world_le_fresh [OF le] assms(3) by simp
  have svc: "svc_provider ?svc = prov" "svc_cache ?svc = Some cops" by (simp_all add: NewService_def)
  show ?thesis
  proof (cases a)
    case (Inl e)
    have v': "prov_Screen (svc_provider ?svc) (st_world p) (st_provider p) (vendor_request_of req) = (Inl e, w, v)"
      using v Inl svc by simp
    show ?thesis unfolding screen_vendor_error [OF v']
      by (rule refused_by [OF finalize_refused refl]) (simp_all add: assms fresh stores_untouched_def)
  next
    case (Inr vr)
    obtain e w3 c where s: "c_Set cops w (st_cache p) (verdict_of ?svc req vr) = (e, w3, c)" by (metis prod_cases3)
    have "fresh_ids w3" using world_le_fresh [OF verdict_cache.set_world [OF cache s]] fresh by simp
    moreover have v': "prov_Screen (svc_provider ?svc) (st_world p) (st_provider p) (vendor_request_of req) = (Inr vr, w, v)"
      using v Inr svc by simp
    ultimately show ?thesis unfolding screen_vendor_answer [OF v' svc(2) s]
      by (intro refused_by [OF finalize_refused refl]) (simp_all add: assms stores_untouched_def)
  qed
qed

lemma screen_refused:
  assumes amount: "numeric (rq_Amount req) = None" and up: "up (st_screens p)" and fresh: "fresh_ids (st_world p)"
    and prov: "screen_provider prov" and cache: "verdict_cache cops held" and ok: "validate req = None"
  shows "refused p (Service_Screen (NewService cops prov th (pg_screen_store db) alerts ul) p req)"
proof -
  let ?svc = "NewService cops prov th (pg_screen_store db) alerts ul"
  let ?w0 = "tick (st_world p)"
  define p0 where "p0 = p\<lparr>st_world := ?w0\<rparr>"
  obtain g w c where g: "c_Get cops ?w0 (st_cache p) (rq_Address req) (rq_Chain req) = (g, w, c)" by (metis prod_cases3)
  have "fresh_ids ?w0" using fresh by (simp add: fresh_ids_def)
  then have fw: "fresh_ids w" using world_le_fresh [OF verdict_cache.get_world [OF cache g]] by simp
  let ?hit = "case g of Inr (Some v) \<Rightarrow> Some v | _ \<Rightarrow> None"
  have look: "screen_lookup ?svc p0 req = (?hit, p0\<lparr>st_world := w, st_cache := c\<rparr>)"
    using g by (simp add: screen_lookup_def NewService_def p0_def)
  have "refused p (screen_body ?svc p0 req)"
  proof (cases ?hit)
    case (Some v)
    show ?thesis unfolding screen_body_hit [OF look [unfolded Some]]
      by (rule refused_by [OF finalize_refused refl]) (simp_all add: amount up fw stores_untouched_def p0_def)
  next
    case None
    show ?thesis unfolding screen_body_miss [OF look [unfolded None]]
      by (rule refused_by [OF vendor_refused [OF _ _ _ prov cache] refl]) (simp_all add: amount up fw stores_untouched_def p0_def)
  qed
  then show ?thesis
    by (simp add: Service_Screen_timed [OF ok] p0_def [symmetric] refused_def Let_def split_beta stores_untouched_def timed_def time_Now_def)
qed

end

section \<open>What holds of the service over PostgreSQL\<close>

text \<open>
  C3: The service over PostgreSQL behaves as the service over the in-memory stores.  Both its stores are
  views of one database with a foreign key from alerts to screens.  REST requests, gRPC calls, webhooks and
  reviews come one after another, each completed before the next.  Every answer is then the same, but that
  an alert has its times as \<open>TIMESTAMPTZ\<close> keeps them, a listing is in the order of creation, and a listing
  without alerts is the \<open>nil\<close> slice instead of an empty one; afterwards the tables hold what the in-memory
  stores hold, amounts as \<open>NUMERIC(20, 8)\<close> and times as \<open>TIMESTAMPTZ\<close> keep them.  The conditions are those of
  \<open>run_storable\<close>: the identifiers drawn in the run are canonical UUIDs, the ids asked for are canonical UUIDs
  or no UUIDs, all texts are UTF-8 without NUL and the stored ones at most 1000 bytes long, times lie in the
  years 1 to 9999, PostgreSQL accepts the amounts, and the screens that a review goes through were made in
  different microseconds.
\<close>

theorem postgres_service_refines_memory:
  assumes "kyt_service_db db contents up fits canon numeric micro" and "screen_provider prov" and "verdict_cache cops held"
    and "one_db contents up canon numeric micro ord p m"
    and "service_run fmt (services_in_memory ord cops prov th ul secrets) cs m = (os, m')"
    and "run_storable canon numeric micro fmt (services_in_memory ord cops prov th ul secrets) cs m"
  shows "\<exists>os' p'. shared_run fmt (services_in_db db cops prov th ul secrets) cs p = (os', p')
    \<and> list_all2 (outcome_alike micro fmt) os' os \<and> one_db contents up canon numeric micro ord p' m'"
  using kyt_service_db.run_served [OF assms(1-3)] assms(4-6)
  unfolding kyt_service_db.one_db_ready [OF assms(1)] by blast

text \<open>
  C4: No flow goes unnoticed in the tables.  After a run of calls to the service over PostgreSQL, one after
  another and under the same conditions (\<open>run_storable\<close>), with any cache, every row of \<open>kyt_screens\<close> with
  another decision than \<open>ALLOW\<close> has a row of \<open>kyt_alerts\<close> with its screen id, flow and exposure, and every
  screen id in \<open>kyt_alerts\<close> is that of a row of \<open>kyt_screens\<close>.
\<close>

theorem postgres_service_covers:
  assumes "kyt_service_db db contents up fits canon numeric micro" and "screen_provider prov" and "verdict_cache cops held"
    and "one_db contents up canon numeric micro ord p m" and "kyt_covered ord m"
    and "run_storable canon numeric micro fmt (services_in_memory ord cops prov th ul secrets) cs m"
    and "shared_run fmt (services_in_db db cops prov th ul secrets) cs p = (os, p')"
  shows "tables_covered (contents (st_screens (ks_core p')) ''kyt_screens'') (contents (st_screens (ks_core p')) ''kyt_alerts'')"
proof -
  obtain om m' where m: "service_run fmt (services_in_memory ord cops prov th ul secrets) cs m = (om, m')" by fastforce
  have "one_db contents up canon numeric micro ord p' m'"
    using kyt_service_db.run_served [OF assms(1-3) _ m assms(6)] assms(4,7)
    unfolding kyt_service_db.one_db_ready [OF assms(1)] by fastforce
  then have h: "db_holds contents up canon numeric micro (st_screens (ks_core p')) (st_screens (ks_core m')) (st_alerts (ks_core m'))"
    by (simp add: one_db_def)
  have k: "kyt_covered ord m'" by (rule kyt_covered_run [OF assms(2,3,5) m])
  then have "dom (map_of (st_screens (ks_core m'))) \<subseteq> used_ids (st_world (ks_core m'))" by (simp add: kyt_covered_def memory_state_ok_def)
  moreover have "'''' \<notin> used_ids (st_world (ks_core m'))"
    using fresh_nonempty [OF kyt_covered_parts(5) [OF k]] by (auto simp: used_ids_def dest: sym)
  ultimately have "'''' \<notin> dom (map_of (st_screens (ks_core m')))" by blast
  with k show ?thesis by (intro kyt_service_db.holds_covered [OF assms(1) h]) (simp_all add: kyt_covered_def)
qed

text \<open>
  C24: A request whose amount PostgreSQL refuses (a word, a number beyond \<open>NUMERIC(20, 8)\<close>) passes the
  checks of the service and leaves no trace: whatever the cache or the vendor say of the address,
  a sanctioned one included, the caller gets the error of the screen table, and no screen, no alert and no
  audit event are written.
\<close>

theorem refused_amount_leaves_no_trace:
  assumes "kyt_service_db db contents up fits canon numeric micro" and "screen_provider prov" and "verdict_cache cops held"
    and "up (st_screens p)" and "fresh_ids (st_world p)" and "validate req = None" and "numeric (rq_Amount req) = None"
    and "Service_Screen (NewService cops prov th (pg_screen_store db) alerts ul) p req = (r, p')"
  shows "persist_refused r \<and> stores_untouched p p'"
  using kyt_service_db.screen_refused [OF assms(1,7,4,5,2,3,6), of th alerts ul] assms(8)
  by (simp add: kyt_service_db.refused_def [OF assms(1)])

section \<open>A concrete service over PostgreSQL\<close>

text \<open>Ten UUIDs to draw from, which is more than a run below needs, and a clock that is not in whole microseconds.\<close>

definition demo_pg_world :: world where
  "demo_pg_world = \<lparr>clk = (\<lambda>n. 1777777777 + 1000123 * int n), ticks = 0, uuids = demo_uuids, drawn = 0\<rparr>"

definition demo_pg_memory :: "MockProvider memory_kyt" where
  "demo_pg_memory = demo_kyt (demo_state\<lparr>st_world := demo_pg_world\<rparr>)"

definition demo_pg_kyt :: "(MemoryCache, MockProvider, engine, engine) kyt_state" where
  "demo_pg_kyt = \<lparr>ks_core = \<lparr>st_world = demo_pg_world, st_cache = st_cache demo_state, st_provider = st_provider demo_state,
       st_screens = empty_db, st_alerts = empty_db, st_audit = st_audit demo_state, st_metrics = st_metrics demo_state\<rparr>,
     ks_seen = {}, ks_pending = []\<rparr>"

definition demo_pg_http :: "string \<Rightarrow> string list \<Rightarrow> HttpReq" where
  "demo_pg_http verb path = \<lparr>hr_Method = verb, hr_Path = path, hr_Query = (\<lambda>_. ''''), hr_Header = (\<lambda>_. ''''),
     hr_Body = (marshal_obj [(''assignee'', VStr ''ann'')], None)\<rparr>"

text \<open>No alerts, an id that is none, a screen, and its alert found, listed, assigned and closed.\<close>

definition demo_pg_requests :: "call list" where
  "demo_pg_requests =
     (let i = demo_uuids 1 in
      [CallHttp (demo_pg_http ''GET'' [''v1'', ''kyt'', ''alerts'']), CallGetAlert ''nope'', CallScreen demo_pb, CallGetAlert i, CallHttp (demo_pg_http ''GET'' [''v1'', ''kyt'', ''alerts'']),
       CallHttp (demo_pg_http ''POST'' [''v1'', ''kyt'', ''alerts'', i, ''assign'']),
       CallHttp (demo_pg_http ''POST'' [''v1'', ''kyt'', ''alerts'', i, ''close'']), RunReview 0])"

abbreviation demo_pg_side :: "(MemoryCache, MockProvider, MemoryScreenStore, MemoryStore) Services" where
  "demo_pg_side \<equiv> services_in_memory (\<lambda>m. m) memory_cache mock_provider demo_thresholds id demo_secrets"

lemma demo_pg_storable: "run_storable uuid_canon numeric8 micro_round (\<lambda>_. '''') demo_pg_side demo_pg_requests demo_pg_memory"
  by code_simp

lemma demo_pg_fresh: "fresh_ids demo_pg_world"
  using demo_uuids_inj by (simp add: fresh_ids_def demo_pg_world_def demo_uuids_def)

lemma demo_pg_start: "memory_state_ok (\<lambda>m. m) (ks_core demo_pg_memory)"
  "one_db (\<lambda>d. d) (\<lambda>_. True) uuid_canon numeric8 micro_round (\<lambda>m. m) demo_pg_kyt demo_pg_memory" "kyt_covered (\<lambda>m. m) demo_pg_memory"
proof -
  show ok: "memory_state_ok (\<lambda>m. m) (ks_core demo_pg_memory)"
    by (simp add: memory_state_ok_def demo_pg_memory_def demo_kyt_def demo_state_def demo_pg_fresh mss_ok_def mem_ok_def
        NewMemoryScreenStore_def NewMemoryStore_def)
  have "db_holds (\<lambda>d. d) (\<lambda>_. True) uuid_canon numeric8 micro_round empty_db NewMemoryScreenStore NewMemoryStore"
    by (simp add: db_holds_def screens_rel_def alerts_rel_def as_stored_def empty_db_def mem_ok_def NewMemoryScreenStore_def
        NewMemoryStore_def)
  then show "one_db (\<lambda>d. d) (\<lambda>_. True) uuid_canon numeric8 micro_round (\<lambda>m. m) demo_pg_kyt demo_pg_memory"
    using ok by (simp add: one_db_def same_env_def demo_pg_kyt_def demo_pg_memory_def demo_kyt_def demo_state_def)
  show "kyt_covered (\<lambda>m. m) demo_pg_memory" using ok
    by (simp add: kyt_covered_def) (simp add: demo_pg_memory_def demo_kyt_def demo_state_def wf_table_def covered_def
        NewMemoryScreenStore_def NewMemoryStore_def)
qed

abbreviation demo_pg_services :: "(MemoryCache, MockProvider, engine, engine) Services" where
  "demo_pg_services \<equiv> services_in_db (checked_db uuid_canon) memory_cache mock_provider demo_thresholds id demo_secrets"

theorem postgres_service_refines_memory_witness:
  "list_all2 (outcome_alike micro_round (\<lambda>_. '''')) (fst (shared_run (\<lambda>_. '''') demo_pg_services demo_pg_requests demo_pg_kyt))
     (fst (service_run (\<lambda>_. '''') demo_pg_side demo_pg_requests demo_pg_memory))"
  using postgres_service_refines_memory [OF checked_service_laws mock_adv.screen_provider_axioms mcv.verdict_cache_axioms
      demo_pg_start(2) prod.collapse [symmetric] demo_pg_storable] by auto

theorem postgres_service_covers_witness:
  "let d = st_screens (ks_core (snd (shared_run (\<lambda>_. '''') demo_pg_services demo_pg_requests demo_pg_kyt)))
   in tables_covered (d ''kyt_screens'') (d ''kyt_alerts'')"
  using postgres_service_covers [OF checked_service_laws mock_adv.screen_provider_axioms mcv.verdict_cache_axioms
      demo_pg_start(2,3) demo_pg_storable prod.collapse [symmetric]] by (simp only: Let_def)

theorem refused_amount_leaves_no_trace_witness:
  "persist_refused (fst (Service_Screen
     (NewService memory_cache mock_provider demo_thresholds (pg_screen_store (checked_db uuid_canon))
       (pg_alert_store (checked_db uuid_canon)) id) (ks_core demo_pg_kyt)
     (demo_request1\<lparr>rq_Amount := ''lots''\<rparr>)))"
proof -
  have "validate (demo_request1\<lparr>rq_Amount := ''lots''\<rparr>) = None"
    by (simp add: validate_def demo_request1_def TrimSpace_visible visible_def)
  moreover have "numeric8 (rq_Amount (demo_request1\<lparr>rq_Amount := ''lots''\<rparr>)) = None"
    by (simp add: numeric8_def is_digits_def)
  moreover have "fresh_ids (st_world (ks_core demo_pg_kyt))" using demo_pg_fresh by (simp add: demo_pg_kyt_def)
  ultimately show ?thesis
    using refused_amount_leaves_no_trace [OF checked_service_laws mock_adv.screen_provider_axioms mcv.verdict_cache_axioms TrueI _ _ _
        prod.collapse [symmetric], of "ks_core demo_pg_kyt"] by simp
qed

end
