(* ===== verification/Wire.thy ===== *)
theory Wire
  imports Api Redis_Cache
begin

text \<open>
  What the REST API writes: the JSON encoder of \<open>encoding/json\<close> on any value, the values of the responses
  (\<open>writeJSON\<close>, \<open>writeError\<close>), and the clients' side of it.  The encoder is inverted by the decoder of
  \<open>Go_Json\<close> on all texts in UTF-8.
\<close>

section \<open>The encoder\<close>

function (sequential) encode_json :: "json \<Rightarrow> string"
  and encode_items :: "json list \<Rightarrow> string"
  and encode_members :: "(string \<times> json) list \<Rightarrow> string" where
  "encode_json JNull = ''null''"
| "encode_json (JBool b) = (if b then ''true'' else ''false'')"
| "encode_json (JNum l) = l"
| "encode_json (JStr s) = json_quote s"
| "encode_json (JArr vs) = CHR 0x5B # encode_items vs @ [CHR 0x5D]"
| "encode_json (JObj ms) = CHR 0x7B # encode_members ms @ [CHR 0x7D]"
| "encode_items [] = []"
| "encode_items [v] = encode_json v"
| "encode_items (v # vs) = encode_json v @ CHR '','' # encode_items vs"
| "encode_members [] = []"
| "encode_members [(k, v)] = json_quote k @ CHR '':'' # encode_json v"
| "encode_members ((k, v) # ms) = json_quote k @ CHR '':'' # encode_json v @ CHR '','' # encode_members ms"
  by pat_completeness auto
termination
  by (relation "measure (\<lambda>x. case x of Inl v \<Rightarrow> size v | Inr (Inl vs) \<Rightarrow> size_list size vs
      | Inr (Inr ms) \<Rightarrow> size_list (size_prod (\<lambda>_. 0) size) ms)") auto

text \<open>The tokens of its output.\<close>

function (sequential) json_toks :: "json \<Rightarrow> jtok list"
  and items_toks :: "json list \<Rightarrow> jtok list"
  and pairs_toks :: "(string \<times> json) list \<Rightarrow> jtok list" where
  "json_toks JNull = [TNull]"
| "json_toks (JBool b) = [if b then TTrue else TFalse]"
| "json_toks (JNum l) = [TNum l]"
| "json_toks (JStr s) = [TStr (json_escape s)]"
| "json_toks (JArr vs) = TLBrack # items_toks vs @ [TRBrack]"
| "json_toks (JObj ms) = TLBrace # pairs_toks ms @ [TRBrace]"
| "items_toks [] = []"
| "items_toks [v] = json_toks v"
| "items_toks (v # vs) = json_toks v @ TComma # items_toks vs"
| "pairs_toks [] = []"
| "pairs_toks [(k, v)] = TStr (json_escape k) # TColon # json_toks v"
| "pairs_toks ((k, v) # ms) = TStr (json_escape k) # TColon # json_toks v @ TComma # pairs_toks ms"
  by pat_completeness auto
termination
  by (relation "measure (\<lambda>x. case x of Inl v \<Rightarrow> size v | Inr (Inl vs) \<Rightarrow> size_list size vs
      | Inr (Inr ms) \<Rightarrow> size_list (size_prod (\<lambda>_. 0) size) ms)") auto

text \<open>Values with at most \<open>n\<close> levels of arrays and objects, texts in UTF-8 and whole numbers.\<close>

fun wire_ok :: "nat \<Rightarrow> json \<Rightarrow> bool" where
  "wire_ok n (JNum l) \<longleftrightarrow> l = Itoa (the (Atoi l))"
| "wire_ok n (JStr s) \<longleftrightarrow> valid_utf8 s"
| "wire_ok (Suc n) (JArr vs) \<longleftrightarrow> list_all (wire_ok n) vs"
| "wire_ok (Suc n) (JObj ms) \<longleftrightarrow> list_all (\<lambda>(k, v). valid_utf8 k \<and> wire_ok n v) ms"
| "wire_ok 0 (JArr vs) \<longleftrightarrow> False"
| "wire_ok 0 (JObj ms) \<longleftrightarrow> False"
| "wire_ok n v \<longleftrightarrow> True"

section \<open>Reading it back\<close>

definition value_ends :: "string \<Rightarrow> bool" where
  "value_ends t \<longleftrightarrow> t = [] \<or> hd t \<in> {CHR '','', CHR 0x5D, CHR 0x7D, CHR 0x0A}"

lemma value_ends_simps [simp]:
  "value_ends []" "value_ends (CHR '','' # t)" "value_ends (CHR 0x5D # t)" "value_ends (CHR 0x7D # t)" "value_ends (CHR 0x0A # t)"
  by (simp_all add: value_ends_def)

lemma value_ends_chars:
  assumes "value_ends t" and "t \<noteq> []"
  shows "\<not> num_char (hd t)" and "\<not> word_char (hd t)"
  using assms by (auto simp: value_ends_def num_char_def word_char_def is_digit_def)

lemma lex_word:
  assumes "value_ends t" and "w \<in> {''true'', ''false'', ''null''}"
  shows "lex (w @ t) = map_option (Cons (the (word_tok w))) (lex t)"
proof -
  have split: "takeWhile word_char (x @ t) = x \<and> dropWhile word_char (x @ t) = t" if "\<forall>c \<in> set x. word_char c" for x
    using that value_ends_chars(2) [OF assms(1)] by (cases t) (simp_all add: takeWhile_append2 dropWhile_append2)
  have "\<forall>c \<in> set w. word_char c" using assms(2) by (auto simp: word_char_def)
  moreover obtain c x where w: "w = c # x" using assms(2) by auto
  ultimately have "takeWhile word_char (x @ t) = x" "dropWhile word_char (x @ t) = t" using split [of x] by simp_all
  moreover have "word_char c" "\<not> json_space c" "punct c = None" "c \<noteq> dquote" "word_tok w \<noteq> None"
    using assms(2) w by (auto simp: word_char_def json_space_def punct_def word_tok_def)
  ultimately show ?thesis unfolding w by (auto split: option.split)
qed

lemma lex_encoded:
  "wire_ok n v \<Longrightarrow> value_ends t \<Longrightarrow> lex (encode_json v @ t) = map_option ((@) (json_toks v)) (lex t)"
  "list_all (wire_ok n) vs \<Longrightarrow> lex (encode_items vs @ CHR 0x5D # t) = map_option ((@) (items_toks vs @ [TRBrack])) (lex t)"
  "list_all (\<lambda>(k, v). valid_utf8 k \<and> wire_ok n v) ms \<Longrightarrow>
     lex (encode_members ms @ CHR 0x7D # t) = map_option ((@) (pairs_toks ms @ [TRBrace])) (lex t)"
proof (induction v and vs and ms arbitrary: n t and n t and n t rule: encode_json_encode_items_encode_members.induct)
  case 1
  then show ?case using lex_word [of t "''null''"] by (simp add: word_tok_def del: lex.simps)
next
  case (2 b)
  then show ?case using lex_word [of t "''true''"] lex_word [of t "''false''"]
    by (cases b) (simp_all add: word_tok_def del: lex.simps)
next
  case (3 l)
  then obtain i where "l = Itoa i" by auto
  then show ?case using lex_Itoa [of t i] value_ends_chars(1) [OF 3(2)] by (cases "t = []") (simp_all del: lex.simps)
next
  case (4 s)
  then show ?case by (simp add: lex_quote_utf8 del: lex.simps)
next
  case (5 vs)
  then obtain m where "list_all (wire_ok m) vs" by (cases n) auto
  from 5(1) [OF this, of t] show ?case
    by (simp add: lex_punct [of "CHR 0x5B" TLBrack] punct_def json_space_def option.map_comp comp_def del: lex.simps)
next
  case (6 ms)
  then obtain m where "list_all (\<lambda>(k, v). valid_utf8 k \<and> wire_ok m v) ms" by (cases n) auto
  from 6(1) [OF this, of t] show ?case
    by (simp add: lex_punct [of "CHR 0x7B" TLBrace] punct_def json_space_def option.map_comp comp_def del: lex.simps)
next
  case 7
  then show ?case by (simp add: lex_punct [of "CHR 0x5D" TRBrack] punct_def json_space_def del: lex.simps)
next
  case (8 v)
  then show ?case
    by (simp add: lex_punct [of "CHR 0x5D" TRBrack] punct_def json_space_def option.map_comp comp_def del: lex.simps)
next
  case (9 v w vs)
  then have "wire_ok n v" "list_all (wire_ok n) (w # vs)" by simp_all
  from 9(1) [OF this(1)] 9(2) [OF this(2), of t] show ?case by (simp add: lex_comma option.map_comp comp_def del: lex.simps)
next
  case 10
  then show ?case by (simp add: lex_rbrace del: lex.simps)
next
  case (11 k v)
  then have "wire_ok n v" "valid_utf8 k" by simp_all
  from 11(1) [OF this(1)] this(2) show ?case
    by (simp add: lex_quote_utf8 lex_colon lex_rbrace option.map_comp comp_def del: lex.simps)
next
  case (12 k v m ms)
  then have "wire_ok n v" "list_all (\<lambda>(k, v). valid_utf8 k \<and> wire_ok n v) (m # ms)" "valid_utf8 k" by simp_all
  from 12(1) [OF this(1)] 12(2) [OF this(2), of t] this(3) show ?case
    by (simp add: lex_quote_utf8 lex_colon lex_comma option.map_comp comp_def del: lex.simps)
qed

lemma toks_first: "\<exists>t ts. json_toks v = t # ts \<and> t \<noteq> TRBrack"
  by (cases v) auto

lemma parse_encoded:
  "wire_ok n v \<Longrightarrow> n + length st \<le> maxNestingDepth \<Longrightarrow>
     parse_run (PVal st) (json_toks v @ ts) = parse_run (deliver v st) ts"
  "list_all (wire_ok n) vs \<Longrightarrow> vs \<noteq> [] \<Longrightarrow> n + length st < maxNestingDepth \<Longrightarrow>
     parse_run (PVal (FArr acc # st)) (items_toks vs @ TRBrack # ts) = parse_run (deliver (JArr (acc @ vs)) st) ts"
  "list_all (\<lambda>(k, v). valid_utf8 k \<and> wire_ok n v) ms \<Longrightarrow> ms \<noteq> [] \<Longrightarrow> n + length st < maxNestingDepth \<Longrightarrow>
     parse_run (PKey mem st) (pairs_toks ms @ TRBrace # ts) = parse_run (deliver (JObj (mem @ ms)) st) ts"
proof (induction v and vs and ms arbitrary: n st ts and n st ts acc and n st ts mem rule: json_toks_items_toks_pairs_toks.induct)
  case (5 vs)
  then obtain m where m: "n = Suc m" "list_all (wire_ok m) vs" by (cases n) auto
  show ?case
  proof (cases vs)
    case Nil
    then show ?thesis using 5(3) m(1) by simp
  next
    case (Cons w ws)
    obtain t us where t: "items_toks vs = t # us" "t \<noteq> TRBrack"
      using toks_first [of w] by (cases ws) (auto simp: Cons)
    have "parse_run (PVal st) (json_toks (JArr vs) @ ts) = parse_run (PVal (FArr [] # st)) (items_toks vs @ TRBrack # ts)"
      using 5(3) m(1) t by simp
    then show ?thesis using 5(1) [OF m(2), of st "[]" ts] Cons 5(3) m(1) by simp
  qed
next
  case (6 ms)
  then obtain m where m: "n = Suc m" "list_all (\<lambda>(k, v). valid_utf8 k \<and> wire_ok m v) ms" by (cases n) auto
  show ?case
  proof (cases ms)
    case Nil
    then show ?thesis using 6(3) m(1) by simp
  next
    case (Cons kv ws)
    obtain k us where "pairs_toks ms = TStr k # us" by (cases kv; cases ws) (auto simp: Cons)
    then have "parse_run (PVal st) (json_toks (JObj ms) @ ts) = parse_run (PKey [] st) (pairs_toks ms @ TRBrace # ts)"
      using 6(3) m(1) by simp
    then show ?thesis using 6(1) [OF m(2), of st "[]" ts] Cons 6(3) m(1) by simp
  qed
next
  case (8 v)
  then show ?case using 8(1) [of n "FArr acc # st"] by simp
next
  case (9 v w vs)
  then show ?case using 9(1) [of n "FArr acc # st"] 9(2) [of n st "acc @ [v]"] by simp
next
  case (11 k v)
  then show ?case using 11(1) [of n "FMem mem k # st"] by (simp add: utf8_json_escape)
next
  case (12 k v m ms)
  then show ?case using 12(1) [of n "FMem mem k # st"] 12(2) [of n st "mem @ [(k, v)]"] by (simp add: utf8_json_escape)
qed (simp_all add: utf8_json_escape)

text \<open>Every value that goes through the encoder is read back.\<close>

lemma parse_encode:
  assumes "wire_ok maxNestingDepth v"
  shows "parse_json (encode_json v @ [CHR 0x0A]) = Some v" and "parse_json (encode_json v) = Some v"
proof -
  have "lex [CHR 0x0A] = Some []" by (simp add: json_space_def)
  moreover have "parse_run (PVal []) (json_toks v) = Some (PDone v)"
    using parse_encoded(1) [OF assms, of "[]" "[]"] by simp
  ultimately show "parse_json (encode_json v @ [CHR 0x0A]) = Some v" "parse_json (encode_json v) = Some v"
    using lex_encoded(1) [OF assms, of "[CHR 0x0A]"] lex_encoded(1) [OF assms, of "[]"]
    by (simp_all add: parse_json_def del: lex.simps(2))
qed

section \<open>The bodies of the responses\<close>

text \<open>A string field with \<open>omitempty\<close>.\<close>

definition omit_empty :: "string \<Rightarrow> string \<Rightarrow> (string \<times> json) list" where
  "omit_empty k s = (if s = '''' then [] else [(k, JStr s)])"

definition response_json :: "Response \<Rightarrow> json" where
  "response_json r = JObj
     ([(''screen_id'', JStr (rp_ScreenID r)), (''risk_score'', JNum (Itoa (rp_RiskScore r))),
       (''exposure'', JStr (rp_Exposure r)), (''decision'', JStr (rp_Decision r))]
      @ omit_empty ''vendor'' (rp_Vendor r) @ [(''cache_hit'', JBool (rp_CacheHit r))])"

text \<open>A time outside the years 0 to 9999 has no encoding, and then the value has none.\<close>

definition closed_json :: "TimeCodec \<Rightarrow> gotime option \<Rightarrow> (string \<times> json) list option" where
  "closed_json tc c = (case c of None \<Rightarrow> Some [] | Some t \<Rightarrow> map_option (\<lambda>s. [(''closed_at'', JStr s)]) (tc_format tc t))"

definition alert_json :: "TimeCodec \<Rightarrow> Alert \<Rightarrow> json option" where
  "alert_json tc a =
     (case (tc_format tc (al_CreatedAt a), closed_json tc (al_ClosedAt a)) of
        (Some created, Some closed) \<Rightarrow> Some (JObj
          ([(''id'', JStr (al_ID a))] @ omit_empty ''screen_id'' (al_ScreenID a)
           @ [(''tx_id'', JStr (al_TxID a)), (''address'', JStr (al_Address a)), (''chain'', JStr (al_Chain a)),
              (''exposure'', JStr (al_Exposure a)), (''severity'', JStr (al_Severity a)), (''status'', JStr (al_Status a))]
           @ omit_empty ''assignee'' (al_Assignee a) @ [(''created_at'', JStr created)] @ closed))
      | _ \<Rightarrow> None)"

fun alerts_json :: "TimeCodec \<Rightarrow> Alert list \<Rightarrow> json list option" where
  "alerts_json tc [] = Some []"
| "alerts_json tc (a # as) =
     (case alert_json tc a of None \<Rightarrow> None
      | Some v \<Rightarrow> (case alerts_json tc as of None \<Rightarrow> None | Some vs \<Rightarrow> Some (v # vs)))"

text \<open>
  A listing without alerts is an empty slice from the in-memory store, and \<open>nil\<close> from the table
  (\<open>var out []alert.Alert\<close>), which is encoded as \<open>null\<close>.  The keys of a \<open>map[string]any\<close> are sorted.  The texts of
  \<open>/metrics\<close> and of an unknown path are not JSON.
\<close>

fun body_json :: "TimeCodec \<Rightarrow> Body \<Rightarrow> json option" where
  "body_json tc BHealth = Some (JObj [(''status'', JStr ''ok'')])"
| "body_json tc (BScreen r) = Some (response_json r)"
| "body_json tc (BAlert a) = alert_json tc a"
| "body_json tc (BAlerts None) = Some (JObj [(''alerts'', JNull)])"
| "body_json tc (BAlerts (Some as)) = map_option (\<lambda>vs. JObj [(''alerts'', JArr vs)]) (alerts_json tc as)"
| "body_json tc (BWebhook duplicate i) = Some (JObj
     ([(''accepted'', JBool True)] @ (if duplicate then [(''duplicate'', JBool True)] else []) @ [(''event_id'', JStr i)]))"
| "body_json tc (BError code msg rid) = Some (JObj [(''error'', JObj
     ([(''code'', JStr code), (''message'', JStr msg)] @ omit_empty ''request_id'' rid))])"
| "body_json tc _ = None"

text \<open>\<open>json.NewEncoder(w).Encode(v)\<close>: the value and a newline, or nothing when it cannot be encoded.\<close>

definition wire_text :: "TimeCodec \<Rightarrow> Body \<Rightarrow> string" where
  "wire_text tc b = (case body_json tc b of Some v \<Rightarrow> encode_json v @ [CHR 0x0A] | None \<Rightarrow> '''')"

text \<open>Bodies whose texts are UTF-8.\<close>

definition alert_utf8 :: "Alert \<Rightarrow> bool" where
  "alert_utf8 a \<longleftrightarrow> list_all valid_utf8 [al_ID a, al_ScreenID a, al_TxID a, al_Address a, al_Chain a, al_Exposure a,
     al_Severity a, al_Status a, al_Assignee a]"

fun body_utf8 :: "Body \<Rightarrow> bool" where
  "body_utf8 (BScreen r) \<longleftrightarrow> list_all valid_utf8 [rp_ScreenID r, rp_Exposure r, rp_Decision r, rp_Vendor r]
     \<and> minInt64 \<le> rp_RiskScore r \<and> rp_RiskScore r \<le> maxInt64"
| "body_utf8 (BAlert a) \<longleftrightarrow> alert_utf8 a"
| "body_utf8 (BAlerts as) \<longleftrightarrow> list_all alert_utf8 (items as)"
| "body_utf8 (BWebhook d i) \<longleftrightarrow> valid_utf8 i"
| "body_utf8 (BError c m i) \<longleftrightarrow> list_all valid_utf8 [c, m, i]"
| "body_utf8 _ \<longleftrightarrow> True"

section \<open>The clients' side\<close>

definition set_bool :: "(bool \<Rightarrow> 'a \<Rightarrow> 'a) \<Rightarrow> json \<Rightarrow> 'a \<Rightarrow> 'a option" where
  "set_bool upd v r = (case v of JBool b \<Rightarrow> Some (upd b r) | JNull \<Rightarrow> Some r | _ \<Rightarrow> None)"

definition response_fields :: "string list" where
  "response_fields = [''screen_id'', ''risk_score'', ''exposure'', ''decision'', ''vendor'', ''cache_hit'']"

definition response_setter :: "string \<Rightarrow> json \<Rightarrow> Response \<Rightarrow> Response option" where
  "response_setter f =
     (if f = ''screen_id'' then set_str (\<lambda>s r. r\<lparr>rp_ScreenID := s\<rparr>)
      else if f = ''risk_score'' then set_int (\<lambda>n r. r\<lparr>rp_RiskScore := n\<rparr>)
      else if f = ''exposure'' then set_str (\<lambda>s r. r\<lparr>rp_Exposure := s\<rparr>)
      else if f = ''decision'' then set_str (\<lambda>s r. r\<lparr>rp_Decision := s\<rparr>)
      else if f = ''vendor'' then set_str (\<lambda>s r. r\<lparr>rp_Vendor := s\<rparr>)
      else set_bool (\<lambda>b r. r\<lparr>rp_CacheHit := b\<rparr>))"

definition unmarshal_response :: "string \<Rightarrow> go_error + Response" where
  "unmarshal_response = unmarshal response_fields response_setter
     \<lparr>rp_ScreenID = '''', rp_RiskScore = 0, rp_Exposure = '''', rp_Decision = '''', rp_Vendor = '''', rp_CacheHit = False\<rparr>"

definition alert_fields :: "string list" where
  "alert_fields = [''id'', ''screen_id'', ''tx_id'', ''address'', ''chain'', ''exposure'', ''severity'', ''status'',
     ''assignee'', ''created_at'', ''closed_at'']"

definition alert_setter :: "TimeCodec \<Rightarrow> string \<Rightarrow> json \<Rightarrow> Alert \<Rightarrow> Alert option" where
  "alert_setter tc f =
     (if f = ''id'' then set_str (\<lambda>s a. a\<lparr>al_ID := s\<rparr>)
      else if f = ''screen_id'' then set_str (\<lambda>s a. a\<lparr>al_ScreenID := s\<rparr>)
      else if f = ''tx_id'' then set_str (\<lambda>s a. a\<lparr>al_TxID := s\<rparr>)
      else if f = ''address'' then set_str (\<lambda>s a. a\<lparr>al_Address := s\<rparr>)
      else if f = ''chain'' then set_str (\<lambda>s a. a\<lparr>al_Chain := s\<rparr>)
      else if f = ''exposure'' then set_str (\<lambda>s a. a\<lparr>al_Exposure := s\<rparr>)
      else if f = ''severity'' then set_str (\<lambda>s a. a\<lparr>al_Severity := s\<rparr>)
      else if f = ''status'' then set_str (\<lambda>s a. a\<lparr>al_Status := s\<rparr>)
      else if f = ''assignee'' then set_str (\<lambda>s a. a\<lparr>al_Assignee := s\<rparr>)
      else if f = ''created_at'' then set_time tc (\<lambda>t a. a\<lparr>al_CreatedAt := t\<rparr>)
      else (\<lambda>v a. if v = JNull then Some (a\<lparr>al_ClosedAt := None\<rparr>) else set_time tc (\<lambda>t a. a\<lparr>al_ClosedAt := Some t\<rparr>) v a))"

definition unmarshal_alert :: "TimeCodec \<Rightarrow> string \<Rightarrow> go_error + Alert" where
  "unmarshal_alert tc = unmarshal alert_fields (alert_setter tc)
     \<lparr>al_ID = '''', al_ScreenID = '''', al_TxID = '''', al_Address = '''', al_Chain = '''', al_Exposure = '''',
      al_Severity = '''', al_Status = '''', al_Assignee = '''', al_CreatedAt = 0, al_ClosedAt = None\<rparr>"

section \<open>What is written is read\<close>

declare valid_utf8.simps(2) [simp del]

lemma body_members [simp]:
  "valid_utf8 ''screen_id''" "valid_utf8 ''risk_score''" "valid_utf8 ''exposure''" "valid_utf8 ''decision''" "valid_utf8 ''vendor''"
  "valid_utf8 ''cache_hit''" "valid_utf8 ''id''" "valid_utf8 ''tx_id''" "valid_utf8 ''address''" "valid_utf8 ''chain''"
  "valid_utf8 ''severity''" "valid_utf8 ''status''" "valid_utf8 ''assignee''" "valid_utf8 ''created_at''" "valid_utf8 ''closed_at''"
  "valid_utf8 ''ok''" "valid_utf8 ''alerts''" "valid_utf8 ''accepted''" "valid_utf8 ''duplicate''" "valid_utf8 ''event_id''"
  "valid_utf8 ''error''" "valid_utf8 ''code''" "valid_utf8 ''message''" "valid_utf8 ''request_id''"
  by (rule ascii_utf8, simp add: is_ascii_def)+

lemma response_ok: "body_utf8 (BScreen r) \<Longrightarrow> wire_ok (Suc n) (response_json r)"
  by (simp add: response_json_def omit_empty_def Atoi_Itoa)

lemma alert_ok:
  assumes "time_laws tc" and "alert_utf8 a" and "alert_json tc a = Some v"
  shows "wire_ok (Suc n) v"
proof -
  obtain created closed where t: "tc_format tc (al_CreatedAt a) = Some created" "closed_json tc (al_ClosedAt a) = Some closed"
    using assms(3) by (auto simp: alert_json_def split: option.splits)
  have c: "valid_utf8 created" using assms(1) t(1) by (auto simp: time_laws_def intro: ascii_utf8)
  have "list_all (\<lambda>(k, v). valid_utf8 k \<and> wire_ok n v) closed"
    using assms(1) t(2) by (cases "al_ClosedAt a") (auto simp: closed_json_def time_laws_def ascii_utf8)
  then show ?thesis using assms(2,3) t c by (auto simp: alert_json_def omit_empty_def alert_utf8_def)
qed

lemma alerts_ok:
  "time_laws tc \<Longrightarrow> list_all alert_utf8 as \<Longrightarrow> alerts_json tc as = Some vs \<Longrightarrow> list_all (wire_ok (Suc n)) vs"
  by (induction as arbitrary: vs) (auto simp: alert_ok split: option.splits)

lemma body_ok:
  assumes tc: "time_laws tc" and u: "body_utf8 b" and v: "body_json tc b = Some v"
  shows "wire_ok (Suc (Suc (Suc n))) v"
proof (cases b)
  case (BScreen r)
  then show ?thesis using u v response_ok [of r "Suc (Suc n)"] by simp
next
  case (BAlert a)
  then show ?thesis using u v alert_ok [OF tc] by simp
next
  case (BAlerts as)
  then show ?thesis using u v alerts_ok [OF tc, of "items as" _ n] by (cases as) auto
next
  case (BError code msg rid)
  then show ?thesis using u v by (auto simp: omit_empty_def)
qed (use u v in auto)

lemma wire_parses:
  assumes "time_laws tc" and "body_utf8 b" and "body_json tc b = Some v"
  shows "parse_json (wire_text tc b) = Some v"
proof -
  have "maxNestingDepth = Suc (Suc (Suc 9997))" by simp
  then have "wire_ok maxNestingDepth v" using body_ok [OF assms] by metis
  then show ?thesis using assms(3) by (simp add: wire_text_def parse_encode)
qed

lemma response_decoded:
  assumes "body_utf8 (BScreen r)" and "time_laws tc"
  shows "unmarshal_response (wire_text tc (BScreen r)) = Inr r"
proof -
  have p: "parse_json (wire_text tc (BScreen r)) = Some (response_json r)"
    by (rule wire_parses [OF assms(2,1)]) simp
  have n: "Atoi (Itoa (rp_RiskScore r)) = Some (rp_RiskScore r)" using assms(1) by (simp add: Atoi_Itoa)
  show ?thesis unfolding unmarshal_response_def unmarshal_def p response_json_def
    by (simp add: n omit_empty_def response_fields_def response_setter_def set_str_def set_int_def set_bool_def)
qed

lemma alert_decoded:
  assumes "alert_utf8 a" and tc: "time_laws tc" and "alert_json tc a = Some v"
  shows "unmarshal_alert tc (wire_text tc (BAlert a)) = Inr a"
proof -
  obtain created closed where t: "tc_format tc (al_CreatedAt a) = Some created" "closed_json tc (al_ClosedAt a) = Some closed"
    "v = JObj ([(''id'', JStr (al_ID a))] @ omit_empty ''screen_id'' (al_ScreenID a)
       @ [(''tx_id'', JStr (al_TxID a)), (''address'', JStr (al_Address a)), (''chain'', JStr (al_Chain a)),
          (''exposure'', JStr (al_Exposure a)), (''severity'', JStr (al_Severity a)), (''status'', JStr (al_Status a))]
       @ omit_empty ''assignee'' (al_Assignee a) @ [(''created_at'', JStr created)] @ closed)"
    using assms(3) by (auto simp: alert_json_def split: option.splits)
  have p: "parse_json (wire_text tc (BAlert a)) = Some v"
    by (rule wire_parses [OF tc]) (simp_all add: assms(1,3))
  have c: "tc_parse tc created = Some (al_CreatedAt a)" using tc t(1) by (simp add: time_laws_def)
  show ?thesis
  proof (cases "al_ClosedAt a")
    case None
    then show ?thesis unfolding unmarshal_alert_def unmarshal_def p t(3) using t(2)
      by (simp add: c closed_json_def omit_empty_def alert_fields_def alert_setter_def set_str_def set_time_def)
  next
    case (Some u)
    then obtain s where s: "tc_format tc u = Some s" "closed = [(''closed_at'', JStr s)]"
      using t(2) by (auto simp: closed_json_def)
    then have "tc_parse tc s = Some u" using tc by (simp add: time_laws_def)
    then show ?thesis unfolding unmarshal_alert_def unmarshal_def p t(3) s(2)
      by (simp add: c Some omit_empty_def alert_fields_def alert_setter_def set_str_def set_time_def)
  qed
qed

text \<open>
  C9: What the API writes is what a client reads.  Every body that can be encoded is well-formed JSON of its
  value, whatever UTF-8 texts it holds, and a client that decodes the body of a screen, or of an alert, into
  the struct has the answer of the service: the score, the cache flag, the fields that are left out when
  they are empty, the times.
\<close>

theorem wire_answers_decode:
  assumes "time_laws tc" and "body_utf8 b" and "body_json tc b = Some v"
  shows "parse_json (wire_text tc b) = Some v
    \<and> (case b of BScreen r \<Rightarrow> unmarshal_response (wire_text tc b) = Inr r
         | BAlert a \<Rightarrow> unmarshal_alert tc (wire_text tc b) = Inr a | _ \<Rightarrow> True)"
  using wire_parses [OF assms] response_decoded [OF _ assms(1)] alert_decoded [OF _ assms(1)] assms(2,3)
  by (cases b) (simp_all del: body_utf8.simps(1))

definition demo_response :: Response where
  "demo_response = \<lparr>rp_ScreenID = ''a'', rp_RiskScore = 95, rp_Exposure = ''SANCTIONED'', rp_Decision = ''BLOCK'',
     rp_Vendor = '''', rp_CacheHit = True\<rparr>"

theorem wire_answers_decode_witness:
  "unmarshal_response (wire_text demo_codec (BScreen demo_response)) = Inr demo_response"
proof -
  have "body_utf8 (BScreen demo_response)" by (simp add: demo_response_def ascii_utf8 is_ascii_def)
  from wire_answers_decode [OF demo_time_laws this] show ?thesis by simp
qed

text \<open>
  The one answer that depends on the store: without alerts a listing is an empty array over the in-memory
  store and \<open>null\<close> over the table.
\<close>

lemma empty_listing:
  "body_json tc (BAlerts None) = Some (JObj [(''alerts'', JNull)])"
  "body_json tc (BAlerts (Some [])) = Some (JObj [(''alerts'', JArr [])])"
  by simp_all

end
