(* ===== verification/Spec2Isabelle.thy ===== *)
theory Spec2Isabelle
  imports Tracing Alert_Race Screen_Race Audit_Trail Wiring Migrate Audit_Worker Pg_System Wire
begin

text \<open>
  A verification library for the AML / KYT screening service (Go).

  \<^bold>\<open>The program.\<close>  The service decides, before a transaction is broadcast, whether a flow to an address is
  allowed.  A request (\<open>POST /v1/kyt/screen\<close> or gRPC \<open>Screen\<close>) is validated, answered from the address
  cache if it can be, else scored by a vendor behind a circuit breaker and a store of earlier responses; the
  decision follows from the exposure, a vendor failure gives \<open>MANUAL_REVIEW\<close>.  Every answered screen leaves
  a row, an alert unless it is allowed, and an audit event that a worker delivers to a sink.  Vendors
  announce re-classified addresses by signed webhooks, which clear the cache, open an alert and start a
  review of the settled screens.  Stores are in memory, or Postgres and Redis.

  \<^bold>\<open>How it is modelled.\<close>  Structs are records, enumerations datatypes, interfaces records of operations (a
  nil interface is \<open>None\<close>), and each function is a HOL function that takes the state it works on and
  returns it changed.  A Go \<open>error\<close> is a value of \<open>go_error\<close>; \<open>(T, error)\<close> is \<open>go_error + T\<close>.  Strings are
  byte strings, \<open>int\<close> and \<open>int64\<close> are integers wrapped to 64 bits where the code can overflow them.  The
  clock and the source of identifiers are two sequences in the record \<open>world\<close>, which a call passes on; that
  the clock never goes back and that identifiers are new are hypotheses where they are used.  A method that
  holds a mutex is one step; where the code takes several steps without one, or in another goroutine, the
  steps are those of an inductive relation and every interleaving of them is covered.

  \<^bold>\<open>Shared theories.\<close>
  \<^item> \<open>Kyt_Prelude\<close>: collections of lemmas, integers, times, errors, the world.
  \<^item> \<open>Go_Strings\<close>, \<open>Go_Json\<close>, \<open>Go_Crypto\<close>: what the code uses of \<open>strings\<close>, \<open>strconv\<close>, \<open>os\<close>,
    \<open>encoding/json\<close>, \<open>crypto/hmac\<close>, \<open>crypto/sha256\<close> and \<open>encoding/hex\<close>.  Evaluated with the integers of the
    target language, the model gives the published digests; the JSON reader inverts the writer on values
    with UTF-8 texts and integers (\<open>Wire\<close>).
  \<^item> \<open>Sql\<close> and \<open>Schema\<close>: the statements of the code as data, the tables of the migrations, the locale \<open>sql_db\<close> with
    the laws of a database, its instance \<open>kyt_db\<close> for these tables, and an engine that satisfies them.

  \<^bold>\<open>Components\<close>, each with its operations, its invariant and its lemmas.
  \<^item> \<open>Decision\<close> (\<open>internal/decision\<close>): thresholds, their overrides per chain and from the environment, exposure
    of a score, decision.  The decision is monotone in the score; a reload takes the last valid override.
  \<^item> \<open>Vendor\<close>, \<open>Circuit\<close>, \<open>Idempotent\<close>, \<open>Http_Provider\<close> (\<open>internal/vendor\<close>): configuration, breaker, response store,
    mock and HTTP provider with the encodings of the two vendors.  The breaker counts consecutive failures,
    an open one lets nothing through, a retry is answered from the store.
  \<^item> \<open>Cache\<close> (\<open>internal/screen/memory_cache.go\<close>): a verdict is served until exactly its time to live.
  \<^item> \<open>Alert\<close>, \<open>Alert_Race\<close> (\<open>internal/alert\<close>): the alert service over any store of the locale \<open>alert_store\<close>, and
    what two analysts at the same alert can do to each other.
  \<^item> \<open>Audit_Events\<close>, \<open>Audit_Worker\<close>, \<open>Kafka_Sink\<close>, \<open>Db_Sink\<close> (\<open>internal/audit\<close>): the bounded queue, the worker, closing,
    and the memory, JSON, Kafka and database sinks as logs in the sense of the locale \<open>audit_log\<close>; \<open>Audit_Trail\<close>
    joins the worker with the screen path.
  \<^item> \<open>Metrics\<close> (\<open>internal/metrics\<close>): the counters and the text of \<open>/metrics\<close>, which can be read back.
  \<^item> \<open>Screen\<close> (\<open>internal/screen/screen.go\<close>): the screen path over any cache, provider and stores that keep their
    contracts (locale \<open>screen_path\<close>), and the in-memory screen store.  \<open>Screen_Race\<close> splits a screen at the vendor
    call and lets a re-classification of its address pass in between.
  \<^item> \<open>Review\<close>, \<open>Webhook\<close> (\<open>internal/review\<close>, \<open>internal/webhook\<close>): the signature, the deliveries and the reviews they
    start, in any interleaving (\<open>hook_run\<close>).
  \<^item> \<open>Api\<close>, \<open>Grpc\<close>, \<open>Endpoints\<close>, \<open>Tracing\<close> (\<open>internal/api\<close>, \<open>internal/grpcserver\<close>, \<open>internal/tracing\<close>): requests, routes,
    handlers and errors of the two surfaces, what each endpoint answers, the tracer provider, the trace
    middleware and the interceptor.
  \<^item> \<open>Wire\<close> (\<open>internal/api\<close>): the JSON text of every response and what its clients read from it.
  \<^item> \<open>Store_Config\<close>, \<open>Pg_Alert\<close>, \<open>Pg_Screen\<close>, \<open>Pg_Cache\<close>, \<open>Redis_Cache\<close>, \<open>Migrate\<close> (\<open>internal/store\<close>, \<open>cmd/migrate\<close>):
    the persistent stores against the in-memory ones, the caches, the migrations.
  \<^item> \<open>Wiring\<close> (\<open>cmd/kyt\<close>): what is built from the environment, which resources are held, the shutdown.
  \<^item> \<open>Service_Run\<close>: any sequence of REST, gRPC, webhook and review calls on one state.
  \<^item> \<open>Pg_Service\<close>, \<open>Pg_Run\<close>, \<open>Pg_Engine\<close>, \<open>Pg_System\<close>: the same service with both stores in one PostgreSQL database, its
    foreign key and what it does with amounts and times included (locale \<open>kyt_service_db\<close>), against the
    in-memory service: first what each store operation does to both sides, then each handler, then runs; a
    database that obeys the laws (\<open>checked_db\<close>), with the UUIDs, amounts and microseconds of PostgreSQL; what
    follows for the tables.

  \<^bold>\<open>What is proved.\<close>  For the running service: every stored screen that was not allowed has an alert of its
  flow, nothing is allowed without a clean exposure, records are never lost or reopened by calls that do not
  overlap.  For the endpoints over the in-memory stores: answer and effect in every case.  For the stores:
  one database behind the whole service refines the in-memory ones, and the Postgres cache never serves.
  For the webhook path: signatures, at most one acceptance per event, coverage by the review.  For the audit
  path: one event per answered screen unless a drop is counted, conservation and order of events, termination of the worker, what closing
  abandons.  For the life of the process: migrations are applied once and in order, a boot
  that returns an error has released what it opened (one that ends in \<open>log.Fatalf\<close> has not), a clean-up
  releases everything, and the order in which this happens.
  Several theorems state what the code does where that is not what it means to do: a failed or
  overlapping operation that loses a delivery, reopens an alert or brings a stale verdict back, a
  stored TRM answer that loses its score, a webhook secret that is not set, a blank field that is answered as a server error, an amount that the table refuses after
  the vendor was asked, a cache table that refuses every row.

  \<^bold>\<open>Parameters and hypotheses.\<close>  Code that is not part of the repository is an argument: the vendor's network
  (\<open>roundtrip\<close>), the Postgres and Redis clients with their documented laws (\<open>sql_db\<close>, \<open>redis_client\<close>), the
  connection of a migration (\<open>migration_db\<close>), the Kafka writer, \<open>time.ParseDuration\<close>, the case mapping of Unicode,
  the JSON form of a time and of an audit event, the exporter of spans, the order in which a Go map is
  traversed.  Each law has a model in the library (an engine, a client, a log), so none is vacuous.

  \<^bold>\<open>The database.\<close>  The laws of \<open>sql_db\<close> tell apart what the server refuses and what it takes.  A text that is not
  UTF-8 without NUL is refused (\<open>22021\<close>), a text that is no UUID is refused in a UUID column (\<open>22P02\<close>), and a
  refused statement changes nothing; any other error, such as the deadline of the caller, leaves it open
  whether an \<open>INSERT\<close> was carried out.  The laws say what happens to parameters in range (\<open>sendable\<close>), ids in
  their canonical form (\<open>canon\<close>) and rows that \<open>fit\<close> their table: those that meet its constraints and come
  back as they were stored.  \<open>kyt_service_db\<close> adds what comes back of the others: \<open>numeric s\<close> is the text that
  a \<open>NUMERIC(20, 8)\<close> gives back for \<open>s\<close>, if it takes it, and \<open>micro t\<close> is the time that a \<open>TIMESTAMPTZ\<close> gives back,
  so the clock may have any resolution.  The service over PostgreSQL is compared with the in-memory one on
  runs after whose every call the in-memory stores hold what PostgreSQL can store (\<open>run_storable\<close>).
  Identifiers never repeat; only those that are drawn in the run have to be UUIDs.

  \<^bold>\<open>Bounds.\<close>  No definition runs on fuel: loops are structural recursions, and the lexer and the block
  splitting of SHA-256 terminate by the length of their input.  The queue of the emitter is bounded by its
  capacity, the number of steps of the worker by the events that are queued and in flight.

  \<^bold>\<open>Not modelled.\<close>  The generated code under \<open>internal/pb\<close>; sockets, signals, and the timeouts of a screen, a
  review and a shutdown; trace headers and the spans of the screen and of the vendor call; log output; the branches of \<open>KafkaSink\<close> for a missing writer, which no constructor
  produces; overrides of the clock that only tests use.  Requests are interleaved at the
  level of alerts, deliveries, reviews and audit events; a screen is one step, or two around its vendor call.
  Over one database calls come one after the other, and the cache table, which no other store touches, is a
  state of its own.
\<close>

end
